(* ===== verification/Prelude.thy ===== *)
theory Prelude
  imports Main "HOL-Library.Word" "HOL-Library.Char_ord" "HOL-Library.List_Lexorder"
    "HOL-Library.Signed_Division"
begin

text \<open>
  The shared vocabulary of the development: the machine integers and byte strings of
  the Go sources, results and state-changing actions (errors and panics are values),
  and the state a keeper's methods run on.
\<close>

section \<open>Proof automation\<close>

named_theorems act_simps \<open>when an action returns Ok, and in which state\<close>
named_theorems keeps_intros \<open>actions that do not change a part of the state\<close>
named_theorems err_defs \<open>definitions of the registered errors\<close>

section \<open>Types of the sources\<close>

type_synonym u64 = "64 word"
type_synonym i64 = "64 word"
type_synonym bytes = "char list"

section \<open>Integer division by a positive number\<close>

lemma div_mult_le: "0 < b \<Longrightarrow> a div b * b \<le> (a :: int)"
  using pos_mod_sign [of b a] div_mult_mod_eq [of a b] by linarith

lemma lt_div_succ_mult: "0 < b \<Longrightarrow> (a :: int) < (a div b + 1) * b"
  using pos_mod_bound [of b a] div_mult_mod_eq [of a b] unfolding distrib_right by linarith

lemma le_divI: "0 < b \<Longrightarrow> c * b \<le> a \<Longrightarrow> c \<le> a div (b :: int)"
  by (metis less_irrefl nonzero_mult_div_cancel_right zdiv_mono1)

lemma div_lessI: "0 < b \<Longrightarrow> a < c * b \<Longrightarrow> a div b < (c :: int)"
  by (smt (verit) div_mult_le mult_le_cancel_right)

lemma word_less_succ: "w + 1 \<noteq> 0 \<Longrightarrow> w < w + (1 :: 'a::len word)"
  using inc_less_eq_triv_imp [of w] by (cases "w + 1 \<le> w") auto

section \<open>Errors, panics and results\<close>

text \<open>
  An error registered with errorsmod.Register is identified by its codespace and its
  code, which errorsmod.Wrap keeps; an error variable of a library is known by its
  name, and one made with fmt.Errorf or errors.New by its text only. A panic is not an error value: callers that inspect a
  returned error do not see it.
\<close>

datatype err = RegErr string nat | SdkErr string | PlainErr string

datatype 'a res = Ok 'a | Err err | Panic string

fun rbind :: "'a res \<Rightarrow> ('a \<Rightarrow> 'b res) \<Rightarrow> 'b res" where
  "rbind (Ok x) f = f x"
| "rbind (Err e) f = Err e"
| "rbind (Panic p) f = Panic p"

lemma rbind_Ok_iff [simp]: "rbind r f = Ok y \<longleftrightarrow> (\<exists>x. r = Ok x \<and> f x = Ok y)"
  by (cases r) auto

lemma rbind_Panic_iff: "rbind r f = Panic p \<longleftrightarrow> r = Panic p \<or> (\<exists>x. r = Ok x \<and> f x = Panic p)"
  by (cases r) auto

text \<open>A library call that may panic, as a result.\<close>

definition must :: "string \<Rightarrow> 'a option \<Rightarrow> 'a res" where
  "must p r = (case r of None \<Rightarrow> Panic p | Some x \<Rightarrow> Ok x)"

lemma must_Ok_iff [simp]: "must p r = Ok x \<longleftrightarrow> r = Some x"
  by (simp add: must_def split: option.split)

lemma must_not_Err [simp]: "must p r \<noteq> Err e"
  by (simp add: must_def split: option.split)

section \<open>Actions\<close>

text \<open>
  A keeper method that may fail takes the state and returns a result together with the
  state it leaves behind: what was written before an error stays written, as in the
  Go context, until the caller discards it.
\<close>

type_synonym ('s, 'a) act = "'s \<Rightarrow> 'a res \<times> 's"

definition ret :: "'a \<Rightarrow> ('s, 'a) act" where
  "ret x s = (Ok x, s)"

definition raise :: "err \<Rightarrow> ('s, 'a) act" where
  "raise e s = (Err e, s)"

definition panic :: "string \<Rightarrow> ('s, 'a) act" where
  "panic p s = (Panic p, s)"

definition bnd :: "('s, 'a) act \<Rightarrow> ('a \<Rightarrow> ('s, 'b) act) \<Rightarrow> ('s, 'b) act" where
  "bnd m f s =
     (case m s of (r, s1) \<Rightarrow>
       (case r of Ok x \<Rightarrow> f x s1 | Err e \<Rightarrow> (Err e, s1) | Panic p \<Rightarrow> (Panic p, s1)))"

definition lift :: "'a res \<Rightarrow> ('s, 'a) act" where
  "lift r s = (r, s)"

definition gets :: "('s \<Rightarrow> 'a) \<Rightarrow> ('s, 'a) act" where
  "gets f s = (Ok (f s), s)"

definition modify :: "('s \<Rightarrow> 's) \<Rightarrow> ('s, unit) act" where
  "modify f s = (Ok (), f s)"

text \<open>
  The result of a call whose error the caller looks at instead of returning it; a
  panic still unwinds.
\<close>

definition attempt :: "('s, 'a) act \<Rightarrow> ('s, err + 'a) act" where
  "attempt m s =
     (case m s of (r, s1) \<Rightarrow>
       (case r of Ok x \<Rightarrow> (Ok (Inr x), s1) | Err e \<Rightarrow> (Ok (Inl e), s1) | Panic p \<Rightarrow> (Panic p, s1)))"

text \<open>errorsmod.Wrap of another error: the failure of a call becomes this one.\<close>

definition wrapped :: "err \<Rightarrow> ('s, 'a) act \<Rightarrow> ('s, 'a) act" where
  "wrapped e m s = (case m s of (r, s1) \<Rightarrow> (case r of Err e' \<Rightarrow> (Err e, s1) | _ \<Rightarrow> (r, s1)))"

text \<open>
  Running an action on a part of a larger state, and on a copy of the state that is
  written back only on success (a cached context, and a transaction).
\<close>

definition zoom :: "('t \<Rightarrow> 's) \<Rightarrow> ('s \<Rightarrow> 't \<Rightarrow> 't) \<Rightarrow> ('s, 'a) act \<Rightarrow> ('t, 'a) act" where
  "zoom get_part put_part m t = (case m (get_part t) of (r, s1) \<Rightarrow> (r, put_part s1 t))"

definition cached :: "('s, 'a) act \<Rightarrow> ('s, 'a) act" where
  "cached m s =
     (case m s of (r, s1) \<Rightarrow> (case r of Ok x \<Rightarrow> (Ok x, s1) | Err e \<Rightarrow> (Err e, s) | Panic p \<Rightarrow> (Panic p, s)))"

fun for_each :: "('a \<Rightarrow> ('s, unit) act) \<Rightarrow> 'a list \<Rightarrow> ('s, unit) act" where
  "for_each f [] = ret ()"
| "for_each f (x # xs) = bnd (f x) (\<lambda>_. for_each f xs)"

lemma ret_Ok_iff [simp, act_simps]: "ret x s = (Ok y, t) \<longleftrightarrow> y = x \<and> t = s"
  by (auto simp: ret_def)

lemma raise_Ok_iff [simp, act_simps]: "raise e s = (Ok y, t) \<longleftrightarrow> False"
  by (simp add: raise_def)

lemma panic_Ok_iff [simp, act_simps]: "panic p s = (Ok y, t) \<longleftrightarrow> False"
  by (simp add: panic_def)

lemma bnd_Ok_iff [simp, act_simps]:
  "bnd m f s = (Ok y, t) \<longleftrightarrow> (\<exists>x u. m s = (Ok x, u) \<and> f x u = (Ok y, t))"
  by (auto simp: bnd_def split: prod.splits res.splits)

lemma bnd_Err_iff: "bnd m f s = (Err e, t) \<longleftrightarrow> m s = (Err e, t) \<or> (\<exists>x u. m s = (Ok x, u) \<and> f x u = (Err e, t))"
  by (auto simp: bnd_def split: prod.splits res.splits)

lemma lift_Ok_iff [simp, act_simps]: "lift r s = (Ok y, t) \<longleftrightarrow> r = Ok y \<and> t = s"
  by (auto simp: lift_def)

lemma gets_Ok_iff [simp, act_simps]: "gets f s = (Ok y, t) \<longleftrightarrow> y = f s \<and> t = s"
  by (auto simp: gets_def)

lemma modify_Ok_iff [simp, act_simps]: "modify f s = (Ok y, t) \<longleftrightarrow> t = f s"
  by (auto simp: modify_def)

lemma cached_Ok_iff [simp, act_simps]: "cached m s = (Ok y, t) \<longleftrightarrow> m s = (Ok y, t)"
  by (auto simp: cached_def split: prod.splits res.splits)

lemma zoom_Ok_iff [act_simps]:
  "zoom g p m s = (Ok y, t) \<longleftrightarrow> (\<exists>u. m (g s) = (Ok y, u) \<and> t = p u s)"
  by (auto simp: zoom_def split: prod.splits)

lemma attempt_Ok_iff [act_simps]:
  "attempt m s = (Ok y, t) \<longleftrightarrow>
     (\<exists>x. y = Inr x \<and> m s = (Ok x, t)) \<or> (\<exists>e. y = Inl e \<and> m s = (Err e, t))"
  by (auto simp: attempt_def split: prod.splits res.splits)

lemma cached_fail: "fst (cached m s) \<noteq> Ok x \<Longrightarrow> (\<And>y. fst (m s) \<noteq> Ok y) \<Longrightarrow> snd (cached m s) = s"
  by (auto simp: cached_def split: prod.splits res.splits)

lemma wrapped_Ok_iff [simp, act_simps]: "wrapped e m s = (Ok y, t) \<longleftrightarrow> m s = (Ok y, t)"
  by (auto simp: wrapped_def split: prod.splits res.splits)

lemma if_act_Ok_iff [act_simps]:
  "(if b then m else n) s = (Ok y, t) \<longleftrightarrow> (b \<and> m s = (Ok y, t)) \<or> (\<not> b \<and> n s = (Ok y, t))"
  by simp

lemma pair_Ok_snd: "fst p = Ok x \<Longrightarrow> p = (Ok x, snd p)"
  by (cases p) simp

lemma for_each_append: "for_each f (xs @ ys) s = bnd (for_each f xs) (\<lambda>_. for_each f ys) s"
  by (induction xs arbitrary: s) (auto simp: bnd_def ret_def split: prod.splits res.splits)

text \<open>A loop keeps what each of its iterations keeps.\<close>

lemma for_each_keeps:
  assumes "for_each f xs s = (r, t)" and "P s"
    and "\<And>x u r v. x \<in> set xs \<Longrightarrow> P u \<Longrightarrow> f x u = (r, v) \<Longrightarrow> P v"
  shows "P t"
  using assms
proof (induction xs arbitrary: s)
  case Nil
  then show ?case by (simp add: ret_def)
next
  case (Cons x xs)
  obtain q u where fx: "f x s = (q, u)" by (cases "f x s")
  then have "P u" using Cons.prems by auto
  show ?case
  proof (cases q)
    case (Ok v)
    then have "for_each f xs u = (r, t)"
      using Cons.prems(1) fx by (simp add: bnd_def)
    then show ?thesis
      using Cons.IH [OF _ \<open>P u\<close>] Cons.prems(3) by auto
  qed (use Cons.prems(1) fx \<open>P u\<close> in \<open>auto simp: bnd_def\<close>)
qed

text \<open>An action that fails without having written anything.\<close>

definition refuses :: "('s, 'a) act \<Rightarrow> 's \<Rightarrow> bool" where
  "refuses m s \<longleftrightarrow> (\<forall>x. fst (m s) \<noteq> Ok x) \<and> snd (m s) = s"

lemma refuses_raise [simp]: "refuses (raise e) s"
  by (simp add: refuses_def raise_def)

lemma refuses_panic [simp]: "refuses (panic p) s"
  by (simp add: refuses_def panic_def)

lemma refuses_lift [simp]: "refuses (lift r) s \<longleftrightarrow> (\<forall>x. r \<noteq> Ok x)"
  by (simp add: refuses_def lift_def)

lemma refuses_bnd_lift [simp]: "refuses (bnd (lift r) f) s \<longleftrightarrow> (\<forall>x. r = Ok x \<longrightarrow> refuses (f x) s)"
  by (cases r) (auto simp: refuses_def bnd_def lift_def)

text \<open>An action that leaves a part of the state alone, whether it succeeds or not.\<close>

definition keeps :: "('s \<Rightarrow> 'p) \<Rightarrow> ('s, 'a) act \<Rightarrow> bool" where
  "keeps f m \<longleftrightarrow> (\<forall>s. f (snd (m s)) = f s)"

lemma keepsD: "keeps f m \<Longrightarrow> m s = (r, t) \<Longrightarrow> f t = f s"
  unfolding keeps_def by (metis snd_conv)

lemma keeps_wrapped [keeps_intros]: "keeps f m \<Longrightarrow> keeps f (wrapped e m)"
  unfolding keeps_def wrapped_def by (auto split: prod.split res.split) (metis snd_conv)+

lemma keeps_basic [keeps_intros]: "keeps f (ret x)" "keeps f (raise e)" "keeps f (panic p)" "keeps f (lift r)"
  "keeps f (gets g)"
  by (simp_all add: keeps_def ret_def raise_def panic_def lift_def gets_def)

lemma keeps_bnd [keeps_intros]: "keeps f m \<Longrightarrow> (\<And>x. keeps f (g x)) \<Longrightarrow> keeps f (bnd m g)"
  unfolding keeps_def bnd_def by (auto split: prod.splits res.splits) (metis snd_conv)+

lemma keeps_attempt [keeps_intros]: "keeps f m \<Longrightarrow> keeps f (attempt m)"
  unfolding keeps_def attempt_def by (auto split: prod.splits res.splits) (metis snd_conv)+

lemma keeps_if [keeps_intros]: "(b \<Longrightarrow> keeps f m) \<Longrightarrow> (\<not> b \<Longrightarrow> keeps f n) \<Longrightarrow> keeps f (if b then m else n)"
  by simp

lemma keeps_for_each [keeps_intros]: "(\<And>x. keeps f (g x)) \<Longrightarrow> keeps f (for_each g xs)"
  by (induction xs) (auto intro: keeps_intros)

lemma keeps_modify: "(\<And>s. f (g s) = f s) \<Longrightarrow> keeps f (modify g)"
  by (simp add: keeps_def modify_def)

section \<open>The state of a keeper\<close>

text \<open>
  A module owns one store; everything else a handler can reach (balances, accounts,
  the EVM) is the state of other modules, whose code is not in the repository.
\<close>

record ('m, 'x) kstate =
  kown :: 'm
  kext :: 'x

definition on_ext :: "('x, 'a) act \<Rightarrow> (('m, 'x) kstate, 'a) act" where
  "on_ext m s = (case m (kext s) of (r, x) \<Rightarrow> (r, s\<lparr>kext := x\<rparr>))"

lemma on_ext_Ok_iff [simp, act_simps]:
  "on_ext m s = (Ok y, t) \<longleftrightarrow> (\<exists>x. m (kext s) = (Ok y, x) \<and> t = s\<lparr>kext := x\<rparr>)"
  by (auto simp: on_ext_def split: prod.splits)

lemma keeps_on_ext [keeps_intros]: "keeps kown (on_ext m)"
  by (simp add: keeps_def on_ext_def split: prod.split)

text \<open>
  The block the handler runs in: header time in nanoseconds since the Unix epoch. An
  instant made by time.Unix(sec, 0) counts seconds from the year 1 in an int64, so the
  shift of the origin wraps around.
\<close>

definition time_Unix :: "i64 \<Rightarrow> int" where
  "time_Unix sec = (sint (sec + 62135596800) - 62135596800) * 10 ^ 9"

record block_ctx =
  BlockTime :: int
  BlockHeight :: i64

end
