(* ===== verification/Gostrings.thy ===== *)
theory Gostrings
  imports Prelude
begin

text \<open>
  The functions of Go's strings, strconv and fmt packages the modules use, on byte
  strings: prefix tests, splitting at a separator, trimming white space, decimal
  printing and parsing.
\<close>

section \<open>Prefixes, splitting, searching\<close>

definition HasPrefix :: "string \<Rightarrow> string \<Rightarrow> bool" where
  "HasPrefix s p = (take (length p) s = p)"

lemma HasPrefix_append [simp]: "HasPrefix (p @ s) p"
  by (simp add: HasPrefix_def)

lemma HasPrefix_iff: "HasPrefix s p \<longleftrightarrow> (\<exists>t. s = p @ t)"
  by (metis HasPrefix_append HasPrefix_def append_take_drop_id)

fun Contains :: "string \<Rightarrow> string \<Rightarrow> bool" where
  "Contains [] p = (p = [])"
| "Contains (c # s) p = (HasPrefix (c # s) p \<or> Contains s p)"

lemma Contains_iff: "Contains s p \<longleftrightarrow> (\<exists>u t. s = u @ p @ t)"
proof (induction s)
  case (Cons c s)
  have "(\<exists>u t. c # s = u @ p @ t) \<longleftrightarrow> (\<exists>t. c # s = p @ t) \<or> (\<exists>u t. s = u @ p @ t)"
    by (metis append_Cons append_Nil list.exhaust list.inject)
  then show ?case using Cons by (simp add: HasPrefix_iff)
qed auto

text \<open>strings.Split and strings.SplitN(_, _, 2), for a separator of one byte.\<close>

fun Split :: "char \<Rightarrow> string \<Rightarrow> string list" where
  "Split c [] = [[]]"
| "Split c (x # s) = (if x = c then [] # Split c s
     else (case Split c s of [] \<Rightarrow> [[x]] | w # ws \<Rightarrow> (x # w) # ws))"

fun SplitN2 :: "char \<Rightarrow> string \<Rightarrow> string list" where
  "SplitN2 c [] = [[]]"
| "SplitN2 c (x # s) = (if x = c then [[], s]
     else (case SplitN2 c s of [] \<Rightarrow> [[x]] | w # ws \<Rightarrow> (x # w) # ws))"

lemma Split_plain: "c \<notin> set s \<Longrightarrow> Split c s = [s]"
  by (induction s) auto

lemma Split_append: "c \<notin> set s \<Longrightarrow> Split c (s @ c # t) = s # Split c t"
  by (induction s) auto

lemma SplitN2_plain: "c \<notin> set s \<Longrightarrow> SplitN2 c s = [s]"
  by (induction s) auto

lemma SplitN2_append: "c \<notin> set s \<Longrightarrow> SplitN2 c (s @ c # t) = [s, t]"
  by (induction s) auto

lemma SplitN2_cases:
  obtains "c \<notin> set s" "SplitN2 c s = [s]"
  | u t where "s = u @ c # t" "c \<notin> set u" "SplitN2 c s = [u, t]"
  by (metis SplitN2_append SplitN2_plain split_list_first)

section \<open>White space\<close>

text \<open>The UTF-8 encodings of the code points with Unicode's White\_Space property.\<close>

definition white_space :: "string list" where
  "white_space = map (map char_of)
     ([[9], [10], [11], [12], [13], [32], [194, 133], [194, 160], [225, 154, 128],
       [226, 128, 168], [226, 128, 169], [226, 128, 175], [226, 129, 159], [227, 128, 128]]
      @ map (\<lambda>i. [226, 128, 128 + i]) [0, 1, 2, 3, 4, 5, 6, 7, 8, 9, 10 :: nat])"

fun strip_first :: "string list \<Rightarrow> string \<Rightarrow> string option" where
  "strip_first [] s = None"
| "strip_first (w # ws) s = (if HasPrefix s w then Some (drop (length w) s) else strip_first ws s)"

fun strip_while :: "nat \<Rightarrow> string list \<Rightarrow> string \<Rightarrow> string" where
  "strip_while 0 ws s = s"
| "strip_while (Suc n) ws s = (case strip_first ws s of None \<Rightarrow> s | Some t \<Rightarrow> strip_while n ws t)"

text \<open>Each round removes at least one byte, so as many rounds as bytes are enough.\<close>

definition TrimSpace :: "string \<Rightarrow> string" where
  "TrimSpace s =
     (let t = strip_while (length s) white_space s
      in rev (strip_while (length t) (map rev white_space) (rev t)))"

lemma strip_first_shorter:
  assumes "strip_first ws s = Some t" and "[] \<notin> set ws"
  shows "length t < length s"
  using assms
proof (induction ws)
  case (Cons w ws)
  then show ?case
    by (cases "HasPrefix s w") (auto simp: HasPrefix_iff)
qed simp

lemma strip_while_done:
  assumes "length s \<le> n" and "[] \<notin> set ws"
  shows "strip_first ws (strip_while n ws s) = None"
  using assms
proof (induction n arbitrary: s)
  case 0
  then have "HasPrefix [] w \<Longrightarrow> w \<in> set ws \<Longrightarrow> False" for w by (auto simp: HasPrefix_iff)
  then have "strip_first vs [] = None" if "set vs \<subseteq> set ws" for vs
    using that by (induction vs) auto
  then show ?case using 0 by simp
next
  case (Suc n)
  then show ?case
    using strip_first_shorter [of ws s] by (fastforce split: option.split)
qed

lemma white_space_nonempty: "[] \<notin> set white_space"
  by (simp add: white_space_def)

lemma strip_while_Nil: "strip_while n white_space [] = []"
  by (cases n) (simp_all add: white_space_def HasPrefix_def)

text \<open>A string that begins and ends with a visible ASCII character is trimmed already.\<close>

definition visible :: "char \<Rightarrow> bool" where
  "visible c = (32 < (of_char c :: nat) \<and> (of_char c :: nat) < 128)"

lemma strip_first_visible:
  assumes "visible c" and "\<forall>w \<in> set ws. w \<noteq> [] \<and> \<not> visible (hd w)"
  shows "strip_first ws (c # s) = None"
  using assms by (induction ws) (auto simp: HasPrefix_iff Cons_eq_append_conv)

lemma strip_while_visible:
  assumes "visible c" and "\<forall>w \<in> set ws. w \<noteq> [] \<and> \<not> visible (hd w)"
  shows "strip_while n ws (c # s) = c # s"
  using strip_first_visible [OF assms] by (cases n) auto

lemma white_space_invisible: "\<forall>w \<in> set white_space. w \<noteq> [] \<and> \<not> visible (hd w) \<and> \<not> visible (last w)"
  by (simp add: white_space_def visible_def of_char_of)

lemma TrimSpace_visible:
  assumes "s \<noteq> []" and "visible (hd s)" and "visible (last s)"
  shows "TrimSpace s = s"
proof -
  have "strip_while n white_space s = s" for n
    using assms(1,2) white_space_invisible strip_while_visible [of "hd s" white_space n "tl s"] by simp
  moreover have "strip_while n (map rev white_space) (rev s) = rev s" for n
    using assms(1,3) white_space_invisible strip_while_visible [of "last s" "map rev white_space" n "rev (butlast s)"]
    by (simp add: hd_rev rev_swap [symmetric]) (metis append_butlast_last_id rev_rev_ident rev.simps(2))
  ultimately show ?thesis by (simp add: TrimSpace_def Let_def)
qed

section \<open>Decimal numbers\<close>

definition digit :: "nat \<Rightarrow> char" where
  "digit d = char_of (48 + int d)"

definition is_digit :: "char \<Rightarrow> bool" where
  "is_digit c = (48 \<le> (of_char c :: int) \<and> (of_char c :: int) \<le> 57)"

definition digit_val :: "char \<Rightarrow> int" where
  "digit_val c = of_char c - 48"

lemma digit_props: "d < 10 \<Longrightarrow> is_digit (digit d) \<and> digit_val (digit d) = int d"
  by (simp add: digit_def is_digit_def digit_val_def of_char_of)

text \<open>The verb \<open>%d\<close> on an unsigned number.\<close>

fun show_nat :: "nat \<Rightarrow> string" where
  "show_nat n = (if n < 10 then [digit n] else show_nat (n div 10) @ [digit (n mod 10)])"

declare show_nat.simps [simp del]

fun digits_value :: "int \<Rightarrow> string \<Rightarrow> int option" where
  "digits_value acc [] = Some acc"
| "digits_value acc (c # s) =
     (if is_digit c then digits_value (acc * 10 + digit_val c) s else None)"

text \<open>strconv.ParseUint(s, 10, 64): digits only, no sign, at most 2 ^ 64 - 1.\<close>

definition ParseUint :: "string \<Rightarrow> u64 res" where
  "ParseUint s =
     (if s = [] then Err (PlainErr ''invalid syntax'')
      else case digits_value 0 s of
        None \<Rightarrow> Err (PlainErr ''invalid syntax'')
      | Some n \<Rightarrow> if n < 2 ^ 64 then Ok (of_int n) else Err (PlainErr ''value out of range''))"

lemma digits_value_append:
  "digits_value acc (s @ t) = (case digits_value acc s of None \<Rightarrow> None | Some n \<Rightarrow> digits_value n t)"
  by (induction s arbitrary: acc) auto

lemma digits_value_show: "digits_value 0 (show_nat n) = Some (int n)"
proof (induction n rule: show_nat.induct)
  case (1 n)
  show ?case
  proof (cases "n < 10")
    case True
    then show ?thesis using digit_props [of n] by (simp add: show_nat.simps [of n])
  next
    case False
    then show ?thesis
      using 1 digit_props [of "n mod 10"] by (simp add: show_nat.simps [of n] digits_value_append zdiv_int zmod_int)
  qed
qed

lemma show_nat_nonempty [simp]: "show_nat n \<noteq> []"
  by (subst show_nat.simps) simp

lemma show_nat_digits: "c \<in> set (show_nat n) \<Longrightarrow> is_digit c"
proof (induction n rule: show_nat.induct)
  case (1 n)
  then show ?case
    using digit_props [of n] digit_props [of "n mod 10"]
    by (auto simp: show_nat.simps [of n] split: if_splits)
qed

lemma show_nat_no_dash: "CHR ''-'' \<notin> set (show_nat n)"
  using show_nat_digits [of "CHR ''-''" n] by (auto simp: is_digit_def)

lemma show_nat_inj: "show_nat m = show_nat n \<longleftrightarrow> m = n"
  by (metis digits_value_show option.inject of_nat_eq_iff)

lemma ParseUint_show: "ParseUint (show_nat (unat w)) = Ok w"
  using unsigned_less [of w, where 'a = int] by (simp add: ParseUint_def digits_value_show)

end
