(* ===== verification/Kvstore.thy ===== *)
theory Kvstore
  imports Prelude
begin

text \<open>
  The key-value store of a module: a finite map whose iterator visits the keys in
  ascending byte order. The locale states what the keepers rely on (what Get returns
  after Set and Delete, and that iteration is ordered); the sorted association list
  below provides it, and the loops over the store (genesis import and export) are
  proved once against the locale.
\<close>

section \<open>The interface\<close>

locale kv_store =
  fixes emp :: "'m"
    and get :: "'m \<Rightarrow> 'k::linorder \<Rightarrow> 'v option"
    and put :: "'k \<Rightarrow> 'v \<Rightarrow> 'm \<Rightarrow> 'm"
    and del :: "'k \<Rightarrow> 'm \<Rightarrow> 'm"
    and entries :: "'m \<Rightarrow> ('k \<times> 'v) list"
    and inv :: "'m \<Rightarrow> bool"
  assumes get_emp: "get emp k = None"
    and get_put: "inv m \<Longrightarrow> get (put k v m) j = (if j = k then Some v else get m j)"
    and get_del: "inv m \<Longrightarrow> get (del k m) j = (if j = k then None else get m j)"
    and get_entries: "inv m \<Longrightarrow> get m k = map_of (entries m) k"
    and entries_sorted: "inv m \<Longrightarrow> sorted_wrt (<) (map fst (entries m))"
    and entries_emp: "entries emp = []"
    and inv_emp: "inv emp"
    and inv_put: "inv m \<Longrightarrow> inv (put k v m)"
    and inv_del: "inv m \<Longrightarrow> inv (del k m)"
    and ext: "inv m \<Longrightarrow> inv n \<Longrightarrow> (\<And>k. get m k = get n k) \<Longrightarrow> m = n"
begin

text \<open>Writing a list of entries in order: the last entry of a key wins.\<close>

definition put_all :: "('a \<Rightarrow> 'k) \<Rightarrow> ('a \<Rightarrow> 'v) \<Rightarrow> 'a list \<Rightarrow> 'm \<Rightarrow> 'm" where
  "put_all key val xs m = fold (\<lambda>x. put (key x) (val x)) xs m"

lemma put_all_simps [simp]:
  "put_all key val [] m = m"
  "put_all key val (x # xs) m = put_all key val xs (put (key x) (val x) m)"
  by (simp_all add: put_all_def)

lemma inv_put_all: "inv m \<Longrightarrow> inv (put_all key val xs m)"
  by (induction xs arbitrary: m) (auto simp: inv_put)

lemma get_put_all_other: "inv m \<Longrightarrow> k \<notin> key ` set xs \<Longrightarrow> get (put_all key val xs m) k = get m k"
  by (induction xs arbitrary: m) (auto simp: inv_put get_put)

lemma get_put_all:
  assumes "inv m" and "distinct (map key xs)" and "x \<in> set xs"
  shows "get (put_all key val xs m) (key x) = Some (val x)"
  using assms
proof (induction xs arbitrary: m)
  case (Cons y ys)
  show ?case
  proof (cases "x = y")
    case True
    then have "key x \<notin> key ` set ys" using Cons.prems(2) by auto
    then show ?thesis using Cons.prems(1) True by (simp add: get_put_all_other inv_put get_put)
  next
    case False
    then show ?thesis using Cons by (simp add: inv_put)
  qed
qed simp

lemma get_put_all_Some:
  assumes "inv m" and "distinct (map key xs)" and "get (put_all key val xs m) k = Some v"
  shows "get m k = Some v \<or> (\<exists>x\<in>set xs. key x = k \<and> val x = v)"
proof (cases "k \<in> key ` set xs")
  case True
  then obtain x where "x \<in> set xs" "k = key x" by auto
  then show ?thesis using assms get_put_all [OF assms(1,2), of x] by auto
next
  case False
  then show ?thesis using assms get_put_all_other by metis
qed

lemma entry_get: "inv m \<Longrightarrow> (k, v) \<in> set (entries m) \<longleftrightarrow> get m k = Some v"
  using entries_sorted [of m] by (simp add: get_entries map_of_eq_Some_iff strict_sorted_iff)

lemma entries_distinct: "inv m \<Longrightarrow> distinct (map fst (entries m))"
  using entries_sorted [of m] strict_sorted_iff by blast

text \<open>
  Importing what was exported gives the store back, whatever key each value is
  written under, as long as it is the key it was read from.
\<close>

lemma import_export:
  assumes "inv m" and "\<And>k v. get m k = Some v \<Longrightarrow> key v = k"
  shows "put_all key (\<lambda>v. v) (map snd (entries m)) emp = m"
proof (rule ext)
  have keys: "map key (map snd (entries m)) = map fst (entries m)"
    using assms by (auto simp: entry_get)
  then have d: "distinct (map key (map snd (entries m)))"
    using entries_distinct [OF assms(1)] by metis
  fix k
  show "get (put_all key (\<lambda>v. v) (map snd (entries m)) emp) k = get m k"
  proof (cases "get m k")
    case None
    then have "k \<notin> fst ` set (entries m)"
      using assms(1) by (simp add: get_entries map_of_eq_None_iff)
    then have "k \<notin> key ` set (map snd (entries m))" using keys by (metis list.set_map)
    then show ?thesis using None by (simp add: get_put_all_other inv_emp get_emp)
  next
    case (Some v)
    then have "v \<in> set (map snd (entries m))" using assms(1) by (force simp: entry_get [symmetric])
    then show ?thesis using get_put_all [OF inv_emp d, of v] Some assms(2) by metis
  qed
qed (simp_all add: assms inv_put_all inv_emp)

text \<open>Writing the entries of a store in any order and grouping gives the store back.\<close>

lemma restore:
  assumes "inv m" and "distinct (map fst es)" and "set es = set (entries m)"
  shows "put_all fst snd es emp = m"
proof (rule ext)
  fix k
  show "get (put_all fst snd es emp) k = get m k"
  proof (cases "get m k")
    case None
    then have "k \<notin> fst ` set es"
      using assms entry_get by fastforce
    then show ?thesis using None by (simp add: get_put_all_other inv_emp get_emp)
  next
    case (Some v)
    then have "(k, v) \<in> set es" using assms by (simp add: entry_get)
    then show ?thesis using get_put_all [OF inv_emp assms(2), of "(k, v)"] Some by simp
  qed
qed (simp_all add: assms inv_put_all inv_emp)

end

section \<open>Sorted association lists\<close>

type_synonym ('k, 'v) kv = "('k \<times> 'v) list"

definition kv_get :: "('k, 'v) kv \<Rightarrow> 'k \<Rightarrow> 'v option" where
  "kv_get m k = map_of m k"

fun kv_set :: "'k::linorder \<Rightarrow> 'v \<Rightarrow> ('k, 'v) kv \<Rightarrow> ('k, 'v) kv" where
  "kv_set k v [] = [(k, v)]"
| "kv_set k v (e # m) =
     (if fst e < k then e # kv_set k v m else if fst e = k then (k, v) # m else (k, v) # e # m)"

fun kv_del :: "'k::linorder \<Rightarrow> ('k, 'v) kv \<Rightarrow> ('k, 'v) kv" where
  "kv_del k [] = []"
| "kv_del k (e # m) = (if fst e = k then m else e # kv_del k m)"

definition kv_ok :: "('k::linorder, 'v) kv \<Rightarrow> bool" where
  "kv_ok m = sorted_wrt (<) (map fst m)"

definition kv_has :: "('k, 'v) kv \<Rightarrow> 'k \<Rightarrow> bool" where
  "kv_has m k = (kv_get m k \<noteq> None)"

lemma fst_set_kv_set: "fst ` set (kv_set k v m) = insert k (fst ` set m)"
  by (induction m) auto

lemma fst_set_kv_del: "fst ` set (kv_del k m) \<subseteq> fst ` set m"
  by (induction m) auto

lemma kv_ok_Cons: "kv_ok (e # m) \<longleftrightarrow> (\<forall>j \<in> fst ` set m. fst e < j) \<and> kv_ok m"
  by (simp add: kv_ok_def)

lemma kv_ok_set: "kv_ok m \<Longrightarrow> kv_ok (kv_set k v m)"
  by (induction m) (auto simp: kv_ok_Cons fst_set_kv_set kv_ok_def [of "[]"])

lemma kv_ok_del: "kv_ok m \<Longrightarrow> kv_ok (kv_del k m)"
proof (induction m)
  case (Cons e m)
  have "\<forall>j \<in> fst ` set m. fst e < j" using Cons.prems by (simp add: kv_ok_Cons)
  then have "\<forall>j \<in> fst ` set (kv_del k m). fst e < j" using fst_set_kv_del by fast
  then show ?case using Cons by (simp add: kv_ok_Cons)
qed (simp add: kv_ok_def)

lemma kv_get_set: "kv_get (kv_set k v m) j = (if j = k then Some v else kv_get m j)"
  by (induction m) (auto simp: kv_get_def)

lemma kv_get_None: "kv_get m k = None \<longleftrightarrow> k \<notin> fst ` set m"
  by (simp add: kv_get_def map_of_eq_None_iff)

lemma kv_get_del: "kv_ok m \<Longrightarrow> kv_get (kv_del k m) j = (if j = k then None else kv_get m j)"
proof (induction m)
  case (Cons e m)
  have "kv_get m (fst e) = None" using Cons.prems by (auto simp: kv_ok_Cons kv_get_None)
  then show ?case using Cons by (cases e) (auto simp: kv_ok_Cons kv_get_def)
qed (simp add: kv_get_def)

lemma kv_eqI:
  assumes "kv_ok m" and "kv_ok n" and "\<And>k. kv_get m k = kv_get n k"
  shows "m = n"
proof -
  have eq: "map_of m = map_of n" using assms(3) by (auto simp: kv_get_def)
  have d: "distinct (map fst m)" "distinct (map fst n)"
    using assms(1,2) strict_sorted_iff by (auto simp: kv_ok_def)
  then have s: "set m = set n" using eq map_of_inject_set by blast
  have k: "map fst m = map fst n"
    using assms(1,2) s by (intro strict_sorted_equal) (auto simp: kv_ok_def)
  show ?thesis
  proof (rule nth_equalityI)
    show len: "length m = length n" using k by (metis length_map)
    fix i assume i: "i < length m"
    then have "fst (m ! i) = fst (n ! i)" using k len by (metis nth_map)
    moreover have "m ! i \<in> set n" using i s nth_mem by blast
    ultimately show "m ! i = n ! i"
      using d(2) i len by (metis eq_key_imp_eq_value nth_mem prod.collapse)
  qed
qed

interpretation kvs: kv_store "[]" kv_get kv_set kv_del "\<lambda>m. m" kv_ok
proof
  show "kv_get [] k = None" for k :: 'a by (simp add: kv_get_def)
  show "kv_ok []" by (simp add: kv_ok_def)
  show "kv_ok m \<Longrightarrow> sorted_wrt (<) (map fst m)" for m :: "('a \<times> 'b) list"
    by (simp add: kv_ok_def)
  show "kv_get m k = map_of m k" for m :: "('a \<times> 'b) list" and k
    by (simp add: kv_get_def)
qed (auto simp: kv_get_set kv_get_del kv_ok_set kv_ok_del intro: kv_eqI)

lemma kv_has_set [simp]: "kv_has (kv_set k v m) j \<longleftrightarrow> j = k \<or> kv_has m j"
  by (simp add: kv_has_def kv_get_set)

end
