(* ===== verification/Sdk.thy ===== *)
theory Sdk
  imports Gostrings Kvstore
begin

text \<open>
  The Cosmos SDK as the modules see it. Its code is not part of the repository, so its
  functions are the fields of a record that every definition using them takes as an
  argument, and what its documentation promises of the stateless functions (checked
  integers, fixed-point decimals, coins, addresses) is the locale \<open>sdk_laws\<close>. A sdkmath.Int is an \<open>int\<close>,
  a LegacyDec is its underlying big integer, the value times \<open>10 ^ 18\<close>.
\<close>

section \<open>Coins\<close>

record coin =
  Denom :: string
  Amount :: int

lemma coin_eta [simp]: "\<lparr>Denom = Denom c, Amount = Amount c\<rparr> = (c :: coin)"
  by (cases c) simp

text \<open>The amount of a denomination in a list of coins.\<close>

definition coins_amt :: "coin list \<Rightarrow> string \<Rightarrow> int" where
  "coins_amt cs d = sum_list (map Amount (filter (\<lambda>c. Denom c = d) cs))"

lemma coins_amt_Nil [simp]: "coins_amt [] d = 0"
  by (simp add: coins_amt_def)

lemma coins_amt_Cons [simp]:
  "coins_amt (c # cs) d = (if Denom c = d then Amount c else 0) + coins_amt cs d"
  by (simp add: coins_amt_def)

lemma coins_amt_append [simp]: "coins_amt (xs @ ys) d = coins_amt xs d + coins_amt ys d"
  by (simp add: coins_amt_def)

lemma coins_amt_filter: "coins_amt (filter (\<lambda>c. Amount c \<noteq> 0) cs) d = coins_amt cs d"
  by (induction cs) auto

lemma coins_amt_insort: "coins_amt (insort_key f c cs) d = coins_amt (c # cs) d"
  by (induction cs) auto

lemma coins_amt_sort: "coins_amt (sort_key f cs) d = coins_amt cs d"
  by (induction cs) (simp_all add: coins_amt_insort)

lemma coins_amt_nonneg: "(\<And>c. c \<in> set cs \<Longrightarrow> 0 \<le> Amount c) \<Longrightarrow> 0 \<le> coins_amt cs d"
  by (induction cs) auto

lemma coins_amt_absent: "d \<notin> Denom ` set cs \<Longrightarrow> coins_amt cs d = 0"
  by (induction cs) auto

section \<open>Numbers\<close>

abbreviation dec_one :: int where
  "dec_one \<equiv> 10 ^ 18"

text \<open>Exact constructors: LegacyNewDecFromInt, LegacyNewDecWithPrec, NewIntWithDecimal.\<close>

definition LegacyNewDecFromInt :: "int \<Rightarrow> int" where
  "LegacyNewDecFromInt i = i * dec_one"

definition LegacyNewDecWithPrec :: "int \<Rightarrow> nat \<Rightarrow> int" where
  "LegacyNewDecWithPrec i prec = i * 10 ^ (18 - prec)"

definition NewIntWithDecimal :: "int \<Rightarrow> nat \<Rightarrow> int" where
  "NewIntWithDecimal n dec = n * 10 ^ dec"

text \<open>Division of a big integer rounds towards zero; on naturals it is Euclidean.\<close>

lemma sdiv_nonneg: "0 \<le> (a :: int) \<Longrightarrow> 0 \<le> b \<Longrightarrow> a sdiv b = a div b"
  by (simp add: signed_divide_int_def sgn_if)

section \<open>The stateless functions\<close>

record sdk_lib =
  IntAdd :: "int \<Rightarrow> int \<Rightarrow> int res"
  IntSub :: "int \<Rightarrow> int \<Rightarrow> int res"
  IntMul :: "int \<Rightarrow> int \<Rightarrow> int res"
  IntQuo :: "int \<Rightarrow> int \<Rightarrow> int res"
  NewIntFromBigInt :: "int \<Rightarrow> int res"
  DecAdd :: "int \<Rightarrow> int \<Rightarrow> int res"
  DecSub :: "int \<Rightarrow> int \<Rightarrow> int res"
  DecMul :: "int \<Rightarrow> int \<Rightarrow> int res"
  DecQuo :: "int \<Rightarrow> int \<Rightarrow> int res"
  DecQuoInt :: "int \<Rightarrow> int \<Rightarrow> int res"
  DecPower :: "int \<Rightarrow> u64 \<Rightarrow> int res"
  DecTruncateInt :: "int \<Rightarrow> int res"
  ValidateDenom :: "string \<Rightarrow> unit res"
  NewCoin :: "string \<Rightarrow> int \<Rightarrow> coin res"
  NewCoins :: "coin list \<Rightarrow> coin list res"
  AmountOf :: "coin list \<Rightarrow> string \<Rightarrow> int res"
  CoinSub :: "coin \<Rightarrow> coin \<Rightarrow> coin res"
  CoinAdd :: "coin \<Rightarrow> coin \<Rightarrow> coin res"
  CoinIsEqual :: "coin \<Rightarrow> coin \<Rightarrow> bool res"
  CoinIsValid :: "coin \<Rightarrow> bool"
  CoinsValidate :: "coin list \<Rightarrow> unit res"
  AccAddressFromBech32 :: "string \<Rightarrow> bytes res"
  AddrString :: "bytes \<Rightarrow> string"
  AddressHash :: "bytes \<Rightarrow> bytes"

text \<open>Valid coins: sorted by denomination without repetition, positive amounts.\<close>

definition valid_coins :: "sdk_lib \<Rightarrow> coin list \<Rightarrow> bool" where
  "valid_coins L cs \<longleftrightarrow> sorted_wrt (<) (map Denom cs) \<and>
     (\<forall>c \<in> set cs. 0 < Amount c \<and> ValidateDenom L (Denom c) = Ok ())"

lemma valid_coins_nonneg: "valid_coins L cs \<Longrightarrow> 0 \<le> coins_amt cs d"
  by (rule coins_amt_nonneg) (auto simp: valid_coins_def)

text \<open>
  What the SDK documents. An Int holds a magnitude below \<open>2 ^ 256\<close> and an operation
  that leaves the range panics; decimal multiplication and division round to the
  eighteenth digit, and do not panic while the result fits in 256 bits. A power of a
  number between 0 and 1 is a chain of multiplications, so it is off by at most half a
  unit in the last digit for each of them.
\<close>

locale sdk_laws =
  fixes L :: sdk_lib
  assumes IntAdd_iff: "IntAdd L a b = Ok c \<longleftrightarrow> c = a + b \<and> \<bar>a + b\<bar> < 2 ^ 256"
    and IntSub_iff: "IntSub L a b = Ok c \<longleftrightarrow> c = a - b \<and> \<bar>a - b\<bar> < 2 ^ 256"
    and IntMul_iff: "IntMul L a b = Ok c \<longleftrightarrow> c = a * b \<and> \<bar>a * b\<bar> < 2 ^ 256"
    and IntQuo_iff: "IntQuo L a b = Ok c \<longleftrightarrow> b \<noteq> 0 \<and> c = a sdiv b"
    and NewIntFromBigInt_iff: "NewIntFromBigInt L a = Ok c \<longleftrightarrow> c = a \<and> \<bar>a\<bar> < 2 ^ 256"
    and DecAdd_ok: "DecAdd L a b = Ok c \<Longrightarrow> c = a + b"
    and DecAdd_total: "\<bar>a + b\<bar> < 2 ^ 256 \<Longrightarrow> \<exists>c. DecAdd L a b = Ok c"
    and DecSub_ok: "DecSub L a b = Ok c \<Longrightarrow> c = a - b"
    and DecSub_total: "\<bar>a - b\<bar> < 2 ^ 256 \<Longrightarrow> \<exists>c. DecSub L a b = Ok c"
    and DecMul_ok: "DecMul L a b = Ok c \<Longrightarrow> \<bar>2 * (c * dec_one - a * b)\<bar> \<le> dec_one"
    and DecMul_total: "\<bar>a * b\<bar> < 2 ^ 256 \<Longrightarrow> \<exists>c. DecMul L a b = Ok c"
    and DecQuo_ok: "DecQuo L a b = Ok c \<Longrightarrow> \<bar>c * b - a * dec_one\<bar> < \<bar>b\<bar>"
    and DecQuo_total: "b \<noteq> 0 \<Longrightarrow> \<bar>a * dec_one\<bar> < 2 ^ 256 \<Longrightarrow> \<exists>c. DecQuo L a b = Ok c"
    and DecQuoInt_iff: "DecQuoInt L a b = Ok c \<longleftrightarrow> b \<noteq> 0 \<and> c = a sdiv b"
    and DecPower_zero: "DecPower L a 0 = Ok dec_one"
    and DecPower_unit: "DecPower L a e = Ok c \<Longrightarrow> 0 \<le> a \<Longrightarrow> a \<le> dec_one \<Longrightarrow> 0 \<le> c \<and> c \<le> dec_one"
    and DecPower_total: "0 \<le> a \<Longrightarrow> a \<le> dec_one \<Longrightarrow> \<exists>c. DecPower L a e = Ok c"
    and DecPower_near: "DecPower L a e = Ok c \<Longrightarrow> 0 \<le> a \<Longrightarrow> a \<le> dec_one \<Longrightarrow>
      2 * \<bar>c * dec_one ^ unat e - a ^ unat e * dec_one\<bar> \<le> int (unat e) * dec_one ^ unat e"
    and DecTruncateInt_ok: "DecTruncateInt L a = Ok c \<Longrightarrow> c = a sdiv dec_one"
    and DecTruncateInt_total: "\<bar>a\<bar> < 2 ^ 256 \<Longrightarrow> \<exists>c. DecTruncateInt L a = Ok c"
    and NewCoin_iff: "NewCoin L d n = Ok q \<longleftrightarrow>
      q = \<lparr>Denom = d, Amount = n\<rparr> \<and> 0 \<le> n \<and> ValidateDenom L d = Ok ()"
    and NewCoins_iff: "NewCoins L cs = Ok ds \<longleftrightarrow>
      ds = sort_key Denom (filter (\<lambda>c. Amount c \<noteq> 0) cs) \<and> valid_coins L ds"
    and AmountOf_iff: "valid_coins L cs \<Longrightarrow>
      AmountOf L cs d = Ok n \<longleftrightarrow> n = coins_amt cs d \<and> ValidateDenom L d = Ok ()"
    and CoinSub_iff: "CoinSub L p q = Ok r \<longleftrightarrow>
      Denom p = Denom q \<and> Amount q \<le> Amount p \<and> r = \<lparr>Denom = Denom p, Amount = Amount p - Amount q\<rparr>"
    and CoinAdd_iff: "CoinAdd L p q = Ok r \<longleftrightarrow>
      Denom p = Denom q \<and> \<bar>Amount p + Amount q\<bar> < 2 ^ 256 \<and> r = \<lparr>Denom = Denom p, Amount = Amount p + Amount q\<rparr>"
    and CoinIsEqual_iff: "Denom p = Denom q \<Longrightarrow> CoinIsEqual L p q = Ok same \<longleftrightarrow> same = (Amount p = Amount q)"
    and CoinIsValid_iff: "CoinIsValid L q \<longleftrightarrow> 0 \<le> Amount q \<and> ValidateDenom L (Denom q) = Ok ()"
    and CoinsValidate_iff: "CoinsValidate L cs = Ok () \<longleftrightarrow> valid_coins L cs"
    and Bech32_roundtrip: "u \<noteq> [] \<Longrightarrow> length u \<le> 255 \<Longrightarrow> AccAddressFromBech32 L (AddrString L u) = Ok u"
    and Bech32_nonempty: "AccAddressFromBech32 L d = Ok u \<Longrightarrow> u \<noteq> []"
    and AddressHash_length: "length (AddressHash L u) = 20"
begin

lemmas checked_simps = IntAdd_iff IntSub_iff IntMul_iff IntQuo_iff NewIntFromBigInt_iff
  DecQuoInt_iff NewCoin_iff CoinSub_iff CoinAdd_iff

lemma NewCoins_amt: "NewCoins L cs = Ok ds \<Longrightarrow> coins_amt ds d = coins_amt cs d"
  by (simp add: NewCoins_iff coins_amt_sort coins_amt_filter)

lemma NewCoins_valid: "NewCoins L cs = Ok ds \<Longrightarrow> valid_coins L ds"
  using NewCoins_iff by blast

lemma AddressHash_roundtrip: "AccAddressFromBech32 L (AddrString L (AddressHash L b)) = Ok (AddressHash L b)"
  using AddressHash_length [of b] by (intro Bech32_roundtrip) auto

lemma DecMul_nonneg:
  assumes "DecMul L a b = Ok c" and "0 \<le> a" and "0 \<le> b"
  shows "0 \<le> c"
proof (rule ccontr)
  assume "\<not> 0 \<le> c"
  then have "c * dec_one \<le> - dec_one" by simp
  moreover have "0 \<le> a * b" using assms by simp
  ultimately show False using DecMul_ok [OF assms(1)] by auto
qed

text \<open>A product with an integral decimal is exact, and a share is never more than the whole.\<close>

lemma DecMul_integral:
  assumes "DecMul L (LegacyNewDecFromInt n) b = Ok c"
  shows "c = n * b"
proof (rule ccontr)
  assume "c \<noteq> n * b"
  then have "1 \<le> \<bar>c - n * b\<bar>" by simp
  then have "dec_one \<le> \<bar>c - n * b\<bar> * dec_one" by simp
  also have "\<dots> = \<bar>c * dec_one - n * b * dec_one\<bar>"
    by (metis abs_mult abs_of_nonneg left_diff_distrib zero_le_numeral zero_le_power)
  also have "\<dots> = \<bar>c * dec_one - LegacyNewDecFromInt n * b\<bar>"
    by (simp add: LegacyNewDecFromInt_def algebra_simps)
  finally show False using DecMul_ok [OF assms] by simp
qed

end

end
