(* ===== verification/Bank.thy ===== *)
theory Bank
  imports Sdk
begin

text \<open>
  The bank and account keepers the modules are given (expected_keepers.go), as records
  of functions over a state the repository does not define, and the contract
  \<open>bank_laws\<close> of what a successful call does to balances and supply.
\<close>

section \<open>The keepers\<close>

record 'x bank_keeper =
  SendCoins :: "bytes \<Rightarrow> bytes \<Rightarrow> coin list \<Rightarrow> ('x, unit) act"
  SendCoinsFromModuleToAccount :: "string \<Rightarrow> bytes \<Rightarrow> coin list \<Rightarrow> ('x, unit) act"
  SendCoinsFromAccountToModule :: "bytes \<Rightarrow> string \<Rightarrow> coin list \<Rightarrow> ('x, unit) act"
  SendCoinsFromModuleToModule :: "string \<Rightarrow> string \<Rightarrow> coin list \<Rightarrow> ('x, unit) act"
  MintCoins :: "string \<Rightarrow> coin list \<Rightarrow> ('x, unit) act"
  BurnCoins :: "string \<Rightarrow> coin list \<Rightarrow> ('x, unit) act"
  GetAllBalances :: "bytes \<Rightarrow> 'x \<Rightarrow> coin list"
  GetBalance :: "bytes \<Rightarrow> string \<Rightarrow> 'x \<Rightarrow> coin"
  GetSupply :: "string \<Rightarrow> 'x \<Rightarrow> coin"

text \<open>An account is known by the address its GetAddress method returns.\<close>

record 'x account_keeper =
  GetAccount :: "bytes \<Rightarrow> 'x \<Rightarrow> bytes option"
  GetModuleAddress :: "string \<Rightarrow> bytes"

definition bal :: "'x bank_keeper \<Rightarrow> 'x \<Rightarrow> bytes \<Rightarrow> string \<Rightarrow> int" where
  "bal bk x a d = Amount (GetBalance bk a d x)"

definition sup :: "'x bank_keeper \<Rightarrow> 'x \<Rightarrow> string \<Rightarrow> int" where
  "sup bk x d = Amount (GetSupply bk d x)"

section \<open>Effects\<close>

text \<open>Coins change hands, are created in a module account, or are destroyed there.\<close>

definition moves :: "'x bank_keeper \<Rightarrow> 'x \<Rightarrow> bytes \<Rightarrow> bytes \<Rightarrow> coin list \<Rightarrow> 'x \<Rightarrow> bool" where
  "moves bk x a b cs x' \<longleftrightarrow>
     (\<forall>c d. bal bk x' c d = bal bk x c d - (if c = a then coins_amt cs d else 0)
                                        + (if c = b then coins_amt cs d else 0)) \<and>
     (\<forall>d. sup bk x' d = sup bk x d) \<and>
     (\<forall>d. coins_amt cs d \<le> bal bk x a d)"

definition mints :: "'x bank_keeper \<Rightarrow> 'x \<Rightarrow> bytes \<Rightarrow> coin list \<Rightarrow> 'x \<Rightarrow> bool" where
  "mints bk x a cs x' \<longleftrightarrow>
     (\<forall>c d. bal bk x' c d = bal bk x c d + (if c = a then coins_amt cs d else 0)) \<and>
     (\<forall>d. sup bk x' d = sup bk x d + coins_amt cs d)"

definition burns :: "'x bank_keeper \<Rightarrow> 'x \<Rightarrow> bytes \<Rightarrow> coin list \<Rightarrow> 'x \<Rightarrow> bool" where
  "burns bk x a cs x' \<longleftrightarrow>
     (\<forall>c d. bal bk x' c d = bal bk x c d - (if c = a then coins_amt cs d else 0)) \<and>
     (\<forall>d. sup bk x' d = sup bk x d - coins_amt cs d) \<and>
     (\<forall>d. coins_amt cs d \<le> bal bk x a d)"

lemma moves_bal: "moves bk x a b cs x' \<Longrightarrow>
    bal bk x' c d = bal bk x c d - (if c = a then coins_amt cs d else 0) + (if c = b then coins_amt cs d else 0)"
  and moves_sup: "moves bk x a b cs x' \<Longrightarrow> sup bk x' d = sup bk x d"
  and moves_enough: "moves bk x a b cs x' \<Longrightarrow> coins_amt cs d \<le> bal bk x a d"
  by (simp_all add: moves_def)

lemma mints_bal: "mints bk x a cs x' \<Longrightarrow>
    bal bk x' c d = bal bk x c d + (if c = a then coins_amt cs d else 0)"
  and mints_sup: "mints bk x a cs x' \<Longrightarrow> sup bk x' d = sup bk x d + coins_amt cs d"
  by (simp_all add: mints_def)

lemma burns_bal: "burns bk x a cs x' \<Longrightarrow>
    bal bk x' c d = bal bk x c d - (if c = a then coins_amt cs d else 0)"
  and burns_sup: "burns bk x a cs x' \<Longrightarrow> sup bk x' d = sup bk x d - coins_amt cs d"
  and burns_enough: "burns bk x a cs x' \<Longrightarrow> coins_amt cs d \<le> bal bk x a d"
  by (simp_all add: burns_def)

definition keeps_accounts :: "'x account_keeper \<Rightarrow> 'x \<Rightarrow> 'x \<Rightarrow> bool" where
  "keeps_accounts ak x x' \<longleftrightarrow> (\<forall>a. GetAccount ak a x \<noteq> None \<longrightarrow> GetAccount ak a x' \<noteq> None)"

lemma keeps_accounts_trans [trans]:
  "keeps_accounts ak x y \<Longrightarrow> keeps_accounts ak y z \<Longrightarrow> keeps_accounts ak x z"
  by (simp add: keeps_accounts_def)

section \<open>The contract\<close>

text \<open>
  \<open>binv\<close> is the well-formedness of the ledger. The laws speak about calls that succeed;
  what a failed call leaves behind is not assumed.
\<close>

locale bank_laws = sdk_laws L for L :: sdk_lib +
  fixes bk :: "'x bank_keeper"
    and ak :: "'x account_keeper"
    and binv :: "'x \<Rightarrow> bool"
  assumes all_balances: "binv x \<Longrightarrow>
      valid_coins L (GetAllBalances bk a x) \<and> coins_amt (GetAllBalances bk a x) d = bal bk x a d"
    and sup_nonneg: "binv x \<Longrightarrow> 0 \<le> sup bk x d"
    and account_address: "GetAccount ak a x = Some b \<Longrightarrow> b = a"
    and send: "binv x \<Longrightarrow> SendCoins bk a b cs x = (Ok (), x') \<Longrightarrow>
      binv x' \<and> moves bk x a b cs x' \<and> keeps_accounts ak x x' \<and> GetAccount ak b x' \<noteq> None"
    and send_from_module: "binv x \<Longrightarrow> SendCoinsFromModuleToAccount bk m b cs x = (Ok (), x') \<Longrightarrow>
      binv x' \<and> moves bk x (GetModuleAddress ak m) b cs x' \<and> keeps_accounts ak x x'"
    and send_to_module: "binv x \<Longrightarrow> SendCoinsFromAccountToModule bk a m cs x = (Ok (), x') \<Longrightarrow>
      binv x' \<and> moves bk x a (GetModuleAddress ak m) cs x' \<and> keeps_accounts ak x x'"
    and send_modules: "binv x \<Longrightarrow> SendCoinsFromModuleToModule bk m n cs x = (Ok (), x') \<Longrightarrow>
      binv x' \<and> moves bk x (GetModuleAddress ak m) (GetModuleAddress ak n) cs x' \<and> keeps_accounts ak x x'"
    and mint: "binv x \<Longrightarrow> MintCoins bk m cs x = (Ok (), x') \<Longrightarrow>
      binv x' \<and> mints bk x (GetModuleAddress ak m) cs x' \<and> keeps_accounts ak x x'"
    and burn: "binv x \<Longrightarrow> BurnCoins bk m cs x = (Ok (), x') \<Longrightarrow>
      binv x' \<and> burns bk x (GetModuleAddress ak m) cs x' \<and> keeps_accounts ak x x'"
    and balance_denom: "Denom (GetBalance bk a d x) = d"
begin

lemma bal_nonneg: "binv x \<Longrightarrow> 0 \<le> bal bk x a d"
  using all_balances valid_coins_nonneg by metis

lemma AmountOf_all: "binv x \<Longrightarrow> AmountOf L (GetAllBalances bk a x) d = Ok n \<Longrightarrow> n = bal bk x a d"
  using all_balances AmountOf_iff by metis

end

end
