(* ===== verification/Modstore.thy ===== *)
theory Modstore
  imports Kvstore Gostrings
begin

text \<open>
  The state a module owns: its parameter subspace and its key-value store, with the
  store operations as actions. Values carry the type they were marshalled from;
  unmarshalling a value of another type panics, as MustUnmarshal does.
\<close>

record ('p, 'v) mstore =
  pspace :: "'p option"
  kvstore :: "(bytes, 'v) kv"

type_synonym ('p, 'v, 'x) mstate = "(('p, 'v) mstore, 'x) kstate"

definition store_get :: "bytes \<Rightarrow> (('p, 'v, 'x) mstate, 'v option) act" where
  "store_get k = gets (\<lambda>s. kv_get (kvstore (kown s)) k)"

definition store_has :: "bytes \<Rightarrow> (('p, 'v, 'x) mstate, bool) act" where
  "store_has k = gets (\<lambda>s. kv_get (kvstore (kown s)) k \<noteq> None)"

definition store_set :: "bytes \<Rightarrow> 'v \<Rightarrow> (('p, 'v, 'x) mstate, unit) act" where
  "store_set k v = modify (\<lambda>s. s\<lparr>kown := (kown s)\<lparr>kvstore := kv_set k v (kvstore (kown s))\<rparr>\<rparr>)"

definition store_delete :: "bytes \<Rightarrow> (('p, 'v, 'x) mstate, unit) act" where
  "store_delete k = modify (\<lambda>s. s\<lparr>kown := (kown s)\<lparr>kvstore := kv_del k (kvstore (kown s))\<rparr>\<rparr>)"

text \<open>KVStorePrefixIterator: the entries whose key starts with the prefix, in key order.\<close>

definition kv_prefix :: "bytes \<Rightarrow> (bytes, 'v) kv \<Rightarrow> (bytes \<times> 'v) list" where
  "kv_prefix p m = filter (\<lambda>e. HasPrefix (fst e) p) m"

definition store_iterate :: "bytes \<Rightarrow> (('p, 'v, 'x) mstate, (bytes \<times> 'v) list) act" where
  "store_iterate p = gets (\<lambda>s. kv_prefix p (kvstore (kown s)))"

text \<open>GetParamSet panics when the parameters were never set.\<close>

definition param_get :: "(('p, 'v, 'x) mstate, 'p) act" where
  "param_get = bnd (gets (\<lambda>s. pspace (kown s))) (\<lambda>p. lift (must ''params not set'' p))"

definition param_set :: "'p \<Rightarrow> (('p, 'v, 'x) mstate, unit) act" where
  "param_set p = modify (\<lambda>s. s\<lparr>kown := (kown s)\<lparr>pspace := Some p\<rparr>\<rparr>)"

lemma store_get_Ok_iff [simp, act_simps]:
  "store_get k s = (Ok v, t) \<longleftrightarrow> v = kv_get (kvstore (kown s)) k \<and> t = s"
  by (simp add: store_get_def)

lemma store_has_Ok_iff [simp, act_simps]:
  "store_has k s = (Ok v, t) \<longleftrightarrow> v = (kv_get (kvstore (kown s)) k \<noteq> None) \<and> t = s"
  by (simp add: store_has_def)

lemma store_set_Ok_iff [simp, act_simps]:
  "store_set k v s = (Ok u, t) \<longleftrightarrow> t = s\<lparr>kown := (kown s)\<lparr>kvstore := kv_set k v (kvstore (kown s))\<rparr>\<rparr>"
  by (simp add: store_set_def)

lemma store_delete_Ok_iff [simp, act_simps]:
  "store_delete k s = (Ok u, t) \<longleftrightarrow> t = s\<lparr>kown := (kown s)\<lparr>kvstore := kv_del k (kvstore (kown s))\<rparr>\<rparr>"
  by (simp add: store_delete_def)

lemma store_iterate_Ok_iff [simp, act_simps]:
  "store_iterate p s = (Ok v, t) \<longleftrightarrow> v = kv_prefix p (kvstore (kown s)) \<and> t = s"
  by (simp add: store_iterate_def)

lemma param_get_Ok_iff [simp, act_simps]:
  "param_get s = (Ok p, t) \<longleftrightarrow> pspace (kown s) = Some p \<and> t = s"
  by (auto simp: param_get_def)

lemma param_set_Ok_iff [simp, act_simps]:
  "param_set p s = (Ok u, t) \<longleftrightarrow> t = s\<lparr>kown := (kown s)\<lparr>pspace := Some p\<rparr>\<rparr>"
  by (simp add: param_set_def)

lemmas store_defs = store_get_def store_has_def store_set_def store_delete_def store_iterate_def
  param_get_def param_set_def

lemma kv_ok_prefix: "kv_ok m \<Longrightarrow> kv_ok (kv_prefix p m)"
  by (simp add: kv_ok_def kv_prefix_def sorted_wrt_map sorted_wrt_filter)

lemma kv_prefix_get:
  "kv_ok m \<Longrightarrow> (k, v) \<in> set (kv_prefix p m) \<longleftrightarrow> HasPrefix k p \<and> kv_get m k = Some v"
  using kvs.entry_get [of m k v] by (auto simp: kv_prefix_def)

end
