(* ===== verification/Coinswap_Types.thy ===== *)
theory Coinswap_Types
  imports Bank Modstore
begin

text \<open>
  x/coinswap/types: the messages, the parameters and the genesis state with their
  validation, the denominations of liquidity tokens and the keys of the store.
\<close>

section \<open>errors.go\<close>

definition ErrReservePoolNotExists :: err where
  [err_defs]: "ErrReservePoolNotExists = RegErr ''coinswap'' 2"
definition ErrEqualDenom :: err where
  [err_defs]: "ErrEqualDenom = RegErr ''coinswap'' 3"
definition ErrNotContainStandardDenom :: err where
  [err_defs]: "ErrNotContainStandardDenom = RegErr ''coinswap'' 4"
definition ErrInvalidDenom :: err where
  [err_defs]: "ErrInvalidDenom = RegErr ''coinswap'' 6"
definition ErrInvalidDeadline :: err where
  [err_defs]: "ErrInvalidDeadline = RegErr ''coinswap'' 7"
definition ErrConstraintNotMet :: err where
  [err_defs]: "ErrConstraintNotMet = RegErr ''coinswap'' 8"
definition ErrInsufficientFunds :: err where
  [err_defs]: "ErrInsufficientFunds = RegErr ''coinswap'' 9"
definition ErrMaxedStandardDenom :: err where
  [err_defs]: "ErrMaxedStandardDenom = RegErr ''coinswap'' 10"

section \<open>Data\<close>

record Pool =
  Id :: string
  StandardDenom :: string
  CounterpartyDenom :: string
  EscrowAddress :: string
  LptDenom :: string

record Params =
  Fee :: int
  PoolCreationFee :: coin
  TaxRate :: int
  MaxStandardCoinPerPool :: int
  MaxSwapAmount :: "coin list"

record GenesisState =
  gParams :: Params
  gStandardDenom :: string
  gPool :: "Pool list"
  gSequence :: u64

record swap_side =
  Address :: string
  Coin :: coin

record MsgSwapOrder =
  Input :: swap_side
  Output :: swap_side
  swapDeadline :: i64
  IsBuyOrder :: bool

record MsgAddLiquidity =
  MaxToken :: coin
  ExactStandardAmt :: int
  MinLiquidity :: int
  addDeadline :: i64
  addSender :: string

record MsgRemoveLiquidity =
  WithdrawLiquidity :: coin
  MinToken :: int
  MinStandardAmt :: int
  removeDeadline :: i64
  removeSender :: string

record MsgUpdateParams =
  Authority :: string
  newParams :: Params

section \<open>keys.go and utils.go\<close>

definition ModuleName :: string where
  "ModuleName = ''coinswap''"

definition KeyStandardDenom :: bytes where
  "KeyStandardDenom = ''StandardDenom''"

definition KeyNextPoolSequence :: bytes where
  "KeyNextPoolSequence = ''nextPoolSequence''"

definition KeyPool :: bytes where
  "KeyPool = ''pool''"

definition KeyPoolLptDenom :: bytes where
  "KeyPoolLptDenom = ''lptDenom''"

definition GetPoolKey :: "string \<Rightarrow> bytes" where
  "GetPoolKey pooId = KeyPool @ ''/'' @ pooId"

definition GetLptDenomKey :: "string \<Rightarrow> bytes" where
  "GetLptDenomKey lptDenom = KeyPoolLptDenom @ ''/'' @ lptDenom"

definition LptTokenPrefix :: string where
  "LptTokenPrefix = ''lpt''"

definition GetReservePoolAddr :: "sdk_lib \<Rightarrow> string \<Rightarrow> bytes" where
  "GetReservePoolAddr L lptDenom = AddressHash L lptDenom"

definition GetPoolId :: "string \<Rightarrow> string" where
  "GetPoolId counterpartyDenom = ''pool-'' @ counterpartyDenom"

definition GetLptDenom :: "u64 \<Rightarrow> string" where
  "GetLptDenom sequence = ''lpt-'' @ show_nat (unat sequence)"

definition ParseLptDenom :: "string \<Rightarrow> u64 res" where
  "ParseLptDenom lptDenom =
     (let result = Split CHR ''-'' lptDenom
      in if length result \<noteq> 2 then Err (PlainErr ''invalid lpt denom'') else ParseUint (result ! 1))"

lemmas key_defs = KeyStandardDenom_def KeyNextPoolSequence_def KeyPool_def KeyPoolLptDenom_def
  GetPoolKey_def GetLptDenomKey_def

text \<open>The four kinds of entries of the store never share a key.\<close>

lemma keys_apart [simp]:
  "GetPoolKey i = GetPoolKey j \<longleftrightarrow> i = j" "GetLptDenomKey i = GetLptDenomKey j \<longleftrightarrow> i = j"
  "GetPoolKey i \<noteq> GetLptDenomKey j" "GetLptDenomKey j \<noteq> GetPoolKey i"
  "GetPoolKey i \<noteq> KeyStandardDenom" "KeyStandardDenom \<noteq> GetPoolKey i"
  "GetPoolKey i \<noteq> KeyNextPoolSequence" "KeyNextPoolSequence \<noteq> GetPoolKey i"
  "GetLptDenomKey i \<noteq> KeyStandardDenom" "KeyStandardDenom \<noteq> GetLptDenomKey i"
  "GetLptDenomKey i \<noteq> KeyNextPoolSequence" "KeyNextPoolSequence \<noteq> GetLptDenomKey i"
  "KeyStandardDenom \<noteq> KeyNextPoolSequence" "KeyNextPoolSequence \<noteq> KeyStandardDenom"
  by (auto simp: key_defs)

lemma GetPoolId_inj [simp]: "GetPoolId a = GetPoolId b \<longleftrightarrow> a = b"
  by (simp add: GetPoolId_def)

lemma ParseLptDenom_ret: "ParseLptDenom (GetLptDenom n) = Ok n"
proof -
  have "Split CHR ''-'' (''lpt'' @ CHR ''-'' # show_nat (unat n)) = [''lpt'', show_nat (unat n)]"
    by (subst Split_append) (simp_all add: Split_plain show_nat_no_dash)
  then show ?thesis by (simp add: ParseLptDenom_def GetLptDenom_def ParseUint_show)
qed

lemma GetLptDenom_inj [simp]: "GetLptDenom a = GetLptDenom b \<longleftrightarrow> a = b"
  by (metis ParseLptDenom_ret res.inject(1))

lemma GetLptDenom_prefix: "HasPrefix (GetLptDenom n) LptTokenPrefix"
  by (simp add: GetLptDenom_def LptTokenPrefix_def HasPrefix_def)

section \<open>validation.go\<close>

definition ValidateLptDenom :: "string \<Rightarrow> unit res" where
  "ValidateLptDenom lptDenom =
     (case ParseLptDenom lptDenom of Err e \<Rightarrow> Err ErrInvalidDenom | Panic p \<Rightarrow> Panic p | Ok n \<Rightarrow> Ok ())"

text \<open>The checks ValidateInput and ValidateOutput make, which are the same.\<close>

definition validate_side :: "sdk_lib \<Rightarrow> swap_side \<Rightarrow> unit res" where
  "validate_side L side =
     (if \<not> (CoinIsValid L (Coin side) \<and> 0 < Amount (Coin side)) then Err (SdkErr ''ErrInvalidCoins'')
      else if HasPrefix (Denom (Coin side)) LptTokenPrefix then Err (SdkErr ''ErrInvalidRequest'')
      else case AccAddressFromBech32 L (Address side) of
        Err e \<Rightarrow> Err (SdkErr ''ErrInvalidAddress'') | Panic p \<Rightarrow> Panic p | Ok a \<Rightarrow> Ok ())"

definition ValidateInput :: "sdk_lib \<Rightarrow> swap_side \<Rightarrow> unit res" where
  "ValidateInput = validate_side"

definition ValidateOutput :: "sdk_lib \<Rightarrow> swap_side \<Rightarrow> unit res" where
  "ValidateOutput = validate_side"

definition ValidateDeadline :: "i64 \<Rightarrow> unit res" where
  "ValidateDeadline deadline = (if deadline <=s 0 then Err (SdkErr ''ErrInvalidRequest'') else Ok ())"

definition ValidateMaxToken :: "sdk_lib \<Rightarrow> coin \<Rightarrow> unit res" where
  "ValidateMaxToken L maxToken =
     (if \<not> (CoinIsValid L maxToken \<and> 0 < Amount maxToken) then Err (SdkErr ''ErrInvalidCoins'')
      else if HasPrefix (Denom maxToken) LptTokenPrefix then Err (SdkErr ''ErrInvalidRequest'')
      else Ok ())"

definition ValidateExactStandardAmt :: "int \<Rightarrow> unit res" where
  "ValidateExactStandardAmt standardAmt =
     (if \<not> 0 < standardAmt then Err (SdkErr ''ErrInvalidRequest'') else Ok ())"

definition ValidateMinLiquidity :: "int \<Rightarrow> unit res" where
  "ValidateMinLiquidity minLiquidity =
     (if minLiquidity < 0 then Err (SdkErr ''ErrInvalidRequest'') else Ok ())"

definition ValidateMinToken :: "int \<Rightarrow> unit res" where
  "ValidateMinToken minToken = (if minToken < 0 then Err (SdkErr ''ErrInvalidCoins'') else Ok ())"

definition ValidateWithdrawLiquidity :: "sdk_lib \<Rightarrow> coin \<Rightarrow> unit res" where
  "ValidateWithdrawLiquidity L liquidity =
     (if \<not> CoinIsValid L liquidity \<or> \<not> 0 < Amount liquidity then Err (SdkErr ''ErrInvalidCoins'')
      else ValidateLptDenom (Denom liquidity))"

definition ValidateMinStandardAmt :: "int \<Rightarrow> unit res" where
  "ValidateMinStandardAmt minStandardAmt =
     (if minStandardAmt < 0 then Err (SdkErr ''ErrInvalidRequest'') else Ok ())"

lemmas validation_defs = ValidateInput_def ValidateOutput_def validate_side_def ValidateDeadline_def
  ValidateMaxToken_def ValidateExactStandardAmt_def ValidateMinLiquidity_def ValidateMinToken_def
  ValidateWithdrawLiquidity_def ValidateMinStandardAmt_def ValidateLptDenom_def

section \<open>params.go\<close>

definition UsdcIBCDenom :: string where
  "UsdcIBCDenom = ''ibc/17CD484EE7D9723B847D95015FA3EBD1572FD13BC84FB838F55B18A57450F25B''"

definition UsdtIBCDenom :: string where
  "UsdtIBCDenom = ''ibc/4F6A2DEFEA52CD8D90966ADCB2BD0593D3993AB0DF7F6AEB3EFD6167D79237B0''"

definition EthIBCDenom :: string where
  "EthIBCDenom = ''ibc/DC186CA7A8C009B43774EBDC825C935CABA9743504CE6037507E6E5CCE12858A''"

definition DefaultMaxSwapAmount :: "sdk_lib \<Rightarrow> coin list res" where
  "DefaultMaxSwapAmount L =
     rbind (NewCoin L UsdcIBCDenom (NewIntWithDecimal 10 6)) (\<lambda>usdc.
     rbind (NewCoin L UsdtIBCDenom (NewIntWithDecimal 10 6)) (\<lambda>usdt.
     rbind (NewCoin L EthIBCDenom (NewIntWithDecimal 1 16)) (\<lambda>eth.
     NewCoins L [usdc, usdt, eth])))"

text \<open>sdk.DefaultBondDenom is a variable of the SDK, hence an argument.\<close>

definition DefaultParams :: "sdk_lib \<Rightarrow> string \<Rightarrow> Params res" where
  "DefaultParams L bondDenom =
     rbind (NewCoin L bondDenom 0) (\<lambda>poolCreationFee.
     rbind (DefaultMaxSwapAmount L) (\<lambda>maxSwapAmount.
     Ok \<lparr>Fee = LegacyNewDecWithPrec 0 0,
         PoolCreationFee = poolCreationFee,
         TaxRate = LegacyNewDecWithPrec 0 0,
         MaxStandardCoinPerPool = NewIntWithDecimal 10000 18,
         MaxSwapAmount = maxSwapAmount\<rparr>))"

definition Validate :: "Params \<Rightarrow> unit res" where
  "Validate p =
     (if Fee p < 0 \<or> \<not> Fee p < dec_one then Err (PlainErr ''fee must be positive and less than 1'')
      else Ok ())"

definition validateFee :: "int \<Rightarrow> unit res" where
  "validateFee v =
     (if v < 0 \<or> \<not> v < dec_one then Err (PlainErr ''fee must be positive and less than 1'') else Ok ())"

definition validatePoolCreationFee :: "coin \<Rightarrow> unit res" where
  "validatePoolCreationFee v =
     (if Amount v < 0 then Err (PlainErr ''poolCreationFee must be positive'') else Ok ())"

definition validateTaxRate :: "int \<Rightarrow> unit res" where
  "validateTaxRate v =
     (if v < 0 \<or> \<not> v < dec_one then Err (PlainErr ''fee must be positive and less than 1'') else Ok ())"

definition validateMaxStandardCoinPerPool :: "int \<Rightarrow> unit res" where
  "validateMaxStandardCoinPerPool v =
     (if \<not> 0 < v then Err (PlainErr ''maxStandardCoinPerPool must be positive'') else Ok ())"

fun validate_coin_amounts :: "sdk_lib \<Rightarrow> coin list \<Rightarrow> unit res" where
  "validate_coin_amounts L [] = Ok ()"
| "validate_coin_amounts L (c # cs) =
     rbind (ValidateDenom L (Denom c)) (\<lambda>_.
       if Amount c < 0 then Err (PlainErr ''coin amount must be positive'')
       else validate_coin_amounts L cs)"

definition validateMaxSwapAmount :: "sdk_lib \<Rightarrow> coin list \<Rightarrow> unit res" where
  "validateMaxSwapAmount L v = rbind (CoinsValidate L v) (\<lambda>_. validate_coin_amounts L v)"

definition ParamSetPairs :: "sdk_lib \<Rightarrow> Params \<Rightarrow> unit res list" where
  "ParamSetPairs L p =
     [validateFee (Fee p), validatePoolCreationFee (PoolCreationFee p), validateTaxRate (TaxRate p),
      validateMaxStandardCoinPerPool (MaxStandardCoinPerPool p), validateMaxSwapAmount L (MaxSwapAmount p)]"

text \<open>What the parameter subspace has accepted.\<close>

definition params_ok :: "sdk_lib \<Rightarrow> Params \<Rightarrow> bool" where
  "params_ok L p = list_all (\<lambda>r. r = Ok ()) (ParamSetPairs L p)"

lemma params_okD:
  assumes "params_ok L p"
  shows "0 \<le> Fee p" "Fee p < dec_one" "0 \<le> TaxRate p" "TaxRate p < dec_one"
    "0 \<le> Amount (PoolCreationFee p)" "0 < MaxStandardCoinPerPool p"
    "CoinsValidate L (MaxSwapAmount p) = Ok ()"
  using assms
  by (auto simp: params_ok_def ParamSetPairs_def validateFee_def validatePoolCreationFee_def
      validateTaxRate_def validateMaxStandardCoinPerPool_def validateMaxSwapAmount_def split: if_splits)

section \<open>genesis.go\<close>

definition DefaultGenesisState :: "sdk_lib \<Rightarrow> string \<Rightarrow> GenesisState res" where
  "DefaultGenesisState L bondDenom =
     rbind (DefaultParams L bondDenom) (\<lambda>p.
     Ok \<lparr>gParams = p, gStandardDenom = bondDenom, gPool = [], gSequence = 1\<rparr>)"

text \<open>The loop over the pools, with the identifiers seen and the largest sequence so far.\<close>

fun validate_pools :: "sdk_lib \<Rightarrow> string list \<Rightarrow> string list \<Rightarrow> u64 \<Rightarrow> Pool list \<Rightarrow> u64 res" where
  "validate_pools L poolIds lptDenoms maxSequence [] = Ok maxSequence"
| "validate_pools L poolIds lptDenoms maxSequence (pool # pools) =
     (if Id pool \<in> set poolIds then Err (PlainErr ''duplicate pool'')
      else if LptDenom pool \<in> set lptDenoms then Err (PlainErr ''duplicate lptDenom'')
      else
        rbind (ParseLptDenom (LptDenom pool)) (\<lambda>seq.
        let maxSequence = (if maxSequence < seq then seq else maxSequence) in
        rbind (ValidateDenom L (CounterpartyDenom pool)) (\<lambda>_.
        rbind (ValidateDenom L (StandardDenom pool)) (\<lambda>_.
        rbind (AccAddressFromBech32 L (EscrowAddress pool)) (\<lambda>_.
        validate_pools L (Id pool # poolIds) (LptDenom pool # lptDenoms) maxSequence pools)))))"

definition ValidateGenesis :: "sdk_lib \<Rightarrow> GenesisState \<Rightarrow> unit res" where
  "ValidateGenesis L data =
     rbind (ValidateDenom L (gStandardDenom data)) (\<lambda>_.
     rbind (validate_pools L [] [] 0 (gPool data)) (\<lambda>maxSequence.
     if maxSequence + 1 \<noteq> gSequence data then Err (PlainErr ''invalid sequence'')
     else Validate (gParams data)))"

definition pool_valid :: "sdk_lib \<Rightarrow> Pool \<Rightarrow> bool" where
  "pool_valid L p \<longleftrightarrow> ValidateDenom L (CounterpartyDenom p) = Ok () \<and> ValidateDenom L (StandardDenom p) = Ok ()
     \<and> (\<exists>a. AccAddressFromBech32 L (EscrowAddress p) = Ok a)"

text \<open>
  A run of the loop ends well exactly on a list of distinct, valid pools, and its result
  is the largest number of a liquidity denomination.
\<close>

lemma validate_pools_Ok:
  assumes "validate_pools L ids lpts m pools = Ok n"
  shows "distinct (map Id pools) \<and> distinct (map LptDenom pools)
    \<and> set (map Id pools) \<inter> set ids = {} \<and> set (map LptDenom pools) \<inter> set lpts = {}
    \<and> (\<forall>p \<in> set pools. pool_valid L p \<and> (\<exists>q. ParseLptDenom (LptDenom p) = Ok q \<and> q \<le> n))
    \<and> m \<le> n \<and> (n = m \<or> (\<exists>p \<in> set pools. ParseLptDenom (LptDenom p) = Ok n))"
  using assms
proof (induction pools arbitrary: ids lpts m)
  case (Cons p pools)
  let ?m = "\<lambda>q. if m < q then q else m"
  obtain q where q: "ParseLptDenom (LptDenom p) = Ok q"
    and rest: "validate_pools L (Id p # ids) (LptDenom p # lpts) (?m q) pools = Ok n"
    and new: "Id p \<notin> set ids" "LptDenom p \<notin> set lpts" "pool_valid L p"
    using Cons.prems by (auto simp: Let_def pool_valid_def split: if_splits)
  note IH = Cons.IH [OF rest]
  then have "?m q \<le> n" by simp
  then have "m \<le> n" "q \<le> n" by (auto split: if_splits)
  moreover have "n = m \<or> (\<exists>p \<in> set (p # pools). ParseLptDenom (LptDenom p) = Ok n)"
    using IH q by (auto split: if_splits)
  ultimately show ?case using IH q new by auto
qed simp

lemma validate_pools_total:
  assumes "distinct (map Id pools)" "distinct (map LptDenom pools)"
    and "set (map Id pools) \<inter> set ids = {}" "set (map LptDenom pools) \<inter> set lpts = {}"
    and "\<And>p. p \<in> set pools \<Longrightarrow> pool_valid L p \<and> (\<exists>q. ParseLptDenom (LptDenom p) = Ok q)"
  shows "\<exists>n. validate_pools L ids lpts m pools = Ok n"
  using assms
proof (induction pools arbitrary: ids lpts m)
  case (Cons p pools)
  obtain q where q: "ParseLptDenom (LptDenom p) = Ok q" and p: "pool_valid L p"
    using Cons.prems(5) by auto
  have "\<exists>n. validate_pools L (Id p # ids) (LptDenom p # lpts) (if m < q then q else m) pools = Ok n"
    using Cons.prems by (intro Cons.IH) auto
  then show ?case using q p Cons.prems by (auto simp: Let_def pool_valid_def)
qed simp

end
