(* ===== verification/Coinswap_Price.thy ===== *)
theory Coinswap_Price
  imports Coinswap_Types
begin

text \<open>
  The pricing functions of x/coinswap/keeper/swap.go and the arithmetic of a
  constant-product market they are compared with: what a trade may do to the reserves
  (the locale \<open>swap_rule\<close>), and that both functions only allow such trades.
\<close>

section \<open>The functions\<close>

definition GetInputPrice :: "sdk_lib \<Rightarrow> int \<Rightarrow> int \<Rightarrow> int \<Rightarrow> int \<Rightarrow> int res" where
  "GetInputPrice L inputAmt inputReserve outputReserve fee =
     rbind (DecSub L dec_one fee) (\<lambda>deltaFee.
     rbind (NewIntFromBigInt L deltaFee) (\<lambda>delta.
     rbind (IntMul L inputAmt delta) (\<lambda>inputAmtWithFee.
     rbind (IntMul L inputAmtWithFee outputReserve) (\<lambda>numerator.
     rbind (IntMul L inputReserve (NewIntWithDecimal 1 18)) (\<lambda>scaled.
     rbind (IntAdd L scaled inputAmtWithFee) (\<lambda>denominator.
     IntQuo L numerator denominator))))))"

definition GetOutputPrice :: "sdk_lib \<Rightarrow> int \<Rightarrow> int \<Rightarrow> int \<Rightarrow> int \<Rightarrow> int res" where
  "GetOutputPrice L outputAmt inputReserve outputReserve fee =
     rbind (DecSub L dec_one fee) (\<lambda>deltaFee.
     rbind (IntMul L inputReserve outputAmt) (\<lambda>product.
     rbind (IntMul L product (NewIntWithDecimal 1 18)) (\<lambda>numerator.
     rbind (IntSub L outputReserve outputAmt) (\<lambda>rest.
     rbind (NewIntFromBigInt L deltaFee) (\<lambda>delta.
     rbind (IntMul L rest delta) (\<lambda>denominator.
     rbind (IntQuo L numerator denominator) (\<lambda>quotient.
     IntAdd L quotient 1)))))))"

section \<open>Exact formulas\<close>

text \<open>The same prices on unbounded integers, with the share \<open>g\<close> of the input that is not fee.\<close>

definition in_price :: "int \<Rightarrow> int \<Rightarrow> int \<Rightarrow> int \<Rightarrow> int" where
  "in_price g i x y = (i * g * y) div (x * dec_one + i * g)"

definition out_price :: "int \<Rightarrow> int \<Rightarrow> int \<Rightarrow> int \<Rightarrow> int" where
  "out_price g out x y = (x * out * dec_one) div ((y - out) * g) + 1"

lemma in_price_le:
  assumes "0 < x" "0 \<le> y" "0 \<le> i" "0 \<le> g"
  shows "in_price g i x y * (x * dec_one) \<le> i * g * (y - in_price g i x y)"
proof -
  have "0 < x * dec_one + i * g" using assms by (simp add: add_pos_nonneg)
  then have "in_price g i x y * (x * dec_one + i * g) \<le> i * g * y"
    unfolding in_price_def by (rule div_mult_le)
  then show ?thesis by (simp add: algebra_simps)
qed

lemma in_price_bounds:
  assumes "0 < x" "0 < y" "0 \<le> i" "0 \<le> g"
  shows "0 \<le> in_price g i x y" "in_price g i x y < y"
proof -
  have pos: "0 < x * dec_one + i * g" using assms by (simp add: add_pos_nonneg)
  then show "0 \<le> in_price g i x y"
    using assms by (simp add: in_price_def pos_imp_zdiv_nonneg_iff)
  have "i * g * y < y * (x * dec_one + i * g)" using assms by (simp add: algebra_simps)
  then show "in_price g i x y < y"
    unfolding in_price_def using pos by (intro div_lessI)
qed

lemma out_price_gt:
  assumes "out < y" "0 < g"
  shows "x * out * dec_one < out_price g out x y * ((y - out) * g)"
  unfolding out_price_def using assms by (intro lt_div_succ_mult) simp

lemma out_price_pos: "0 \<le> x \<Longrightarrow> 0 \<le> out \<Longrightarrow> out < y \<Longrightarrow> 0 < g \<Longrightarrow> 0 < out_price g out x y"
  by (simp add: out_price_def pos_imp_zdiv_nonneg_iff add_nonneg_pos)

text \<open>Selling the price of an output returns at least that output.\<close>

lemma in_price_of_out_price:
  assumes "0 < x" "0 \<le> out" "out < y" "0 < g"
  shows "out \<le> in_price g (out_price g out x y) x y"
proof -
  define a where "a = out_price g out x y * g"
  have a: "0 < a" using out_price_pos [of x out y g] assms by (simp add: a_def)
  have "out * (x * dec_one) < a * (y - out)"
    using out_price_gt [OF assms(3,4), of x] by (simp add: a_def mult.commute mult.left_commute)
  then have "out * (x * dec_one + a) \<le> a * y" by (simp add: algebra_simps)
  then show ?thesis
    unfolding in_price_def a_def [symmetric] using assms(1) a by (intro le_divI) (simp_all add: add_pos_pos)
qed

text \<open>Keeping a part of the input cannot lower the product of the reserves.\<close>

lemma product_grows:
  assumes "out * (x * dec_one) \<le> i * g * (y - out)" and "g \<le> dec_one" and "0 \<le> i" and "out \<le> y"
  shows "x * y \<le> (x + i) * (y - out :: int)"
proof -
  have "i * g * (y - out) \<le> i * dec_one * (y - out)"
    using assms by (simp add: mult_left_mono mult_right_mono)
  then have "out * x * dec_one \<le> i * (y - out) * dec_one"
    using assms(1) by (simp add: algebra_simps)
  then have "out * x \<le> i * (y - out)" by (simp add: mult_le_cancel_right)
  then show ?thesis by (simp add: algebra_simps)
qed

lemma in_price_mono:
  assumes "0 < x" "0 < y" "0 \<le> i * g" "i * g \<le> j * h"
  shows "in_price g i x y \<le> in_price h j x y"
proof -
  let ?a = "i * g" and ?b = "j * h" and ?o = "in_price g i x y" and ?X = "x * dec_one"
  have pa: "0 < ?X + ?a" and pb: "0 < ?X + ?b" using assms by (simp_all add: add_pos_nonneg)
  have "?o * (?X + ?a) \<le> ?a * y"
    unfolding in_price_def using pa by (intro div_mult_le) simp
  moreover have "?o \<le> y"
  proof -
    have "0 < (y + 1) * ?X" using assms by simp
    then have "?a * y < (y + 1) * (?X + ?a)" using assms unfolding distrib_left distrib_right
      by (simp add: mult.commute)
    then have "?o < y + 1" unfolding in_price_def using pa by (intro div_lessI) simp_all
    then show ?thesis by simp
  qed
  then have "(?b - ?a) * ?o \<le> (?b - ?a) * y"
    using assms by (intro mult_left_mono) auto
  ultimately have "?o * (?X + ?b) \<le> ?b * y" by (simp add: algebra_simps)
  then show ?thesis unfolding in_price_def [of h] using pb by (intro le_divI) simp_all
qed

section \<open>The functions compute the formulas\<close>

lemma NewIntWithDecimal_one: "NewIntWithDecimal 1 18 = dec_one"
  by (simp add: NewIntWithDecimal_def)

text \<open>Amounts below \<open>2 ^ 98\<close> keep every intermediate product below \<open>2 ^ 256\<close>.\<close>

lemma product_fits:
  assumes "0 \<le> a" "a < 2 ^ 98" "0 \<le> b" "b < 2 ^ 98" "0 \<le> c" "c \<le> dec_one"
  shows "0 \<le> a * c * b" "a * c * b < 2 ^ 256"
proof -
  have "a * c \<le> 2 ^ 98 * dec_one" using assms by (intro mult_mono) auto
  moreover have "0 \<le> a * c" using assms by simp
  ultimately have "a * c * b \<le> (2 ^ 98 * dec_one) * 2 ^ 98" using assms by (intro mult_mono) auto
  then show "a * c * b < 2 ^ 256" by simp
  show "0 \<le> a * c * b" using assms by simp
qed

context sdk_laws
begin

lemma in_price_correct:
  assumes "GetInputPrice L i x y fee = Ok out"
    and "0 < x" "0 \<le> y" "0 \<le> i" "fee \<le> dec_one"
  shows "out = in_price (dec_one - fee) i x y"
proof -
  have "0 \<le> i * (dec_one - fee)" using assms by simp
  then show ?thesis
    using assms
    by (auto simp: GetInputPrice_def in_price_def checked_simps NewIntWithDecimal_def sdiv_nonneg
        dest!: DecSub_ok)
qed

lemma out_price_correct:
  assumes "GetOutputPrice L out x y fee = Ok i"
    and "0 \<le> x" "0 \<le> out" "out < y" "fee < dec_one"
  shows "i = out_price (dec_one - fee) out x y"
  using assms
  by (auto simp: GetOutputPrice_def out_price_def checked_simps NewIntWithDecimal_def sdiv_nonneg
      dest!: DecSub_ok)

lemma in_price_total:
  assumes "0 < x" "x < 2 ^ 98" "0 \<le> y" "y < 2 ^ 98" "0 \<le> i" "i < 2 ^ 98" "0 \<le> fee" "fee \<le> dec_one"
  shows "GetInputPrice L i x y fee = Ok (in_price (dec_one - fee) i x y)"
proof -
  let ?g = "dec_one - fee"
  have g: "0 \<le> ?g" "?g \<le> dec_one" using assms by auto
  obtain c where "DecSub L dec_one fee = Ok c" using DecSub_total [of dec_one fee] assms by auto
  then have d: "DecSub L dec_one fee = Ok ?g" using DecSub_ok by auto
  have ig: "0 \<le> i * ?g" "i * ?g < 2 ^ 160"
    using assms g mult_mono [of i "2 ^ 98" ?g dec_one] by auto
  have den: "0 < x * dec_one + i * ?g" "x * dec_one + i * ?g < 2 ^ 256"
    using ig assms mult_mono [of x "2 ^ 98" dec_one dec_one] by (auto intro: add_pos_nonneg)
  show ?thesis
    using product_fits [of i y ?g] d g ig den assms
    by (simp add: GetInputPrice_def in_price_def checked_simps NewIntWithDecimal_def sdiv_nonneg)
qed

lemma out_price_total:
  assumes "0 \<le> x" "x < 2 ^ 98" "y < 2 ^ 98" "0 \<le> out" "out < y" "0 \<le> fee" "fee < dec_one"
  shows "GetOutputPrice L out x y fee = Ok (out_price (dec_one - fee) out x y)"
proof -
  let ?g = "dec_one - fee"
  have g: "0 < ?g" "?g \<le> dec_one" using assms by auto
  obtain c where "DecSub L dec_one fee = Ok c" using DecSub_total [of dec_one fee] assms by auto
  then have d: "DecSub L dec_one fee = Ok ?g" using DecSub_ok by auto
  have xo: "0 \<le> x * out" "x * out < 2 ^ 196"
    using assms mult_strict_mono [of x "2 ^ 98" out "2 ^ 98"] by auto
  have den: "0 < (y - out) * ?g" "(y - out) * ?g < 2 ^ 256"
    using assms g mult_mono [of "y - out" "2 ^ 98" ?g dec_one] by auto
  have q: "0 \<le> x * out * dec_one div ((y - out) * ?g)"
    using xo den by (simp add: pos_imp_zdiv_nonneg_iff)
  have "x * out * dec_one div ((y - out) * ?g) \<le> x * out * dec_one div 1"
    using xo den by (intro zdiv_mono2) auto
  also have "\<dots> = x * out * dec_one" by simp
  also have "\<dots> \<le> 2 ^ 196 * dec_one" using xo by (intro mult_right_mono) auto
  also have "\<dots> < 2 ^ 256 - 1" by simp
  finally show ?thesis
    using q d g xo xo(2) [unfolded mult.commute [of x]] den assms
    by (simp add: GetOutputPrice_def out_price_def checked_simps NewIntWithDecimal_def sdiv_nonneg)
qed

end

section \<open>Trades a constant-product market allows\<close>

text \<open>
  \<open>trade x y i out\<close>: with reserves \<open>x\<close> and \<open>y\<close>, an input \<open>i\<close> of the first coin
  buys \<open>out\<close> of the second. The contract is that the output can be paid and that the
  product of the reserves does not shrink.
\<close>

locale swap_rule =
  fixes trade :: "int \<Rightarrow> int \<Rightarrow> int \<Rightarrow> int \<Rightarrow> bool"
  assumes trade_range: "0 < x \<Longrightarrow> 0 < y \<Longrightarrow> trade x y i out \<Longrightarrow> 0 \<le> i \<and> 0 \<le> out \<and> out < y"
    and trade_product: "0 < x \<Longrightarrow> 0 < y \<Longrightarrow> trade x y i out \<Longrightarrow> x * y \<le> (x + i) * (y - out)"
begin

text \<open>The average price is never better than the ratio of the reserves.\<close>

lemma spot_price:
  assumes "0 < x" "0 < y" "trade x y i out"
  shows "x * out \<le> i * y"
proof -
  have "x * out \<le> i * (y - out)"
    using trade_product [OF assms] by (simp add: algebra_simps)
  also have "\<dots> \<le> i * y" using trade_range [OF assms] by (simp add: mult_left_mono)
  finally show ?thesis .
qed

text \<open>Trading the proceeds back never yields more than was paid.\<close>

lemma no_profit:
  assumes x: "0 < x" "0 < y" and there: "trade x y i out" and again: "trade (y - out) (x + i) out j"
  shows "j \<le> i"
proof (rule ccontr)
  assume "\<not> j \<le> i"
  have pos: "0 < y - out" "0 < x + i" using trade_range [OF x there] x by auto
  have "x * y \<le> (y - out) * (x + i)" using trade_product [OF x there] by (simp add: mult.commute)
  also have "\<dots> \<le> (y - out + out) * (x + i - j)" using trade_product [OF pos again] .
  also have "\<dots> = y * (x + i - j)" by simp
  also have "\<dots> < y * x" using \<open>\<not> j \<le> i\<close> x by simp
  finally show False by (simp add: mult.commute)
qed

end

text \<open>The trades the two functions quote, at any valid fee.\<close>

definition quotes :: "sdk_lib \<Rightarrow> int \<Rightarrow> int \<Rightarrow> int \<Rightarrow> int \<Rightarrow> bool" where
  "quotes L x y i out \<longleftrightarrow>
     (\<exists>fee. 0 \<le> fee \<and> fee < dec_one \<and>
       (0 \<le> i \<and> GetInputPrice L i x y fee = Ok out \<or>
        0 \<le> out \<and> out < y \<and> GetOutputPrice L out x y fee = Ok i))"

lemma quotes_exact:
  assumes "sdk_laws L" "0 < x" "0 < y" "quotes L x y i out"
  obtains g where "0 < g" "g \<le> dec_one" "0 \<le> i" "out = in_price g i x y"
  | g where "0 < g" "g \<le> dec_one" "0 \<le> out" "out < y" "i = out_price g out x y"
proof -
  from assms(4) obtain fee where fee: "0 \<le> fee" "fee < dec_one"
    and q: "0 \<le> i \<and> GetInputPrice L i x y fee = Ok out \<or>
      0 \<le> out \<and> out < y \<and> GetOutputPrice L out x y fee = Ok i"
    by (auto simp: quotes_def)
  have g: "0 < dec_one - fee" "dec_one - fee \<le> dec_one" using fee by auto
  from q show thesis
    using that(1) [OF g] that(2) [OF g] assms fee
      sdk_laws.in_price_correct [OF assms(1), of i x y fee out]
      sdk_laws.out_price_correct [OF assms(1), of out x y fee i] by auto
qed

sublocale sdk_laws \<subseteq> amm: swap_rule "quotes L"
proof (unfold_locales, goal_cases)
  case (1 x y i out)
  from sdk_laws_axioms 1 show ?case
    using in_price_bounds [OF \<open>0 < x\<close> \<open>0 < y\<close>, of i] out_price_pos [of x out y] \<open>0 < x\<close>
    by (cases rule: quotes_exact) (auto simp: order_less_imp_le)
next
  case (2 x y i out)
  from sdk_laws_axioms 2 show ?case
  proof (cases rule: quotes_exact)
    case (1 g)
    then show ?thesis
      using 2 in_price_le [of x y i g] in_price_bounds [of x y i g]
      by (intro product_grows [of _ _ _ g]) auto
  next
    case (2 g)
    then show ?thesis
      using \<open>0 < x\<close> out_price_gt [of out y g x] out_price_pos [of x out y g]
      by (intro product_grows [of _ _ _ g]) (auto simp: algebra_simps)
  qed
qed

text \<open>What the market contract says of the two functions.\<close>

context sdk_laws
begin

lemmas quotes_range = amm.trade_range
lemmas quotes_product = amm.trade_product
lemmas quotes_no_profit = amm.no_profit
lemmas quotes_spot_price = amm.spot_price

end

end
