(* ===== verification/Coinswap_Pool.thy ===== *)
theory Coinswap_Pool
  imports Coinswap_Price
begin

text \<open>
  x/coinswap/keeper/pool.go, genesis.go and the parameter and denomination accessors of
  keeper.go: the registry of pools in the module's store, its two indexes, and the
  invariant that ties them together.
\<close>

section \<open>The keeper and its state\<close>

record 'x Keeper =
  bk :: "'x bank_keeper"
  ak :: "'x account_keeper"
  feeCollectorName :: string
  blockedAddrs :: "string list"
  authority :: string

datatype cs_value = PoolVal Pool | StringVal string | SeqVal u64

type_synonym 'x cs_state = "(Params, cs_value, 'x) mstate"

definition unmarshal_fail :: "('s, 'a) act" where
  "unmarshal_fail = panic ''unmarshal''"

lemma unmarshal_fail_Ok_iff [simp, act_simps]: "unmarshal_fail s = (Ok y, t) \<longleftrightarrow> False"
  by (simp add: unmarshal_fail_def)

definition GetParams :: "('x cs_state, Params) act" where
  "GetParams = param_get"

definition SetParams :: "sdk_lib \<Rightarrow> Params \<Rightarrow> ('x cs_state, unit) act" where
  "SetParams L p = (if params_ok L p then param_set p else panic ''invalid parameter'')"

definition SetStandardDenom :: "string \<Rightarrow> ('x cs_state, unit) act" where
  "SetStandardDenom denom = store_set KeyStandardDenom (StringVal denom)"

definition GetStandardDenom :: "('x cs_state, string) act" where
  "GetStandardDenom =
     bnd (store_get KeyStandardDenom) (\<lambda>bz.
       case bz of None \<Rightarrow> ret '''' | Some (StringVal d) \<Rightarrow> ret d | Some v \<Rightarrow> unmarshal_fail)"

section \<open>pool.go\<close>

definition getSequence :: "('x cs_state, u64) act" where
  "getSequence =
     bnd (store_get KeyNextPoolSequence) (\<lambda>bz.
       case bz of None \<Rightarrow> ret 1 | Some (SeqVal n) \<Rightarrow> ret n | Some v \<Rightarrow> unmarshal_fail)"

definition setSequence :: "u64 \<Rightarrow> ('x cs_state, unit) act" where
  "setSequence sequence = store_set KeyNextPoolSequence (SeqVal sequence)"

definition setPool :: "Pool \<Rightarrow> ('x cs_state, unit) act" where
  "setPool pool =
     bnd (store_set (GetPoolKey (Id pool)) (PoolVal pool)) (\<lambda>_.
     store_set (GetLptDenomKey (LptDenom pool)) (StringVal (Id pool)))"

definition CreatePool :: "sdk_lib \<Rightarrow> string \<Rightarrow> ('x cs_state, Pool) act" where
  "CreatePool L counterpartyDenom =
     bnd GetStandardDenom (\<lambda>standardDenom.
     bnd getSequence (\<lambda>sequence.
     let lptDenom = GetLptDenom sequence;
         pool = \<lparr>Id = GetPoolId counterpartyDenom, StandardDenom = standardDenom,
                 CounterpartyDenom = counterpartyDenom,
                 EscrowAddress = AddrString L (GetReservePoolAddr L lptDenom), LptDenom = lptDenom\<rparr>
     in bnd (setSequence (sequence + 1)) (\<lambda>_.
        bnd (setPool pool) (\<lambda>_.
        ret pool))))"

definition GetPool :: "string \<Rightarrow> ('x cs_state, Pool option) act" where
  "GetPool poolId =
     bnd (store_get (GetPoolKey poolId)) (\<lambda>bz.
       case bz of None \<Rightarrow> ret None | Some (PoolVal pool) \<Rightarrow> ret (Some pool) | Some v \<Rightarrow> unmarshal_fail)"

fun decode_pools :: "(bytes \<times> cs_value) list \<Rightarrow> Pool list res" where
  "decode_pools [] = Ok []"
| "decode_pools ((k, PoolVal pool) # es) = rbind (decode_pools es) (\<lambda>pools. Ok (pool # pools))"
| "decode_pools (e # es) = Panic ''unmarshal''"

definition GetAllPools :: "('x cs_state, Pool list) act" where
  "GetAllPools = bnd (store_iterate KeyPool) (\<lambda>es. lift (decode_pools es))"

definition GetPoolByLptDenom :: "string \<Rightarrow> ('x cs_state, Pool option) act" where
  "GetPoolByLptDenom lptDenom =
     bnd (store_get (GetLptDenomKey lptDenom)) (\<lambda>bz.
       case bz of None \<Rightarrow> ret None | Some (StringVal poolId) \<Rightarrow> GetPool poolId | Some v \<Rightarrow> unmarshal_fail)"

definition account_balances :: "'x Keeper \<Rightarrow> bytes \<Rightarrow> ('x cs_state, coin list) act" where
  "account_balances k address =
     bnd (gets (\<lambda>s. GetAccount (ak k) address (kext s))) (\<lambda>acc.
       case acc of None \<Rightarrow> raise ErrReservePoolNotExists
       | Some a \<Rightarrow> gets (\<lambda>s. GetAllBalances (bk k) a (kext s)))"

definition GetPoolBalances :: "sdk_lib \<Rightarrow> 'x Keeper \<Rightarrow> string \<Rightarrow> ('x cs_state, coin list) act" where
  "GetPoolBalances L k escrowAddress =
     bnd (lift (AccAddressFromBech32 L escrowAddress)) (\<lambda>address. account_balances k address)"

definition GetPoolBalancesByLptDenom :: "sdk_lib \<Rightarrow> 'x Keeper \<Rightarrow> string \<Rightarrow> ('x cs_state, coin list) act" where
  "GetPoolBalancesByLptDenom L k lptDenom = account_balances k (GetReservePoolAddr L lptDenom)"

definition GetLptDenomFromDenoms :: "string \<Rightarrow> string \<Rightarrow> ('x cs_state, string) act" where
  "GetLptDenomFromDenoms denom1 denom2 =
     (if denom1 = denom2 then raise ErrEqualDenom
      else
        bnd GetStandardDenom (\<lambda>standardDenom.
        if denom1 \<noteq> standardDenom \<and> denom2 \<noteq> standardDenom then raise ErrNotContainStandardDenom
        else
          let counterpartyDenom = (if denom1 = standardDenom then denom2 else denom1) in
          bnd (GetPool (GetPoolId counterpartyDenom)) (\<lambda>pool.
          case pool of None \<Rightarrow> raise ErrReservePoolNotExists | Some p \<Rightarrow> ret (LptDenom p))))"

definition ValidatePool :: "sdk_lib \<Rightarrow> 'x Keeper \<Rightarrow> string \<Rightarrow> ('x cs_state, unit) act" where
  "ValidatePool L k lptDenom =
     bnd (lift (ValidateLptDenom lptDenom)) (\<lambda>_.
     bnd (GetPoolByLptDenom lptDenom) (\<lambda>pool.
     case pool of None \<Rightarrow> raise ErrReservePoolNotExists
     | Some p \<Rightarrow> bnd (GetPoolBalances L k (EscrowAddress p)) (\<lambda>_. ret ())))"

section \<open>genesis.go\<close>

definition InitGenesis :: "sdk_lib \<Rightarrow> GenesisState \<Rightarrow> ('x cs_state, unit) act" where
  "InitGenesis L genState =
     (case ValidateGenesis L genState of
        Err e \<Rightarrow> panic ''panic for ValidateGenesis''
      | Panic p \<Rightarrow> panic p
      | Ok _ \<Rightarrow>
        bnd (SetParams L (gParams genState)) (\<lambda>_.
        bnd (SetStandardDenom (gStandardDenom genState)) (\<lambda>_.
        bnd (setSequence (gSequence genState)) (\<lambda>_.
        for_each setPool (gPool genState)))))"

definition ExportGenesis :: "('x cs_state, GenesisState) act" where
  "ExportGenesis =
     bnd GetParams (\<lambda>params.
     bnd GetStandardDenom (\<lambda>standardDenom.
     bnd GetAllPools (\<lambda>pools.
     bnd getSequence (\<lambda>sequence.
     ret \<lparr>gParams = params, gStandardDenom = standardDenom, gPool = pools, gSequence = sequence\<rparr>))))"

section \<open>What the accessors return\<close>

abbreviation cs_kv :: "'x cs_state \<Rightarrow> (bytes, cs_value) kv" where
  "cs_kv s \<equiv> kvstore (kown s)"

lemma GetParams_Ok_iff [act_simps]: "GetParams s = (Ok p, t) \<longleftrightarrow> pspace (kown s) = Some p \<and> t = s"
  by (simp add: GetParams_def)

lemma SetParams_Ok_iff [act_simps]: "SetParams L p s = (Ok u, t) \<longleftrightarrow>
    params_ok L p \<and> t = s\<lparr>kown := (kown s)\<lparr>pspace := Some p\<rparr>\<rparr>"
  by (simp add: SetParams_def)

lemma GetStandardDenom_Ok_iff [act_simps]: "GetStandardDenom s = (Ok d, t) \<longleftrightarrow> t = s \<and>
    (kv_get (cs_kv s) KeyStandardDenom = Some (StringVal d) \<or>
     kv_get (cs_kv s) KeyStandardDenom = None \<and> d = '''')"
  by (auto simp: GetStandardDenom_def split: option.split cs_value.split)

lemma getSequence_Ok_iff [act_simps]: "getSequence s = (Ok n, t) \<longleftrightarrow> t = s \<and>
    (kv_get (cs_kv s) KeyNextPoolSequence = Some (SeqVal n) \<or>
     kv_get (cs_kv s) KeyNextPoolSequence = None \<and> n = 1)"
  by (auto simp: getSequence_def split: option.split cs_value.split)

lemma GetPool_Ok_iff [act_simps]: "GetPool i s = (Ok r, t) \<longleftrightarrow> t = s \<and>
    ((\<exists>p. r = Some p \<and> kv_get (cs_kv s) (GetPoolKey i) = Some (PoolVal p)) \<or>
     r = None \<and> kv_get (cs_kv s) (GetPoolKey i) = None)"
  by (auto simp: GetPool_def split: option.split cs_value.split)

lemma GetPoolByLptDenom_Ok_iff [act_simps]: "GetPoolByLptDenom d s = (Ok r, t) \<longleftrightarrow>
    (\<exists>i. kv_get (cs_kv s) (GetLptDenomKey d) = Some (StringVal i) \<and> GetPool i s = (Ok r, t)) \<or>
    t = s \<and> r = None \<and> kv_get (cs_kv s) (GetLptDenomKey d) = None"
  by (auto simp: GetPoolByLptDenom_def split: option.split cs_value.split)

lemma account_balances_Ok_iff [act_simps]: "account_balances k a s = (Ok cs, t) \<longleftrightarrow> t = s \<and>
    (\<exists>b. GetAccount (ak k) a (kext s) = Some b \<and> cs = GetAllBalances (bk k) b (kext s))"
  by (auto simp: account_balances_def split: option.split)

lemma GetPoolBalances_Ok_iff [act_simps]: "GetPoolBalances L k e s = (Ok cs, t) \<longleftrightarrow> t = s \<and>
    (\<exists>a b. AccAddressFromBech32 L e = Ok a \<and> GetAccount (ak k) a (kext s) = Some b \<and>
      cs = GetAllBalances (bk k) b (kext s))"
  by (auto simp: GetPoolBalances_def account_balances_Ok_iff)

text \<open>The pool that trades two denominations: one of them is the standard one.\<close>

lemma GetLptDenomFromDenoms_Ok_iff [act_simps]:
  "GetLptDenomFromDenoms d e s = (Ok lpt, t) \<longleftrightarrow> t = s \<and> d \<noteq> e \<and>
     (\<exists>std p. GetStandardDenom s = (Ok std, s) \<and> (d = std \<or> e = std) \<and>
       kv_get (cs_kv s) (GetPoolKey (GetPoolId (if d = std then e else d))) = Some (PoolVal p) \<and>
       lpt = LptDenom p)"
  by (auto simp: GetLptDenomFromDenoms_def GetStandardDenom_Ok_iff GetPool_Ok_iff Let_def
      split: option.split)

text \<open>A store update that writes one pool.\<close>

definition pool_entries :: "Pool \<Rightarrow> (bytes \<times> cs_value) list" where
  "pool_entries p = [(GetPoolKey (Id p), PoolVal p), (GetLptDenomKey (LptDenom p), StringVal (Id p))]"

definition put_pool :: "Pool \<Rightarrow> (bytes, cs_value) kv \<Rightarrow> (bytes, cs_value) kv" where
  "put_pool p m = kv_set (GetLptDenomKey (LptDenom p)) (StringVal (Id p)) (kv_set (GetPoolKey (Id p)) (PoolVal p) m)"

lemma setPool_Ok_iff [act_simps]: "setPool p s = (Ok u, t) \<longleftrightarrow>
    t = s\<lparr>kown := (kown s)\<lparr>kvstore := put_pool p (cs_kv s)\<rparr>\<rparr>"
  by (simp add: setPool_def put_pool_def)

lemma for_each_setPool: "for_each setPool ps s =
    (Ok (), s\<lparr>kown := (kown s)\<lparr>kvstore := fold put_pool ps (cs_kv s)\<rparr>\<rparr>)"
proof (induction ps arbitrary: s)
  case (Cons p ps)
  have "setPool p s = (Ok (), s\<lparr>kown := (kown s)\<lparr>kvstore := put_pool p (cs_kv s)\<rparr>\<rparr>)"
    by (simp add: setPool_Ok_iff)
  then show ?case by (simp add: bnd_def Cons)
qed (simp add: ret_def)

lemma fold_put_pool: "fold put_pool ps m = kvs.put_all fst snd (concat (map pool_entries ps)) m"
  by (induction ps arbitrary: m) (simp_all add: pool_entries_def put_pool_def)

lemma kv_get_put_pool: "kv_get (put_pool p m) k =
    (if k = GetLptDenomKey (LptDenom p) then Some (StringVal (Id p))
     else if k = GetPoolKey (Id p) then Some (PoolVal p) else kv_get m k)"
  by (simp add: put_pool_def kv_get_set)

lemma kv_ok_put_pool: "kv_ok m \<Longrightarrow> kv_ok (put_pool p m)"
  by (simp add: put_pool_def kv_ok_set)

section \<open>The registry invariant\<close>

text \<open>Every entry has the type its key announces.\<close>

definition typed_ok :: "(bytes, cs_value) kv \<Rightarrow> bool" where
  "typed_ok m \<longleftrightarrow> (\<forall>k v. kv_get m k = Some v \<longrightarrow>
     (case v of
        PoolVal p \<Rightarrow> k = GetPoolKey (Id p)
      | SeqVal n \<Rightarrow> k = KeyNextPoolSequence
      | StringVal d \<Rightarrow> k = KeyStandardDenom \<or> (\<exists>lpt. k = GetLptDenomKey lpt)))"

definition has_pool :: "(bytes, cs_value) kv \<Rightarrow> Pool \<Rightarrow> bool" where
  "has_pool m p \<longleftrightarrow> kv_get m (GetPoolKey (Id p)) = Some (PoolVal p)"

definition next_seq :: "(bytes, cs_value) kv \<Rightarrow> u64" where
  "next_seq m = (case kv_get m KeyNextPoolSequence of Some (SeqVal n) \<Rightarrow> n | _ \<Rightarrow> 1)"

text \<open>
  The two indexes describe the same pools, a liquidity denomination belongs to one pool,
  and the sequence is one more than the largest number in use.
\<close>

definition registry_ok :: "sdk_lib \<Rightarrow> (bytes, cs_value) kv \<Rightarrow> bool" where
  "registry_ok L m \<longleftrightarrow> kv_ok m \<and> typed_ok m \<and>
     (\<forall>p. has_pool m p \<longrightarrow> pool_valid L p \<and> kv_get m (GetLptDenomKey (LptDenom p)) = Some (StringVal (Id p))
        \<and> (\<exists>n. ParseLptDenom (LptDenom p) = Ok n \<and> n < next_seq m)) \<and>
     (\<forall>lpt i. kv_get m (GetLptDenomKey lpt) = Some (StringVal i) \<longrightarrow>
        (\<exists>p. has_pool m p \<and> Id p = i \<and> LptDenom p = lpt)) \<and>
     (next_seq m = 1 \<or> (\<exists>p. has_pool m p \<and> ParseLptDenom (LptDenom p) = Ok (next_seq m - 1)))"

lemma registry_okD:
  assumes "registry_ok L m"
  shows "kv_ok m" "typed_ok m"
    "has_pool m p \<Longrightarrow> kv_get m (GetLptDenomKey (LptDenom p)) = Some (StringVal (Id p))"
    "has_pool m p \<Longrightarrow> pool_valid L p"
    "has_pool m p \<Longrightarrow> \<exists>n. ParseLptDenom (LptDenom p) = Ok n \<and> n < next_seq m"
    "kv_get m (GetLptDenomKey lpt) = Some (StringVal i) \<Longrightarrow> \<exists>p. has_pool m p \<and> Id p = i \<and> LptDenom p = lpt"
    "next_seq m \<noteq> 1 \<Longrightarrow> \<exists>p. has_pool m p \<and> ParseLptDenom (LptDenom p) = Ok (next_seq m - 1)"
  using assms by (auto simp: registry_ok_def)

lemma typed_entry: "typed_ok m \<Longrightarrow> kv_get m k = Some v \<Longrightarrow>
    (case v of PoolVal p \<Rightarrow> k = GetPoolKey (Id p) | SeqVal n \<Rightarrow> k = KeyNextPoolSequence
     | StringVal d \<Rightarrow> k = KeyStandardDenom \<or> (\<exists>lpt. k = GetLptDenomKey lpt))"
  by (simp add: typed_ok_def)

lemma typed_okD:
  assumes "typed_ok m"
  shows "kv_get m (GetPoolKey i) = Some v \<Longrightarrow> \<exists>p. v = PoolVal p \<and> Id p = i"
    "kv_get m (GetLptDenomKey lpt) = Some v \<Longrightarrow> \<exists>i. v = StringVal i"
    "kv_get m KeyStandardDenom = Some v \<Longrightarrow> \<exists>d. v = StringVal d"
    "kv_get m KeyNextPoolSequence = Some v \<Longrightarrow> \<exists>n. v = SeqVal n"
  using typed_entry [OF assms, of "GetPoolKey i" v] typed_entry [OF assms, of "GetLptDenomKey lpt" v]
    typed_entry [OF assms, of KeyStandardDenom v] typed_entry [OF assms, of KeyNextPoolSequence v]
  by (auto split: cs_value.splits)

text \<open>No accessor panics on a typed store.\<close>

lemma GetPool_typed:
  "typed_ok (cs_kv s) \<Longrightarrow> \<exists>r. GetPool i s = (Ok r, s)"
  by (cases "kv_get (cs_kv s) (GetPoolKey i)") (auto simp: GetPool_Ok_iff dest: typed_okD(1))

text \<open>Different pools have different liquidity denominations.\<close>

lemma pool_of_lpt:
  assumes "registry_ok L m" "has_pool m p" "has_pool m q" "LptDenom p = LptDenom q"
  shows "p = q"
proof -
  have "Id p = Id q"
    using registry_okD(3) [OF assms(1), of p] registry_okD(3) [OF assms(1), of q] assms by simp
  then show ?thesis using assms by (simp add: has_pool_def)
qed

lemma next_seq_get: "typed_ok (cs_kv s) \<Longrightarrow> getSequence s = (Ok (next_seq (cs_kv s)), s)"
  by (cases "kv_get (cs_kv s) KeyNextPoolSequence")
     (auto simp: getSequence_Ok_iff next_seq_def dest: typed_okD(4))

lemma registry_empty: "registry_ok L []"
  by (simp add: registry_ok_def typed_ok_def has_pool_def next_seq_def kv_get_def kv_ok_def)

text \<open>Entering a pool with the next number keeps the registry, as long as the counter does not wrap.\<close>

lemma registry_add_pool:
  assumes reg: "registry_ok L m"
    and new: "kv_get m (GetPoolKey (Id p)) = None" and p: "pool_valid L p"
    and lpt: "LptDenom p = GetLptDenom (next_seq m)" and wrap: "next_seq m + 1 \<noteq> 0"
  defines "m' \<equiv> put_pool p (kv_set KeyNextPoolSequence (SeqVal (next_seq m + 1)) m)"
  shows "registry_ok L m'"
proof -
  let ?n = "next_seq m"
  have fresh: "kv_get m (GetLptDenomKey (LptDenom p)) = None"
  proof (rule ccontr)
    assume "kv_get m (GetLptDenomKey (LptDenom p)) \<noteq> None"
    then obtain i where "kv_get m (GetLptDenomKey (LptDenom p)) = Some (StringVal i)"
      using typed_okD(2) [OF registry_okD(2) [OF reg]] by blast
    then obtain q where "has_pool m q" "LptDenom q = LptDenom p"
      using registry_okD(6) [OF reg] by blast
    then show False using registry_okD(5) [OF reg, of q] lpt by (auto simp: ParseLptDenom_ret)
  qed
  have get: "kv_get m' k = (if k = GetLptDenomKey (LptDenom p) then Some (StringVal (Id p))
      else if k = GetPoolKey (Id p) then Some (PoolVal p)
      else if k = KeyNextPoolSequence then Some (SeqVal (?n + 1)) else kv_get m k)" for k
    by (simp add: m'_def kv_get_put_pool kv_get_set)
  have next': "next_seq m' = ?n + 1" by (simp add: next_seq_def get)
  have has: "has_pool m' q \<longleftrightarrow> q = p \<or> has_pool m q" for q
    using new by (auto simp: has_pool_def get)
  have less: "n < ?n \<Longrightarrow> n < ?n + 1" "?n < ?n + 1" for n
    using word_less_succ [OF wrap] by (auto intro: less_trans)
  have "kv_ok m'" using registry_okD(1) [OF reg] by (simp add: m'_def kv_ok_put_pool kv_ok_set)
  moreover have "typed_ok m'"
    using registry_okD(2) [OF reg] unfolding typed_ok_def get by (auto split: if_splits)
  moreover have "\<exists>q. has_pool m' q \<and> ParseLptDenom (LptDenom q) = Ok (next_seq m' - 1)"
    using has lpt by (auto simp: next' ParseLptDenom_ret)
  moreover have "(\<exists>n. ParseLptDenom (LptDenom q) = Ok n \<and> n < next_seq m')" if "has_pool m' q" for q
    using that registry_okD(5) [OF reg, of q] has less lpt by (auto simp: next' ParseLptDenom_ret)
  moreover have "kv_get m' (GetLptDenomKey (LptDenom q)) = Some (StringVal (Id q))" if "has_pool m' q" for q
    using that registry_okD(3) [OF reg, of q] has fresh by (auto simp: get)
  moreover have "\<exists>q. has_pool m' q \<and> Id q = i \<and> LptDenom q = d"
    if "kv_get m' (GetLptDenomKey d) = Some (StringVal i)" for d i
    using that registry_okD(6) [OF reg, of d i] has by (auto simp: get split: if_splits)
  moreover have "pool_valid L q" if "has_pool m' q" for q
    using that registry_okD(4) [OF reg, of q] has p by auto
  ultimately show ?thesis unfolding registry_ok_def by blast
qed

lemma CreatePool_Ok_iff [act_simps]: "CreatePool L d s = (Ok p, t) \<longleftrightarrow>
    (\<exists>std n. GetStandardDenom s = (Ok std, s) \<and> getSequence s = (Ok n, s) \<and>
       p = \<lparr>Id = GetPoolId d, StandardDenom = std, CounterpartyDenom = d,
            EscrowAddress = AddrString L (GetReservePoolAddr L (GetLptDenom n)), LptDenom = GetLptDenom n\<rparr> \<and>
       t = s\<lparr>kown := (kown s)\<lparr>kvstore := put_pool p (kv_set KeyNextPoolSequence (SeqVal (n + 1)) (cs_kv s))\<rparr>\<rparr>)"
  by (auto simp: CreatePool_def GetStandardDenom_Ok_iff getSequence_Ok_iff Let_def setSequence_def setPool_Ok_iff)

section \<open>Genesis\<close>

lemma InitGenesis_Ok_iff: "InitGenesis L g s = (Ok u, t) \<longleftrightarrow>
    ValidateGenesis L g = Ok () \<and> params_ok L (gParams g) \<and>
    t = s\<lparr>kown := (kown s)\<lparr>pspace := Some (gParams g),
      kvstore := kvs.put_all fst snd ((KeyStandardDenom, StringVal (gStandardDenom g)) #
        (KeyNextPoolSequence, SeqVal (gSequence g)) # concat (map pool_entries (gPool g))) (cs_kv s)\<rparr>\<rparr>"
  by (cases "ValidateGenesis L g")
     (auto simp: InitGenesis_def SetParams_Ok_iff SetStandardDenom_def setSequence_def for_each_setPool fold_put_pool)

lemma pool_keys_distinct:
  "distinct (map Id ps) \<Longrightarrow> distinct (map LptDenom ps) \<Longrightarrow>
    distinct (map fst (concat (map pool_entries ps)))"
  by (induction ps) (auto simp: pool_entries_def)

lemma decode_pools_typed:
  assumes "typed_ok m" "kv_ok m"
  obtains ps where "decode_pools (kv_prefix KeyPool m) = Ok ps"
    and "kv_prefix KeyPool m = map (\<lambda>p. (GetPoolKey (Id p), PoolVal p)) ps"
proof -
  have entry: "\<exists>p. e = (GetPoolKey (Id p), PoolVal p)" if "e \<in> set (kv_prefix KeyPool m)" for e
  proof -
    obtain k v where e: "e = (k, v)" by (cases e)
    then have k: "HasPrefix k KeyPool" "kv_get m k = Some v"
      using that kv_prefix_get [OF assms(2)] by auto
    then show ?thesis
      using typed_entry [OF assms(1) k(2)] e
      by (auto simp: key_defs HasPrefix_def split: cs_value.splits)
  qed
  have "\<exists>ps. decode_pools es = Ok ps \<and> es = map (\<lambda>p. (GetPoolKey (Id p), PoolVal p)) ps"
    if "set es \<subseteq> set (kv_prefix KeyPool m)" for es
    using that
  proof (induction es)
    case (Cons e es)
    then obtain p where "e = (GetPoolKey (Id p), PoolVal p)" using entry [of e] by auto
    moreover obtain ps where "decode_pools es = Ok ps"
      "es = map (\<lambda>p. (GetPoolKey (Id p), PoolVal p)) ps" using Cons by auto
    ultimately show ?case by (intro exI [of _ "p # ps"]) simp
  qed simp
  then show thesis using that by blast
qed

lemma exported_pools:
  assumes "kv_ok m" and "kv_prefix KeyPool m = map (\<lambda>p. (GetPoolKey (Id p), PoolVal p)) ps"
  shows "p \<in> set ps \<longleftrightarrow> has_pool m p" "distinct (map Id ps)"
proof -
  have "p \<in> set ps \<longleftrightarrow> (GetPoolKey (Id p), PoolVal p) \<in> set (kv_prefix KeyPool m)"
    by (auto simp: assms(2))
  then show "p \<in> set ps \<longleftrightarrow> has_pool m p"
    using kv_prefix_get [OF assms(1), of "GetPoolKey (Id p)" "PoolVal p" KeyPool]
    by (simp add: has_pool_def GetPoolKey_def)
  have "sorted_wrt (<) (map fst (kv_prefix KeyPool m))"
    using kv_ok_prefix [OF assms(1)] by (simp add: kv_ok_def)
  then have "distinct (map (\<lambda>p. GetPoolKey (Id p)) ps)"
    by (simp add: strict_sorted_iff assms(2) o_def)
  then show "distinct (map Id ps)" by (simp add: distinct_map inj_on_def)
qed

text \<open>The store a valid genesis writes.\<close>

lemma genesis_registry:
  assumes val: "ValidateGenesis L g = Ok ()" and wrap: "gSequence g \<noteq> 0"
  defines "es \<equiv> (KeyStandardDenom, StringVal (gStandardDenom g)) #
        (KeyNextPoolSequence, SeqVal (gSequence g)) # concat (map pool_entries (gPool g))"
  shows "registry_ok L (kvs.put_all fst snd es [])"
proof -
  let ?m = "kvs.put_all fst snd es []"
  obtain n where n: "validate_pools L [] [] 0 (gPool g) = Ok n" and seq: "gSequence g = n + 1"
    using val by (auto simp: ValidateGenesis_def split: if_splits)
  note vp = validate_pools_Ok [OF n]
  have ok: "kv_ok ([] :: (bytes, cs_value) kv)" by (simp add: kv_ok_def)
  have d: "distinct (map fst es)"
    using vp pool_keys_distinct [of "gPool g"] by (auto simp: es_def pool_entries_def)
  have get: "kv_get ?m k = Some v \<longleftrightarrow> (k, v) \<in> set es" for k v
    using kvs.get_put_all [OF ok d, of "(k, v)"] kvs.get_put_all_Some [OF ok d, where k = k and v = v and val = snd]
    by (auto simp: kv_get_def)
  have has: "has_pool ?m p \<longleftrightarrow> p \<in> set (gPool g)" for p
    unfolding has_pool_def get by (auto simp: es_def pool_entries_def)
  have lpt: "kv_get ?m (GetLptDenomKey l) = Some (StringVal i) \<longleftrightarrow>
      (\<exists>p \<in> set (gPool g). LptDenom p = l \<and> Id p = i)" for l i
    unfolding get by (auto simp: es_def pool_entries_def)
  have "kv_get ?m KeyNextPoolSequence = Some (SeqVal (gSequence g))"
    unfolding get by (simp add: es_def)
  then have ns: "next_seq ?m = n + 1" by (simp add: next_seq_def seq)
  have "n < n + 1" using wrap seq word_less_succ [of n] by simp
  then have "q < n + 1" if "q \<le> n" for q using that by simp
  moreover have "kv_ok ?m" by (rule kvs.inv_put_all [OF ok])
  moreover have "typed_ok ?m" unfolding typed_ok_def get by (auto simp: es_def pool_entries_def)
  moreover have "n + 1 = 1 \<or> (\<exists>p. p \<in> set (gPool g) \<and> ParseLptDenom (LptDenom p) = Ok (n + 1 - 1))"
    using vp by auto
  ultimately show ?thesis
    using vp unfolding registry_ok_def has lpt ns by blast
qed

text \<open>An exported state passes validation.\<close>

lemma export_valid:
  assumes reg: "registry_ok L m" and std: "ValidateDenom L d = Ok ()" and p: "params_ok L p"
    and ps: "kv_prefix KeyPool m = map (\<lambda>p. (GetPoolKey (Id p), PoolVal p)) ps"
  shows "ValidateGenesis L \<lparr>gParams = p, gStandardDenom = d, gPool = ps, gSequence = next_seq m\<rparr> = Ok ()"
proof -
  note ex = exported_pools [OF registry_okD(1) [OF reg] ps]
  have lpts: "distinct (map LptDenom ps)"
    using pool_of_lpt [OF reg] ex by (auto simp: distinct_map inj_on_def)
  have "\<exists>n. validate_pools L [] [] 0 ps = Ok n"
    using ex lpts by (intro validate_pools_total) (auto dest: registry_okD(4,5) [OF reg])
  then obtain n where n: "validate_pools L [] [] 0 ps = Ok n" by auto
  note vp = validate_pools_Ok [OF n]
  have "n < next_seq m" if "n \<noteq> 0"
  proof -
    have "\<exists>q \<in> set ps. ParseLptDenom (LptDenom q) = Ok n" using vp that by blast
    then obtain q where q: "has_pool m q" "ParseLptDenom (LptDenom q) = Ok n" using ex(1) by blast
    then show ?thesis using registry_okD(5) [OF reg q(1)] by auto
  qed
  then have up: "n \<le> next_seq m - 1" using less_imp_less_eq_dec [of n] by (cases "n = 0") auto
  have "n = next_seq m - 1"
  proof (cases "next_seq m = 1")
    case False
    then obtain q where "has_pool m q" "ParseLptDenom (LptDenom q) = Ok (next_seq m - 1)"
      using registry_okD(7) [OF reg] by blast
    moreover from this have "q \<in> set ps" using ex(1) by blast
    ultimately have "next_seq m - 1 \<le> n" using vp by (metis res.inject(1))
    then show ?thesis using up by simp
  qed (use up in simp)
  then have "n + 1 = next_seq m" by simp
  then show ?thesis
    using n std params_okD(1,2) [OF p] by (simp add: ValidateGenesis_def Validate_def)
qed

text \<open>The entries of a registry, in the order the import writes them.\<close>

lemma registry_entries:
  assumes reg: "registry_ok L m" and std: "kv_get m KeyStandardDenom = Some (StringVal d)"
    and seq: "kv_get m KeyNextPoolSequence = Some (SeqVal n)"
    and ps: "kv_prefix KeyPool m = map (\<lambda>p. (GetPoolKey (Id p), PoolVal p)) ps"
  shows "kvs.put_all fst snd ((KeyStandardDenom, StringVal d) # (KeyNextPoolSequence, SeqVal n) #
    concat (map pool_entries ps)) [] = m"
proof (rule kvs.restore)
  note ex = exported_pools [OF registry_okD(1) [OF reg] ps]
  show "kv_ok m" by (rule registry_okD(1) [OF reg])
  have "distinct (map LptDenom ps)"
    using pool_of_lpt [OF reg] ex by (auto simp: distinct_map inj_on_def)
  then show "distinct (map fst ((KeyStandardDenom, StringVal d) # (KeyNextPoolSequence, SeqVal n) #
      concat (map pool_entries ps)))"
    using pool_keys_distinct [of ps] ex by (auto simp: pool_entries_def)
  have mem: "(k, v) \<in> set m \<longleftrightarrow> kv_get m k = Some v" for k v
    using kvs.entry_get [OF registry_okD(1) [OF reg], of k v] by simp
  show "set ((KeyStandardDenom, StringVal d) # (KeyNextPoolSequence, SeqVal n) # concat (map pool_entries ps)) = set m"
  proof (intro subset_antisym subsetI; clarify)
    fix k v
    assume "(k, v) \<in> set ((KeyStandardDenom, StringVal d) # (KeyNextPoolSequence, SeqVal n) #
      concat (map pool_entries ps))"
    then show "(k, v) \<in> set m"
      using std seq registry_okD(3) [OF reg] ex(1) by (auto simp: mem pool_entries_def has_pool_def)
  next
    fix k v
    assume "(k, v) \<in> set m"
    then have kv: "kv_get m k = Some v" by (simp add: mem)
    show "(k, v) \<in> set ((KeyStandardDenom, StringVal d) # (KeyNextPoolSequence, SeqVal n) #
      concat (map pool_entries ps))"
    proof (cases v)
      case (StringVal i)
      then consider "k = KeyStandardDenom" | lpt where "k = GetLptDenomKey lpt"
        using typed_entry [OF registry_okD(2) [OF reg] kv] by auto
      then show ?thesis
      proof cases
        case (2 lpt)
        then obtain p where "has_pool m p" "Id p = i" "LptDenom p = lpt"
          using registry_okD(6) [OF reg] kv StringVal by blast
        then show ?thesis using ex(1) 2 StringVal by (auto simp: pool_entries_def)
      qed (use kv std in simp)
    qed (use typed_entry [OF registry_okD(2) [OF reg] kv] kv std seq ex(1) in
      \<open>auto simp: pool_entries_def has_pool_def\<close>)
  qed
qed

end
