(* ===== verification/Coinswap_Keeper.thy ===== *)
theory Coinswap_Keeper
  imports Coinswap_Pool
begin

text \<open>
  The state-changing operations of x/coinswap/keeper: swap.go, fees.go, the liquidity
  operations of keeper.go and the handlers of msg_server.go, with the lemmas on what a
  successful call does to the reserves of a pool and to the balances of the sender.
\<close>

section \<open>swap.go\<close>

definition swapCoins ::
  "sdk_lib \<Rightarrow> 'x Keeper \<Rightarrow> bytes \<Rightarrow> bytes \<Rightarrow> coin \<Rightarrow> coin \<Rightarrow> ('x cs_state, unit) act" where
  "swapCoins L k sender recipient coinSold coinBought =
     bnd (GetLptDenomFromDenoms (Denom coinSold) (Denom coinBought)) (\<lambda>lptDenom.
     let poolAddr = GetReservePoolAddr L lptDenom in
     bnd (lift (NewCoins L [coinSold])) (\<lambda>sold.
     bnd (on_ext (SendCoins (bk k) sender poolAddr sold)) (\<lambda>_.
     let recipient = (if recipient = [] then sender else recipient) in
     bnd (lift (NewCoins L [coinBought])) (\<lambda>bought.
     on_ext (SendCoins (bk k) poolAddr recipient bought)))))"

definition calculateWithExactInput ::
  "sdk_lib \<Rightarrow> 'x Keeper \<Rightarrow> coin \<Rightarrow> string \<Rightarrow> ('x cs_state, int) act" where
  "calculateWithExactInput L k exactSoldCoin boughtTokenDenom =
     bnd (GetLptDenomFromDenoms (Denom exactSoldCoin) boughtTokenDenom) (\<lambda>lptDenom.
     bnd (GetPoolBalances L k (AddrString L (GetReservePoolAddr L lptDenom))) (\<lambda>reservePool.
     bnd (lift (AmountOf L reservePool (Denom exactSoldCoin))) (\<lambda>inputReserve.
     bnd (lift (AmountOf L reservePool boughtTokenDenom)) (\<lambda>outputReserve.
     if \<not> 0 < inputReserve then raise ErrInsufficientFunds
     else if \<not> 0 < outputReserve then raise ErrInsufficientFunds
     else bnd GetParams (\<lambda>param.
       lift (GetInputPrice L (Amount exactSoldCoin) inputReserve outputReserve (Fee param)))))))"

fun find_coin :: "coin list \<Rightarrow> string \<Rightarrow> coin res" where
  "find_coin [] denom = Err ErrInvalidDenom"
| "find_coin (coin # coins) denom = (if Denom coin = denom then Ok coin else find_coin coins denom)"

definition GetMaximumSwapAmount :: "string \<Rightarrow> ('x cs_state, coin) act" where
  "GetMaximumSwapAmount denom = bnd GetParams (\<lambda>params. lift (find_coin (MaxSwapAmount params) denom))"

definition TradeExactInputForOutput ::
  "sdk_lib \<Rightarrow> 'x Keeper \<Rightarrow> swap_side \<Rightarrow> swap_side \<Rightarrow> ('x cs_state, int) act" where
  "TradeExactInputForOutput L k input out =
     bnd (calculateWithExactInput L k (Coin input) (Denom (Coin out))) (\<lambda>boughtTokenAmt.
     if boughtTokenAmt < Amount (Coin out) then raise ErrConstraintNotMet
     else
       bnd (lift (NewCoin L (Denom (Coin out)) boughtTokenAmt)) (\<lambda>boughtToken.
       bnd (lift (AccAddressFromBech32 L (Address input))) (\<lambda>inputAddress.
       bnd (lift (AccAddressFromBech32 L (Address out))) (\<lambda>outputAddress.
       bnd GetStandardDenom (\<lambda>standardDenom.
       let quoteCoinToSwap = (if Denom boughtToken \<noteq> standardDenom then boughtToken else Coin input) in
       bnd (GetMaximumSwapAmount (Denom quoteCoinToSwap)) (\<lambda>maxSwapAmount.
       if Amount maxSwapAmount < Amount quoteCoinToSwap then raise ErrConstraintNotMet
       else
         bnd (swapCoins L k inputAddress outputAddress (Coin input) boughtToken) (\<lambda>_.
         ret boughtTokenAmt)))))))"

definition calculateWithExactOutput ::
  "sdk_lib \<Rightarrow> 'x Keeper \<Rightarrow> coin \<Rightarrow> string \<Rightarrow> ('x cs_state, int) act" where
  "calculateWithExactOutput L k exactBoughtCoin soldTokenDenom =
     bnd (GetLptDenomFromDenoms (Denom exactBoughtCoin) soldTokenDenom) (\<lambda>lptDenom.
     bnd (GetPoolBalances L k (AddrString L (GetReservePoolAddr L lptDenom))) (\<lambda>reservePool.
     bnd (lift (AmountOf L reservePool (Denom exactBoughtCoin))) (\<lambda>outputReserve.
     bnd (lift (AmountOf L reservePool soldTokenDenom)) (\<lambda>inputReserve.
     if \<not> 0 < inputReserve then raise ErrInsufficientFunds
     else if \<not> 0 < outputReserve then raise ErrInsufficientFunds
     else if outputReserve \<le> Amount exactBoughtCoin then raise ErrInsufficientFunds
     else bnd GetParams (\<lambda>param.
       lift (GetOutputPrice L (Amount exactBoughtCoin) inputReserve outputReserve (Fee param)))))))"

definition TradeInputForExactOutput ::
  "sdk_lib \<Rightarrow> 'x Keeper \<Rightarrow> swap_side \<Rightarrow> swap_side \<Rightarrow> ('x cs_state, int) act" where
  "TradeInputForExactOutput L k input out =
     bnd (calculateWithExactOutput L k (Coin out) (Denom (Coin input))) (\<lambda>soldTokenAmt.
     if Amount (Coin input) < soldTokenAmt then raise ErrConstraintNotMet
     else
       bnd (lift (NewCoin L (Denom (Coin input)) soldTokenAmt)) (\<lambda>soldToken.
       bnd (lift (AccAddressFromBech32 L (Address input))) (\<lambda>inputAddress.
       bnd (lift (AccAddressFromBech32 L (Address out))) (\<lambda>outputAddress.
       bnd GetStandardDenom (\<lambda>standardDenom.
       let quoteCoinToSwap = (if Denom soldToken \<noteq> standardDenom then soldToken else Coin out) in
       bnd (GetMaximumSwapAmount (Denom quoteCoinToSwap)) (\<lambda>maxSwapAmount.
       if Amount maxSwapAmount < Amount quoteCoinToSwap then raise ErrConstraintNotMet
       else
         bnd (swapCoins L k inputAddress outputAddress soldToken (Coin out)) (\<lambda>_.
         ret soldTokenAmt)))))))"

section \<open>fees.go\<close>

definition DeductPoolCreationFee :: "sdk_lib \<Rightarrow> 'x Keeper \<Rightarrow> bytes \<Rightarrow> ('x cs_state, unit) act" where
  "DeductPoolCreationFee L k creator =
     bnd GetParams (\<lambda>params.
     let poolCreationFee = PoolCreationFee params in
     bnd (lift (DecMul L (LegacyNewDecFromInt (Amount poolCreationFee)) (TaxRate params))) (\<lambda>tax.
     bnd (lift (DecTruncateInt L tax)) (\<lambda>taxAmt.
     bnd (lift (NewCoin L (Denom poolCreationFee) taxAmt)) (\<lambda>communityTaxCoin.
     bnd (lift (CoinSub L poolCreationFee communityTaxCoin)) (\<lambda>burned.
     bnd (lift (NewCoins L [burned])) (\<lambda>burnedCoins.
     bnd (lift (NewCoins L [poolCreationFee])) (\<lambda>fees.
     bnd (on_ext (SendCoinsFromAccountToModule (bk k) creator ModuleName fees)) (\<lambda>_.
     bnd (lift (NewCoins L [communityTaxCoin])) (\<lambda>taxCoins.
     bnd (on_ext (SendCoinsFromModuleToModule (bk k) ModuleName (feeCollectorName k) taxCoins)) (\<lambda>_.
     on_ext (BurnCoins (bk k) ModuleName burnedCoins)))))))))))"

section \<open>keeper.go\<close>

definition Swap :: "sdk_lib \<Rightarrow> 'x Keeper \<Rightarrow> MsgSwapOrder \<Rightarrow> ('x cs_state, unit) act" where
  "Swap L k msg =
     bnd GetStandardDenom (\<lambda>standardDenom.
     let isDoubleSwap = (Denom (Coin (Input msg)) \<noteq> standardDenom \<and> Denom (Coin (Output msg)) \<noteq> standardDenom) in
     if isDoubleSwap then raise ErrNotContainStandardDenom
     else
       bnd (if IsBuyOrder msg then TradeInputForExactOutput L k (Input msg) (Output msg)
            else TradeExactInputForOutput L k (Input msg) (Output msg)) (\<lambda>amount.
       ret ()))"

definition addLiquidity ::
  "sdk_lib \<Rightarrow> 'x Keeper \<Rightarrow> bytes \<Rightarrow> bytes \<Rightarrow> coin \<Rightarrow> coin \<Rightarrow> string \<Rightarrow> int \<Rightarrow> ('x cs_state, coin) act" where
  "addLiquidity L k sender reservePoolAddress standardCoin token lptDenom mintLiquidityAmt =
     bnd (lift (NewCoins L [standardCoin, token])) (\<lambda>depositedTokens.
     bnd (on_ext (SendCoins (bk k) sender reservePoolAddress depositedTokens)) (\<lambda>_.
     bnd (lift (NewCoin L lptDenom mintLiquidityAmt)) (\<lambda>mintToken.
     bnd (lift (NewCoins L [mintToken])) (\<lambda>mintTokens.
     bnd (on_ext (MintCoins (bk k) ModuleName mintTokens)) (\<lambda>_.
     bnd (on_ext (SendCoinsFromModuleToAccount (bk k) ModuleName sender mintTokens)) (\<lambda>_.
     ret mintToken))))))"

text \<open>The amounts of a first deposit, into a new pool or one that is empty.\<close>

definition initial_deposit :: "sdk_lib \<Rightarrow> Params \<Rightarrow> MsgAddLiquidity \<Rightarrow> (int \<times> coin) res" where
  "initial_deposit L params msg =
     (let mintLiquidityAmt = ExactStandardAmt msg in
      if MaxStandardCoinPerPool params < mintLiquidityAmt then Err ErrMaxedStandardDenom
      else if mintLiquidityAmt < MinLiquidity msg then Err ErrConstraintNotMet
      else rbind (NewCoin L (Denom (MaxToken msg)) (Amount (MaxToken msg))) (\<lambda>depositToken.
        Ok (mintLiquidityAmt, depositToken)))"

text \<open>The amounts of a further deposit: liquidity to mint, token and standard coin to pay.\<close>

definition next_deposit ::
  "sdk_lib \<Rightarrow> Params \<Rightarrow> MsgAddLiquidity \<Rightarrow> string \<Rightarrow> int \<Rightarrow> int \<Rightarrow> int \<Rightarrow> (int \<times> coin \<times> coin) res" where
  "next_deposit L params msg standardDenom standardReserveAmt tokenReserveAmt liquidity =
     (if MaxStandardCoinPerPool params \<le> standardReserveAmt then Err ErrMaxedStandardDenom
      else
        rbind (IntSub L (MaxStandardCoinPerPool params) standardReserveAmt) (\<lambda>room.
        let maxStandardInputAmt = min (ExactStandardAmt msg) room in
        rbind (IntMul L liquidity maxStandardInputAmt) (\<lambda>share.
        rbind (IntQuo L share standardReserveAmt) (\<lambda>mintLiquidityAmt.
        if mintLiquidityAmt < MinLiquidity msg then Err ErrConstraintNotMet
        else
          rbind (IntMul L tokenReserveAmt maxStandardInputAmt) (\<lambda>tokenShare.
          rbind (IntQuo L tokenShare standardReserveAmt) (\<lambda>quotient.
          rbind (IntAdd L quotient 1) (\<lambda>depositAmt.
          rbind (NewCoin L (Denom (MaxToken msg)) depositAmt) (\<lambda>depositToken.
          rbind (NewCoin L standardDenom maxStandardInputAmt) (\<lambda>standardCoin.
          if Amount (MaxToken msg) < depositAmt then Err ErrConstraintNotMet
          else Ok (mintLiquidityAmt, depositToken, standardCoin))))))))))"

definition AddLiquidity :: "sdk_lib \<Rightarrow> 'x Keeper \<Rightarrow> MsgAddLiquidity \<Rightarrow> ('x cs_state, coin) act" where
  "AddLiquidity L k msg =
     bnd GetStandardDenom (\<lambda>standardDenom.
     if standardDenom = Denom (MaxToken msg) then raise ErrInvalidDenom
     else
       bnd GetParams (\<lambda>params.
       bnd (lift (AmountOf L (MaxSwapAmount params) (Denom (MaxToken msg)))) (\<lambda>limit.
       if \<not> 0 < limit then raise ErrInvalidDenom
       else
         bnd (lift (NewCoin L standardDenom (ExactStandardAmt msg))) (\<lambda>standardCoin.
         bnd (GetPool (GetPoolId (Denom (MaxToken msg)))) (\<lambda>existing.
         bnd (lift (AccAddressFromBech32 L (addSender msg))) (\<lambda>sender.
         bnd (case existing of
                None \<Rightarrow>
                  bnd (DeductPoolCreationFee L k sender) (\<lambda>_.
                  bnd (lift (initial_deposit L params msg)) (\<lambda>(mintLiquidityAmt, depositToken).
                  bnd (CreatePool L (Denom (MaxToken msg))) (\<lambda>pool.
                  ret (pool, standardCoin, depositToken, mintLiquidityAmt))))
              | Some pool \<Rightarrow>
                  bnd (GetPoolBalances L k (EscrowAddress pool)) (\<lambda>balances.
                  bnd (lift (AmountOf L balances standardDenom)) (\<lambda>standardReserveAmt.
                  bnd (lift (AmountOf L balances (Denom (MaxToken msg)))) (\<lambda>tokenReserveAmt.
                  bnd (gets (\<lambda>s. Amount (GetSupply (bk k) (LptDenom pool) (kext s)))) (\<lambda>liquidity.
                  if liquidity = 0 then
                    bnd (lift (initial_deposit L params msg)) (\<lambda>(mintLiquidityAmt, depositToken).
                    ret (pool, standardCoin, depositToken, mintLiquidityAmt))
                  else
                    bnd (lift (next_deposit L params msg standardDenom standardReserveAmt tokenReserveAmt liquidity))
                      (\<lambda>(mintLiquidityAmt, depositToken, standardCoin).
                    ret (pool, standardCoin, depositToken, mintLiquidityAmt)))))))
           (\<lambda>(pool, standardCoin, depositToken, mintLiquidityAmt).
         bnd (lift (AccAddressFromBech32 L (EscrowAddress pool))) (\<lambda>reservePoolAddress.
         addLiquidity L k sender reservePoolAddress standardCoin depositToken (LptDenom pool) mintLiquidityAmt))))))))"

definition removeLiquidity ::
  "sdk_lib \<Rightarrow> 'x Keeper \<Rightarrow> bytes \<Rightarrow> bytes \<Rightarrow> coin \<Rightarrow> coin \<Rightarrow> coin \<Rightarrow> ('x cs_state, coin list) act" where
  "removeLiquidity L k poolAddr sender deductUniCoin standardWithdrawCoin tokenWithdrawCoin =
     bnd (lift (NewCoins L [deductUniCoin])) (\<lambda>deltaCoins.
     bnd (on_ext (SendCoinsFromAccountToModule (bk k) sender ModuleName deltaCoins)) (\<lambda>_.
     bnd (on_ext (BurnCoins (bk k) ModuleName deltaCoins)) (\<lambda>_.
     bnd (lift (NewCoins L [standardWithdrawCoin, tokenWithdrawCoin])) (\<lambda>coins.
     bnd (on_ext (SendCoins (bk k) poolAddr sender coins)) (\<lambda>_.
     ret coins)))))"

definition RemoveLiquidity :: "sdk_lib \<Rightarrow> 'x Keeper \<Rightarrow> MsgRemoveLiquidity \<Rightarrow> ('x cs_state, coin list) act" where
  "RemoveLiquidity L k msg =
     bnd GetStandardDenom (\<lambda>standardDenom.
     let lptDenom = Denom (WithdrawLiquidity msg) in
     bnd (GetPoolByLptDenom lptDenom) (\<lambda>existing.
     case existing of None \<Rightarrow> raise ErrReservePoolNotExists
     | Some pool \<Rightarrow>
       bnd (GetPoolBalances L k (EscrowAddress pool)) (\<lambda>balances.
       let minTokenDenom = CounterpartyDenom pool in
       bnd (lift (AmountOf L balances standardDenom)) (\<lambda>standardReserveAmt.
       bnd (lift (AmountOf L balances minTokenDenom)) (\<lambda>tokenReserveAmt.
       bnd (gets (\<lambda>s. Amount (GetSupply (bk k) lptDenom (kext s)))) (\<lambda>liquidityReserve.
       if standardReserveAmt < MinStandardAmt msg then raise ErrInsufficientFunds
       else if tokenReserveAmt < MinToken msg then raise ErrInsufficientFunds
       else if liquidityReserve < Amount (WithdrawLiquidity msg) then raise ErrInsufficientFunds
       else
         bnd (lift (IntMul L (Amount (WithdrawLiquidity msg)) standardReserveAmt)) (\<lambda>standardShare.
         bnd (lift (IntQuo L standardShare liquidityReserve)) (\<lambda>standardWithdrawAmt.
         bnd (lift (IntMul L (Amount (WithdrawLiquidity msg)) tokenReserveAmt)) (\<lambda>tokenShare.
         bnd (lift (IntQuo L tokenShare liquidityReserve)) (\<lambda>tokenWithdrawnAmt.
         bnd (lift (NewCoin L standardDenom standardWithdrawAmt)) (\<lambda>standardWithdrawCoin.
         bnd (lift (NewCoin L minTokenDenom tokenWithdrawnAmt)) (\<lambda>tokenWithdrawCoin.
         if Amount standardWithdrawCoin < MinStandardAmt msg then raise ErrConstraintNotMet
         else if Amount tokenWithdrawCoin < MinToken msg then raise ErrConstraintNotMet
         else
           bnd (lift (AccAddressFromBech32 L (removeSender msg))) (\<lambda>sender.
           bnd (lift (AccAddressFromBech32 L (EscrowAddress pool))) (\<lambda>poolAddr.
           removeLiquidity L k poolAddr sender (WithdrawLiquidity msg) standardWithdrawCoin tokenWithdrawCoin))))))))))))))"

section \<open>msg_server.go\<close>

text \<open>An address that does not decode is reported as an invalid address.\<close>

definition check_address :: "sdk_lib \<Rightarrow> string \<Rightarrow> unit res" where
  "check_address L a =
     (case AccAddressFromBech32 L a of
        Err e \<Rightarrow> Err (SdkErr ''ErrInvalidAddress'') | Panic p \<Rightarrow> Panic p | Ok _ \<Rightarrow> Ok ())"

definition msg_AddLiquidity ::
  "sdk_lib \<Rightarrow> 'x Keeper \<Rightarrow> block_ctx \<Rightarrow> MsgAddLiquidity \<Rightarrow> ('x cs_state, coin) act" where
  "msg_AddLiquidity L k ctx msg =
     bnd (lift (ValidateMaxToken L (MaxToken msg))) (\<lambda>_.
     bnd (lift (ValidateExactStandardAmt (ExactStandardAmt msg))) (\<lambda>_.
     bnd (lift (ValidateMinLiquidity (MinLiquidity msg))) (\<lambda>_.
     bnd (lift (ValidateDeadline (addDeadline msg))) (\<lambda>_.
     bnd (lift (check_address L (addSender msg))) (\<lambda>_.
     if time_Unix (addDeadline msg) < BlockTime ctx then raise ErrInvalidDeadline
     else AddLiquidity L k msg)))))"

text \<open>
  The response holds pointers to the one loop variable (the language version is Go 1.21),
  so every entry shows the last coin.
\<close>

definition msg_RemoveLiquidity ::
  "sdk_lib \<Rightarrow> 'x Keeper \<Rightarrow> block_ctx \<Rightarrow> MsgRemoveLiquidity \<Rightarrow> ('x cs_state, coin list) act" where
  "msg_RemoveLiquidity L k ctx msg =
     bnd (lift (ValidateMinToken (MinToken msg))) (\<lambda>_.
     bnd (lift (ValidateWithdrawLiquidity L (WithdrawLiquidity msg))) (\<lambda>_.
     bnd (lift (ValidateMinStandardAmt (MinStandardAmt msg))) (\<lambda>_.
     bnd (lift (ValidateDeadline (removeDeadline msg))) (\<lambda>_.
     bnd (lift (check_address L (removeSender msg))) (\<lambda>_.
     if time_Unix (removeDeadline msg) < BlockTime ctx then raise ErrInvalidDeadline
     else
       bnd (RemoveLiquidity L k msg) (\<lambda>withdrawCoins.
       ret (map (\<lambda>_. last withdrawCoins) withdrawCoins)))))))"

definition msg_SwapCoin ::
  "sdk_lib \<Rightarrow> 'x Keeper \<Rightarrow> block_ctx \<Rightarrow> MsgSwapOrder \<Rightarrow> ('x cs_state, unit) act" where
  "msg_SwapCoin L k ctx msg =
     bnd (lift (ValidateInput L (Input msg))) (\<lambda>_.
     bnd (lift (ValidateOutput L (Output msg))) (\<lambda>_.
     if Denom (Coin (Input msg)) = Denom (Coin (Output msg)) then raise ErrEqualDenom
     else
       bnd (lift (ValidateDeadline (swapDeadline msg))) (\<lambda>_.
       if time_Unix (swapDeadline msg) < BlockTime ctx then raise ErrInvalidDeadline
       else if Address (Output msg) \<in> set (blockedAddrs k) then raise (SdkErr ''ErrUnauthorized'')
       else Swap L k msg)))"

definition msg_UpdateParams :: "sdk_lib \<Rightarrow> 'x Keeper \<Rightarrow> MsgUpdateParams \<Rightarrow> ('x cs_state, unit) act" where
  "msg_UpdateParams L k req =
     (if authority k \<noteq> Authority req then raise (SdkErr ''ErrInvalidSigner'')
      else bnd (lift (Validate (newParams req))) (\<lambda>_. SetParams L (newParams req)))"

section \<open>Successful swaps\<close>

text \<open>
  Account \<open>a\<close> pays \<open>sold\<close> into the pool account \<open>p\<close>, which pays \<open>bought\<close> to \<open>r\<close>.
\<close>

definition swapped ::
  "'x bank_keeper \<Rightarrow> 'x \<Rightarrow> bytes \<Rightarrow> bytes \<Rightarrow> bytes \<Rightarrow> coin \<Rightarrow> coin \<Rightarrow> 'x \<Rightarrow> bool" where
  "swapped b x a p r sold bought x' \<longleftrightarrow>
     (\<forall>c d. bal b x' c d = bal b x c d
        - (if c = a then coins_amt [sold] d else 0) + (if c = p then coins_amt [sold] d else 0)
        - (if c = p then coins_amt [bought] d else 0) + (if c = r then coins_amt [bought] d else 0)) \<and>
     (\<forall>d. sup b x' d = sup b x d)"

text \<open>The environment of the module: a keeper whose bank and accounts keep their contract.\<close>

locale coinswap_env = bank_laws L "bk k" "ak k" binv
  for L :: sdk_lib and k :: "'x Keeper" and binv :: "'x \<Rightarrow> bool"
begin

lemma swapCoins_Ok:
  assumes inv: "binv (kext s)" and run: "swapCoins L k a b sold bought s = (Ok u, t)"
  obtains lpt where "GetLptDenomFromDenoms (Denom sold) (Denom bought) s = (Ok lpt, s)"
    "kown t = kown s" "binv (kext t)"
    "swapped (bk k) (kext s) a (GetReservePoolAddr L lpt) (if b = [] then a else b) sold bought (kext t)"
proof -
  obtain lpt cs ds x y where lpt: "GetLptDenomFromDenoms (Denom sold) (Denom bought) s = (Ok lpt, s)"
    and cs: "NewCoins L [sold] = Ok cs" and ds: "NewCoins L [bought] = Ok ds"
    and x: "SendCoins (bk k) a (GetReservePoolAddr L lpt) cs (kext s) = (Ok (), x)"
    and y: "SendCoins (bk k) (GetReservePoolAddr L lpt) (if b = [] then a else b) ds x = (Ok (), y)"
    and t: "t = s\<lparr>kext := y\<rparr>"
    using run by (auto simp: swapCoins_def Let_def GetLptDenomFromDenoms_Ok_iff)
  note s1 = send [OF inv x] note s2 = send [OF conjunct1 [OF s1] y]
  show thesis
    using that [OF lpt] s1 s2 NewCoins_amt [OF cs] NewCoins_amt [OF ds]
    by (simp add: t swapped_def moves_def)
qed

lemma reserves:
  assumes "binv (kext s)" and "GetPoolBalances L k (AddrString L (GetReservePoolAddr L lpt)) s = (Ok cs, t)"
    and "AmountOf L cs d = Ok n"
  shows "n = bal (bk k) (kext s) (GetReservePoolAddr L lpt) d"
proof -
  have "cs = GetAllBalances (bk k) (GetReservePoolAddr L lpt) (kext s)"
    using assms(2) AddressHash_roundtrip account_address
    by (auto simp: GetPoolBalances_Ok_iff GetReservePoolAddr_def)
  then show ?thesis using AmountOf_all [OF assms(1)] assms(3) by simp
qed

lemma calculateWithExactInput_Ok:
  assumes inv: "binv (kext s)" and run: "calculateWithExactInput L k sold d s = (Ok n, t)"
  obtains lpt p where "t = s" "GetLptDenomFromDenoms (Denom sold) d s = (Ok lpt, s)"
    "pspace (kown s) = Some p"
    "0 < bal (bk k) (kext s) (GetReservePoolAddr L lpt) (Denom sold)"
    "0 < bal (bk k) (kext s) (GetReservePoolAddr L lpt) d"
    "GetInputPrice L (Amount sold) (bal (bk k) (kext s) (GetReservePoolAddr L lpt) (Denom sold))
       (bal (bk k) (kext s) (GetReservePoolAddr L lpt) d) (Fee p) = Ok n"
proof -
  obtain lpt cs x y where lpt: "GetLptDenomFromDenoms (Denom sold) d s = (Ok lpt, s)"
    and cs: "GetPoolBalances L k (AddrString L (GetReservePoolAddr L lpt)) s = (Ok cs, s)"
    and x: "AmountOf L cs (Denom sold) = Ok x" and y: "AmountOf L cs d = Ok y"
    and rest: "0 < x" "0 < y" "bnd GetParams (\<lambda>p. lift (GetInputPrice L (Amount sold) x y (Fee p))) s = (Ok n, t)"
    using run by (auto simp: calculateWithExactInput_def GetLptDenomFromDenoms_Ok_iff GetPoolBalances_Ok_iff split: if_splits)
  show thesis
    using that lpt rest reserves [OF inv cs x] reserves [OF inv cs y] by (auto simp: GetParams_Ok_iff)
qed

lemma calculateWithExactOutput_Ok:
  assumes inv: "binv (kext s)" and run: "calculateWithExactOutput L k bought d s = (Ok n, t)"
  obtains lpt p where "t = s" "GetLptDenomFromDenoms (Denom bought) d s = (Ok lpt, s)"
    "pspace (kown s) = Some p"
    "0 < bal (bk k) (kext s) (GetReservePoolAddr L lpt) d"
    "Amount bought < bal (bk k) (kext s) (GetReservePoolAddr L lpt) (Denom bought)"
    "0 < bal (bk k) (kext s) (GetReservePoolAddr L lpt) (Denom bought)"
    "GetOutputPrice L (Amount bought) (bal (bk k) (kext s) (GetReservePoolAddr L lpt) d)
       (bal (bk k) (kext s) (GetReservePoolAddr L lpt) (Denom bought)) (Fee p) = Ok n"
proof -
  obtain lpt cs x y where lpt: "GetLptDenomFromDenoms (Denom bought) d s = (Ok lpt, s)"
    and cs: "GetPoolBalances L k (AddrString L (GetReservePoolAddr L lpt)) s = (Ok cs, s)"
    and y: "AmountOf L cs (Denom bought) = Ok y" and x: "AmountOf L cs d = Ok x"
    and rest: "0 < x" "0 < y" "Amount bought < y"
      "bnd GetParams (\<lambda>p. lift (GetOutputPrice L (Amount bought) x y (Fee p))) s = (Ok n, t)"
    using run by (auto simp: calculateWithExactOutput_def GetLptDenomFromDenoms_Ok_iff GetPoolBalances_Ok_iff split: if_splits)
  show thesis
    using that lpt rest reserves [OF inv cs x] reserves [OF inv cs y] by (auto simp: GetParams_Ok_iff)
qed

end

lemma find_coin_Ok: "find_coin cs d = Ok c \<Longrightarrow> c \<in> set cs \<and> Denom c = d"
  by (induction cs) (auto split: if_splits)

lemma GetStandardDenom_det:
  "GetStandardDenom s = (Ok d, t) \<Longrightarrow> GetStandardDenom s = (Ok e, u) \<Longrightarrow> d = e"
  by simp

lemma pure_reads:
  "GetStandardDenom s = (Ok d, t) \<Longrightarrow> t = s" "GetMaximumSwapAmount e s = (Ok c, t) \<Longrightarrow> t = s"
  by (auto simp: GetStandardDenom_Ok_iff GetMaximumSwapAmount_def GetParams_Ok_iff)

lemma lpt_commute:
  assumes "GetLptDenomFromDenoms d e s = (Ok lpt, t)"
  shows "GetLptDenomFromDenoms e d s = (Ok lpt, t)"
  using assms unfolding GetLptDenomFromDenoms_Ok_iff by (auto split: if_splits)

lemma lpt_det: "GetLptDenomFromDenoms d e s = (Ok x, t) \<Longrightarrow> GetLptDenomFromDenoms d e s = (Ok y, u) \<Longrightarrow> x = y"
  by simp

text \<open>
  What a successful order did: at the pool of the two coins, an allowed trade of \<open>i\<close>
  for \<open>n\<close> within the limits of the order and of the white list.
\<close>

definition fills :: "sdk_lib \<Rightarrow> 'x Keeper \<Rightarrow> MsgSwapOrder \<Rightarrow> 'x cs_state \<Rightarrow> string \<Rightarrow> int \<Rightarrow> int \<Rightarrow> 'x cs_state \<Rightarrow> bool" where
  "fills L k msg s lpt i n t \<longleftrightarrow>
     (let sold = Denom (Coin (Input msg)); bought = Denom (Coin (Output msg));
          pool = GetReservePoolAddr L lpt;
          x = bal (bk k) (kext s) pool sold; y = bal (bk k) (kext s) pool bought
      in 0 < x \<and> 0 < y \<and> quotes L x y i n \<and>
         (if IsBuyOrder msg then n = Amount (Coin (Output msg)) \<and> i \<le> Amount (Coin (Input msg))
          else i = Amount (Coin (Input msg)) \<and> Amount (Coin (Output msg)) \<le> n) \<and>
         (\<exists>a r. AccAddressFromBech32 L (Address (Input msg)) = Ok a \<and>
            AccAddressFromBech32 L (Address (Output msg)) = Ok r \<and>
            swapped (bk k) (kext s) a pool r \<lparr>Denom = sold, Amount = i\<rparr> \<lparr>Denom = bought, Amount = n\<rparr> (kext t)))"

definition within_limit :: "'x cs_state \<Rightarrow> string \<Rightarrow> int \<Rightarrow> bool" where
  "within_limit s d n \<longleftrightarrow> (\<exists>p c. pspace (kown s) = Some p \<and> c \<in> set (MaxSwapAmount p) \<and> Denom c = d \<and> n \<le> Amount c)"

lemma GetMaximumSwapAmount_limit:
  "GetMaximumSwapAmount d s = (Ok c, t) \<Longrightarrow> \<not> Amount c < n \<Longrightarrow> t = s \<and> within_limit s d n"
  using find_coin_Ok by (fastforce simp: GetMaximumSwapAmount_def GetParams_Ok_iff within_limit_def)

context coinswap_env
begin

lemma trade_exact_input:
  assumes inv: "binv (kext s)" and p: "pspace (kown s) = Some p" "0 \<le> Fee p" "Fee p < dec_one"
    and amt: "0 \<le> Amount (Coin (Input msg))" and sell: "\<not> IsBuyOrder msg"
    and run: "TradeExactInputForOutput L k (Input msg) (Output msg) s = (Ok n, t)"
  obtains lpt i where "GetLptDenomFromDenoms (Denom (Coin (Input msg))) (Denom (Coin (Output msg))) s = (Ok lpt, s)"
    "kown t = kown s" "binv (kext t)" "fills L k msg s lpt i n t"
    "\<And>std. GetStandardDenom s = (Ok std, s) \<Longrightarrow>
      (if Denom (Coin (Output msg)) \<noteq> std then within_limit s (Denom (Coin (Output msg))) n
       else within_limit s (Denom (Coin (Input msg))) i)"
proof -
  let ?in = "Coin (Input msg)" and ?out = "Coin (Output msg)"
  obtain v a r std c w v1 v2 where calc: "calculateWithExactInput L k ?in (Denom ?out) s = (Ok n, v)"
    and min: "\<not> n < Amount ?out" and w: "NewCoin L (Denom ?out) n = Ok w"
    and addr: "AccAddressFromBech32 L (Address (Input msg)) = Ok a" "AccAddressFromBech32 L (Address (Output msg)) = Ok r"
    and std: "GetStandardDenom v = (Ok std, v1)"
    and lim: "GetMaximumSwapAmount (Denom (if Denom w \<noteq> std then w else ?in)) v1 = (Ok c, v2)"
      "\<not> Amount c < Amount (if Denom w \<noteq> std then w else ?in)"
    and sw: "swapCoins L k a r ?in w v2 = (Ok (), t)"
    using run unfolding TradeExactInputForOutput_def Let_def by (auto simp: if_act_Ok_iff)
  note v12 = pure_reads(1) [OF std] pure_reads(2) [OF lim(1)]
  from calculateWithExactInput_Ok [OF inv calc] obtain lpt q where v: "v = s"
    and lpt: "GetLptDenomFromDenoms (Denom ?in) (Denom ?out) s = (Ok lpt, s)" and q: "pspace (kown s) = Some q"
    and pos: "0 < bal (bk k) (kext s) (GetReservePoolAddr L lpt) (Denom ?in)"
      "0 < bal (bk k) (kext s) (GetReservePoolAddr L lpt) (Denom ?out)"
    and price: "GetInputPrice L (Amount ?in) (bal (bk k) (kext s) (GetReservePoolAddr L lpt) (Denom ?in))
       (bal (bk k) (kext s) (GetReservePoolAddr L lpt) (Denom ?out)) (Fee q) = Ok n" by blast
  have w': "w = \<lparr>Denom = Denom ?out, Amount = n\<rparr>" using w by (simp add: NewCoin_iff)
  from swapCoins_Ok [OF inv sw [unfolded v12 v]] lpt have sw': "kown t = kown s" "binv (kext t)"
    "swapped (bk k) (kext s) a (GetReservePoolAddr L lpt) r ?in w (kext t)"
    using Bech32_nonempty [OF addr(2)] by (auto simp: w')
  have "fills L k msg s lpt (Amount ?in) n t"
    using pos price p q amt sell addr sw' min unfolding fills_def Let_def quotes_def by (auto simp: w')
  then show thesis
    using that [OF lpt sw'(1,2)] std GetMaximumSwapAmount_limit [OF lim] by (auto simp: v v12 w' split: if_splits)
qed

lemma trade_exact_output:
  assumes inv: "binv (kext s)" and p: "pspace (kown s) = Some p" "0 \<le> Fee p" "Fee p < dec_one"
    and amt: "0 \<le> Amount (Coin (Output msg))" and buy: "IsBuyOrder msg"
    and run: "TradeInputForExactOutput L k (Input msg) (Output msg) s = (Ok i, t)"
  obtains lpt n where "GetLptDenomFromDenoms (Denom (Coin (Input msg))) (Denom (Coin (Output msg))) s = (Ok lpt, s)"
    "kown t = kown s" "binv (kext t)" "fills L k msg s lpt i n t"
    "\<And>std. GetStandardDenom s = (Ok std, s) \<Longrightarrow>
      (if Denom (Coin (Input msg)) \<noteq> std then within_limit s (Denom (Coin (Input msg))) i
       else within_limit s (Denom (Coin (Output msg))) n)"
proof -
  let ?in = "Coin (Input msg)" and ?out = "Coin (Output msg)"
  obtain v a r std c w v1 v2 where calc: "calculateWithExactOutput L k ?out (Denom ?in) s = (Ok i, v)"
    and max: "\<not> Amount ?in < i" and w: "NewCoin L (Denom ?in) i = Ok w"
    and addr: "AccAddressFromBech32 L (Address (Input msg)) = Ok a" "AccAddressFromBech32 L (Address (Output msg)) = Ok r"
    and std: "GetStandardDenom v = (Ok std, v1)"
    and lim: "GetMaximumSwapAmount (Denom (if Denom w \<noteq> std then w else ?out)) v1 = (Ok c, v2)"
      "\<not> Amount c < Amount (if Denom w \<noteq> std then w else ?out)"
    and sw: "swapCoins L k a r w ?out v2 = (Ok (), t)"
    using run unfolding TradeInputForExactOutput_def Let_def by (auto simp: if_act_Ok_iff)
  note v12 = pure_reads(1) [OF std] pure_reads(2) [OF lim(1)]
  from calculateWithExactOutput_Ok [OF inv calc] obtain lpt q where v: "v = s"
    and rev: "GetLptDenomFromDenoms (Denom ?out) (Denom ?in) s = (Ok lpt, s)" and q: "pspace (kown s) = Some q"
    and pos: "0 < bal (bk k) (kext s) (GetReservePoolAddr L lpt) (Denom ?in)"
      "Amount ?out < bal (bk k) (kext s) (GetReservePoolAddr L lpt) (Denom ?out)"
      "0 < bal (bk k) (kext s) (GetReservePoolAddr L lpt) (Denom ?out)"
    and price: "GetOutputPrice L (Amount ?out) (bal (bk k) (kext s) (GetReservePoolAddr L lpt) (Denom ?in))
       (bal (bk k) (kext s) (GetReservePoolAddr L lpt) (Denom ?out)) (Fee q) = Ok i" by blast
  note lpt = lpt_commute [OF rev]
  have w': "w = \<lparr>Denom = Denom ?in, Amount = i\<rparr>" using w by (simp add: NewCoin_iff)
  from swapCoins_Ok [OF inv sw [unfolded v12 v]] lpt have sw': "kown t = kown s" "binv (kext t)"
    "swapped (bk k) (kext s) a (GetReservePoolAddr L lpt) r w ?out (kext t)"
    using Bech32_nonempty [OF addr(2)] by (auto simp: w')
  have "fills L k msg s lpt i (Amount ?out) t"
    using pos price p q amt buy addr sw' max unfolding fills_def Let_def quotes_def by (auto simp: w')
  then show thesis
    using that [OF lpt sw'(1,2)] std GetMaximumSwapAmount_limit [OF lim] by (auto simp: v v12 w' split: if_splits)
qed

text \<open>Both kinds of orders: the coin that is limited is the one that is not the standard coin.\<close>

lemma Swap_fills:
  assumes inv: "binv (kext s)" and p: "pspace (kown s) = Some p" "params_ok L p"
    and amt: "0 \<le> Amount (Coin (Input msg))" "0 \<le> Amount (Coin (Output msg))"
    and run: "Swap L k msg s = (Ok u, t)"
  obtains lpt i n std where
    "GetLptDenomFromDenoms (Denom (Coin (Input msg))) (Denom (Coin (Output msg))) s = (Ok lpt, s)"
    "kown t = kown s" "binv (kext t)" "fills L k msg s lpt i n t" "GetStandardDenom s = (Ok std, s)"
    "if Denom (Coin (Output msg)) \<noteq> std then within_limit s (Denom (Coin (Output msg))) n
       else within_limit s (Denom (Coin (Input msg))) i"
proof -
  let ?in = "Denom (Coin (Input msg))" and ?out = "Denom (Coin (Output msg))"
  obtain std where std: "GetStandardDenom s = (Ok std, s)"
    using run by (auto simp: Swap_def GetStandardDenom_Ok_iff)
  have one: "?in \<noteq> std \<longleftrightarrow> ?out = std" if "GetLptDenomFromDenoms ?in ?out s = (Ok lpt, s)" for lpt
    using that GetStandardDenom_det [OF std] by (auto simp: GetLptDenomFromDenoms_Ok_iff)
  show thesis
  proof (cases "IsBuyOrder msg")
    case True
    then obtain i where "TradeInputForExactOutput L k (Input msg) (Output msg) s = (Ok i, t)"
      using run std by (auto simp: Swap_def if_act_Ok_iff Let_def dest: pure_reads)
    from trade_exact_output [OF inv p(1) _ _ amt(2) True this] params_okD [OF p(2)] obtain lpt n where
      "GetLptDenomFromDenoms ?in ?out s = (Ok lpt, s)" "kown t = kown s" "binv (kext t)" "fills L k msg s lpt i n t"
      "if ?in \<noteq> std then within_limit s ?in i else within_limit s ?out n" using std by metis
    then show thesis using that std one [of lpt] by (metis (full_types))
  next
    case False
    then obtain n where "TradeExactInputForOutput L k (Input msg) (Output msg) s = (Ok n, t)"
      using run std by (auto simp: Swap_def if_act_Ok_iff Let_def dest: pure_reads)
    from trade_exact_input [OF inv p(1) _ _ amt(1) False this] params_okD [OF p(2)] show thesis
      using that std by metis
  qed
qed

end

end
