(* ===== verification/Coinswap_Liquidity.thy ===== *)
theory Coinswap_Liquidity
  imports Coinswap_Keeper
begin

text \<open>
  What a successful deposit, withdrawal and pool creation fee of x/coinswap do to
  balances and supply, and the arithmetic of liquidity shares.
\<close>

section \<open>Arithmetic of shares\<close>

text \<open>
  With reserves \<open>x\<close>, \<open>y\<close> and \<open>t\<close> shares, a deposit of \<open>dx\<close> mints the rounded-down
  share and pays the rounded-up token; a withdrawal pays rounded-down shares of both.
\<close>

lemma mint_no_dilution:
  assumes "0 < x" "0 \<le> y" "0 \<le> t" "0 \<le> dx"
  shows "(t + t * dx div x) * x \<le> t * (x + dx)"
    "(t + t * dx div x) * y \<le> t * (y + (y * dx div x + 1 :: int))"
proof -
  have m: "t * dx div x * x \<le> t * dx" using assms by (intro div_mult_le) simp
  then show "(t + t * dx div x) * x \<le> t * (x + dx)" by (simp add: algebra_simps)
  have "(t * dx div x * y) * x \<le> t * dx * y"
    using mult_right_mono [OF m assms(2)] by (simp add: mult.assoc mult.commute mult.left_commute)
  also have "\<dots> = t * (y * dx)" by simp
  also have "\<dots> \<le> t * ((y * dx div x + 1) * x)"
    using lt_div_succ_mult [OF assms(1), of "y * dx"] assms(3) by (intro mult_left_mono) auto
  also have "\<dots> = (t * (y * dx div x + 1)) * x" by simp
  finally have "t * dx div x * y \<le> t * (y * dx div x + 1)"
    using assms(1) mult_le_cancel_right_pos by blast
  then show "(t + t * dx div x) * y \<le> t * (y + (y * dx div x + 1))" by (simp add: algebra_simps)
qed

lemma burn_no_dilution:
  assumes "0 < t" shows "(t - w) * x \<le> t * (x - w * x div t :: int)"
  using div_mult_le [OF assms, of "w * x"] by (simp add: algebra_simps)

text \<open>What a deposit mints cannot be worth more than the deposit.\<close>

lemma redeem_le:
  assumes "0 < t + m" and "m * x \<le> d * (t :: int)"
  shows "m * (x + d) div (t + m) \<le> d"
proof -
  have "m * (x + d) \<le> d * (t + m)" using assms(2) by (simp add: algebra_simps)
  then have "m * (x + d) < (d + 1) * (t + m)" using assms(1) by (simp add: algebra_simps)
  then have "m * (x + d) div (t + m) < d + 1" by (rule div_lessI [OF assms(1)])
  then show ?thesis by simp
qed

lemma redeem_keeps:
  assumes "t' = t + m" and "x'' = x' - m * x' div t'" and "t' * x \<le> t * x'" and "0 < t + (m :: int)"
  shows "x \<le> x''"
proof -
  have "m * x \<le> (x' - x) * t" using assms(1,3) by (simp add: algebra_simps)
  from redeem_le [OF assms(4) this] show ?thesis using assms(1,2) by simp
qed

section \<open>Effects\<close>

text \<open>Account \<open>a\<close> pays \<open>paid\<close> to \<open>p\<close> and receives newly minted coins.\<close>

definition deposited ::
  "'x bank_keeper \<Rightarrow> 'x \<Rightarrow> bytes \<Rightarrow> bytes \<Rightarrow> coin list \<Rightarrow> coin \<Rightarrow> 'x \<Rightarrow> bool" where
  "deposited b x a p paid minted x' \<longleftrightarrow>
     (\<forall>c d. bal b x' c d = bal b x c d
        - (if c = a then coins_amt paid d else 0) + (if c = p then coins_amt paid d else 0)
        + (if c = a then coins_amt [minted] d else 0)) \<and>
     (\<forall>d. sup b x' d = sup b x d + coins_amt [minted] d)"

text \<open>Coins \<open>burnt\<close> of \<open>a\<close> are destroyed, and \<open>p\<close> pays \<open>paid\<close> to \<open>a\<close>.\<close>

definition redeemed ::
  "'x bank_keeper \<Rightarrow> 'x \<Rightarrow> bytes \<Rightarrow> bytes \<Rightarrow> coin \<Rightarrow> coin list \<Rightarrow> 'x \<Rightarrow> bool" where
  "redeemed b x a p burnt paid x' \<longleftrightarrow>
     (\<forall>c d. bal b x' c d = bal b x c d
        - (if c = a then coins_amt [burnt] d else 0)
        - (if c = p then coins_amt paid d else 0) + (if c = a then coins_amt paid d else 0)) \<and>
     (\<forall>d. sup b x' d = sup b x d - coins_amt [burnt] d)"

context coinswap_env
begin

lemma addLiquidity_Ok:
  assumes inv: "binv (kext s)" and run: "addLiquidity L k a p std tok lpt n s = (Ok c, t)"
  shows "kown t = kown s" "binv (kext t)" "c = \<lparr>Denom = lpt, Amount = n\<rparr>" "0 \<le> n"
    "deposited (bk k) (kext s) a p [std, tok] c (kext t)"
proof -
  obtain cs ms x y z where cs: "NewCoins L [std, tok] = Ok cs"
    and x: "SendCoins (bk k) a p cs (kext s) = (Ok (), x)"
    and c: "NewCoin L lpt n = Ok c" and ms: "NewCoins L [c] = Ok ms"
    and y: "MintCoins (bk k) ModuleName ms x = (Ok (), y)"
    and z: "SendCoinsFromModuleToAccount (bk k) ModuleName a ms y = (Ok (), z)"
    and t: "t = s\<lparr>kext := z\<rparr>"
    using run by (auto simp: addLiquidity_def)
  note s1 = send [OF inv x] note s2 = mint [OF conjunct1 [OF s1] y]
  note s3 = send_from_module [OF conjunct1 [OF s2] z]
  show "kown t = kown s" "binv (kext t)" "c = \<lparr>Denom = lpt, Amount = n\<rparr>" "0 \<le> n"
    using s3 c by (simp_all add: t NewCoin_iff)
  show "deposited (bk k) (kext s) a p [std, tok] c (kext t)"
    using s1 s2 s3 NewCoins_amt [OF cs] NewCoins_amt [OF ms]
    by (simp add: deposited_def t moves_def mints_def)
qed

lemma removeLiquidity_Ok:
  assumes inv: "binv (kext s)" and run: "removeLiquidity L k p a burnt std tok s = (Ok cs, t)"
  shows "kown t = kown s" "binv (kext t)" "\<And>d. coins_amt cs d = coins_amt [std, tok] d"
    "redeemed (bk k) (kext s) a p burnt [std, tok] (kext t)"
proof -
  obtain ds x y z where ds: "NewCoins L [burnt] = Ok ds"
    and x: "SendCoinsFromAccountToModule (bk k) a ModuleName ds (kext s) = (Ok (), x)"
    and y: "BurnCoins (bk k) ModuleName ds x = (Ok (), y)"
    and cs: "NewCoins L [std, tok] = Ok cs"
    and z: "SendCoins (bk k) p a cs y = (Ok (), z)" and t: "t = s\<lparr>kext := z\<rparr>"
    using run by (auto simp: removeLiquidity_def)
  note s1 = send_to_module [OF inv x] note s2 = burn [OF conjunct1 [OF s1] y]
  note s3 = send [OF conjunct1 [OF s2] z]
  show "kown t = kown s" "binv (kext t)" "\<And>d. coins_amt cs d = coins_amt [std, tok] d"
    using s3 NewCoins_amt [OF cs] by (simp_all add: t)
  show "redeemed (bk k) (kext s) a p burnt [std, tok] (kext t)"
    using s1 s2 s3 NewCoins_amt [OF cs] NewCoins_amt [OF ds]
    by (simp add: redeemed_def t moves_def burns_def)
qed

text \<open>
  The creator pays the fee, the rounded-down tax goes to the fee collector and the rest
  is burnt; the module account ends as it began.
\<close>

lemma DeductPoolCreationFee_Ok:
  assumes inv: "binv (kext s)" and p: "pspace (kown s) = Some p" "params_ok L p"
    and run: "DeductPoolCreationFee L k a s = (Ok u, t)"
  defines "fee \<equiv> PoolCreationFee p"
  defines "tax \<equiv> Amount fee * TaxRate p div dec_one"
  shows "kown t = kown s" "binv (kext t)" "0 \<le> tax" "tax \<le> Amount fee"
    "bal (bk k) (kext t) c d = bal (bk k) (kext s) c d
       - (if c = a \<and> d = Denom fee then Amount fee else 0)
       + (if c = GetModuleAddress (ak k) (feeCollectorName k) \<and> d = Denom fee then tax else 0)"
    "sup (bk k) (kext t) d = sup (bk k) (kext s) d - (if d = Denom fee then Amount fee - tax else 0)"
proof -
  obtain m n tx bu bs fs ts x y z where m: "DecMul L (LegacyNewDecFromInt (Amount fee)) (TaxRate p) = Ok m"
    and n: "DecTruncateInt L m = Ok n" and tx: "NewCoin L (Denom fee) n = Ok tx"
    and bu: "CoinSub L fee tx = Ok bu" and bs: "NewCoins L [bu] = Ok bs" and fs: "NewCoins L [fee] = Ok fs"
    and x: "SendCoinsFromAccountToModule (bk k) a ModuleName fs (kext s) = (Ok (), x)"
    and ts: "NewCoins L [tx] = Ok ts"
    and y: "SendCoinsFromModuleToModule (bk k) ModuleName (feeCollectorName k) ts x = (Ok (), y)"
    and z: "BurnCoins (bk k) ModuleName bs y = (Ok (), z)" and t: "t = s\<lparr>kext := z\<rparr>"
    using run p(1) by (auto simp: DeductPoolCreationFee_def Let_def GetParams_Ok_iff fee_def)
  note b = params_okD [OF p(2)]
  have "0 \<le> Amount fee * TaxRate p" using b by (simp add: fee_def)
  then have n': "n = tax"
    using DecTruncateInt_ok [OF n] DecMul_integral [OF m] by (simp add: tax_def sdiv_nonneg)
  have tx': "tx = \<lparr>Denom = Denom fee, Amount = tax\<rparr>" and nn: "0 \<le> tax"
    using tx n' by (auto simp: NewCoin_iff)
  have bu': "bu = \<lparr>Denom = Denom fee, Amount = Amount fee - tax\<rparr>" and le: "tax \<le> Amount fee"
    using bu by (auto simp: CoinSub_iff tx')
  note s1 = send_to_module [OF inv x] note s2 = send_modules [OF conjunct1 [OF s1] y]
  note s3 = burn [OF conjunct1 [OF s2] z]
  note amts = NewCoins_amt [OF bs] NewCoins_amt [OF fs] NewCoins_amt [OF ts]
  show "kown t = kown s" "binv (kext t)" using s3 by (simp_all add: t)
  show "0 \<le> tax" "tax \<le> Amount fee" by (fact nn le)+
  show "sup (bk k) (kext t) d = sup (bk k) (kext s) d - (if d = Denom fee then Amount fee - tax else 0)"
    using s1 s2 s3 amts by (auto simp: t moves_def burns_def bu')
  show "bal (bk k) (kext t) c d = bal (bk k) (kext s) c d
       - (if c = a \<and> d = Denom fee then Amount fee else 0)
       + (if c = GetModuleAddress (ak k) (feeCollectorName k) \<and> d = Denom fee then tax else 0)"
    using s1 s2 s3 amts by (auto simp: t moves_def burns_def bu' tx')
qed

text \<open>The amounts of a further deposit, in exact arithmetic.\<close>

lemma next_deposit_Ok:
  assumes run: "next_deposit L p msg std x y l = Ok (n, tok, cst)"
    and nonneg: "0 \<le> x" "0 \<le> y" "0 \<le> l" "0 \<le> ExactStandardAmt msg"
  defines "dx \<equiv> min (ExactStandardAmt msg) (MaxStandardCoinPerPool p - x)"
  shows "0 < x" "0 \<le> dx" "x + dx \<le> MaxStandardCoinPerPool p" "n = l * dx div x" "MinLiquidity msg \<le> n"
    "tok = \<lparr>Denom = Denom (MaxToken msg), Amount = y * dx div x + 1\<rparr>" "Amount tok \<le> Amount (MaxToken msg)"
    "cst = \<lparr>Denom = std, Amount = dx\<rparr>"
proof -
  obtain room share tshare q dep where r:
    "x < MaxStandardCoinPerPool p" "IntSub L (MaxStandardCoinPerPool p) x = Ok room"
    "IntMul L l (min (ExactStandardAmt msg) room) = Ok share" "IntQuo L share x = Ok n" "MinLiquidity msg \<le> n"
    "IntMul L y (min (ExactStandardAmt msg) room) = Ok tshare" "IntQuo L tshare x = Ok q" "IntAdd L q 1 = Ok dep"
    "NewCoin L (Denom (MaxToken msg)) dep = Ok tok" "NewCoin L std (min (ExactStandardAmt msg) room) = Ok cst"
    "dep \<le> Amount (MaxToken msg)"
    using run by (auto simp: next_deposit_def Let_def split: if_splits)
  have dx: "min (ExactStandardAmt msg) room = dx" using r(2) by (simp add: IntSub_iff dx_def)
  show x: "0 < x" using r(4) nonneg by (simp add: IntQuo_iff)
  show d: "0 \<le> dx" using r(1) nonneg by (simp add: dx_def)
  show "x + dx \<le> MaxStandardCoinPerPool p" by (simp add: dx_def)
  show "n = l * dx div x" using r(3,4) x d nonneg by (simp add: checked_simps dx sdiv_nonneg)
  show "MinLiquidity msg \<le> n" by (fact r(5))
  have "q = y * dx div x" using r(6,7) x d nonneg by (simp add: checked_simps dx sdiv_nonneg)
  then show "tok = \<lparr>Denom = Denom (MaxToken msg), Amount = y * dx div x + 1\<rparr>"
    "Amount tok \<le> Amount (MaxToken msg)" "cst = \<lparr>Denom = std, Amount = dx\<rparr>"
    using r(8-11) by (simp_all add: checked_simps dx)
qed

lemma pool_reserves:
  assumes "binv (kext s)" and "GetPoolBalances L k e s = (Ok cs, t)" and "AccAddressFromBech32 L e = Ok a"
    and "AmountOf L cs d = Ok n"
  shows "n = bal (bk k) (kext s) a d"
proof -
  have "cs = GetAllBalances (bk k) a (kext s)"
    using assms(2,3) account_address by (auto simp: GetPoolBalances_Ok_iff)
  then show ?thesis using AmountOf_all [OF assms(1)] assms(4) by simp
qed

text \<open>A deposit into a pool that exists and has liquidity.\<close>

lemma AddLiquidity_existing:
  assumes inv: "binv (kext s)" and run: "AddLiquidity L k msg s = (Ok c, t)"
    and std: "GetStandardDenom s = (Ok std, s)" and p: "pspace (kown s) = Some p"
    and pool: "kv_get (cs_kv s) (GetPoolKey (GetPoolId (Denom (MaxToken msg)))) = Some (PoolVal pool)"
    and pa: "AccAddressFromBech32 L (EscrowAddress pool) = Ok pa"
    and l: "sup (bk k) (kext s) (LptDenom pool) \<noteq> 0"
  obtains a n tok cst where "AccAddressFromBech32 L (addSender msg) = Ok a" "std \<noteq> Denom (MaxToken msg)"
    "next_deposit L p msg std (bal (bk k) (kext s) pa std) (bal (bk k) (kext s) pa (Denom (MaxToken msg)))
       (sup (bk k) (kext s) (LptDenom pool)) = Ok (n, tok, cst)"
    "addLiquidity L k a pa cst tok (LptDenom pool) n s = (Ok c, t)"
proof -
  have "GetPool (GetPoolId (Denom (MaxToken msg))) s = (Ok (Some pool), s)"
    using pool by (simp add: GetPool_Ok_iff)
  then obtain a cs x y n tok cst where neq: "std \<noteq> Denom (MaxToken msg)"
    and a: "AccAddressFromBech32 L (addSender msg) = Ok a"
    and cs: "GetPoolBalances L k (EscrowAddress pool) s = (Ok cs, s)"
    and x: "AmountOf L cs std = Ok x" and y: "AmountOf L cs (Denom (MaxToken msg)) = Ok y"
    and nd: "next_deposit L p msg std x y (sup (bk k) (kext s) (LptDenom pool)) = Ok (n, tok, cst)"
    and add: "addLiquidity L k a pa cst tok (LptDenom pool) n s = (Ok c, t)"
    using run std p pa l unfolding AddLiquidity_def
    by (auto simp: if_act_Ok_iff GetParams_Ok_iff sup_def GetPoolBalances_Ok_iff)
  then show thesis
    using that pool_reserves [OF inv cs pa x] pool_reserves [OF inv cs pa y] by simp
qed

text \<open>
  It mints at most the share of the standard coin paid, keeps the pool under its limit,
  stays within the bounds of the message, and does not dilute the other providers.
\<close>

lemma AddLiquidity_existing_effect:
  assumes inv: "binv (kext s)" and run: "AddLiquidity L k msg s = (Ok c, t)"
    and std: "GetStandardDenom s = (Ok std, s)" and p: "pspace (kown s) = Some p"
    and pool: "kv_get (cs_kv s) (GetPoolKey (GetPoolId (Denom (MaxToken msg)))) = Some (PoolVal pool)"
    and pa: "AccAddressFromBech32 L (EscrowAddress pool) = Ok pa"
    and l: "sup (bk k) (kext s) (LptDenom pool) \<noteq> 0" and exact: "0 \<le> ExactStandardAmt msg"
    and a: "AccAddressFromBech32 L (addSender msg) = Ok a"
  defines "x \<equiv> bal (bk k) (kext s) pa std" and "y \<equiv> bal (bk k) (kext s) pa (Denom (MaxToken msg))"
    and "liq \<equiv> sup (bk k) (kext s) (LptDenom pool)"
  defines "dx \<equiv> min (ExactStandardAmt msg) (MaxStandardCoinPerPool p - x)"
  defines "dy \<equiv> y * dx div x + 1"
  shows "0 < x" "0 \<le> dx" "x + dx \<le> MaxStandardCoinPerPool p" "dy \<le> Amount (MaxToken msg)"
    "MinLiquidity msg \<le> liq * dx div x" "c = \<lparr>Denom = LptDenom pool, Amount = liq * dx div x\<rparr>"
    "kown t = kown s" "binv (kext t)" "std \<noteq> Denom (MaxToken msg)"
    "deposited (bk k) (kext s) a pa
      [\<lparr>Denom = std, Amount = dx\<rparr>, \<lparr>Denom = Denom (MaxToken msg), Amount = dy\<rparr>] c (kext t)"
proof -
  from AddLiquidity_existing [OF inv run std p pool pa l] obtain n tok cst where neq: "std \<noteq> Denom (MaxToken msg)"
    and nd: "next_deposit L p msg std x y liq = Ok (n, tok, cst)"
    and add: "addLiquidity L k a pa cst tok (LptDenom pool) n s = (Ok c, t)"
    unfolding x_def y_def liq_def using a by (metis res.inject(1))
  have nonneg: "0 \<le> x" "0 \<le> y" "0 \<le> liq"
    unfolding x_def y_def liq_def using bal_nonneg [OF inv] sup_nonneg [OF inv] by blast+
  note nd' = next_deposit_Ok [OF nd nonneg exact, folded dx_def]
  note ad = addLiquidity_Ok [OF inv add]
  show "0 < x" "0 \<le> dx" "x + dx \<le> MaxStandardCoinPerPool p" "MinLiquidity msg \<le> liq * dx div x"
    using nd' by simp_all
  show "dy \<le> Amount (MaxToken msg)" using nd'(6,7) by (simp add: dy_def)
  show "c = \<lparr>Denom = LptDenom pool, Amount = liq * dx div x\<rparr>" "kown t = kown s" "binv (kext t)"
    using ad nd' by simp_all
  show "std \<noteq> Denom (MaxToken msg)" by (fact neq)
  show "deposited (bk k) (kext s) a pa
      [\<lparr>Denom = std, Amount = dx\<rparr>, \<lparr>Denom = Denom (MaxToken msg), Amount = dy\<rparr>] c (kext t)"
    using ad(5) nd' by (simp add: dy_def)
qed

lemma RemoveLiquidity_effect:
  assumes inv: "binv (kext s)" and run: "RemoveLiquidity L k msg s = (Ok cs, t)"
    and std: "GetStandardDenom s = (Ok std, s)"
    and pool: "GetPoolByLptDenom (Denom (WithdrawLiquidity msg)) s = (Ok (Some pool), s)"
    and pa: "AccAddressFromBech32 L (EscrowAddress pool) = Ok pa"
    and a: "AccAddressFromBech32 L (removeSender msg) = Ok a"
    and w: "0 \<le> Amount (WithdrawLiquidity msg)"
  defines "x \<equiv> bal (bk k) (kext s) pa std" and "y \<equiv> bal (bk k) (kext s) pa (CounterpartyDenom pool)"
    and "liq \<equiv> sup (bk k) (kext s) (Denom (WithdrawLiquidity msg))"
  defines "sx \<equiv> Amount (WithdrawLiquidity msg) * x div liq" and "sy \<equiv> Amount (WithdrawLiquidity msg) * y div liq"
  shows "0 < liq" "Amount (WithdrawLiquidity msg) \<le> liq" "MinStandardAmt msg \<le> sx" "MinToken msg \<le> sy"
    "kown t = kown s" "binv (kext t)"
    "\<And>d. coins_amt cs d = coins_amt [\<lparr>Denom = std, Amount = sx\<rparr>, \<lparr>Denom = CounterpartyDenom pool, Amount = sy\<rparr>] d"
    "redeemed (bk k) (kext s) a pa (WithdrawLiquidity msg)
      [\<lparr>Denom = std, Amount = sx\<rparr>, \<lparr>Denom = CounterpartyDenom pool, Amount = sy\<rparr>] (kext t)"
proof -
  obtain bs x' y' x2 y2 m n c1 c2 where bs: "GetPoolBalances L k (EscrowAddress pool) s = (Ok bs, s)"
    and x': "AmountOf L bs std = Ok x'" and y': "AmountOf L bs (CounterpartyDenom pool) = Ok y'"
    and le: "\<not> liq < Amount (WithdrawLiquidity msg)"
    and m: "IntMul L (Amount (WithdrawLiquidity msg)) x' = Ok x2" "IntQuo L x2 liq = Ok m"
    and n: "IntMul L (Amount (WithdrawLiquidity msg)) y' = Ok y2" "IntQuo L y2 liq = Ok n"
    and c: "NewCoin L std m = Ok c1" "NewCoin L (CounterpartyDenom pool) n = Ok c2"
      "\<not> Amount c1 < MinStandardAmt msg" "\<not> Amount c2 < MinToken msg"
    and rm: "removeLiquidity L k pa a (WithdrawLiquidity msg) c1 c2 s = (Ok cs, t)"
    using run std pool pa a unfolding RemoveLiquidity_def Let_def liq_def sup_def
    by (auto simp: if_act_Ok_iff GetPoolBalances_Ok_iff)
  have xy: "x' = x" "y' = y"
    unfolding x_def y_def using pool_reserves [OF inv bs pa x'] pool_reserves [OF inv bs pa y'] by auto
  have nonneg: "0 \<le> x" "0 \<le> y" "0 \<le> liq"
    unfolding x_def y_def liq_def using bal_nonneg [OF inv] sup_nonneg [OF inv] by blast+
  then show liq: "0 < liq" using m by (simp add: IntQuo_iff)
  show "Amount (WithdrawLiquidity msg) \<le> liq" using le by simp
  have mn: "m = sx" "n = sy"
    using m n nonneg w by (simp_all add: checked_simps xy sdiv_nonneg sx_def sy_def)
  have cc: "c1 = \<lparr>Denom = std, Amount = sx\<rparr>" "c2 = \<lparr>Denom = CounterpartyDenom pool, Amount = sy\<rparr>"
    using c by (auto simp: NewCoin_iff mn)
  show "MinStandardAmt msg \<le> sx" "MinToken msg \<le> sy" using c by (simp_all add: cc)
  note rl = removeLiquidity_Ok [OF inv rm]
  show "kown t = kown s" "binv (kext t)" by (fact rl)+
  show "\<And>d. coins_amt cs d = coins_amt [\<lparr>Denom = std, Amount = sx\<rparr>, \<lparr>Denom = CounterpartyDenom pool, Amount = sy\<rparr>] d"
    using rl(3) by (simp add: cc)
  show "redeemed (bk k) (kext s) a pa (WithdrawLiquidity msg)
      [\<lparr>Denom = std, Amount = sx\<rparr>, \<lparr>Denom = CounterpartyDenom pool, Amount = sy\<rparr>] (kext t)"
    using rl(4) by (simp add: cc)
qed

end

end
