(* ===== verification/Ledger.thy ===== *)
theory Ledger
  imports Bank
begin

text \<open>
  A concrete provider of the contracts of \<open>Sdk\<close> and \<open>Bank\<close>: 256-bit checked
  integers, decimals rounded half to even, and a double-entry ledger of balances and
  supply. It discharges every law of the two locales, so they are consistent, and it is
  the environment in which the modules are run on concrete inputs.
\<close>

section \<open>Stateless functions\<close>

definition checked :: "int \<Rightarrow> int res" where
  "checked v = (if \<bar>v\<bar> < 2 ^ 256 then Ok v else Panic ''integer overflow'')"

definition chop_round :: "int \<Rightarrow> int" where
  "chop_round v =
     (let q = v div dec_one; r = v mod dec_one
      in if 2 * r < dec_one \<or> 2 * r = dec_one \<and> even q then q else q + 1)"

definition dec_checked :: "int \<Rightarrow> int res" where
  "dec_checked v = (if \<bar>v\<bar> < 2 ^ 315 then Ok v else Panic ''decimal overflow'')"

definition quo_checked :: "int \<Rightarrow> int \<Rightarrow> int res" where
  "quo_checked a b = (if b = 0 then Panic ''division by zero'' else Ok (a sdiv b))"

fun dec_pow :: "int \<Rightarrow> nat \<Rightarrow> int" where
  "dec_pow a 0 = dec_one"
| "dec_pow a (Suc n) = chop_round (dec_pow a n * a)"

definition letter :: "char \<Rightarrow> bool" where
  "letter c = (let n = (of_char c :: int) in 64 < n \<and> n < 91 \<or> 96 < n \<and> n < 123)"

definition denom_ok :: "string \<Rightarrow> bool" where
  "denom_ok s = (2 < length s \<and> length s < 129 \<and> letter (hd s) \<and>
     list_all (\<lambda>c. letter c \<or> is_digit c \<or> c \<in> set ''/:._-'') s)"

definition coins_ok :: "coin list \<Rightarrow> bool" where
  "coins_ok cs = (sorted_wrt (<) (map Denom cs) \<and> list_all (\<lambda>c. 0 < Amount c \<and> denom_ok (Denom c)) cs)"

definition check :: "bool \<Rightarrow> string \<Rightarrow> 'a \<Rightarrow> 'a res" where
  "check b msg v = (if b then Ok v else Panic msg)"

lemma check_Ok_iff [simp]: "check b msg v = Ok w \<longleftrightarrow> b \<and> v = w"
  by (simp add: check_def)

definition bech32_prefix :: string where
  "bech32_prefix = ''canto1''"

definition from_bech32 :: "string \<Rightarrow> bytes res" where
  "from_bech32 s =
     (if HasPrefix s bech32_prefix \<and> drop 6 s \<noteq> [] then Ok (drop 6 s) else Err (PlainErr ''invalid bech32''))"

definition ref_lib :: sdk_lib where
  "ref_lib = \<lparr>
     IntAdd = \<lambda>a b. checked (a + b), IntSub = \<lambda>a b. checked (a - b),
     IntMul = \<lambda>a b. checked (a * b), IntQuo = quo_checked, NewIntFromBigInt = checked,
     DecAdd = \<lambda>a b. dec_checked (a + b), DecSub = \<lambda>a b. dec_checked (a - b),
     DecMul = \<lambda>a b. dec_checked (chop_round (a * b)),
     DecQuo = \<lambda>a b. quo_checked (a * dec_one) b, DecQuoInt = quo_checked,
     DecPower = \<lambda>a n. dec_checked (dec_pow a (unat n)), DecTruncateInt = \<lambda>a. checked (a sdiv dec_one),
     ValidateDenom = \<lambda>d. if denom_ok d then Ok () else Err (PlainErr ''invalid denom''),
     NewCoin = \<lambda>d n. check (denom_ok d \<and> 0 \<le> n) ''invalid coin'' \<lparr>Denom = d, Amount = n\<rparr>,
     NewCoins = \<lambda>cs. let ds = sort_key Denom (filter (\<lambda>c. Amount c \<noteq> 0) cs)
                     in check (coins_ok ds) ''invalid coins'' ds,
     AmountOf = \<lambda>cs d. check (denom_ok d) ''invalid denom'' (coins_amt cs d),
     CoinSub = \<lambda>a b. check (Denom a = Denom b \<and> Amount b \<le> Amount a) ''invalid coin''
                 \<lparr>Denom = Denom a, Amount = Amount a - Amount b\<rparr>,
     CoinAdd = \<lambda>a b. check (Denom a = Denom b \<and> \<bar>Amount a + Amount b\<bar> < 2 ^ 256) ''invalid coin''
                 \<lparr>Denom = Denom a, Amount = Amount a + Amount b\<rparr>,
     CoinIsEqual = \<lambda>a b. Ok (a = b),
     CoinIsValid = \<lambda>c. 0 \<le> Amount c \<and> denom_ok (Denom c),
     CoinsValidate = \<lambda>cs. if coins_ok cs then Ok () else Err (PlainErr ''invalid coins''),
     AccAddressFromBech32 = from_bech32, AddrString = \<lambda>a. bech32_prefix @ a,
     AddressHash = \<lambda>b. take 20 (b @ replicate 20 CHR ''0'')\<rparr>"

lemma coins_ok_iff: "valid_coins ref_lib cs \<longleftrightarrow> coins_ok cs"
  by (auto simp: valid_coins_def coins_ok_def ref_lib_def list_all_iff)

lemma checked_iff: "checked v = Ok c \<longleftrightarrow> c = v \<and> \<bar>v\<bar> < 2 ^ 256"
  by (auto simp: checked_def)

lemma quo_checked_iff: "quo_checked a b = Ok c \<longleftrightarrow> b \<noteq> 0 \<and> c = a sdiv b"
  by (auto simp: quo_checked_def)

lemma chop_round_near: "\<bar>2 * (chop_round v * dec_one - v)\<bar> \<le> dec_one"
proof -
  obtain q r where q: "q = v div dec_one" and r: "r = v mod dec_one" by blast
  then have "v = q * dec_one + r" and "0 \<le> r" "r < dec_one" by simp_all
  then show ?thesis
    unfolding chop_round_def Let_def q [symmetric] r [symmetric] by (auto simp: algebra_simps)
qed

lemma dec_checked_iff: "dec_checked v = Ok c \<longleftrightarrow> c = v \<and> \<bar>v\<bar> < 2 ^ 315"
  by (auto simp: dec_checked_def)

lemma chop_round_small: "\<bar>v\<bar> < 2 ^ 256 \<Longrightarrow> \<bar>chop_round v\<bar> < 2 ^ 315"
  using chop_round_near [of v] by (simp add: abs_le_iff abs_less_iff)

lemma chop_round_unit: "0 \<le> v \<Longrightarrow> v \<le> dec_one * dec_one \<Longrightarrow> 0 \<le> chop_round v \<and> chop_round v \<le> dec_one"
  using chop_round_near [of v] by (auto simp: abs_le_iff)

lemma dec_pow_unit: "0 \<le> a \<Longrightarrow> a \<le> dec_one \<Longrightarrow> 0 \<le> dec_pow a n \<and> dec_pow a n \<le> dec_one"
proof (induction n)
  case (Suc n)
  then have "0 \<le> dec_pow a n * a" "dec_pow a n * a \<le> dec_one * dec_one"
    by (simp, meson Suc mult_mono order.trans)
  then show ?case using chop_round_unit by simp
qed simp

lemma dec_pow_small: "0 \<le> a \<Longrightarrow> a \<le> dec_one \<Longrightarrow> \<bar>dec_pow a n\<bar> < 2 ^ 315"
  using dec_pow_unit [of a n] by simp

lemma dec_pow_near:
  assumes "0 \<le> a" and "a \<le> dec_one"
  shows "2 * \<bar>dec_pow a n * dec_one ^ n - a ^ n * dec_one\<bar> \<le> int n * dec_one ^ n"
proof (induction n)
  case (Suc n)
  define d :: int where "d = dec_one"
  let ?p = "dec_pow a n" and ?q = "dec_pow a (Suc n)"
  have d: "0 < d" "a \<le> d" using assms by (simp_all add: d_def)
  have "2 * \<bar>?q * d - ?p * a\<bar> \<le> d" using chop_round_near [of "?p * a"] by (simp add: d_def abs_mult)
  then have step: "2 * \<bar>?q * d - ?p * a\<bar> * d ^ n \<le> d * d ^ n" using d(1) by (intro mult_right_mono) auto
  have IH: "2 * \<bar>?p * d ^ n - a ^ n * d\<bar> \<le> int n * d ^ n" using Suc by (simp only: d_def)
  have "a * (2 * \<bar>?p * d ^ n - a ^ n * d\<bar>) \<le> d * (int n * d ^ n)"
    by (rule mult_mono [OF d(2) IH]) (use d(1) in simp_all)
  moreover have "?q * d ^ Suc n - a ^ Suc n * d = (?q * d - ?p * a) * d ^ n + a * (?p * d ^ n - a ^ n * d)"
    by (simp add: algebra_simps)
  then have "\<bar>?q * d ^ Suc n - a ^ Suc n * d\<bar> \<le> \<bar>?q * d - ?p * a\<bar> * d ^ n + a * \<bar>?p * d ^ n - a ^ n * d\<bar>"
    using abs_triangle_ineq [of "(?q * d - ?p * a) * d ^ n" "a * (?p * d ^ n - a ^ n * d)"] d(1) assms(1)
    by (simp only: abs_mult) simp
  ultimately have "2 * \<bar>?q * d ^ Suc n - a ^ Suc n * d\<bar> \<le> int (Suc n) * d ^ Suc n" using step by (simp add: algebra_simps)
  then show ?case by (simp only: d_def)
qed simp

lemma sdiv_near: "b \<noteq> 0 \<Longrightarrow> \<bar>a sdiv b * b - a\<bar> < \<bar>b :: int\<bar>"
  using minus_sdiv_mult_eq_smod [of a b] abs_mod_less [of "\<bar>b\<bar>" "\<bar>a\<bar>"]
  by (auto simp: signed_modulo_int_def abs_mult abs_minus_commute sgn_if)

lemma ref_lib_sel:
  "IntAdd ref_lib a b = checked (a + b)" "IntSub ref_lib a b = checked (a - b)"
  "IntMul ref_lib a b = checked (a * b)" "IntQuo ref_lib = quo_checked"
  "NewIntFromBigInt ref_lib = checked"
  "DecAdd ref_lib a b = dec_checked (a + b)" "DecSub ref_lib a b = dec_checked (a - b)"
  "DecMul ref_lib a b = dec_checked (chop_round (a * b))" "DecQuo ref_lib a b = quo_checked (a * dec_one) b"
  "DecQuoInt ref_lib = quo_checked" "DecPower ref_lib a e = dec_checked (dec_pow a (unat e))"
  "DecTruncateInt ref_lib a = checked (a sdiv dec_one)"
  "ValidateDenom ref_lib d = (if denom_ok d then Ok () else Err (PlainErr ''invalid denom''))"
  "NewCoin ref_lib d n = check (denom_ok d \<and> 0 \<le> n) ''invalid coin'' \<lparr>Denom = d, Amount = n\<rparr>"
  "NewCoins ref_lib cs = (let ds = sort_key Denom (filter (\<lambda>c. Amount c \<noteq> 0) cs)
     in check (coins_ok ds) ''invalid coins'' ds)"
  "AmountOf ref_lib cs d = check (denom_ok d) ''invalid denom'' (coins_amt cs d)"
  "CoinSub ref_lib p q = check (Denom p = Denom q \<and> Amount q \<le> Amount p) ''invalid coin''
     \<lparr>Denom = Denom p, Amount = Amount p - Amount q\<rparr>"
  "CoinAdd ref_lib p q = check (Denom p = Denom q \<and> \<bar>Amount p + Amount q\<bar> < 2 ^ 256) ''invalid coin''
     \<lparr>Denom = Denom p, Amount = Amount p + Amount q\<rparr>"
  "CoinIsEqual ref_lib p q = Ok (p = q)"
  "CoinIsValid ref_lib q \<longleftrightarrow> 0 \<le> Amount q \<and> denom_ok (Denom q)"
  "CoinsValidate ref_lib cs = (if coins_ok cs then Ok () else Err (PlainErr ''invalid coins''))"
  "AccAddressFromBech32 ref_lib = from_bech32" "AddrString ref_lib u = bech32_prefix @ u"
  "AddressHash ref_lib u = take 20 (u @ replicate 20 CHR ''0'')"
  by (simp_all add: ref_lib_def)

lemma from_bech32_iff:
  "from_bech32 s = Ok a \<longleftrightarrow> s = bech32_prefix @ a \<and> a \<noteq> []"
  by (auto simp: from_bech32_def HasPrefix_iff bech32_prefix_def)

lemma sdiv_abs_le: "\<bar>a sdiv b\<bar> \<le> \<bar>a :: int\<bar>"
  using zdiv_mono2 [of "\<bar>a\<bar>" 1 "\<bar>b\<bar>"]
  by (cases "b = 0") (auto simp: signed_divide_int_def abs_mult sgn_if pos_imp_zdiv_nonneg_iff)

interpretation rlib: sdk_laws ref_lib
proof (unfold_locales, goal_cases)
  case (17 a e)
  then show ?case using dec_pow_small by (simp only: ref_lib_sel dec_checked_iff) blast
next
  case (18 a e c)
  then show ?case using dec_pow_near [of a "unat e"] by (simp only: ref_lib_sel dec_checked_iff)
next
  case (20 a)
  then show ?case using sdiv_abs_le [of a dec_one] by (simp add: ref_lib_sel checked_iff)
qed (auto simp: ref_lib_sel checked_iff dec_checked_iff quo_checked_iff chop_round_small [simplified] chop_round_near [simplified] sdiv_near
      dec_pow_unit [simplified] from_bech32_iff coins_ok_iff Let_def)

section \<open>The ledger\<close>

record ledger =
  accts :: "(bytes, (string, int) kv) kv"
  totals :: "(string, int) kv"

definition get0 :: "(string, int) kv \<Rightarrow> string \<Rightarrow> int" where
  "get0 m d = (case kv_get m d of None \<Rightarrow> 0 | Some n \<Rightarrow> n)"

definition acct :: "ledger \<Rightarrow> bytes \<Rightarrow> (string, int) kv" where
  "acct x a = (case kv_get (accts x) a of None \<Rightarrow> [] | Some m \<Rightarrow> m)"

definition add_bal :: "bytes \<Rightarrow> string \<Rightarrow> int \<Rightarrow> ledger \<Rightarrow> ledger" where
  "add_bal a d n x = x\<lparr>accts := kv_set a (kv_set d (get0 (acct x a) d + n) (acct x a)) (accts x)\<rparr>"

definition add_sup :: "string \<Rightarrow> int \<Rightarrow> ledger \<Rightarrow> ledger" where
  "add_sup d n x = x\<lparr>totals := kv_set d (get0 (totals x) d + n) (totals x)\<rparr>"

definition open_acct :: "bytes \<Rightarrow> ledger \<Rightarrow> ledger" where
  "open_acct a x = x\<lparr>accts := kv_set a (acct x a) (accts x)\<rparr>"

definition credit :: "bytes \<Rightarrow> coin list \<Rightarrow> ledger \<Rightarrow> ledger" where
  "credit a cs = fold (\<lambda>c. add_bal a (Denom c) (Amount c)) cs"

definition debit :: "bytes \<Rightarrow> coin list \<Rightarrow> ledger \<Rightarrow> ledger" where
  "debit a cs = fold (\<lambda>c. add_bal a (Denom c) (- Amount c)) cs"

definition covers :: "(string, int) kv \<Rightarrow> coin list \<Rightarrow> bool" where
  "covers m cs = list_all (\<lambda>c. Amount c \<le> get0 m (Denom c)) cs"

definition ledger_send :: "bytes \<Rightarrow> bytes \<Rightarrow> coin list \<Rightarrow> (ledger, unit) act" where
  "ledger_send a b cs x =
     (if coins_ok cs \<and> covers (acct x a) cs then (Ok (), credit b cs (debit a cs (open_acct b x)))
      else (Err (RegErr ''sdk'' 5), x))"

definition ledger_mint :: "bytes \<Rightarrow> coin list \<Rightarrow> (ledger, unit) act" where
  "ledger_mint a cs x =
     (if coins_ok cs then (Ok (), fold (\<lambda>c. add_sup (Denom c) (Amount c)) cs (credit a cs x))
      else (Err (RegErr ''sdk'' 10), x))"

definition ledger_burn :: "bytes \<Rightarrow> coin list \<Rightarrow> (ledger, unit) act" where
  "ledger_burn a cs x =
     (if coins_ok cs \<and> covers (acct x a) cs \<and> covers (totals x) cs
      then (Ok (), fold (\<lambda>c. add_sup (Denom c) (- Amount c)) cs (debit a cs x))
      else (Err (RegErr ''sdk'' 5), x))"

definition mod_addr :: "string \<Rightarrow> bytes" where
  "mod_addr m = ''mod:'' @ m"

definition ledger_bank :: "ledger bank_keeper" where
  "ledger_bank = \<lparr>
     SendCoins = ledger_send,
     SendCoinsFromModuleToAccount = \<lambda>m. ledger_send (mod_addr m),
     SendCoinsFromAccountToModule = \<lambda>a m. ledger_send a (mod_addr m),
     SendCoinsFromModuleToModule = \<lambda>m n. ledger_send (mod_addr m) (mod_addr n),
     MintCoins = \<lambda>m. ledger_mint (mod_addr m),
     BurnCoins = \<lambda>m. ledger_burn (mod_addr m),
     GetAllBalances = \<lambda>a x. map (\<lambda>(d, n). \<lparr>Denom = d, Amount = n\<rparr>) (filter (\<lambda>(d, n). n \<noteq> 0) (acct x a)),
     GetBalance = \<lambda>a d x. \<lparr>Denom = d, Amount = get0 (acct x a) d\<rparr>,
     GetSupply = \<lambda>d x. \<lparr>Denom = d, Amount = get0 (totals x) d\<rparr>\<rparr>"

definition ledger_accounts :: "ledger account_keeper" where
  "ledger_accounts = \<lparr>
     GetAccount = \<lambda>a x. if kv_has (accts x) a then Some a else None,
     GetModuleAddress = mod_addr\<rparr>"

text \<open>Well-formed: every account is an ordered map of valid denominations, nothing is negative.\<close>

definition acct_ok :: "(string, int) kv \<Rightarrow> bool" where
  "acct_ok m = (kv_ok m \<and> list_all (\<lambda>(d, n). denom_ok d) m)"

definition ledger_ok :: "ledger \<Rightarrow> bool" where
  "ledger_ok x \<longleftrightarrow> (\<forall>a. acct_ok (acct x a)) \<and> (\<forall>a d. 0 \<le> get0 (acct x a) d) \<and> (\<forall>d. 0 \<le> get0 (totals x) d)"

definition ledger_check :: "ledger \<Rightarrow> bool" where
  "ledger_check x =
     (list_all (\<lambda>(a, m). acct_ok m \<and> list_all (\<lambda>(d, n). 0 \<le> n) m) (accts x) \<and>
      list_all (\<lambda>(d, n). 0 \<le> n) (totals x))"

lemma kv_get_mem: "kv_get m k = Some v \<Longrightarrow> (k, v) \<in> set m"
  by (simp add: kv_get_def map_of_SomeD)

lemma get0_nonneg: "list_all (\<lambda>(d, n). 0 \<le> n) m \<Longrightarrow> 0 \<le> get0 m d"
  by (auto simp: get0_def list_all_iff dest: kv_get_mem split: option.split)

lemma ledger_checkD: "ledger_check x \<Longrightarrow> ledger_ok x"
  by (auto simp: ledger_ok_def ledger_check_def acct_def list_all_iff acct_ok_def kv_ok_def
      intro!: get0_nonneg dest!: kv_get_mem split: option.splits)

lemma acct_add_bal: "acct (add_bal a d n x) b =
    (if b = a then kv_set d (get0 (acct x a) d + n) (acct x a) else acct x b)"
  by (simp add: add_bal_def acct_def kv_get_set)

lemma get0_set: "get0 (kv_set d n m) e = (if e = d then n else get0 m e)"
  by (simp add: get0_def kv_get_set)

lemma bal_credit: "get0 (acct (credit a cs x) b) e =
    get0 (acct x b) e + (if b = a then coins_amt cs e else 0)"
  by (induction cs arbitrary: x) (auto simp: credit_def acct_add_bal get0_set)

lemma bal_debit: "get0 (acct (debit a cs x) b) e =
    get0 (acct x b) e - (if b = a then coins_amt cs e else 0)"
  by (induction cs arbitrary: x) (auto simp: debit_def acct_add_bal get0_set)

lemma sup_add: "get0 (totals (fold (\<lambda>c. add_sup (Denom c) (f (Amount c))) cs x)) e =
    get0 (totals x) e + sum_list (map (\<lambda>c. f (Amount c)) (filter (\<lambda>c. Denom c = e) cs))"
  by (induction cs arbitrary: x) (auto simp: add_sup_def get0_set)

lemma acct_sup [simp]: "acct (fold (\<lambda>c. add_sup (Denom c) (f (Amount c))) cs x) a = acct x a"
  by (induction cs arbitrary: x) (auto simp: add_sup_def acct_def)

lemma accts_sup [simp]: "accts (fold (\<lambda>c. add_sup (Denom c) (f (Amount c))) cs x) = accts x"
  by (induction cs arbitrary: x) (auto simp: add_sup_def)

lemma totals_credit [simp]: "totals (credit a cs x) = totals x"
  by (induction cs arbitrary: x) (auto simp: credit_def add_bal_def)

lemma totals_debit [simp]: "totals (debit a cs x) = totals x"
  by (induction cs arbitrary: x) (auto simp: debit_def add_bal_def)

lemma open_acct_simps [simp]: "acct (open_acct a x) b = acct x b" "totals (open_acct a x) = totals x"
  "kv_has (accts (open_acct a x)) b \<longleftrightarrow> b = a \<or> kv_has (accts x) b"
  by (simp_all add: open_acct_def acct_def kv_get_set)

lemma has_credit: "kv_has (accts x) b \<Longrightarrow> kv_has (accts (credit a cs x)) b"
  by (induction cs arbitrary: x) (auto simp: credit_def add_bal_def)

lemma has_debit: "kv_has (accts x) b \<Longrightarrow> kv_has (accts (debit a cs x)) b"
  by (induction cs arbitrary: x) (auto simp: debit_def add_bal_def)

lemma set_kv_set: "set (kv_set k v m) \<subseteq> insert (k, v) (set m)"
  by (induction m) auto

lemma acct_ok_set: "acct_ok m \<Longrightarrow> denom_ok d \<Longrightarrow> acct_ok (kv_set d n m)"
  using set_kv_set [of d n m] by (fastforce simp: acct_ok_def list_all_iff intro: kv_ok_set)

lemma acct_ok_credit: "\<forall>b. acct_ok (acct x b) \<Longrightarrow> list_all (\<lambda>c. denom_ok (Denom c)) cs
    \<Longrightarrow> acct_ok (acct (credit a cs x) b)"
  by (induction cs arbitrary: x) (auto simp: credit_def acct_add_bal acct_ok_set)

lemma acct_ok_debit: "\<forall>b. acct_ok (acct x b) \<Longrightarrow> list_all (\<lambda>c. denom_ok (Denom c)) cs
    \<Longrightarrow> acct_ok (acct (debit a cs x) b)"
  by (induction cs arbitrary: x) (auto simp: debit_def acct_add_bal acct_ok_set)

lemma coins_okD: "coins_ok cs \<Longrightarrow> list_all (\<lambda>c. denom_ok (Denom c)) cs \<and> 0 \<le> coins_amt cs d"
  using valid_coins_nonneg [of ref_lib] by (auto simp: coins_ok_iff) (simp add: coins_ok_def list_all_iff)

lemma coins_amt_distinct:
  "distinct (map Denom cs) \<Longrightarrow> c \<in> set cs \<Longrightarrow> coins_amt cs (Denom c) = Amount c"
  by (induction cs) (auto simp: coins_amt_absent image_iff)

lemma covers_amt:
  assumes "coins_ok cs" and "covers m cs" and "\<And>e. 0 \<le> get0 m e"
  shows "coins_amt cs d \<le> get0 m d"
proof (cases "d \<in> Denom ` set cs")
  case True
  then obtain c where c: "c \<in> set cs" "Denom c = d" by auto
  have "distinct (map Denom cs)"
    using assms(1) by (simp add: coins_ok_def strict_sorted_iff)
  then have "coins_amt cs d = Amount c" using c coins_amt_distinct by blast
  then show ?thesis using c assms(2) by (auto simp: covers_def list_all_iff)
qed (simp add: assms(3) coins_amt_absent)

section \<open>The ledger keeps the contract\<close>

lemma ledger_bal [simp]: "bal ledger_bank x a d = get0 (acct x a) d"
  and ledger_sup [simp]: "sup ledger_bank x d = get0 (totals x) d"
  and ledger_account [simp]: "GetAccount ledger_accounts a x = (if kv_has (accts x) a then Some a else None)"
  by (simp_all add: bal_def sup_def ledger_bank_def ledger_accounts_def)

lemma ledger_send_keeps:
  assumes ok: "ledger_ok x" and run: "ledger_send a b cs x = (Ok u, x')"
  shows "ledger_ok x' \<and> moves ledger_bank x a b cs x' \<and> keeps_accounts ledger_accounts x x' \<and>
    GetAccount ledger_accounts b x' \<noteq> None"
proof -
  have cs: "coins_ok cs" "covers (acct x a) cs" and x': "x' = credit b cs (debit a cs (open_acct b x))"
    using run by (auto simp: ledger_send_def split: if_splits)
  have enough: "coins_amt cs d \<le> get0 (acct x a) d" for d
    using cs ok by (auto intro: covers_amt simp: ledger_ok_def)
  have "acct_ok (acct x' c)" for c
    unfolding x' using ok coins_okD [OF cs(1)]
    by (intro acct_ok_credit allI acct_ok_debit) (auto simp: ledger_ok_def)
  moreover have b: "get0 (acct x' c) d = get0 (acct x c) d - (if c = a then coins_amt cs d else 0)
      + (if c = b then coins_amt cs d else 0)" for c d
    by (simp add: x' bal_credit bal_debit)
  moreover have "0 \<le> get0 (acct x' c) d" for c d
    using b enough [of d] coins_okD [OF cs(1)] ok by (auto simp: ledger_ok_def)
  moreover have "totals x' = totals x" by (simp add: x')
  ultimately show ?thesis
    using ok enough
    by (auto simp: ledger_ok_def moves_def keeps_accounts_def x' intro!: has_credit has_debit)
qed

lemma ledger_mint_keeps:
  assumes ok: "ledger_ok x" and run: "ledger_mint a cs x = (Ok u, x')"
  shows "ledger_ok x' \<and> mints ledger_bank x a cs x' \<and> keeps_accounts ledger_accounts x x'"
proof -
  have cs: "coins_ok cs" and x': "x' = fold (\<lambda>c. add_sup (Denom c) (Amount c)) cs (credit a cs x)"
    using run by (auto simp: ledger_mint_def split: if_splits)
  have "acct_ok (acct x' c)" for c
    unfolding x' acct_sup [of "\<lambda>n. n"] using ok coins_okD [OF cs] by (auto simp: ledger_ok_def intro: acct_ok_credit)
  moreover have "get0 (totals x') d = get0 (totals x) d + coins_amt cs d" for d
    unfolding x' sup_add [of "\<lambda>n. n"] by (simp add: coins_amt_def)
  moreover have "get0 (acct x' c) d = get0 (acct x c) d + (if c = a then coins_amt cs d else 0)" for c d
    unfolding x' acct_sup [of "\<lambda>n. n"] by (simp add: bal_credit)
  moreover have "0 \<le> coins_amt cs d" for d using coins_okD [OF cs] by simp
  ultimately show ?thesis
    using ok by (auto simp: ledger_ok_def mints_def keeps_accounts_def x' accts_sup [of "\<lambda>n. n"] intro!: has_credit)
qed

lemma ledger_burn_keeps:
  assumes ok: "ledger_ok x" and run: "ledger_burn a cs x = (Ok u, x')"
  shows "ledger_ok x' \<and> burns ledger_bank x a cs x' \<and> keeps_accounts ledger_accounts x x'"
proof -
  have cs: "coins_ok cs" "covers (acct x a) cs" "covers (totals x) cs"
    and x': "x' = fold (\<lambda>c. add_sup (Denom c) (- Amount c)) cs (debit a cs x)"
    using run by (auto simp: ledger_burn_def split: if_splits)
  have "acct_ok (acct x' c)" for c
    unfolding x' acct_sup [of uminus] using ok coins_okD [OF cs(1)] by (auto simp: ledger_ok_def intro: acct_ok_debit)
  moreover have "get0 (totals x') d = get0 (totals x) d - coins_amt cs d" for d
    unfolding x' sup_add [of uminus] by (simp add: coins_amt_def uminus_sum_list_map o_def)
  moreover have "get0 (acct x' c) d = get0 (acct x c) d - (if c = a then coins_amt cs d else 0)" for c d
    unfolding x' acct_sup [of uminus] by (simp add: bal_debit)
  moreover have "coins_amt cs d \<le> get0 (acct x a) d" "coins_amt cs d \<le> get0 (totals x) d" for d
    using cs ok by (auto intro: covers_amt simp: ledger_ok_def)
  ultimately show ?thesis
    using ok by (auto simp: ledger_ok_def burns_def keeps_accounts_def x' accts_sup [of uminus] intro!: has_debit)
qed

lemma all_balances_amt:
  "kv_ok m \<Longrightarrow> coins_amt (map (\<lambda>(d, n). \<lparr>Denom = d, Amount = n\<rparr>) (filter (\<lambda>(d, n). n \<noteq> 0) m)) d = get0 m d"
proof (induction m)
  case (Cons e m)
  then have "get0 m (fst e) = 0"
    by (auto simp: get0_def kv_ok_Cons split: option.split dest!: kv_get_mem)
  then show ?case using Cons by (auto simp: kv_ok_Cons get0_def kv_get_def split: prod.splits)
qed (simp add: get0_def kv_get_def)

lemma all_balances_valid:
  assumes "acct_ok m" and "\<And>d. 0 \<le> get0 m d"
  shows "coins_ok (map (\<lambda>(d, n). \<lparr>Denom = d, Amount = n\<rparr>) (filter (\<lambda>(d, n). n \<noteq> 0) m))"
proof -
  have ok: "kv_ok m" using assms(1) by (simp add: acct_ok_def)
  have "0 \<le> n" if "(d, n) \<in> set m" for d n
    using assms(2) [of d] that kvs.entry_get [OF ok, of d n] by (simp add: get0_def)
  then have "0 < n \<and> denom_ok d" if "(d, n) \<in> set m" "n \<noteq> 0" for d n
    using that assms(1) by (fastforce simp: acct_ok_def list_all_iff order_less_le)
  moreover have "map Denom (map (\<lambda>(d, n). \<lparr>Denom = d, Amount = n\<rparr>) xs) = map fst xs" for xs :: "(string \<times> int) list"
    by (induction xs) auto
  moreover have "sorted_wrt (<) (map fst (filter P m))" for P
    using ok by (simp add: kv_ok_def sorted_wrt_map sorted_wrt_filter)
  ultimately show ?thesis by (auto simp: coins_ok_def list_all_iff simp del: map_map)
qed

lemma ledger_bank_sel:
  "SendCoins ledger_bank = ledger_send"
  "SendCoinsFromModuleToAccount ledger_bank m = ledger_send (mod_addr m)"
  "SendCoinsFromAccountToModule ledger_bank a m = ledger_send a (mod_addr m)"
  "SendCoinsFromModuleToModule ledger_bank m n = ledger_send (mod_addr m) (mod_addr n)"
  "MintCoins ledger_bank m = ledger_mint (mod_addr m)"
  "BurnCoins ledger_bank m = ledger_burn (mod_addr m)"
  "GetAllBalances ledger_bank a x =
     map (\<lambda>(d, n). \<lparr>Denom = d, Amount = n\<rparr>) (filter (\<lambda>(d, n). n \<noteq> 0) (acct x a))"
  "GetBalance ledger_bank a d x = \<lparr>Denom = d, Amount = get0 (acct x a) d\<rparr>"
  "GetSupply ledger_bank d x = \<lparr>Denom = d, Amount = get0 (totals x) d\<rparr>"
  "GetModuleAddress ledger_accounts = mod_addr"
  by (simp_all add: ledger_bank_def ledger_accounts_def)

interpretation lbank: bank_laws ref_lib ledger_bank ledger_accounts ledger_ok
proof (unfold_locales, goal_cases)
  case (1 x a d)
  then show ?case
    using all_balances_amt [of "acct x a"] all_balances_valid [of "acct x a"]
    by (simp add: ledger_ok_def coins_ok_iff acct_ok_def ledger_bank_sel)
next
  case (2 x d)
  then show ?case by (simp add: ledger_ok_def)
next
  case (3 a x b)
  then show ?case by (simp split: if_splits)
next
  case (4 x a b cs x')
  then show ?case using ledger_send_keeps unfolding ledger_bank_sel by blast
next
  case (5 x m b cs x')
  then show ?case using ledger_send_keeps unfolding ledger_bank_sel by blast
next
  case (6 x a m cs x')
  then show ?case using ledger_send_keeps unfolding ledger_bank_sel by blast
next
  case (7 x m n cs x')
  then show ?case using ledger_send_keeps unfolding ledger_bank_sel by blast
next
  case (8 x m cs x')
  then show ?case using ledger_mint_keeps unfolding ledger_bank_sel by blast
next
  case (9 x m cs x')
  then show ?case using ledger_burn_keeps unfolding ledger_bank_sel by blast
next
  case (10 a d x)
  then show ?case by (simp add: ledger_bank_sel)
qed

end
