(* ===== verification/Coinswap_Props.thy ===== *)
theory Coinswap_Props
  imports Coinswap_Liquidity Ledger
begin

text \<open>
  The properties of x/coinswap, with a concrete chain (one pool, one account) on which
  each of them is exercised.
\<close>

section \<open>A concrete chain\<close>

definition demo_keeper :: "ledger Keeper" where
  "demo_keeper = \<lparr>bk = ledger_bank, ak = ledger_accounts, feeCollectorName = ''fee_collector'',
     blockedAddrs = [], authority = ''gov''\<rparr>"

interpretation denv: coinswap_env ref_lib demo_keeper ledger_ok
  unfolding coinswap_env_def demo_keeper_def by (simp add: lbank.bank_laws_axioms)

definition demo_params :: Params where
  "demo_params = \<lparr>Fee = 3 * 10 ^ 15, PoolCreationFee = \<lparr>Denom = ''acanto'', Amount = 100\<rparr>, TaxRate = 4 * 10 ^ 17,
     MaxStandardCoinPerPool = 10 ^ 22, MaxSwapAmount = [\<lparr>Denom = ''ueth'', Amount = 10 ^ 6\<rparr>, \<lparr>Denom = ''uusdc'', Amount = 10 ^ 7\<rparr>]\<rparr>"

definition demo_pool :: Pool where
  "demo_pool = \<lparr>Id = ''pool-uusdc'', StandardDenom = ''acanto'', CounterpartyDenom = ''uusdc'',
     EscrowAddress = ''canto1lpt-1000000000000000'', LptDenom = ''lpt-1''\<rparr>"

lemma demo_pool_sel: "LptDenom demo_pool = ''lpt-1''" "CounterpartyDenom demo_pool = ''uusdc''"
  by (simp_all add: demo_pool_def)

definition demo_ledger :: ledger where
  "demo_ledger = \<lparr>accts = [(''alice'', [(''acanto'', 5000), (''lpt-1'', 1000), (''ueth'', 700), (''uusdc'', 9000)]),
       (''lpt-1000000000000000'', [(''acanto'', 1000), (''uusdc'', 2000)])],
     totals = [(''acanto'', 6000), (''lpt-1'', 1000), (''ueth'', 700), (''uusdc'', 11000)]\<rparr>"

definition demo_state :: "ledger cs_state" where
  "demo_state = \<lparr>kown = \<lparr>pspace = Some demo_params,
      kvstore = [(KeyStandardDenom, StringVal ''acanto''), (GetLptDenomKey ''lpt-1'', StringVal ''pool-uusdc''),
        (KeyNextPoolSequence, SeqVal 2), (GetPoolKey ''pool-uusdc'', PoolVal demo_pool)]\<rparr>,
    kext = demo_ledger\<rparr>"

definition demo_ctx :: block_ctx where
  "demo_ctx = \<lparr>BlockTime = 10 ^ 18, BlockHeight = 1\<rparr>"

definition demo_order :: "bool \<Rightarrow> MsgSwapOrder" where
  "demo_order buy = \<lparr>Input = \<lparr>Address = ''canto1alice'', Coin = \<lparr>Denom = ''acanto'', Amount = 100\<rparr>\<rparr>,
     Output = \<lparr>Address = ''canto1alice'', Coin = \<lparr>Denom = ''uusdc'', Amount = 150\<rparr>\<rparr>,
     swapDeadline = 2000000000, IsBuyOrder = buy\<rparr>"

definition demo_add :: "string \<Rightarrow> MsgAddLiquidity" where
  "demo_add d = \<lparr>MaxToken = \<lparr>Denom = d, Amount = 500\<rparr>, ExactStandardAmt = 100, MinLiquidity = 100,
     addDeadline = 2000000000, addSender = ''canto1alice''\<rparr>"

definition demo_remove :: MsgRemoveLiquidity where
  "demo_remove = \<lparr>WithdrawLiquidity = \<lparr>Denom = ''lpt-1'', Amount = 100\<rparr>, MinToken = 1, MinStandardAmt = 1,
     removeDeadline = 2000000000, removeSender = ''canto1alice''\<rparr>"

lemma demo_ledger_ok: "ledger_ok (kext demo_state)"
  by (rule ledger_checkD) code_simp

lemma demo_params_ok: "pspace (kown demo_state) = Some demo_params" "params_ok ref_lib demo_params"
  by code_simp+

lemma demo_std: "GetStandardDenom demo_state = (Ok ''acanto'', demo_state)"
  by (simp add: GetStandardDenom_Ok_iff demo_state_def kv_get_def)

lemma demo_get_pool: "kv_get (cs_kv demo_state) (GetPoolKey (GetPoolId ''uusdc'')) = Some (PoolVal demo_pool)"
  by code_simp

lemma env_bank: "coinswap_env L k binv \<Longrightarrow> bank_laws L (bk k) (ak k) binv"
  by (simp add: coinswap_env_def)

lemma env_lib: "coinswap_env L k binv \<Longrightarrow> sdk_laws L"
  by (simp add: coinswap_env_def bank_laws_def)

section \<open>Swaps\<close>

lemma swap_reserves:
  assumes env: "coinswap_env L k binv" and inv: "binv (kext s)"
    and p: "pspace (kown s) = Some p" "params_ok L p"
    and run: "msg_SwapCoin L k ctx msg s = (Ok (), t)"
    and lpt: "GetLptDenomFromDenoms (Denom (Coin (Input msg))) (Denom (Coin (Output msg))) s = (Ok lpt, s)"
    and signer: "AccAddressFromBech32 L (Address (Input msg)) \<noteq> Ok (GetReservePoolAddr L lpt)"
  defines "B \<equiv> \<lambda>u. bal (bk k) (kext u) (GetReservePoolAddr L lpt)"
  shows "B s (Denom (Coin (Input msg))) * B s (Denom (Coin (Output msg)))
       \<le> B t (Denom (Coin (Input msg))) * B t (Denom (Coin (Output msg)))
    \<and> 0 < B t (Denom (Coin (Output msg)))
    \<and> (\<forall>d. d \<noteq> Denom (Coin (Input msg)) \<and> d \<noteq> Denom (Coin (Output msg)) \<longrightarrow> B t d = B s d)
    \<and> (\<forall>d. sup (bk k) (kext t) d = sup (bk k) (kext s) d) \<and> kown t = kown s"
proof -
  let ?in = "Denom (Coin (Input msg))" and ?out = "Denom (Coin (Output msg))"
  have swap: "Swap L k msg s = (Ok (), t)" and neq: "?in \<noteq> ?out"
    and amt: "0 \<le> Amount (Coin (Input msg))" "0 \<le> Amount (Coin (Output msg))"
    using run by (auto simp: msg_SwapCoin_def if_act_Ok_iff validation_defs split: if_splits)
  obtain i n where own: "kown t = kown s" and fill: "fills L k msg s lpt i n t"
    using coinswap_env.Swap_fills [OF env inv p amt swap] lpt by (metis lpt_det)
  obtain a r where a: "a \<noteq> GetReservePoolAddr L lpt" and q: "quotes L (B s ?in) (B s ?out) i n"
    and pos: "0 < B s ?in" "0 < B s ?out"
    and sw: "swapped (bk k) (kext s) a (GetReservePoolAddr L lpt) r \<lparr>Denom = ?in, Amount = i\<rparr> \<lparr>Denom = ?out, Amount = n\<rparr> (kext t)"
    using fill signer by (auto simp: fills_def Let_def B_def)
  note rng = sdk_laws.quotes_range [OF env_lib [OF env] pos q]
  note prod = sdk_laws.quotes_product [OF env_lib [OF env] pos q]
  have ge: "B s ?in + i \<le> B t ?in" "B s ?out - n \<le> B t ?out"
    using sw a neq rng by (auto simp: swapped_def B_def)
  then have "(B s ?in + i) * (B s ?out - n) \<le> B t ?in * B t ?out"
    using rng pos by (intro mult_mono) auto
  then show ?thesis
    using prod ge rng own sw a by (auto simp: swapped_def B_def)
qed

text \<open>C2. A swap message that succeeds never lowers the product of the two reserves of its
  pool, leaves every other balance of the pool, the total supply and the module's own
  store as they were, and pays out less than the pool holds, for any fee below one and
  both kinds of orders, as long as the order is not signed by the pool account itself.\<close>

theorem SwapCoin_constant_product:
  assumes env: "coinswap_env L k binv" and inv: "binv (kext s)"
    and p: "pspace (kown s) = Some p" "params_ok L p"
    and run: "msg_SwapCoin L k ctx msg s = (Ok (), t)"
    and lpt: "GetLptDenomFromDenoms (Denom (Coin (Input msg))) (Denom (Coin (Output msg))) s = (Ok lpt, s)"
    and signer: "AccAddressFromBech32 L (Address (Input msg)) \<noteq> Ok (GetReservePoolAddr L lpt)"
  defines "B \<equiv> \<lambda>u. bal (bk k) (kext u) (GetReservePoolAddr L lpt)"
  shows "B s (Denom (Coin (Input msg))) * B s (Denom (Coin (Output msg)))
       \<le> B t (Denom (Coin (Input msg))) * B t (Denom (Coin (Output msg)))
    \<and> 0 < B t (Denom (Coin (Output msg)))
    \<and> (\<forall>d. d \<noteq> Denom (Coin (Input msg)) \<and> d \<noteq> Denom (Coin (Output msg)) \<longrightarrow> B t d = B s d)
    \<and> (\<forall>d. sup (bk k) (kext t) d = sup (bk k) (kext s) d) \<and> kown t = kown s"
  unfolding B_def using swap_reserves [OF env inv p run lpt signer] by blast

lemma demo_lpt: "GetLptDenomFromDenoms ''acanto'' ''uusdc'' demo_state = (Ok ''lpt-1'', demo_state)"
  by code_simp

lemma demo_order_sel [simp]: "Coin (Input (demo_order b)) = \<lparr>Denom = ''acanto'', Amount = 100\<rparr>"
  "Coin (Output (demo_order b)) = \<lparr>Denom = ''uusdc'', Amount = 150\<rparr>"
  by (simp_all add: demo_order_def)

lemma demo_swap: "fst (msg_SwapCoin ref_lib demo_keeper demo_ctx (demo_order b) demo_state) = Ok ()"
  by (cases b) (simp only:, code_simp)+

lemma demo_signer: "AccAddressFromBech32 ref_lib (Address (Input (demo_order b))) \<noteq> Ok (GetReservePoolAddr ref_lib ''lpt-1'')"
  by (cases b) (simp only:, code_simp)+

theorem SwapCoin_constant_product_witness:
  "fst (msg_SwapCoin ref_lib demo_keeper demo_ctx (demo_order True) demo_state) = Ok () \<and>
   (let t = snd (msg_SwapCoin ref_lib demo_keeper demo_ctx (demo_order True) demo_state);
        B = \<lambda>u. bal (bk demo_keeper) (kext u) (GetReservePoolAddr ref_lib ''lpt-1'')
    in B demo_state ''acanto'' * B demo_state ''uusdc'' \<le> B t ''acanto'' * B t ''uusdc'')"
  using SwapCoin_constant_product [OF denv.coinswap_env_axioms demo_ledger_ok demo_params_ok
      pair_Ok_snd [OF demo_swap [of True]], of "''lpt-1''"] demo_lpt demo_signer [of True] demo_swap [of True]
  by (simp add: Let_def)

text \<open>C3. A swap that succeeds respects the order: a sell order pays exactly the input and
  yields at least the output, a buy order yields exactly the output and pays at most the
  input; the payer and the receiver (here different accounts, and not the pool) are
  charged and credited exactly those amounts and nothing else of theirs moves; and the
  amount of the coin that is not the standard coin is within its white-listed maximum.\<close>

theorem SwapCoin_respects_order:
  assumes env: "coinswap_env L k binv" and inv: "binv (kext s)"
    and p: "pspace (kown s) = Some p" "params_ok L p"
    and run: "msg_SwapCoin L k ctx msg s = (Ok (), t)"
    and std: "GetStandardDenom s = (Ok std, s)"
    and lpt: "GetLptDenomFromDenoms (Denom (Coin (Input msg))) (Denom (Coin (Output msg))) s = (Ok lpt, s)"
    and a: "AccAddressFromBech32 L (Address (Input msg)) = Ok a" "a \<noteq> GetReservePoolAddr L lpt"
    and r: "AccAddressFromBech32 L (Address (Output msg)) = Ok r" "r \<noteq> GetReservePoolAddr L lpt" "r \<noteq> a"
  shows "\<exists>i n. (if IsBuyOrder msg then n = Amount (Coin (Output msg)) \<and> i \<le> Amount (Coin (Input msg))
             else i = Amount (Coin (Input msg)) \<and> Amount (Coin (Output msg)) \<le> n)
    \<and> (\<forall>d. bal (bk k) (kext t) a d = bal (bk k) (kext s) a d - (if d = Denom (Coin (Input msg)) then i else 0))
    \<and> (\<forall>d. bal (bk k) (kext t) r d = bal (bk k) (kext s) r d + (if d = Denom (Coin (Output msg)) then n else 0))
    \<and> (\<forall>c. c \<noteq> a \<and> c \<noteq> r \<and> c \<noteq> GetReservePoolAddr L lpt \<longrightarrow>
         (\<forall>d. bal (bk k) (kext t) c d = bal (bk k) (kext s) c d))
    \<and> (if Denom (Coin (Output msg)) \<noteq> std then within_limit s (Denom (Coin (Output msg))) n
       else within_limit s (Denom (Coin (Input msg))) i)"
proof -
  have swap: "Swap L k msg s = (Ok (), t)"
    and amt: "0 \<le> Amount (Coin (Input msg))" "0 \<le> Amount (Coin (Output msg))"
    using run by (auto simp: msg_SwapCoin_def if_act_Ok_iff validation_defs split: if_splits)
  obtain i n where fill: "fills L k msg s lpt i n t"
    and lim: "if Denom (Coin (Output msg)) \<noteq> std then within_limit s (Denom (Coin (Output msg))) n
       else within_limit s (Denom (Coin (Input msg))) i"
    using coinswap_env.Swap_fills [OF env inv p amt swap] lpt std by (metis lpt_det GetStandardDenom_det)
  from fill a r have "swapped (bk k) (kext s) a (GetReservePoolAddr L lpt) r
      \<lparr>Denom = Denom (Coin (Input msg)), Amount = i\<rparr> \<lparr>Denom = Denom (Coin (Output msg)), Amount = n\<rparr> (kext t)"
    by (auto simp: fills_def Let_def)
  then show ?thesis
    using fill lim a r by (intro exI [of _ i] exI [of _ n]) (auto simp: swapped_def fills_def Let_def)
qed

definition demo_order_bob :: MsgSwapOrder where
  "demo_order_bob = (demo_order False)\<lparr>Output := (Output (demo_order False))\<lparr>Address := ''canto1bob''\<rparr>\<rparr>"

lemma demo_swap_bob: "fst (msg_SwapCoin ref_lib demo_keeper demo_ctx demo_order_bob demo_state) = Ok ()"
  by code_simp

theorem SwapCoin_respects_order_witness:
  "fst (msg_SwapCoin ref_lib demo_keeper demo_ctx demo_order_bob demo_state) = Ok () \<and>
   (\<exists>n \<ge> 150. \<forall>d. bal (bk demo_keeper) (kext (snd (msg_SwapCoin ref_lib demo_keeper demo_ctx demo_order_bob demo_state))) ''bob'' d
      = bal (bk demo_keeper) (kext demo_state) ''bob'' d + (if d = ''uusdc'' then n else 0))"
proof -
  have "AccAddressFromBech32 ref_lib (Address (Input demo_order_bob)) = Ok ''alice''"
    "AccAddressFromBech32 ref_lib (Address (Output demo_order_bob)) = Ok ''bob''"
    "''alice'' \<noteq> GetReservePoolAddr ref_lib ''lpt-1''" "''bob'' \<noteq> GetReservePoolAddr ref_lib ''lpt-1''"
    by code_simp+
  then show ?thesis
    using SwapCoin_respects_order [OF denv.coinswap_env_axioms demo_ledger_ok demo_params_ok
        pair_Ok_snd [OF demo_swap_bob] demo_std, of "''lpt-1''" "''alice''" "''bob''"] demo_lpt demo_swap_bob
    by (auto simp: demo_order_bob_def demo_order_def)
qed

section \<open>Liquidity\<close>

lemma add_reserves:
  assumes env: "coinswap_env L k binv" and inv: "binv (kext s)"
    and p: "pspace (kown s) = Some p" and std: "GetStandardDenom s = (Ok std, s)"
    and run: "msg_AddLiquidity L k ctx msg s = (Ok c, t)"
    and pool: "kv_get (cs_kv s) (GetPoolKey (GetPoolId (Denom (MaxToken msg)))) = Some (PoolVal pool)"
    and pa: "AccAddressFromBech32 L (EscrowAddress pool) = Ok pa"
    and signer: "AccAddressFromBech32 L (addSender msg) \<noteq> Ok pa"
    and liq: "sup (bk k) (kext s) (LptDenom pool) \<noteq> 0"
  defines "X \<equiv> \<lambda>u. bal (bk k) (kext u) pa std" and "Y \<equiv> \<lambda>u. bal (bk k) (kext u) pa (Denom (MaxToken msg))"
    and "T \<equiv> \<lambda>u. sup (bk k) (kext u) (LptDenom pool)"
  defines "dx \<equiv> min (ExactStandardAmt msg) (MaxStandardCoinPerPool p - X s)"
  shows "X t = X s + dx" "X t \<le> MaxStandardCoinPerPool p"
    "Y t = Y s + (Y s * dx div X s + 1)" "Y t - Y s \<le> Amount (MaxToken msg)"
    "T t = T s + Amount c" "Amount c = T s * dx div X s" "Denom c = LptDenom pool"
    "MinLiquidity msg \<le> Amount c" "T t * X s \<le> T s * X t" "T t * Y s \<le> T s * Y t"
    "0 < X s" "0 \<le> Y s" "0 \<le> T s" "0 \<le> dx" "kown t = kown s" "binv (kext t)" "std \<noteq> Denom (MaxToken msg)"
proof -
  have run': "AddLiquidity L k msg s = (Ok c, t)" and exact: "0 \<le> ExactStandardAmt msg"
    using run by (auto simp: msg_AddLiquidity_def if_act_Ok_iff validation_defs split: if_splits)
  obtain a where a: "AccAddressFromBech32 L (addSender msg) = Ok a" and ne: "a \<noteq> pa"
    using coinswap_env.AddLiquidity_existing [OF env inv run' std p pool pa liq] signer by metis
  have now: "bal (bk k) (kext s) pa std = X s" "bal (bk k) (kext s) pa (Denom (MaxToken msg)) = Y s"
    "sup (bk k) (kext s) (LptDenom pool) = T s"
    by (simp_all add: X_def Y_def T_def)
  have after: "X t = bal (bk k) (kext t) pa std" "Y t = bal (bk k) (kext t) pa (Denom (MaxToken msg))"
    "T t = sup (bk k) (kext t) (LptDenom pool)"
    by (simp_all add: X_def Y_def T_def)
  note e = coinswap_env.AddLiquidity_existing_effect [OF env inv run' std p pool pa liq exact a,
      unfolded now, folded dx_def]
  have XYT: "X t = X s + dx" "Y t = Y s + (Y s * dx div X s + 1)" "T t = T s + Amount c"
    using e(9,10) ne now unfolding deposited_def by (simp_all add: e(6) after)
  have nonneg: "0 \<le> Y s" "0 \<le> T s"
    using bank_laws.bal_nonneg [OF env_bank [OF env] inv] bank_laws.sup_nonneg [OF env_bank [OF env] inv]
    by (auto simp: Y_def T_def)
  note d = mint_no_dilution [OF e(1) nonneg e(2)]
  show "X t = X s + dx" "X t \<le> MaxStandardCoinPerPool p"
    "Y t = Y s + (Y s * dx div X s + 1)" "Y t - Y s \<le> Amount (MaxToken msg)"
    "T t = T s + Amount c" "Amount c = T s * dx div X s" "Denom c = LptDenom pool"
    "MinLiquidity msg \<le> Amount c" "T t * X s \<le> T s * X t" "T t * Y s \<le> T s * Y t"
    "0 < X s" "0 \<le> Y s" "0 \<le> T s" "0 \<le> dx" "kown t = kown s" "binv (kext t)" "std \<noteq> Denom (MaxToken msg)"
    using XYT e d nonneg by simp_all
qed

text \<open>C4. A deposit into a pool that has liquidity mints the share of the standard coin paid,
  rounded down, and charges the same share of the token, rounded up; it keeps the
  standard coin of the pool within the configured maximum, mints at least what the
  sender asked for and takes no more token than the sender allowed. What one unit of
  liquidity is worth, in either coin, does not drop.\<close>

theorem AddLiquidity_no_dilution:
  assumes env: "coinswap_env L k binv" and inv: "binv (kext s)"
    and p: "pspace (kown s) = Some p" and std: "GetStandardDenom s = (Ok std, s)"
    and run: "msg_AddLiquidity L k ctx msg s = (Ok c, t)"
    and pool: "kv_get (cs_kv s) (GetPoolKey (GetPoolId (Denom (MaxToken msg)))) = Some (PoolVal pool)"
    and pa: "AccAddressFromBech32 L (EscrowAddress pool) = Ok pa"
    and signer: "AccAddressFromBech32 L (addSender msg) \<noteq> Ok pa"
    and liq: "sup (bk k) (kext s) (LptDenom pool) \<noteq> 0"
  defines "X \<equiv> \<lambda>u. bal (bk k) (kext u) pa std" and "Y \<equiv> \<lambda>u. bal (bk k) (kext u) pa (Denom (MaxToken msg))"
    and "T \<equiv> \<lambda>u. sup (bk k) (kext u) (LptDenom pool)"
  defines "dx \<equiv> min (ExactStandardAmt msg) (MaxStandardCoinPerPool p - X s)"
  shows "X t = X s + dx \<and> X t \<le> MaxStandardCoinPerPool p
    \<and> Y t = Y s + (Y s * dx div X s + 1) \<and> Y t - Y s \<le> Amount (MaxToken msg)
    \<and> T t = T s + Amount c \<and> Amount c = T s * dx div X s \<and> Denom c = LptDenom pool
    \<and> MinLiquidity msg \<le> Amount c
    \<and> T t * X s \<le> T s * X t \<and> T t * Y s \<le> T s * Y t"
  unfolding dx_def X_def Y_def T_def
  using add_reserves [OF env inv p std run pool pa signer liq] by blast

lemma demo_escrow: "AccAddressFromBech32 ref_lib (EscrowAddress demo_pool) = Ok ''lpt-1000000000000000''"
  by code_simp

lemma demo_liq: "sup (bk demo_keeper) (kext demo_state) (LptDenom demo_pool) = 1000"
  by code_simp

lemma demo_added: "fst (msg_AddLiquidity ref_lib demo_keeper demo_ctx (demo_add ''uusdc'') demo_state) =
    Ok \<lparr>Denom = ''lpt-1'', Amount = 100\<rparr>"
  by code_simp

lemma demo_add_sel [simp]: "MaxToken (demo_add d) = \<lparr>Denom = d, Amount = 500\<rparr>" "addSender (demo_add d) = ''canto1alice''"
  "ExactStandardAmt (demo_add d) = 100" "MinLiquidity (demo_add d) = 100"
  by (simp_all add: demo_add_def)

lemma demo_alice: "AccAddressFromBech32 ref_lib ''canto1alice'' = Ok ''alice''"
  by code_simp

theorem AddLiquidity_no_dilution_witness:
  "fst (msg_AddLiquidity ref_lib demo_keeper demo_ctx (demo_add ''uusdc'') demo_state) = Ok \<lparr>Denom = ''lpt-1'', Amount = 100\<rparr> \<and>
   sup (bk demo_keeper) (kext (snd (msg_AddLiquidity ref_lib demo_keeper demo_ctx (demo_add ''uusdc'') demo_state))) ''lpt-1'' = 1100"
  using AddLiquidity_no_dilution [OF denv.coinswap_env_axioms demo_ledger_ok demo_params_ok(1) demo_std
      pair_Ok_snd [OF demo_added] _ demo_escrow] demo_get_pool demo_liq demo_added demo_alice
  by (simp add: demo_pool_def)

lemma remove_reserves:
  assumes env: "coinswap_env L k binv" and inv: "binv (kext s)" and std: "GetStandardDenom s = (Ok std, s)"
    and run: "msg_RemoveLiquidity L k ctx msg s = (Ok cs, t)"
    and pool: "GetPoolByLptDenom (Denom (WithdrawLiquidity msg)) s = (Ok (Some pool), s)"
    and pa: "AccAddressFromBech32 L (EscrowAddress pool) = Ok pa"
    and a: "AccAddressFromBech32 L (removeSender msg) = Ok a" "a \<noteq> pa"
    and neq: "CounterpartyDenom pool \<noteq> std"
  defines "X \<equiv> \<lambda>u. bal (bk k) (kext u) pa std" and "Y \<equiv> \<lambda>u. bal (bk k) (kext u) pa (CounterpartyDenom pool)"
    and "T \<equiv> \<lambda>u. sup (bk k) (kext u) (Denom (WithdrawLiquidity msg))" and "w \<equiv> Amount (WithdrawLiquidity msg)"
  shows "0 < w" "w \<le> T s" "T t = T s - w"
    "X t = X s - w * X s div T s" "MinStandardAmt msg \<le> X s - X t"
    "Y t = Y s - w * Y s div T s" "MinToken msg \<le> Y s - Y t"
    "0 \<le> X t" "0 \<le> Y t" "T t * X s \<le> T s * X t" "T t * Y s \<le> T s * Y t" "0 < T s"
    "kown t = kown s" "binv (kext t)"
proof -
  obtain ds where run': "RemoveLiquidity L k msg s = (Ok ds, t)" and w: "0 < w"
    using run by (auto simp: msg_RemoveLiquidity_def if_act_Ok_iff validation_defs w_def split: if_splits)
  have w': "0 \<le> Amount (WithdrawLiquidity msg)" using w by (simp add: w_def)
  have now: "bal (bk k) (kext s) pa std = X s" "bal (bk k) (kext s) pa (CounterpartyDenom pool) = Y s"
    "sup (bk k) (kext s) (Denom (WithdrawLiquidity msg)) = T s"
    by (simp_all add: X_def Y_def T_def)
  have after: "X t = bal (bk k) (kext t) pa std" "Y t = bal (bk k) (kext t) pa (CounterpartyDenom pool)"
    "T t = sup (bk k) (kext t) (Denom (WithdrawLiquidity msg))"
    by (simp_all add: X_def Y_def T_def)
  note e = coinswap_env.RemoveLiquidity_effect [OF env inv run' std pool pa a(1) w', unfolded now, folded w_def]
  have XYT: "X t = X s - w * X s div T s" "Y t = Y s - w * Y s div T s" "T t = T s - w"
    using e(8) a(2) neq now unfolding redeemed_def by (simp_all add: after w_def)
  show "0 \<le> X t" "0 \<le> Y t"
    using bank_laws.bal_nonneg [OF env_bank [OF env] e(6)] by (auto simp: X_def Y_def)
  show "0 < w" "w \<le> T s" "T t = T s - w"
    "X t = X s - w * X s div T s" "MinStandardAmt msg \<le> X s - X t"
    "Y t = Y s - w * Y s div T s" "MinToken msg \<le> Y s - Y t"
    "T t * X s \<le> T s * X t" "T t * Y s \<le> T s * Y t" "0 < T s" "kown t = kown s" "binv (kext t)"
    using w e XYT burn_no_dilution [OF e(1)] by simp_all
qed

text \<open>C5. A withdrawal burns the liquidity it redeems and pays the share of each reserve it
  stands for, rounded down, and not less than the sender asked for. What one unit of the
  remaining liquidity is worth, in either coin, does not drop.\<close>

theorem RemoveLiquidity_pro_rata:
  assumes env: "coinswap_env L k binv" and inv: "binv (kext s)" and std: "GetStandardDenom s = (Ok std, s)"
    and run: "msg_RemoveLiquidity L k ctx msg s = (Ok cs, t)"
    and pool: "GetPoolByLptDenom (Denom (WithdrawLiquidity msg)) s = (Ok (Some pool), s)"
    and pa: "AccAddressFromBech32 L (EscrowAddress pool) = Ok pa"
    and a: "AccAddressFromBech32 L (removeSender msg) = Ok a" "a \<noteq> pa"
    and neq: "CounterpartyDenom pool \<noteq> std"
  defines "X \<equiv> \<lambda>u. bal (bk k) (kext u) pa std" and "Y \<equiv> \<lambda>u. bal (bk k) (kext u) pa (CounterpartyDenom pool)"
    and "T \<equiv> \<lambda>u. sup (bk k) (kext u) (Denom (WithdrawLiquidity msg))" and "w \<equiv> Amount (WithdrawLiquidity msg)"
  shows "0 < w \<and> w \<le> T s \<and> T t = T s - w
    \<and> X t = X s - w * X s div T s \<and> MinStandardAmt msg \<le> X s - X t
    \<and> Y t = Y s - w * Y s div T s \<and> MinToken msg \<le> Y s - Y t
    \<and> 0 \<le> X t \<and> 0 \<le> Y t \<and> T t * X s \<le> T s * X t \<and> T t * Y s \<le> T s * Y t"
  unfolding w_def X_def Y_def T_def
  using remove_reserves [OF env inv std run pool pa a neq] by blast

lemma demo_lpt_pool: "GetPoolByLptDenom ''lpt-1'' demo_state = (Ok (Some demo_pool), demo_state)"
  by code_simp

lemma demo_remove_sel [simp]: "WithdrawLiquidity demo_remove = \<lparr>Denom = ''lpt-1'', Amount = 100\<rparr>"
  "removeSender demo_remove = ''canto1alice''"
  by (simp_all add: demo_remove_def)

lemma demo_removed: "fst (msg_RemoveLiquidity ref_lib demo_keeper demo_ctx demo_remove demo_state) =
    Ok [\<lparr>Denom = ''uusdc'', Amount = 200\<rparr>, \<lparr>Denom = ''uusdc'', Amount = 200\<rparr>]"
  by code_simp

theorem RemoveLiquidity_pro_rata_witness:
  "fst (msg_RemoveLiquidity ref_lib demo_keeper demo_ctx demo_remove demo_state) =
     Ok [\<lparr>Denom = ''uusdc'', Amount = 200\<rparr>, \<lparr>Denom = ''uusdc'', Amount = 200\<rparr>] \<and>
   sup (bk demo_keeper) (kext (snd (msg_RemoveLiquidity ref_lib demo_keeper demo_ctx demo_remove demo_state))) ''lpt-1'' = 900"
  using RemoveLiquidity_pro_rata [OF denv.coinswap_env_axioms demo_ledger_ok demo_std
      pair_Ok_snd [OF demo_removed] _ demo_escrow _ _] demo_lpt_pool demo_removed demo_alice demo_liq
  by (simp add: demo_pool_def)

end
