(* ===== verification/Coinswap_Trace.thy ===== *)
theory Coinswap_Trace
  imports Coinswap_Props
begin

text \<open>
  Sequences of x/coinswap messages: the invariant of the module's state, that every
  message keeps it, and what any history of messages does to the value of a share.
\<close>

section \<open>Messages and the state invariant\<close>

datatype cs_msg = SwapMsg MsgSwapOrder | AddMsg MsgAddLiquidity | RemoveMsg MsgRemoveLiquidity
  | ParamsMsg MsgUpdateParams

text \<open>A message is delivered in a transaction: what a failed one wrote is discarded.\<close>

definition deliver :: "sdk_lib \<Rightarrow> 'x Keeper \<Rightarrow> block_ctx \<Rightarrow> cs_msg \<Rightarrow> ('x cs_state, unit) act" where
  "deliver L k ctx m = cached (case m of
     SwapMsg msg \<Rightarrow> msg_SwapCoin L k ctx msg
   | AddMsg msg \<Rightarrow> bnd (msg_AddLiquidity L k ctx msg) (\<lambda>_. ret ())
   | RemoveMsg msg \<Rightarrow> bnd (msg_RemoveLiquidity L k ctx msg) (\<lambda>_. ret ())
   | ParamsMsg msg \<Rightarrow> msg_UpdateParams L k msg)"

lemma deliver_cases:
  assumes "deliver L k ctx m s = (r, t)"
  obtains "t = s" | msg where "m = SwapMsg msg" "msg_SwapCoin L k ctx msg s = (Ok (), t)"
  | msg c where "m = AddMsg msg" "msg_AddLiquidity L k ctx msg s = (Ok c, t)"
  | msg cs where "m = RemoveMsg msg" "msg_RemoveLiquidity L k ctx msg s = (Ok cs, t)"
  | msg where "m = ParamsMsg msg" "msg_UpdateParams L k msg s = (Ok (), t)"
proof (cases r)
  case (Ok u)
  then show thesis
    using assms that by (cases m) (auto simp: deliver_def simp del: bnd_Ok_iff, auto)
qed (use assms that(1) in \<open>auto simp: deliver_def cached_def split: prod.splits res.splits\<close>)

text \<open>Pools sit where their token and their liquidity denomination say.\<close>

definition canonical :: "sdk_lib \<Rightarrow> (bytes, cs_value) kv \<Rightarrow> bool" where
  "canonical L m \<longleftrightarrow> (\<forall>p. has_pool m p \<longrightarrow> Id p = GetPoolId (CounterpartyDenom p) \<and>
     EscrowAddress p = AddrString L (GetReservePoolAddr L (LptDenom p)))"

definition cs_inv :: "sdk_lib \<Rightarrow> ('x \<Rightarrow> bool) \<Rightarrow> 'x cs_state \<Rightarrow> bool" where
  "cs_inv L binv s \<longleftrightarrow> registry_ok L (cs_kv s) \<and> canonical L (cs_kv s) \<and> binv (kext s) \<and>
     (\<exists>p. pspace (kown s) = Some p \<and> params_ok L p)"

lemma registry_std: "registry_ok L (cs_kv s) \<Longrightarrow> \<exists>std. GetStandardDenom s = (Ok std, s)"
  using typed_okD(3) [OF registry_okD(2), of L "cs_kv s"]
  by (cases "kv_get (cs_kv s) KeyStandardDenom") (auto simp: GetStandardDenom_Ok_iff)

text \<open>The escrow address of a registered pool decodes to the account swaps trade with.\<close>

lemma canonical_escrow:
  assumes "sdk_laws L" "canonical L m" "has_pool m p"
  shows "AccAddressFromBech32 L (EscrowAddress p) = Ok (GetReservePoolAddr L (LptDenom p))"
  using assms sdk_laws.AddressHash_roundtrip by (simp add: canonical_def GetReservePoolAddr_def)

lemma pool_at_key:
  assumes "registry_ok L m" "canonical L m" "kv_get m (GetPoolKey (GetPoolId d)) = Some (PoolVal q)"
  shows "has_pool m q" "CounterpartyDenom q = d"
proof -
  have i: "Id q = GetPoolId d" using typed_okD(1) [OF registry_okD(2) [OF assms(1)] assms(3)] by auto
  then show q: "has_pool m q" using assms(3) by (simp add: has_pool_def)
  show "CounterpartyDenom q = d" using assms(2) q i by (auto simp: canonical_def)
qed

section \<open>Frames\<close>

lemma swap_frame:
  assumes env: "coinswap_env L k binv" and inv: "cs_inv L binv s"
    and run: "msg_SwapCoin L k ctx msg s = (Ok (), t)"
  obtains lpt a where "GetLptDenomFromDenoms (Denom (Coin (Input msg))) (Denom (Coin (Output msg))) s = (Ok lpt, s)"
    "AccAddressFromBech32 L (Address (Input msg)) = Ok a" "kown t = kown s" "binv (kext t)"
    "\<forall>c d. c \<noteq> a \<longrightarrow> c \<noteq> GetReservePoolAddr L lpt \<longrightarrow> bal (bk k) (kext s) c d \<le> bal (bk k) (kext t) c d"
    "\<forall>d. sup (bk k) (kext t) d = sup (bk k) (kext s) d"
proof -
  have swap: "Swap L k msg s = (Ok (), t)"
    and amt: "0 \<le> Amount (Coin (Input msg))" "0 \<le> Amount (Coin (Output msg))"
    using run by (auto simp: msg_SwapCoin_def if_act_Ok_iff validation_defs split: if_splits)
  obtain p where p: "binv (kext s)" "pspace (kown s) = Some p" "params_ok L p" using inv by (auto simp: cs_inv_def)
  from coinswap_env.Swap_fills [OF env p amt swap] obtain lpt i n where
    lpt: "GetLptDenomFromDenoms (Denom (Coin (Input msg))) (Denom (Coin (Output msg))) s = (Ok lpt, s)"
    and own: "kown t = kown s" "binv (kext t)" and fill: "fills L k msg s lpt i n t" by metis
  then obtain a r where a: "AccAddressFromBech32 L (Address (Input msg)) = Ok a"
    and pos: "0 < bal (bk k) (kext s) (GetReservePoolAddr L lpt) (Denom (Coin (Input msg)))"
      "0 < bal (bk k) (kext s) (GetReservePoolAddr L lpt) (Denom (Coin (Output msg)))"
    and q: "quotes L (bal (bk k) (kext s) (GetReservePoolAddr L lpt) (Denom (Coin (Input msg))))
      (bal (bk k) (kext s) (GetReservePoolAddr L lpt) (Denom (Coin (Output msg)))) i n"
    and sw: "swapped (bk k) (kext s) a (GetReservePoolAddr L lpt) r
      \<lparr>Denom = Denom (Coin (Input msg)), Amount = i\<rparr> \<lparr>Denom = Denom (Coin (Output msg)), Amount = n\<rparr> (kext t)"
    by (auto simp: fills_def Let_def)
  have "0 \<le> n" using sdk_laws.quotes_range [OF env_lib [OF env] pos q] by simp
  then show thesis using that [OF lpt a own] sw by (auto simp: swapped_def)
qed

lemma remove_frame:
  assumes env: "coinswap_env L k binv" and inv: "cs_inv L binv s"
    and run: "msg_RemoveLiquidity L k ctx msg s = (Ok cs, t)"
  obtains p a where "has_pool (cs_kv s) p" "LptDenom p = Denom (WithdrawLiquidity msg)"
    "AccAddressFromBech32 L (removeSender msg) = Ok a" "kown t = kown s" "binv (kext t)"
    "\<forall>c d. c \<noteq> a \<longrightarrow> c \<noteq> GetReservePoolAddr L (LptDenom p) \<longrightarrow> bal (bk k) (kext t) c d = bal (bk k) (kext s) c d"
    "\<forall>d. d \<noteq> LptDenom p \<longrightarrow> sup (bk k) (kext t) d = sup (bk k) (kext s) d"
proof -
  let ?l = "Denom (WithdrawLiquidity msg)"
  have reg: "registry_ok L (cs_kv s)" and b: "binv (kext s)" and can: "canonical L (cs_kv s)"
    using inv by (auto simp: cs_inv_def)
  obtain ds where run': "RemoveLiquidity L k msg s = (Ok ds, t)" and w: "0 \<le> Amount (WithdrawLiquidity msg)"
    using run by (auto simp: msg_RemoveLiquidity_def if_act_Ok_iff validation_defs split: if_splits)
  obtain std where std: "GetStandardDenom s = (Ok std, s)" using registry_std [OF reg] by blast
  from run' std obtain p a where p: "GetPoolByLptDenom ?l s = (Ok (Some p), s)"
    and a: "AccAddressFromBech32 L (removeSender msg) = Ok a"
    unfolding RemoveLiquidity_def Let_def
    by (auto simp: if_act_Ok_iff GetPoolByLptDenom_Ok_iff GetPool_Ok_iff GetPoolBalances_Ok_iff split: option.splits)
  then obtain i where i: "kv_get (cs_kv s) (GetLptDenomKey ?l) = Some (StringVal i)"
    "kv_get (cs_kv s) (GetPoolKey i) = Some (PoolVal p)" by (auto simp: GetPoolByLptDenom_Ok_iff GetPool_Ok_iff)
  then have hp: "has_pool (cs_kv s) p" and l: "LptDenom p = ?l"
    using registry_okD(6) [OF reg, of ?l i] by (auto simp: has_pool_def)
  note e = coinswap_env.RemoveLiquidity_effect [OF env b run' std p canonical_escrow [OF env_lib [OF env] can hp] a w]
  show thesis using that [OF hp l a e(5,6)] e(8) l by (auto simp: redeemed_def)
qed

text \<open>The two ways a deposit goes: into the registered pool, or into one it creates.\<close>

lemma AddLiquidity_split:
  assumes env: "coinswap_env L k binv" and run: "AddLiquidity L k msg s = (Ok c, t)"
    and std: "GetStandardDenom s = (Ok std, s)"
  obtains a pool pa cst tok n where "AccAddressFromBech32 L (addSender msg) = Ok a"
    "kv_get (cs_kv s) (GetPoolKey (GetPoolId (Denom (MaxToken msg)))) = Some (PoolVal pool)"
    "0 \<le> Amount cst" "0 \<le> Amount tok" "addLiquidity L k a pa cst tok (LptDenom pool) n s = (Ok c, t)"
  | a s1 s2 pool pa cst tok n where "AccAddressFromBech32 L (addSender msg) = Ok a"
    "kv_get (cs_kv s) (GetPoolKey (GetPoolId (Denom (MaxToken msg)))) = None"
    "DeductPoolCreationFee L k a s = (Ok (), s1)" "CreatePool L (Denom (MaxToken msg)) s1 = (Ok pool, s2)"
    "ValidateDenom L std = Ok ()" "ValidateDenom L (Denom (MaxToken msg)) = Ok ()"
    "0 \<le> Amount cst" "0 \<le> Amount tok" "addLiquidity L k a pa cst tok (LptDenom pool) n s2 = (Ok c, t)"
proof -
  note lib = env_lib [OF env]
  obtain p cst0 r u a where p: "GetParams s = (Ok p, s)" and c0: "NewCoin L std (ExactStandardAmt msg) = Ok cst0"
    and r: "GetPool (GetPoolId (Denom (MaxToken msg))) s = (Ok r, u)" and a: "AccAddressFromBech32 L (addSender msg) = Ok a"
    using run std unfolding AddLiquidity_def by (auto simp: if_act_Ok_iff GetParams_Ok_iff)
  have c0': "0 \<le> Amount cst0" "ValidateDenom L std = Ok ()" using c0 by (auto simp: sdk_laws.NewCoin_iff [OF lib])
  have u: "u = s" using r by (auto simp: GetPool_Ok_iff)
  have ini: "0 \<le> Amount tok \<and> ValidateDenom L (Denom (MaxToken msg)) = Ok ()"
    if "initial_deposit L p msg = Ok (n, tok)" for n tok
    using that by (auto simp: initial_deposit_def Let_def sdk_laws.NewCoin_iff [OF lib] split: if_splits)
  show thesis
  proof (cases r)
    case None
    then obtain s1 s2 n tok pool pa where "DeductPoolCreationFee L k a s = (Ok (), s1)"
      and i: "initial_deposit L p msg = Ok (n, tok)" and "CreatePool L (Denom (MaxToken msg)) s1 = (Ok pool, s2)"
      "addLiquidity L k a pa cst0 tok (LptDenom pool) n s2 = (Ok c, t)"
      using run std p c0 r a u unfolding AddLiquidity_def by (auto simp: if_act_Ok_iff)
    then show thesis using that(2) a c0' ini [OF i] r None by (auto simp: GetPool_Ok_iff)
  next
    case (Some pool)
    then obtain n tok cst pa where add: "addLiquidity L k a pa cst tok (LptDenom pool) n s = (Ok c, t)"
      and src: "initial_deposit L p msg = Ok (n, tok) \<and> cst = cst0 \<or>
        (\<exists>x y l. next_deposit L p msg std x y l = Ok (n, tok, cst))"
      using run std p c0 r a u unfolding AddLiquidity_def
      by (fastforce simp: if_act_Ok_iff GetPoolBalances_Ok_iff)
    have "0 \<le> Amount cst \<and> 0 \<le> Amount tok"
      using src
    proof
      assume "\<exists>x y l. next_deposit L p msg std x y l = Ok (n, tok, cst)"
      then show ?thesis
        by (auto simp: next_deposit_def Let_def sdk_laws.NewCoin_iff [OF lib] split: if_splits)
    qed (use ini c0' in blast)
    then show thesis using that(1) a add r Some by (auto simp: GetPool_Ok_iff)
  qed
qed

lemma canonical_add_pool:
  assumes "canonical L m" "kv_get m (GetPoolKey (Id p)) = None" "Id p = GetPoolId (CounterpartyDenom p)"
    "EscrowAddress p = AddrString L (GetReservePoolAddr L (LptDenom p))"
  shows "canonical L (put_pool p (kv_set KeyNextPoolSequence v m))"
  using assms by (auto simp: canonical_def has_pool_def kv_get_put_pool kv_get_set split: if_splits)

lemma CreatePool_keeps:
  assumes run: "CreatePool L d s = (Ok p, t)" and reg: "registry_ok L (cs_kv s)" and can: "canonical L (cs_kv s)"
    and lib: "sdk_laws L" and std: "GetStandardDenom s = (Ok std, s)" "ValidateDenom L std = Ok ()" "ValidateDenom L d = Ok ()"
    and new: "kv_get (cs_kv s) (GetPoolKey (GetPoolId d)) = None" and wrap: "next_seq (cs_kv s) + 1 \<noteq> 0"
  shows "registry_ok L (cs_kv t)" "canonical L (cs_kv t)" "has_pool (cs_kv t) p" "CounterpartyDenom p = d"
    "\<And>q. has_pool (cs_kv s) q \<Longrightarrow> has_pool (cs_kv t) q \<and> q \<noteq> p" "pspace (kown t) = pspace (kown s)" "kext t = kext s"
    "GetStandardDenom t = (Ok std, t)"
proof -
  have seq: "getSequence s = (Ok (next_seq (cs_kv s)), s)" by (rule next_seq_get [OF registry_okD(2) [OF reg]])
  have p: "Id p = GetPoolId d" "StandardDenom p = std" "CounterpartyDenom p = d"
      "EscrowAddress p = AddrString L (GetReservePoolAddr L (LptDenom p))" "LptDenom p = GetLptDenom (next_seq (cs_kv s))"
    and t: "t = s\<lparr>kown := (kown s)\<lparr>kvstore := put_pool p (kv_set KeyNextPoolSequence (SeqVal (next_seq (cs_kv s) + 1)) (cs_kv s))\<rparr>\<rparr>"
    using run std seq by (auto simp: CreatePool_Ok_iff)
  have "pool_valid L p"
    using p std sdk_laws.AddressHash_roundtrip [OF lib] by (auto simp: pool_valid_def GetReservePoolAddr_def)
  then show "registry_ok L (cs_kv t)"
    using registry_add_pool [OF reg _ _ p(5) wrap] new p by (simp add: t)
  show "canonical L (cs_kv t)" using canonical_add_pool [OF can] new p by (simp add: t)
  show "has_pool (cs_kv t) p" by (simp add: t has_pool_def kv_get_put_pool)
  show "CounterpartyDenom p = d" "pspace (kown t) = pspace (kown s)" "kext t = kext s" using p by (simp_all add: t)
  show "GetStandardDenom t = (Ok std, t)"
    using std(1) by (simp add: t GetStandardDenom_Ok_iff kv_get_put_pool kv_get_set)
  show "has_pool (cs_kv t) q \<and> q \<noteq> p" if "has_pool (cs_kv s) q" for q
    using that new p by (auto simp: t has_pool_def kv_get_put_pool kv_get_set)
qed

lemma add_frame:
  assumes env: "coinswap_env L k binv" and inv: "cs_inv L binv s"
    and run: "msg_AddLiquidity L k ctx msg s = (Ok c, t)" and wrap: "next_seq (cs_kv s) + 1 \<noteq> 0"
    and std: "GetStandardDenom s = (Ok std, s)"
  obtains q a where "has_pool (cs_kv t) q" "CounterpartyDenom q = Denom (MaxToken msg)"
    "AccAddressFromBech32 L (addSender msg) = Ok a" "cs_inv L binv t" "pspace (kown t) = pspace (kown s)"
    "GetStandardDenom t = (Ok std, t)" "\<forall>p. has_pool (cs_kv s) p \<longrightarrow> has_pool (cs_kv t) p"
    "\<forall>c d. c \<noteq> a \<longrightarrow> bal (bk k) (kext s) c d \<le> bal (bk k) (kext t) c d"
    "\<forall>d. d \<noteq> LptDenom q \<longrightarrow> sup (bk k) (kext t) d \<le> sup (bk k) (kext s) d"
proof -
  have reg: "registry_ok L (cs_kv s)" and b: "binv (kext s)" and can: "canonical L (cs_kv s)"
    using inv by (auto simp: cs_inv_def)
  obtain pr where pr: "pspace (kown s) = Some pr" "params_ok L pr" using inv by (auto simp: cs_inv_def)
  have run': "AddLiquidity L k msg s = (Ok c, t)"
    using run by (auto simp: msg_AddLiquidity_def if_act_Ok_iff)
  from AddLiquidity_split [OF env run' std] show thesis
  proof cases
    case (1 a q pa cst tok n)
    note e = coinswap_env.addLiquidity_Ok [OF env b 1(5)]
    note q = pool_at_key [OF reg can 1(2)]
    show thesis
      using that [of q a] q 1 e inv std by (auto simp: cs_inv_def deposited_def GetStandardDenom_Ok_iff)
  next
    case (2 a s1 s2 q pa cst tok n)
    note f = coinswap_env.DeductPoolCreationFee_Ok [OF env b pr 2(3)]
    have s1: "registry_ok L (cs_kv s1)" "canonical L (cs_kv s1)" "GetStandardDenom s1 = (Ok std, s1)"
      "kv_get (cs_kv s1) (GetPoolKey (GetPoolId (Denom (MaxToken msg)))) = None" "next_seq (cs_kv s1) + 1 \<noteq> 0"
      using f(1) reg can std 2(2) wrap by (auto simp: GetStandardDenom_Ok_iff)
    note cp = CreatePool_keeps [OF 2(4) s1(1,2) env_lib [OF env] s1(3) 2(5,6) s1(4,5)]
    have b2: "binv (kext s2)" using f(2) cp(7) by simp
    note e = coinswap_env.addLiquidity_Ok [OF env b2 2(9)]
    have "0 \<le> (if c' = GetModuleAddress (ak k) (feeCollectorName k) \<and> d = Denom (PoolCreationFee pr)
        then Amount (PoolCreationFee pr) * TaxRate pr div dec_one else 0)" for c' d using f(3) by simp
    then have bals: "bal (bk k) (kext s) c' d \<le> bal (bk k) (kext t) c' d" if "c' \<noteq> a" for c' d
      using that f(5) [of c' d] e(5) cp(7) 2(7,8) by (auto simp: deposited_def)
    have sups: "sup (bk k) (kext t) d \<le> sup (bk k) (kext s) d" if "d \<noteq> LptDenom q" for d
      using that f(4) f(6) [of d] e(3,5) cp(7) by (auto simp: deposited_def)
    have own: "kown t = kown s2" "kown s1 = kown s" using e(1) f(1) by auto
    have hp: "has_pool (cs_kv t) p" if "has_pool (cs_kv s) p" for p using that cp(5) own by simp
    have "cs_inv L binv t" using cp(1,2,6) e(2) own pr by (simp add: cs_inv_def)
    moreover have "GetStandardDenom t = (Ok std, t)" using cp(8) own by (simp add: GetStandardDenom_Ok_iff)
    ultimately show thesis using that [of q a] cp(3,4,6) 2(1) bals sups hp own by simp
  qed
qed

section \<open>Every message keeps the invariant\<close>

lemma deliver_inv:
  assumes env: "coinswap_env L k binv" and inv: "cs_inv L binv s" and wrap: "next_seq (cs_kv s) + 1 \<noteq> 0"
    and run: "deliver L k ctx m s = (r, t)"
  shows "cs_inv L binv t"
  using run
proof (cases rule: deliver_cases)
  case (2 msg)
  have "kown t = kown s" by (rule swap_frame [OF env inv 2(2)])
  moreover have "binv (kext t)" by (rule swap_frame [OF env inv 2(2)])
  ultimately show ?thesis using inv by (simp add: cs_inv_def)
next
  case (3 msg c)
  obtain std where "GetStandardDenom s = (Ok std, s)" using registry_std inv by (auto simp: cs_inv_def)
  then show ?thesis by (rule add_frame [OF env inv 3(2) wrap])
next
  case (4 msg cs)
  have "kown t = kown s" by (rule remove_frame [OF env inv 4(2)])
  moreover have "binv (kext t)" by (rule remove_frame [OF env inv 4(2)])
  ultimately show ?thesis using inv by (simp add: cs_inv_def)
next
  case (5 msg)
  then show ?thesis
    using inv by (auto simp: msg_UpdateParams_def if_act_Ok_iff SetParams_Ok_iff cs_inv_def split: if_splits)
qed (use inv in simp)

section \<open>The value of a share\<close>

definition signer :: "cs_msg \<Rightarrow> string" where
  "signer m = (case m of SwapMsg msg \<Rightarrow> Address (Input msg) | AddMsg msg \<Rightarrow> addSender msg
     | RemoveMsg msg \<Rightarrow> removeSender msg | ParamsMsg msg \<Rightarrow> Authority msg)"

text \<open>No other registered pool shares the account of the pool.\<close>

definition private_escrow :: "sdk_lib \<Rightarrow> Pool \<Rightarrow> (bytes, cs_value) kv \<Rightarrow> bool" where
  "private_escrow L P m \<longleftrightarrow> (\<forall>q. has_pool m q \<longrightarrow> LptDenom q \<noteq> LptDenom P \<longrightarrow>
     GetReservePoolAddr L (LptDenom q) \<noteq> GetReservePoolAddr L (LptDenom P))"

text \<open>
  The product of the reserves of a pool over the square of its liquidity does not drop
  from one state to another, written without division.
\<close>

definition share_grows :: "sdk_lib \<Rightarrow> 'x Keeper \<Rightarrow> Pool \<Rightarrow> string \<Rightarrow> 'x cs_state \<Rightarrow> 'x cs_state \<Rightarrow> bool" where
  "share_grows L k P std s t \<longleftrightarrow>
     (let B = \<lambda>u. bal (bk k) (kext u) (GetReservePoolAddr L (LptDenom P));
          T = \<lambda>u. sup (bk k) (kext u) (LptDenom P)
      in B s std * B s (CounterpartyDenom P) * (T t)\<^sup>2 \<le> B t std * B t (CounterpartyDenom P) * (T s)\<^sup>2)"

lemma share_growsI:
  assumes "B = (\<lambda>u. bal (bk k) (kext u) (GetReservePoolAddr L (LptDenom P)))"
    and "T = (\<lambda>u. sup (bk k) (kext u) (LptDenom P))"
    and "T t * B s std \<le> T s * B t std" "T t * B s (CounterpartyDenom P) \<le> T s * B t (CounterpartyDenom P)"
    and "0 \<le> T t" "0 \<le> B s std" "0 \<le> B s (CounterpartyDenom P)" "0 \<le> T s * B t std"
  shows "share_grows L k P std s t"
proof -
  have "(T t * B s std) * (T t * B s (CounterpartyDenom P)) \<le> (T s * B t std) * (T s * B t (CounterpartyDenom P))"
    using mult_mono [OF assms(3,4,8)] assms(5-7) by simp
  then have "B s std * B s (CounterpartyDenom P) * (T t)\<^sup>2 \<le> B t std * B t (CounterpartyDenom P) * (T s)\<^sup>2"
    by (simp add: power2_eq_square mult.assoc mult.commute mult.left_commute)
  then show ?thesis unfolding share_grows_def Let_def assms(1,2) .
qed

text \<open>Reserves that did not drop and liquidity that did not grow.\<close>

lemma share_growsI_mono:
  assumes env: "coinswap_env L k binv" and b: "binv (kext s)" "binv (kext t)"
    and "bal (bk k) (kext s) (GetReservePoolAddr L (LptDenom P)) std \<le> bal (bk k) (kext t) (GetReservePoolAddr L (LptDenom P)) std"
    and "bal (bk k) (kext s) (GetReservePoolAddr L (LptDenom P)) (CounterpartyDenom P)
      \<le> bal (bk k) (kext t) (GetReservePoolAddr L (LptDenom P)) (CounterpartyDenom P)"
    and "sup (bk k) (kext t) (LptDenom P) \<le> sup (bk k) (kext s) (LptDenom P)"
  shows "share_grows L k P std s t"
proof -
  note nn = bank_laws.bal_nonneg [OF env_bank [OF env] b(1)] bank_laws.bal_nonneg [OF env_bank [OF env] b(2)]
    bank_laws.sup_nonneg [OF env_bank [OF env] b(1)] bank_laws.sup_nonneg [OF env_bank [OF env] b(2)]
  show ?thesis
    using assms(4-6) nn by (intro share_growsI [OF refl refl] mult_mono mult_nonneg_nonneg) auto
qed

lemma share_grows_trans:
  assumes st: "share_grows L k P std s t" and tu: "share_grows L k P std t u"
    and pos: "0 < sup (bk k) (kext t) (LptDenom P)"
  shows "share_grows L k P std s u"
proof -
  let ?V = "\<lambda>u. bal (bk k) (kext u) (GetReservePoolAddr L (LptDenom P)) std *
    bal (bk k) (kext u) (GetReservePoolAddr L (LptDenom P)) (CounterpartyDenom P)"
  let ?T = "\<lambda>u. (sup (bk k) (kext u) (LptDenom P))\<^sup>2"
  have a: "?V s * ?T t \<le> ?V t * ?T s" and b: "?V t * ?T u \<le> ?V u * ?T t"
    using st tu by (simp_all add: share_grows_def)
  have "?V s * ?T u * ?T t = ?V s * ?T t * ?T u" by simp
  also have "\<dots> \<le> ?V t * ?T s * ?T u" using a by (simp add: mult_right_mono)
  also have "\<dots> = ?V t * ?T u * ?T s" by simp
  also have "\<dots> \<le> ?V u * ?T t * ?T s" using b by (simp add: mult_right_mono)
  also have "\<dots> = ?V u * ?T s * ?T t" by simp
  finally have "?V s * ?T u \<le> ?V u * ?T s" using pos mult_le_cancel_right_pos by fastforce
  then show ?thesis by (simp add: share_grows_def)
qed

lemma canonical_key:
  assumes "canonical L m" "has_pool m p"
  shows "kv_get m (GetPoolKey (GetPoolId (CounterpartyDenom p))) = Some (PoolVal p)"
  using assms by (metis canonical_def has_pool_def)

text \<open>Two registered pools with different tokens have different liquidity denominations.\<close>

lemma other_lpt:
  assumes "registry_ok L m" "has_pool m p" "has_pool m q" "CounterpartyDenom q \<noteq> CounterpartyDenom p"
  shows "LptDenom q \<noteq> LptDenom p"
  using pool_of_lpt [OF assms(1,2,3)] assms(4) by auto

lemma swap_share:
  assumes env: "coinswap_env L k binv" and inv: "cs_inv L binv s" and P: "has_pool (cs_kv s) P"
    and std: "GetStandardDenom s = (Ok std, s)"
    and run: "msg_SwapCoin L k ctx msg s = (Ok (), t)"
    and sig: "AccAddressFromBech32 L (Address (Input msg)) \<noteq> Ok (GetReservePoolAddr L (LptDenom P))"
    and priv: "private_escrow L P (cs_kv s)"
  shows "share_grows L k P std s t"
proof -
  let ?in = "Denom (Coin (Input msg))" and ?out = "Denom (Coin (Output msg))"
  have reg: "registry_ok L (cs_kv s)" and can: "canonical L (cs_kv s)" and b: "binv (kext s)"
    using inv by (auto simp: cs_inv_def)
  obtain pr where pr: "pspace (kown s) = Some pr" "params_ok L pr" using inv by (auto simp: cs_inv_def)
  obtain lpt a where
    lpt: "GetLptDenomFromDenoms ?in ?out s = (Ok lpt, s)" and a: "AccAddressFromBech32 L (Address (Input msg)) = Ok a"
    and "kown t = kown s" and t: "binv (kext t)"
    and up: "\<forall>c d. c \<noteq> a \<longrightarrow> c \<noteq> GetReservePoolAddr L lpt \<longrightarrow> bal (bk k) (kext s) c d \<le> bal (bk k) (kext t) c d"
    and sup: "\<forall>d. sup (bk k) (kext t) d = sup (bk k) (kext s) d"
    by (rule swap_frame [OF env inv run], rule that)
  from lpt std obtain q where q: "kv_get (cs_kv s) (GetPoolKey (GetPoolId (if ?in = std then ?out else ?in))) = Some (PoolVal q)"
    and l: "lpt = LptDenom q" and d: "?in \<noteq> ?out" "?in = std \<or> ?out = std"
    by (auto simp: GetLptDenomFromDenoms_Ok_iff)
  have hq: "has_pool (cs_kv s) q" and cq: "CounterpartyDenom q = (if ?in = std then ?out else ?in)"
    using pool_at_key [OF reg can q] by auto
  show ?thesis
  proof (cases "LptDenom q = LptDenom P")
    case True
    then have qP: "q = P" using pool_of_lpt [OF reg hq P] by simp
    let ?B = "\<lambda>u. bal (bk k) (kext u) (GetReservePoolAddr L lpt)"
    have "?B s ?in * ?B s ?out \<le> ?B t ?in * ?B t ?out"
      using swap_reserves [OF env b pr run lpt] sig l qP by simp
    then have "?B s std * ?B s (CounterpartyDenom P) \<le> ?B t std * ?B t (CounterpartyDenom P)"
      using cq d qP by (auto simp: mult.commute split: if_splits)
    then show ?thesis
      using sup l qP by (simp add: share_grows_def mult_right_mono)
  next
    case False
    then have "GetReservePoolAddr L (LptDenom P) \<noteq> GetReservePoolAddr L lpt"
      using priv hq l by (simp add: private_escrow_def) metis
    moreover have "GetReservePoolAddr L (LptDenom P) \<noteq> a" using sig a by auto
    ultimately show ?thesis using up sup by (intro share_growsI_mono [OF env b t]) simp_all
  qed
qed

lemma add_share:
  assumes env: "coinswap_env L k binv" and inv: "cs_inv L binv s" and P: "has_pool (cs_kv s) P"
    and std: "GetStandardDenom s = (Ok std, s)" and wrap: "next_seq (cs_kv s) + 1 \<noteq> 0"
    and run: "msg_AddLiquidity L k ctx msg s = (Ok c, t)"
    and sig: "AccAddressFromBech32 L (addSender msg) \<noteq> Ok (GetReservePoolAddr L (LptDenom P))"
    and liq: "0 < sup (bk k) (kext s) (LptDenom P)"
  shows "share_grows L k P std s t"
proof -
  have can: "canonical L (cs_kv s)" and b: "binv (kext s)" using inv by (auto simp: cs_inv_def)
  obtain pr where pr: "pspace (kown s) = Some pr" using inv by (auto simp: cs_inv_def)
  obtain q a where q: "has_pool (cs_kv t) q" "CounterpartyDenom q = Denom (MaxToken msg)"
    and a: "AccAddressFromBech32 L (addSender msg) = Ok a" and t: "cs_inv L binv t"
    and "pspace (kown t) = pspace (kown s)" "GetStandardDenom t = (Ok std, t)"
    and keep: "\<forall>p. has_pool (cs_kv s) p \<longrightarrow> has_pool (cs_kv t) p"
    and up: "\<forall>c d. c \<noteq> a \<longrightarrow> bal (bk k) (kext s) c d \<le> bal (bk k) (kext t) c d"
    and sup: "\<forall>d. d \<noteq> LptDenom q \<longrightarrow> sup (bk k) (kext t) d \<le> sup (bk k) (kext s) d"
    by (rule add_frame [OF env inv run wrap std], rule that)
  have bt: "binv (kext t)" and regt: "registry_ok L (cs_kv t)" using t by (auto simp: cs_inv_def)
  show ?thesis
  proof (cases "Denom (MaxToken msg) = CounterpartyDenom P")
    case True
    have key: "kv_get (cs_kv s) (GetPoolKey (GetPoolId (Denom (MaxToken msg)))) = Some (PoolVal P)"
      using canonical_key [OF can P] True by simp
    have "sup (bk k) (kext s) (LptDenom P) \<noteq> 0" using liq by simp
    note r = add_reserves [OF env b pr std run key canonical_escrow [OF env_lib [OF env] can P] sig this, unfolded True]
    show ?thesis
      using r(9,10,11,12,13) bank_laws.sup_nonneg [OF env_bank [OF env] bt] bank_laws.bal_nonneg [OF env_bank [OF env] bt]
      by (intro share_growsI [OF refl refl]) simp_all
  next
    case False
    then have "LptDenom P \<noteq> LptDenom q" using other_lpt [OF regt q(1), of P] keep P q(2) by auto
    moreover have "GetReservePoolAddr L (LptDenom P) \<noteq> a" using sig a by auto
    ultimately show ?thesis using up sup by (intro share_growsI_mono [OF env b bt]) simp_all
  qed
qed

lemma remove_share:
  assumes env: "coinswap_env L k binv" and inv: "cs_inv L binv s" and P: "has_pool (cs_kv s) P"
    and std: "GetStandardDenom s = (Ok std, s)" and neq: "CounterpartyDenom P \<noteq> std"
    and run: "msg_RemoveLiquidity L k ctx msg s = (Ok cs, t)"
    and sig: "AccAddressFromBech32 L (removeSender msg) \<noteq> Ok (GetReservePoolAddr L (LptDenom P))"
    and priv: "private_escrow L P (cs_kv s)"
  shows "share_grows L k P std s t"
proof -
  have reg: "registry_ok L (cs_kv s)" and can: "canonical L (cs_kv s)" and b: "binv (kext s)"
    using inv by (auto simp: cs_inv_def)
  obtain q a where q: "has_pool (cs_kv s) q" "LptDenom q = Denom (WithdrawLiquidity msg)"
    and a: "AccAddressFromBech32 L (removeSender msg) = Ok a" and "kown t = kown s" and t: "binv (kext t)"
    and same: "\<forall>c d. c \<noteq> a \<longrightarrow> c \<noteq> GetReservePoolAddr L (LptDenom q) \<longrightarrow> bal (bk k) (kext t) c d = bal (bk k) (kext s) c d"
    and sup: "\<forall>d. d \<noteq> LptDenom q \<longrightarrow> sup (bk k) (kext t) d = sup (bk k) (kext s) d"
    by (rule remove_frame [OF env inv run], rule that)
  have apa: "a \<noteq> GetReservePoolAddr L (LptDenom P)" using sig a by auto
  show ?thesis
  proof (cases "LptDenom q = LptDenom P")
    case True
    then have qP: "q = P" using pool_of_lpt [OF reg q(1) P] by simp
    have look: "GetPoolByLptDenom (Denom (WithdrawLiquidity msg)) s = (Ok (Some P), s)"
      using registry_okD(3) [OF reg P] P q qP by (auto simp: GetPoolByLptDenom_Ok_iff GetPool_Ok_iff has_pool_def)
    note r = remove_reserves [OF env b std run look canonical_escrow [OF env_lib [OF env] can P] a apa neq]
    note nn = bank_laws.sup_nonneg [OF env_bank [OF env] t] bank_laws.bal_nonneg [OF env_bank [OF env] t]
      bank_laws.sup_nonneg [OF env_bank [OF env] b] bank_laws.bal_nonneg [OF env_bank [OF env] b]
    show ?thesis
      using r(10,11) q(2) qP nn by (intro share_growsI [OF refl refl]) simp_all
  next
    case False
    then have "GetReservePoolAddr L (LptDenom P) \<noteq> GetReservePoolAddr L (LptDenom q)"
      using priv q(1) by (simp add: private_escrow_def) metis
    then show ?thesis using same sup apa False by (intro share_growsI_mono [OF env b t]) auto
  qed
qed

section \<open>Histories\<close>

text \<open>
  A history of the chain during which the pool has liquidity, the pool account signs
  nothing, no other pool shares it, and the pool counter does not wrap around.
\<close>

inductive history :: "sdk_lib \<Rightarrow> 'x Keeper \<Rightarrow> Pool \<Rightarrow> 'x cs_state \<Rightarrow> 'x cs_state \<Rightarrow> bool"
  for L :: sdk_lib and k :: "'x Keeper" and P :: Pool and s :: "'x cs_state" where
  start: "history L k P s s"
| next_msg: "history L k P s t \<Longrightarrow> deliver L k ctx m t = (r, u) \<Longrightarrow>
    0 < sup (bk k) (kext t) (LptDenom P) \<Longrightarrow> next_seq (cs_kv t) + 1 \<noteq> 0 \<Longrightarrow>
    AccAddressFromBech32 L (signer m) \<noteq> Ok (GetReservePoolAddr L (LptDenom P)) \<Longrightarrow>
    private_escrow L P (cs_kv t) \<Longrightarrow> history L k P s u"

inductive_cases history_last: "history L k P s t"

lemma deliver_share:
  assumes env: "coinswap_env L k binv" and inv: "cs_inv L binv s" and P: "has_pool (cs_kv s) P"
    and std: "GetStandardDenom s = (Ok std, s)" and neq: "CounterpartyDenom P \<noteq> std"
    and run: "deliver L k ctx m s = (r, t)" and liq: "0 < sup (bk k) (kext s) (LptDenom P)"
    and wrap: "next_seq (cs_kv s) + 1 \<noteq> 0" and priv: "private_escrow L P (cs_kv s)"
    and sig: "AccAddressFromBech32 L (signer m) \<noteq> Ok (GetReservePoolAddr L (LptDenom P))"
  shows "share_grows L k P std s t \<and> has_pool (cs_kv t) P \<and> GetStandardDenom t = (Ok std, t)"
  using run
proof (cases rule: deliver_cases)
  case 1
  then show ?thesis using P std by (simp add: share_grows_def)
next
  case (2 msg)
  then have "share_grows L k P std s t"
    using swap_share [OF env inv P std 2(2) _ priv] sig by (simp add: signer_def)
  moreover have "kown t = kown s" by (rule swap_frame [OF env inv 2(2)])
  ultimately show ?thesis using P std by (simp add: GetStandardDenom_Ok_iff)
next
  case (3 msg c)
  then have "share_grows L k P std s t"
    using add_share [OF env inv P std wrap 3(2) _ liq] sig by (simp add: signer_def)
  moreover have "has_pool (cs_kv t) P" by (rule add_frame [OF env inv 3(2) wrap std]) (use P in blast)
  moreover have "GetStandardDenom t = (Ok std, t)" by (rule add_frame [OF env inv 3(2) wrap std])
  ultimately show ?thesis by simp
next
  case (4 msg cs)
  then have "share_grows L k P std s t"
    using remove_share [OF env inv P std neq 4(2) _ priv] sig by (simp add: signer_def)
  moreover have "kown t = kown s" by (rule remove_frame [OF env inv 4(2)])
  ultimately show ?thesis using P std by (simp add: GetStandardDenom_Ok_iff)
next
  case (5 msg)
  then have "kext t = kext s" "cs_kv t = cs_kv s"
    by (auto simp: msg_UpdateParams_def if_act_Ok_iff SetParams_Ok_iff split: if_splits)
  then show ?thesis using P std by (simp add: share_grows_def GetStandardDenom_Ok_iff)
qed

lemma history_share:
  assumes env: "coinswap_env L k binv" and inv: "cs_inv L binv s" and P: "has_pool (cs_kv s) P"
    and std: "GetStandardDenom s = (Ok std, s)" and neq: "CounterpartyDenom P \<noteq> std" and run: "history L k P s t"
  shows "share_grows L k P std s t \<and> cs_inv L binv t \<and> has_pool (cs_kv t) P \<and> GetStandardDenom t = (Ok std, t)"
  using run
proof (induction rule: history.induct)
  case start
  then show ?case using inv P std by (simp add: share_grows_def)
next
  case (next_msg t ctx m r u)
  have "share_grows L k P std t u \<and> has_pool (cs_kv u) P \<and> GetStandardDenom u = (Ok std, u)"
    using deliver_share [OF env _ _ _ neq] next_msg by blast
  then show ?case
    using share_grows_trans deliver_inv [OF env] next_msg by blast
qed

section \<open>Properties\<close>

text \<open>C1. Over any history of x/coinswap messages (swaps, deposits, withdrawals and parameter
  changes, on this pool and on others, failed ones included), the product of the two
  reserves of a pool divided by the square of its liquidity never drops: what the
  holders of its shares own, measured by the geometric mean of the reserves, is never
  diluted. The invariant of the module holds at every point of the history.\<close>

theorem share_value_never_drops:
  assumes env: "coinswap_env L k binv" and inv: "cs_inv L binv s" and P: "has_pool (cs_kv s) P"
    and std: "GetStandardDenom s = (Ok std, s)" and neq: "CounterpartyDenom P \<noteq> std" and run: "history L k P s t"
  defines "B \<equiv> \<lambda>u. bal (bk k) (kext u) (GetReservePoolAddr L (LptDenom P))"
    and "T \<equiv> \<lambda>u. sup (bk k) (kext u) (LptDenom P)"
  shows "B s std * B s (CounterpartyDenom P) * (T t)\<^sup>2 \<le> B t std * B t (CounterpartyDenom P) * (T s)\<^sup>2
    \<and> cs_inv L binv t"
  using history_share [OF env inv P std neq run] unfolding share_grows_def Let_def B_def T_def by blast

definition demo_genesis :: GenesisState where
  "demo_genesis = \<lparr>gParams = demo_params, gStandardDenom = ''acanto'', gPool = [demo_pool], gSequence = 2\<rparr>"

lemma demo_genesis_valid: "ValidateGenesis ref_lib demo_genesis = Ok ()"
  by code_simp

lemma demo_store: "cs_kv demo_state = kvs.put_all fst snd ((KeyStandardDenom, StringVal (gStandardDenom demo_genesis)) #
    (KeyNextPoolSequence, SeqVal (gSequence demo_genesis)) # concat (map pool_entries (gPool demo_genesis))) []"
proof -
  have "cs_kv demo_state = kv_set (GetLptDenomKey ''lpt-1'') (StringVal ''pool-uusdc'')
      (kv_set (GetPoolKey ''pool-uusdc'') (PoolVal demo_pool) (kv_set KeyNextPoolSequence (SeqVal 2)
      (kv_set KeyStandardDenom (StringVal ''acanto'') [])))" by code_simp
  then show ?thesis by (simp add: demo_genesis_def pool_entries_def demo_pool_def)
qed

lemma demo_has_pool: "has_pool (cs_kv demo_state) p \<longleftrightarrow> p = demo_pool"
  by (auto simp: has_pool_def demo_state_def kv_get_def demo_pool_def split: if_splits)

lemma demo_inv: "cs_inv ref_lib ledger_ok demo_state"
proof -
  have "registry_ok ref_lib (cs_kv demo_state)"
    unfolding demo_store by (rule genesis_registry [OF demo_genesis_valid]) (simp add: demo_genesis_def)
  moreover have "Id demo_pool = GetPoolId (CounterpartyDenom demo_pool) \<and>
      EscrowAddress demo_pool = AddrString ref_lib (GetReservePoolAddr ref_lib (LptDenom demo_pool))" by code_simp
  ultimately show ?thesis
    using demo_ledger_ok demo_params_ok by (auto simp: cs_inv_def canonical_def demo_has_pool)
qed

lemma demo_next_seq: "next_seq (cs_kv demo_state) = 2"
  by (simp add: next_seq_def demo_state_def kv_get_def)

lemma demo_private: "private_escrow ref_lib demo_pool (cs_kv demo_state)"
  by (simp add: private_escrow_def demo_has_pool)

lemma demo_history: "history ref_lib demo_keeper demo_pool demo_state
    (snd (deliver ref_lib demo_keeper demo_ctx (SwapMsg (demo_order False)) demo_state))"
  by (rule history.next_msg [OF history.start, where m = "SwapMsg (demo_order False)" and ctx = demo_ctx
        and r = "fst (deliver ref_lib demo_keeper demo_ctx (SwapMsg (demo_order False)) demo_state)"])
     (use demo_signer [of False] demo_liq demo_private in
       \<open>simp_all add: demo_next_seq signer_def demo_pool_sel\<close>)

theorem share_value_never_drops_witness:
  "fst (deliver ref_lib demo_keeper demo_ctx (SwapMsg (demo_order False)) demo_state) = Ok () \<and>
   cs_inv ref_lib ledger_ok (snd (deliver ref_lib demo_keeper demo_ctx (SwapMsg (demo_order False)) demo_state))"
proof -
  have "fst (deliver ref_lib demo_keeper demo_ctx (SwapMsg (demo_order False)) demo_state) = Ok ()" by code_simp
  then show ?thesis
    using share_value_never_drops [OF denv.coinswap_env_axioms demo_inv _ demo_std _ demo_history]
    by (simp add: demo_has_pool demo_pool_def)
qed

text \<open>C7. Every message, whether it succeeds or fails, keeps the invariant of the module: the
  store is typed, the two indexes of the pool registry agree, no two pools share a
  liquidity denomination, each pool sits under the identifier of its token and owns the
  account derived from its liquidity denomination, the next sequence number is one more
  than the largest in use, and the parameters are valid.\<close>

theorem every_message_keeps_invariant:
  assumes "coinswap_env L k binv" and "cs_inv L binv s" and "next_seq (cs_kv s) + 1 \<noteq> 0"
    and "deliver L k ctx m s = (r, t)"
  shows "registry_ok L (cs_kv t) \<and> canonical L (cs_kv t) \<and> binv (kext t)
    \<and> (\<exists>p. pspace (kown t) = Some p \<and> params_ok L p)"
  using deliver_inv [OF assms] by (simp add: cs_inv_def)

theorem every_message_keeps_invariant_witness:
  "fst (deliver ref_lib demo_keeper demo_ctx (AddMsg (demo_add ''ueth'')) demo_state) = Ok () \<and>
   registry_ok ref_lib (cs_kv (snd (deliver ref_lib demo_keeper demo_ctx (AddMsg (demo_add ''ueth'')) demo_state)))"
proof -
  have "fst (deliver ref_lib demo_keeper demo_ctx (AddMsg (demo_add ''ueth'')) demo_state) = Ok ()" by code_simp
  then show ?thesis
    using every_message_keeps_invariant [OF denv.coinswap_env_axioms demo_inv _
        surjective_pairing [of "deliver ref_lib demo_keeper demo_ctx (AddMsg (demo_add ''ueth'')) demo_state"]]
    by (simp add: demo_next_seq)
qed

text \<open>C35. Exporting the module's state and importing it into an empty store gives back exactly
  the same parameters, standard denomination, pools, indexes and sequence, and the
  exported state passes genesis validation.\<close>

theorem genesis_export_import:
  assumes reg: "registry_ok L (cs_kv s)" and p: "pspace (kown s) = Some p" "params_ok L p"
    and d: "kv_get (cs_kv s) KeyStandardDenom = Some (StringVal d)" "ValidateDenom L d = Ok ()"
    and n: "kv_get (cs_kv s) KeyNextPoolSequence = Some (SeqVal n)"
    and empty: "cs_kv s0 = []"
  shows "\<exists>g. ExportGenesis s = (Ok g, s) \<and> ValidateGenesis L g = Ok () \<and> InitGenesis L g s0 = (Ok (), s0\<lparr>kown := kown s\<rparr>)"
proof -
  obtain ps where ps: "decode_pools (kv_prefix KeyPool (cs_kv s)) = Ok ps"
    "kv_prefix KeyPool (cs_kv s) = map (\<lambda>p. (GetPoolKey (Id p), PoolVal p)) ps"
    using decode_pools_typed [OF registry_okD(2,1) [OF reg]] by blast
  let ?g = "\<lparr>gParams = p, gStandardDenom = d, gPool = ps, gSequence = n\<rparr>"
  have "next_seq (cs_kv s) = n" using n by (simp add: next_seq_def)
  then have v: "ValidateGenesis L ?g = Ok ()" using export_valid [OF reg d(2) p(2) ps(2)] by simp
  have "ExportGenesis s = (Ok ?g, s)"
    using p d n ps(1) by (auto simp: ExportGenesis_def GetParams_Ok_iff GetStandardDenom_Ok_iff GetAllPools_def getSequence_Ok_iff)
  moreover have "InitGenesis L ?g s0 = (Ok (), s0\<lparr>kown := kown s\<rparr>)"
    using v p registry_entries [OF reg d(1) n ps(2)] empty by (simp add: InitGenesis_Ok_iff)
  ultimately show ?thesis using v by blast
qed

theorem genesis_export_import_witness:
  "\<exists>g. ExportGenesis demo_state = (Ok g, demo_state) \<and> ValidateGenesis ref_lib g = Ok () \<and>
     InitGenesis ref_lib g (demo_state\<lparr>kown := \<lparr>pspace = None, kvstore = []\<rparr>\<rparr>) = (Ok (), demo_state)"
proof -
  have "ValidateDenom ref_lib ''acanto'' = Ok ()" by code_simp
  then show ?thesis
    using genesis_export_import [of ref_lib demo_state demo_params "''acanto''" 2
        "demo_state\<lparr>kown := \<lparr>pspace = None, kvstore = []\<rparr>\<rparr>"] demo_inv demo_params_ok
    by (simp add: cs_inv_def demo_state_def kv_get_def)
qed

text \<open>C36. A genesis state that is accepted leaves a registry that satisfies its invariant, and
  parameters that passed every check, provided its sequence number is not zero (the
  counter would have wrapped around).\<close>

theorem genesis_establishes_registry:
  assumes "InitGenesis L g s = (Ok (), t)" and "cs_kv s = []" and "gSequence g \<noteq> 0"
  shows "registry_ok L (cs_kv t) \<and> pspace (kown t) = Some (gParams g) \<and> params_ok L (gParams g)
    \<and> kext t = kext s"
  using assms genesis_registry by (auto simp: InitGenesis_Ok_iff)

theorem genesis_establishes_registry_witness:
  "registry_ok ref_lib (cs_kv (snd (InitGenesis ref_lib demo_genesis (demo_state\<lparr>kown := \<lparr>pspace = None, kvstore = []\<rparr>\<rparr>))))"
proof -
  have "fst (InitGenesis ref_lib demo_genesis (demo_state\<lparr>kown := \<lparr>pspace = None, kvstore = []\<rparr>\<rparr>)) = Ok ()"
    by code_simp
  then show ?thesis
    using genesis_establishes_registry [OF pair_Ok_snd, of ref_lib demo_genesis "demo_state\<lparr>kown := \<lparr>pspace = None, kvstore = []\<rparr>\<rparr>"]
    by (simp add: demo_genesis_def)
qed

text \<open>C6. Depositing and withdrawing what the deposit minted leaves the pool with the same
  liquidity and at least the reserves it had: a provider cannot take out more of either
  coin than was put in.\<close>

theorem add_then_remove_no_profit:
  assumes env: "coinswap_env L k binv" and inv: "cs_inv L binv s"
    and std: "GetStandardDenom s = (Ok std, s)" and P: "has_pool (cs_kv s) P"
    and token: "Denom (MaxToken m) = CounterpartyDenom P" and liq: "sup (bk k) (kext s) (LptDenom P) \<noteq> 0"
    and add: "msg_AddLiquidity L k ctx m s = (Ok c, t)" and remove: "msg_RemoveLiquidity L k ctx' m' t = (Ok cs, u)"
    and minted: "WithdrawLiquidity m' = c"
    and a: "AccAddressFromBech32 L (addSender m) = Ok a" "AccAddressFromBech32 L (removeSender m') = Ok a"
      "a \<noteq> GetReservePoolAddr L (LptDenom P)"
  defines "B \<equiv> \<lambda>v. bal (bk k) (kext v) (GetReservePoolAddr L (LptDenom P))"
  shows "B s std \<le> B u std \<and> B s (CounterpartyDenom P) \<le> B u (CounterpartyDenom P)
    \<and> sup (bk k) (kext u) (LptDenom P) = sup (bk k) (kext s) (LptDenom P)"
proof -
  have reg: "registry_ok L (cs_kv s)" and can: "canonical L (cs_kv s)" and b: "binv (kext s)"
    using inv by (auto simp: cs_inv_def)
  obtain pr where pr: "pspace (kown s) = Some pr" using inv by (auto simp: cs_inv_def)
  note esc = canonical_escrow [OF env_lib [OF env] can P]
  have key: "kv_get (cs_kv s) (GetPoolKey (GetPoolId (Denom (MaxToken m)))) = Some (PoolVal P)"
    using canonical_key [OF can P] token by simp
  have sig: "AccAddressFromBech32 L (addSender m) \<noteq> Ok (GetReservePoolAddr L (LptDenom P))" using a by simp
  note r = add_reserves [OF env b pr std add key esc sig liq, unfolded token]
  have std': "GetStandardDenom t = (Ok std, t)" using std r(15) by (simp add: GetStandardDenom_Ok_iff)
  have l: "Denom (WithdrawLiquidity m') = LptDenom P" using minted r(7) by simp
  have look: "GetPoolByLptDenom (Denom (WithdrawLiquidity m')) t = (Ok (Some P), t)"
    using registry_okD(3) [OF reg P] P l r(15) by (auto simp: GetPoolByLptDenom_Ok_iff GetPool_Ok_iff has_pool_def)
  note q = remove_reserves [OF env r(16) std' remove look esc a(2,3) r(17) [symmetric], unfolded minted r(7)]
  have pos: "0 < sup (bk k) (kext s) (LptDenom P) + Amount c" using q(1) r(13) by simp
  have "B s std \<le> B u std"
    unfolding B_def by (rule redeem_keeps [OF r(5) q(4) r(9) pos])
  moreover have "B s (CounterpartyDenom P) \<le> B u (CounterpartyDenom P)"
    unfolding B_def by (rule redeem_keeps [OF r(5) q(6) r(10) pos])
  moreover have "sup (bk k) (kext u) (LptDenom P) = sup (bk k) (kext s) (LptDenom P)" using q(3) r(5) by simp
  ultimately show ?thesis by simp
qed

definition demo_withdraw :: MsgRemoveLiquidity where
  "demo_withdraw = demo_remove\<lparr>WithdrawLiquidity := \<lparr>Denom = ''lpt-1'', Amount = 100\<rparr>\<rparr>"

theorem add_then_remove_no_profit_witness:
  "let t = snd (msg_AddLiquidity ref_lib demo_keeper demo_ctx (demo_add ''uusdc'') demo_state);
       u = snd (msg_RemoveLiquidity ref_lib demo_keeper demo_ctx demo_withdraw t)
   in fst (msg_RemoveLiquidity ref_lib demo_keeper demo_ctx demo_withdraw t) =
        Ok [\<lparr>Denom = ''uusdc'', Amount = 200\<rparr>, \<lparr>Denom = ''uusdc'', Amount = 200\<rparr>] \<and>
      bal (bk demo_keeper) (kext demo_state) (GetReservePoolAddr ref_lib ''lpt-1'') ''uusdc''
        \<le> bal (bk demo_keeper) (kext u) (GetReservePoolAddr ref_lib ''lpt-1'') ''uusdc''"
proof -
  let ?t = "snd (msg_AddLiquidity ref_lib demo_keeper demo_ctx (demo_add ''uusdc'') demo_state)"
  have r: "fst (msg_RemoveLiquidity ref_lib demo_keeper demo_ctx demo_withdraw ?t) =
      Ok [\<lparr>Denom = ''uusdc'', Amount = 200\<rparr>, \<lparr>Denom = ''uusdc'', Amount = 200\<rparr>]" by code_simp
  have "''alice'' \<noteq> GetReservePoolAddr ref_lib (LptDenom demo_pool)" by code_simp
  then show ?thesis
    using add_then_remove_no_profit [OF denv.coinswap_env_axioms demo_inv demo_std, of demo_pool "demo_add ''uusdc''"]
      pair_Ok_snd [OF demo_added] pair_Ok_snd [OF r] r demo_liq demo_alice
    by (simp add: demo_has_pool demo_withdraw_def demo_pool_sel)
qed

text \<open>For reserves below 2 ^ 98 the price of an exact output is always computed (no
  overflow, no division by zero), is positive, and is enough: selling that amount
  returns at least the output that was asked for and less than the reserve.\<close>

theorem output_price_is_enough:
  assumes lib: "sdk_laws L" and x: "0 < x" "x < 2 ^ 98" and y: "y < 2 ^ 98" and out: "0 \<le> out" "out < y"
    and fee: "0 \<le> fee" "fee < dec_one"
  shows "\<exists>i. GetOutputPrice L out x y fee = Ok i \<and> 0 < i \<and>
    (i < 2 ^ 98 \<longrightarrow> (\<exists>n. GetInputPrice L i x y fee = Ok n \<and> out \<le> n \<and> n < y))"
proof -
  let ?g = "dec_one - fee" and ?i = "out_price (dec_one - fee) out x y"
  have g: "0 < ?g" using fee by simp
  have i: "0 < ?i" using out_price_pos [of x out y ?g] x out g by simp
  have "out \<le> in_price ?g ?i x y" using in_price_of_out_price x(1) out g by simp
  then show ?thesis
    using sdk_laws.out_price_total [OF lib _ x(2) y out fee] sdk_laws.in_price_total [OF lib x, of y ?i fee]
      in_price_bounds [of x y ?i ?g] x y out fee g i by auto
qed

theorem output_price_is_enough_witness:
  "\<exists>i. GetOutputPrice ref_lib 150 1000 2000 (3 * 10 ^ 15) = Ok i \<and> 0 < i"
  using output_price_is_enough [OF rlib.sdk_laws_axioms, of 1000 2000 150 "3 * 10 ^ 15"] by auto

text \<open>C37. Trading back and forth is never profitable: whoever sells \<open>i\<close> for \<open>n\<close> and then
  sells \<open>n\<close> back into the changed reserves receives at most \<open>i\<close>, at any two fees.\<close>

theorem swap_back_no_profit:
  assumes lib: "sdk_laws L" and pos: "0 < x" "0 < y" "0 \<le> i"
    and fee: "0 \<le> fee" "fee < dec_one" "0 \<le> fee'" "fee' < dec_one"
    and sell: "GetInputPrice L i x y fee = Ok n" and again: "GetInputPrice L n (y - n) (x + i) fee' = Ok j"
  shows "j \<le> i"
proof -
  have 1: "quotes L x y i n" using sell fee pos by (auto simp: quotes_def)
  then have "0 \<le> n" using sdk_laws.quotes_range [OF lib pos(1,2)] by blast
  then have "quotes L (y - n) (x + i) n j" using again fee by (auto simp: quotes_def)
  then show ?thesis using sdk_laws.quotes_no_profit [OF lib pos(1,2) 1] by blast
qed

theorem swap_back_no_profit_witness:
  "GetInputPrice ref_lib 100 1000 2000 (3 * 10 ^ 15) = Ok 181 \<and>
   GetInputPrice ref_lib 181 1819 1100 (3 * 10 ^ 15) = Ok 99 \<and> (99 :: int) \<le> 100"
proof -
  have "GetInputPrice ref_lib 100 1000 2000 (3 * 10 ^ 15) = Ok 181"
    "GetInputPrice ref_lib 181 (2000 - 181) (1000 + 100) (3 * 10 ^ 15) = Ok 99"
    by code_simp+
  then show ?thesis
    using swap_back_no_profit [OF rlib.sdk_laws_axioms, of 1000 2000 100 "3 * 10 ^ 15" "3 * 10 ^ 15" 181 99] by simp
qed

text \<open>Creating a pool charges the creator exactly the configured fee: the tax on it, rounded
  down, goes to the fee collector, the rest is taken out of the supply, and no other
  balance changes, the module account's included.\<close>

theorem pool_creation_fee_split:
  assumes "coinswap_env L k binv" and "binv (kext s)" and "pspace (kown s) = Some p" and "params_ok L p"
    and "DeductPoolCreationFee L k a s = (Ok (), t)"
  shows "(let fee = PoolCreationFee p; tax = Amount fee * TaxRate p div dec_one in
    0 \<le> tax \<and> tax \<le> Amount fee \<and>
    (\<forall>c d. bal (bk k) (kext t) c d = bal (bk k) (kext s) c d
       - (if c = a \<and> d = Denom fee then Amount fee else 0)
       + (if c = GetModuleAddress (ak k) (feeCollectorName k) \<and> d = Denom fee then tax else 0)) \<and>
    (\<forall>d. sup (bk k) (kext t) d = sup (bk k) (kext s) d - (if d = Denom fee then Amount fee - tax else 0)))"
  using coinswap_env.DeductPoolCreationFee_Ok [OF assms] unfolding Let_def by blast

theorem pool_creation_fee_split_witness:
  "fst (DeductPoolCreationFee ref_lib demo_keeper ''alice'' demo_state) = Ok () \<and>
   sup (bk demo_keeper) (kext (snd (DeductPoolCreationFee ref_lib demo_keeper ''alice'' demo_state))) ''acanto''
     = sup (bk demo_keeper) (kext demo_state) ''acanto'' - 60"
proof -
  have r: "fst (DeductPoolCreationFee ref_lib demo_keeper ''alice'' demo_state) = Ok ()" by code_simp
  then show ?thesis
    using pool_creation_fee_split [OF denv.coinswap_env_axioms demo_ledger_ok demo_params_ok pair_Ok_snd [OF r]]
    by (simp add: demo_params_def Let_def)
qed

lemma refuse_swap:
  "swapDeadline msg <=s 0 \<or> time_Unix (swapDeadline msg) < BlockTime ctx \<or>
      Address (Output msg) \<in> set (blockedAddrs k) \<or> Denom (Coin (Input msg)) = Denom (Coin (Output msg))
    \<Longrightarrow> refuses (msg_SwapCoin L k ctx msg) s"
  by (auto simp: msg_SwapCoin_def ValidateDeadline_def)

lemma refuse_add:
  "addDeadline m <=s 0 \<or> time_Unix (addDeadline m) < BlockTime ctx \<Longrightarrow> refuses (msg_AddLiquidity L k ctx m) s"
  by (auto simp: msg_AddLiquidity_def ValidateDeadline_def)

lemma refuse_remove:
  "removeDeadline n <=s 0 \<or> time_Unix (removeDeadline n) < BlockTime ctx \<Longrightarrow> refuses (msg_RemoveLiquidity L k ctx n) s"
  by (auto simp: msg_RemoveLiquidity_def ValidateDeadline_def)

text \<open>C38. No handler acts on a message it must refuse: one whose deadline is not positive or
  has passed, an order that pays to a blocked address, an order between equal
  denominations, and a parameter change not signed by the authority all fail and leave
  the state untouched.\<close>

theorem refused_messages_change_nothing:
  "(swapDeadline msg <=s 0 \<or> time_Unix (swapDeadline msg) < BlockTime ctx \<or>
      Address (Output msg) \<in> set (blockedAddrs k) \<or> Denom (Coin (Input msg)) = Denom (Coin (Output msg))
      \<longrightarrow> refuses (msg_SwapCoin L k ctx msg) s)
    \<and> (addDeadline m <=s 0 \<or> time_Unix (addDeadline m) < BlockTime ctx \<longrightarrow> refuses (msg_AddLiquidity L k ctx m) s)
    \<and> (removeDeadline n <=s 0 \<or> time_Unix (removeDeadline n) < BlockTime ctx
      \<longrightarrow> refuses (msg_RemoveLiquidity L k ctx n) s)
    \<and> (Authority req \<noteq> authority k \<longrightarrow>
      msg_UpdateParams L k req s = (Err (SdkErr ''ErrInvalidSigner''), s))"
  using refuse_swap [of msg ctx k L s] refuse_add [of m ctx L k s] refuse_remove [of n ctx L k s]
  by (auto simp: msg_UpdateParams_def raise_def)

theorem refused_messages_change_nothing_witness:
  "snd (msg_SwapCoin ref_lib demo_keeper (demo_ctx\<lparr>BlockTime := 3 * 10 ^ 18\<rparr>) (demo_order True) demo_state) = demo_state"
proof -
  have "time_Unix (swapDeadline (demo_order True)) < BlockTime (demo_ctx\<lparr>BlockTime := 3 * 10 ^ 18\<rparr>)" by code_simp
  then show ?thesis using refused_messages_change_nothing [of "demo_order True"] unfolding refuses_def by blast
qed

text \<open>The liquidity denomination of a sequence number parses back to that number, for every
  64-bit number, so that two pools never get the same denomination.\<close>

theorem lpt_denom_round_trip:
  "ParseLptDenom (GetLptDenom n) = Ok n \<and> (GetLptDenom m = GetLptDenom n \<longleftrightarrow> m = n)"
  by (simp add: ParseLptDenom_ret)

text \<open>The response of a withdrawal names the last coin as often as there are coins.\<close>

lemma remove_response_repeats_last_coin:
  "msg_RemoveLiquidity L k ctx msg s = (Ok cs, t) \<Longrightarrow>
    \<exists>ds. RemoveLiquidity L k msg s = (Ok ds, t) \<and> cs = replicate (length ds) (last ds)"
  by (auto simp: msg_RemoveLiquidity_def if_act_Ok_iff map_replicate_const)

end
