(* ===== verification/Gotime.thy ===== *)
theory Gotime
  imports Prelude
begin

text \<open>
  Go's time.Time and time.Duration as the modules use them, and the gRPC status errors
  of the query servers. An instant is its number of nanoseconds since the Unix epoch.
\<close>

section \<open>Instants\<close>

text \<open>The zero time.Time is the first instant of the year 1.\<close>

definition zero_time :: int where
  "zero_time = - 62135596800 * 10 ^ 9"

text \<open>
  Time.Add: the seconds since the year 1 are an int64 and saturate, the nanoseconds
  within the second are exact.
\<close>

definition clamp_seconds :: "int \<Rightarrow> int" where
  "clamp_seconds n = (if 2 ^ 63 \<le> n then 2 ^ 63 - 1 else if n < - (2 ^ 63) then 1 - 2 ^ 63 else n)"

definition time_Add :: "int \<Rightarrow> i64 \<Rightarrow> int" where
  "time_Add t d =
     (let n = t + sint d
      in (clamp_seconds (n div 10 ^ 9 + 62135596800) - 62135596800) * 10 ^ 9 + n mod 10 ^ 9)"

text \<open>The years 1 to 9999, which are the instants a protobuf timestamp can hold.\<close>

definition proto_time :: "int \<Rightarrow> bool" where
  "proto_time t = (zero_time \<le> t \<and> t < 253402300800 * 10 ^ 9)"

lemma sint_i64_bounds: "- (2 ^ 63) \<le> sint (d :: i64) \<and> sint d < 2 ^ 63"
  using sint_ge [of d] sint_lt [of d] by simp

lemma sint_small: "- (2 ^ 63) \<le> z \<Longrightarrow> z < 2 ^ 63 \<Longrightarrow> sint (of_int z :: i64) = z"
  by (simp add: signed_of_int signed_take_bit_int_eq_self)

lemma time_Add_exact:
  assumes "proto_time t"
  shows "time_Add t d = t + sint d"
proof -
  let ?n = "t + sint d"
  have "zero_time - 2 ^ 63 \<le> ?n" "?n < 253402300800 * 10 ^ 9 + 2 ^ 63"
    using assms sint_i64_bounds [of d] unfolding proto_time_def by linarith+
  then have "- (2 ^ 63) \<le> ?n div 10 ^ 9 + 62135596800" "?n div 10 ^ 9 + 62135596800 < 2 ^ 63"
    by (simp_all add: zero_time_def)
  then have "clamp_seconds (?n div 10 ^ 9 + 62135596800) = ?n div 10 ^ 9 + 62135596800"
    by (simp add: clamp_seconds_def)
  then show ?thesis by (simp add: time_Add_def Let_def)
qed

section \<open>Status errors of the query servers\<close>

definition status_InvalidArgument :: err where
  "status_InvalidArgument = RegErr ''grpc'' 3"

definition status_NotFound :: err where
  "status_NotFound = RegErr ''grpc'' 5"

definition status_Internal :: err where
  "status_Internal = RegErr ''grpc'' 13"

end
