(* ===== verification/Epochs.thy ===== *)
theory Epochs
  imports Modstore Gotime
begin

text \<open>
  The module x/epochs: recurring timers. An epoch is stored under its identifier; at the
  beginning of every block each epoch whose time has come is started or advanced by one,
  and the hooks of other modules are called. The theory holds the types, the keeper,
  genesis and the queries; \<open>Epochs_Props\<close> holds what is shown about them.
\<close>

section \<open>types\<close>

record EpochInfo =
  Identifier :: string
  StartTime :: int
  Duration :: i64
  CurrentEpoch :: i64
  CurrentEpochStartTime :: int
  EpochCountingStarted :: bool
  CurrentEpochStartHeight :: i64

definition WeekEpochID :: string where
  "WeekEpochID = ''week''"

definition DayEpochID :: string where
  "DayEpochID = ''day''"

definition HourEpochID :: string where
  "HourEpochID = ''hour''"

definition KeyPrefixEpoch :: bytes where
  "KeyPrefixEpoch = [char_of (1 :: int)]"

definition StartInitialEpoch :: "EpochInfo \<Rightarrow> EpochInfo" where
  "StartInitialEpoch ei = ei\<lparr>EpochCountingStarted := True, CurrentEpoch := 1,
     CurrentEpochStartTime := StartTime ei\<rparr>"

definition EndEpoch :: "EpochInfo \<Rightarrow> EpochInfo" where
  "EndEpoch ei = ei\<lparr>CurrentEpoch := CurrentEpoch ei + 1,
     CurrentEpochStartTime := time_Add (CurrentEpochStartTime ei) (Duration ei)\<rparr>"

definition EpochInfo_Validate :: "EpochInfo \<Rightarrow> unit res" where
  "EpochInfo_Validate ei =
     (if TrimSpace (Identifier ei) = '''' then Err (PlainErr ''epoch identifier cannot be blank'')
      else if Duration ei = 0 then Err (PlainErr ''epoch duration cannot be 0'')
      else if CurrentEpoch ei <s 0 then Err (PlainErr ''current epoch cannot be negative'')
      else if CurrentEpochStartHeight ei <s 0
        then Err (PlainErr ''current epoch start height cannot be negative'')
      else Ok ())"

definition ValidateEpochIdentifierString :: "string \<Rightarrow> unit res" where
  "ValidateEpochIdentifierString s =
     (if TrimSpace s = '''' then Err (PlainErr ''blank epoch identifier'') else Ok ())"

text \<open>An interface value that holds a string, or something else.\<close>

definition ValidateEpochIdentifierInterface :: "string option \<Rightarrow> unit res" where
  "ValidateEpochIdentifierInterface i =
     (case i of None \<Rightarrow> Err (PlainErr ''invalid parameter type'')
      | Some v \<Rightarrow> ValidateEpochIdentifierString v)"

record GenesisState =
  Epochs :: "EpochInfo list"

definition NewGenesisState :: "EpochInfo list \<Rightarrow> GenesisState" where
  "NewGenesisState epochs = \<lparr>Epochs = epochs\<rparr>"

definition default_epoch :: "string \<Rightarrow> i64 \<Rightarrow> EpochInfo" where
  "default_epoch ident duration =
     \<lparr>Identifier = ident, StartTime = zero_time, Duration = duration, CurrentEpoch = 0,
      CurrentEpochStartTime = zero_time, EpochCountingStarted = False, CurrentEpochStartHeight = 0\<rparr>"

definition DefaultGenesisState :: GenesisState where
  "DefaultGenesisState = NewGenesisState
     [default_epoch WeekEpochID (3600 * 1000000000 * 24 * 7), default_epoch DayEpochID (3600 * 1000000000 * 24)]"

fun validate_epochs :: "string list \<Rightarrow> EpochInfo list \<Rightarrow> unit res" where
  "validate_epochs epochIdentifiers [] = Ok ()"
| "validate_epochs epochIdentifiers (epoch # epochs) =
     (if Identifier epoch \<in> set epochIdentifiers then Err (PlainErr ''duplicated epoch entry'')
      else rbind (EpochInfo_Validate epoch) (\<lambda>_.
        validate_epochs (Identifier epoch # epochIdentifiers) epochs))"

definition Validate :: "GenesisState \<Rightarrow> unit res" where
  "Validate gs = validate_epochs [] (Epochs gs)"

section \<open>The keeper and its hooks\<close>

record 'x EpochHooks =
  hook_AfterEpochEnd :: "string \<Rightarrow> i64 \<Rightarrow> ('x, unit) act"
  hook_BeforeEpochStart :: "string \<Rightarrow> i64 \<Rightarrow> ('x, unit) act"

text \<open>
  The codec belongs to the SDK: of it the keeper uses whether a value can be marshalled
  (MustMarshal panics otherwise).
\<close>

record 'x Keeper =
  cdc_marshals :: "EpochInfo \<Rightarrow> bool"
  hooks :: "'x EpochHooks option"

type_synonym 'x ep_state = "(unit, EpochInfo, 'x) mstate"

definition NewKeeper :: "(EpochInfo \<Rightarrow> bool) \<Rightarrow> 'x Keeper" where
  "NewKeeper cdc = \<lparr>cdc_marshals = cdc, hooks = None\<rparr>"

definition SetHooks :: "'x EpochHooks \<Rightarrow> 'x Keeper \<Rightarrow> 'x Keeper res" where
  "SetHooks eh k =
     (if hooks k \<noteq> None then Panic ''cannot set epochs hooks twice'' else Ok (k\<lparr>hooks := Some eh\<rparr>))"

text \<open>Several hooks as one, run in the order of the list.\<close>

definition MultiEpochHooks :: "'x EpochHooks list \<Rightarrow> 'x EpochHooks" where
  "MultiEpochHooks mh =
     \<lparr>hook_AfterEpochEnd = \<lambda>ident n. for_each (\<lambda>h. hook_AfterEpochEnd h ident n) mh,
      hook_BeforeEpochStart = \<lambda>ident n. for_each (\<lambda>h. hook_BeforeEpochStart h ident n) mh\<rparr>"

definition AfterEpochEnd :: "'x Keeper \<Rightarrow> string \<Rightarrow> i64 \<Rightarrow> ('x ep_state, unit) act" where
  "AfterEpochEnd k ident epochNumber =
     (case hooks k of None \<Rightarrow> panic ''nil hooks''
      | Some h \<Rightarrow> on_ext (hook_AfterEpochEnd h ident epochNumber))"

definition BeforeEpochStart :: "'x Keeper \<Rightarrow> string \<Rightarrow> i64 \<Rightarrow> ('x ep_state, unit) act" where
  "BeforeEpochStart k ident epochNumber =
     (case hooks k of None \<Rightarrow> panic ''nil hooks''
      | Some h \<Rightarrow> on_ext (hook_BeforeEpochStart h ident epochNumber))"

section \<open>epoch_infos.go\<close>

definition epoch_key :: "string \<Rightarrow> bytes" where
  "epoch_key ident = KeyPrefixEpoch @ ident"

definition GetEpochInfo :: "string \<Rightarrow> ('x ep_state, EpochInfo option) act" where
  "GetEpochInfo ident = store_get (epoch_key ident)"

text \<open>The prefix store refuses an empty key.\<close>

definition SetEpochInfo :: "'x Keeper \<Rightarrow> EpochInfo \<Rightarrow> ('x ep_state, unit) act" where
  "SetEpochInfo k epoch =
     (if \<not> cdc_marshals k epoch then panic ''marshal''
      else if Identifier epoch = '''' then panic ''key is nil or empty''
      else store_set (epoch_key (Identifier epoch)) epoch)"

definition DeleteEpochInfo :: "string \<Rightarrow> ('x ep_state, unit) act" where
  "DeleteEpochInfo ident = store_delete (epoch_key ident)"

fun iterate_loop :: "(i64 \<Rightarrow> EpochInfo \<Rightarrow> ('s, bool) act) \<Rightarrow> i64 \<Rightarrow> EpochInfo list \<Rightarrow> ('s, unit) act" where
  "iterate_loop fn i [] = ret ()"
| "iterate_loop fn i (epoch # epochs) =
     bnd (fn i epoch) (\<lambda>stop. if stop then ret () else iterate_loop fn (i + 1) epochs)"

definition IterateEpochInfo :: "(i64 \<Rightarrow> EpochInfo \<Rightarrow> ('x ep_state, bool) act) \<Rightarrow> ('x ep_state, unit) act" where
  "IterateEpochInfo fn =
     bnd (store_iterate KeyPrefixEpoch) (\<lambda>es. iterate_loop fn 0 (map snd es))"

definition AllEpochInfos :: "('x ep_state, EpochInfo list) act" where
  "AllEpochInfos = bnd (store_iterate KeyPrefixEpoch) (\<lambda>es. ret (map snd es))"

section \<open>abci.go\<close>

text \<open>What the callback of BeginBlocker does once an epoch was started or ended.\<close>

definition epoch_started :: "'x Keeper \<Rightarrow> EpochInfo \<Rightarrow> ('x ep_state, bool) act" where
  "epoch_started k epochInfo =
     bnd (SetEpochInfo k epochInfo) (\<lambda>_.
     bnd (BeforeEpochStart k (Identifier epochInfo) (CurrentEpoch epochInfo)) (\<lambda>_.
     ret False))"

definition begin_block_epoch :: "'x Keeper \<Rightarrow> block_ctx \<Rightarrow> EpochInfo \<Rightarrow> ('x ep_state, bool) act" where
  "begin_block_epoch k ctx epochInfo =
     (let shouldInitialEpochStart =
            (\<not> EpochCountingStarted epochInfo \<and> \<not> BlockTime ctx < StartTime epochInfo);
          epochEndTime = time_Add (CurrentEpochStartTime epochInfo) (Duration epochInfo);
          shouldEpochEnd = (epochEndTime < BlockTime ctx \<and> \<not> shouldInitialEpochStart \<and>
            \<not> BlockTime ctx < StartTime epochInfo);
          epochInfo1 = epochInfo\<lparr>CurrentEpochStartHeight := BlockHeight ctx\<rparr>
      in if shouldInitialEpochStart then epoch_started k (StartInitialEpoch epochInfo1)
         else if shouldEpochEnd then
           let epochInfo2 = EndEpoch epochInfo1 in
           bnd (AfterEpochEnd k (Identifier epochInfo2) (CurrentEpoch epochInfo2)) (\<lambda>_.
           epoch_started k epochInfo2)
         else ret False)"

definition BeginBlocker :: "'x Keeper \<Rightarrow> block_ctx \<Rightarrow> ('x ep_state, unit) act" where
  "BeginBlocker k ctx = IterateEpochInfo (\<lambda>_ epochInfo. begin_block_epoch k ctx epochInfo)"

section \<open>Genesis\<close>

definition genesis_epoch :: "block_ctx \<Rightarrow> EpochInfo \<Rightarrow> EpochInfo" where
  "genesis_epoch ctx epoch =
     (if StartTime epoch = zero_time then epoch\<lparr>StartTime := BlockTime ctx\<rparr> else epoch)
       \<lparr>CurrentEpochStartHeight := BlockHeight ctx\<rparr>"

definition InitGenesis :: "'x Keeper \<Rightarrow> block_ctx \<Rightarrow> GenesisState \<Rightarrow> ('x ep_state, unit) act" where
  "InitGenesis k ctx genState =
     for_each (\<lambda>epoch. SetEpochInfo k (genesis_epoch ctx epoch)) (Epochs genState)"

definition ExportGenesis :: "('x ep_state, GenesisState) act" where
  "ExportGenesis = bnd AllEpochInfos (\<lambda>epochs. ret \<lparr>Epochs = epochs\<rparr>)"

section \<open>Queries\<close>

text \<open>
  Pagination is the SDK's: from the entries of the store and the request it selects the
  entries the callback sees and makes the page response. A request is None when nil.
\<close>

definition EpochInfos :: "('pg \<Rightarrow> (bytes \<times> EpochInfo) list \<Rightarrow> ((bytes \<times> EpochInfo) list \<times> 'pr) res) \<Rightarrow>
    'pg option \<Rightarrow> ('x ep_state, EpochInfo list \<times> 'pr) act" where
  "EpochInfos paginate req =
     (case req of None \<Rightarrow> raise status_InvalidArgument
      | Some pagination \<Rightarrow>
          bnd (store_iterate KeyPrefixEpoch) (\<lambda>es.
          case paginate pagination es of
            Ok (page, pageRes) \<Rightarrow> ret (map snd page, pageRes)
          | Err e \<Rightarrow> raise status_Internal
          | Panic p \<Rightarrow> panic p))"

definition CurrentEpoch_query :: "string option \<Rightarrow> ('x ep_state, i64) act" where
  "CurrentEpoch_query req =
     (case req of None \<Rightarrow> raise status_InvalidArgument
      | Some ident \<Rightarrow>
          bnd (GetEpochInfo ident) (\<lambda>info.
          case info of None \<Rightarrow> raise status_NotFound | Some epoch \<Rightarrow> ret (CurrentEpoch epoch)))"

end
