(* ===== verification/Epochs_Props.thy ===== *)
theory Epochs_Props
  imports Epochs
begin

text \<open>
  What x/epochs guarantees: BeginBlocker refines a pure function on the map of epochs
  together with an ordered list of hook calls, epochs stay on their schedule over any
  history of blocks, a late epoch catches up, and genesis stores what it was given.
\<close>

section \<open>The abstract module\<close>

text \<open>The epochs by identifier, and one block on one of them.\<close>

definition epochs_of :: "'x ep_state \<Rightarrow> string \<Rightarrow> EpochInfo option" where
  "epochs_of s ident = kv_get (kvstore (kown s)) (epoch_key ident)"

definition starts :: "block_ctx \<Rightarrow> EpochInfo \<Rightarrow> bool" where
  "starts ctx e \<longleftrightarrow> \<not> EpochCountingStarted e \<and> StartTime e \<le> BlockTime ctx"

definition ends :: "block_ctx \<Rightarrow> EpochInfo \<Rightarrow> bool" where
  "ends ctx e \<longleftrightarrow> EpochCountingStarted e \<and> StartTime e \<le> BlockTime ctx \<and>
     time_Add (CurrentEpochStartTime e) (Duration e) < BlockTime ctx"

definition epoch_next :: "block_ctx \<Rightarrow> EpochInfo \<Rightarrow> EpochInfo" where
  "epoch_next ctx e =
     (if starts ctx e then StartInitialEpoch (e\<lparr>CurrentEpochStartHeight := BlockHeight ctx\<rparr>)
      else if ends ctx e then EndEpoch (e\<lparr>CurrentEpochStartHeight := BlockHeight ctx\<rparr>) else e)"

datatype hook_call = CallAfter string i64 | CallBefore string i64

definition hook_calls :: "block_ctx \<Rightarrow> EpochInfo \<Rightarrow> hook_call list" where
  "hook_calls ctx e =
     (let n = CurrentEpoch (epoch_next ctx e)
      in (if ends ctx e then [CallAfter (Identifier e) n] else []) @
         (if starts ctx e \<or> ends ctx e then [CallBefore (Identifier e) n] else []))"

fun run_call :: "'x EpochHooks \<Rightarrow> hook_call \<Rightarrow> ('x, unit) act" where
  "run_call h (CallAfter ident n) = hook_AfterEpochEnd h ident n"
| "run_call h (CallBefore ident n) = hook_BeforeEpochStart h ident n"

text \<open>Every epoch is stored under its own identifier, which is not empty.\<close>

definition epochs_ok :: "'x ep_state \<Rightarrow> bool" where
  "epochs_ok s \<longleftrightarrow> kv_ok (kvstore (kown s)) \<and>
     (\<forall>key e. kv_get (kvstore (kown s)) key = Some e \<longrightarrow> key = epoch_key (Identifier e) \<and> Identifier e \<noteq> [])"

definition all_epochs :: "'x ep_state \<Rightarrow> EpochInfo list" where
  "all_epochs s = map snd (kv_prefix KeyPrefixEpoch (kvstore (kown s)))"

section \<open>Basic facts\<close>

lemma epoch_key_inj [simp]: "epoch_key a = epoch_key b \<longleftrightarrow> a = b"
  by (simp add: epoch_key_def)

lemma epoch_key_prefix [simp]: "HasPrefix (epoch_key a) KeyPrefixEpoch"
  by (simp add: epoch_key_def)

lemma Identifier_next [simp]: "Identifier (epoch_next ctx e) = Identifier e"
  by (simp add: epoch_next_def StartInitialEpoch_def EndEpoch_def)

lemma epoch_next_fields [simp]: "StartTime (epoch_next ctx e) = StartTime e"
  "Duration (epoch_next ctx e) = Duration e"
  by (simp_all add: epoch_next_def StartInitialEpoch_def EndEpoch_def)

lemma SetEpochInfo_Ok_iff [simp]: "SetEpochInfo k e s = (Ok u, t) \<longleftrightarrow>
    cdc_marshals k e \<and> Identifier e \<noteq> [] \<and>
    t = s\<lparr>kown := (kown s)\<lparr>kvstore := kv_set (epoch_key (Identifier e)) e (kvstore (kown s))\<rparr>\<rparr>"
  by (auto simp: SetEpochInfo_def)

lemma all_epochs_props:
  assumes "epochs_ok s"
  shows "e \<in> set (all_epochs s) \<longleftrightarrow> epochs_of s (Identifier e) = Some e"
    and "sorted_wrt (<) (map Identifier (all_epochs s))"
proof -
  have ok: "kv_ok (kvstore (kown s))"
    and key: "\<And>k e. kv_get (kvstore (kown s)) k = Some e \<Longrightarrow> k = epoch_key (Identifier e)"
    using assms by (auto simp: epochs_ok_def)
  have "e \<in> set (all_epochs s) \<longleftrightarrow> (\<exists>j. HasPrefix j KeyPrefixEpoch \<and> kv_get (kvstore (kown s)) j = Some e)"
    unfolding all_epochs_def set_map image_iff Bex_def
    by (metis kv_prefix_get [OF ok] prod.collapse snd_conv)
  then show "e \<in> set (all_epochs s) \<longleftrightarrow> epochs_of s (Identifier e) = Some e"
    using key unfolding epochs_of_def by (metis epoch_key_prefix)
  have "fst x = epoch_key (Identifier (snd x))" if "x \<in> set (kv_prefix KeyPrefixEpoch (kvstore (kown s)))" for x
    using that key kv_prefix_get [OF ok, of "fst x" "snd x"] by simp
  then have "map fst (kv_prefix KeyPrefixEpoch (kvstore (kown s))) =
      map (\<lambda>e. epoch_key (Identifier e)) (all_epochs s)"
    by (simp add: all_epochs_def)
  moreover have "epoch_key a < epoch_key b \<longleftrightarrow> a < b" for a b
    by (simp add: epoch_key_def KeyPrefixEpoch_def)
  ultimately show "sorted_wrt (<) (map Identifier (all_epochs s))"
    using kv_ok_prefix [OF ok, of KeyPrefixEpoch] by (simp add: kv_ok_def sorted_wrt_map)
qed

lemma iterate_loop_all:
  assumes "\<And>i e. fn i e = bnd (f e) (\<lambda>_. ret False)"
  shows "iterate_loop fn i es = for_each f es"
  by (induction es arbitrary: i)
    (auto simp: assms bnd_def ret_def fun_eq_iff split: prod.splits res.splits)

section \<open>One block\<close>

text \<open>The step of BeginBlocker on one epoch, with its hook calls as a list.\<close>

lemma begin_block_epoch_Ok:
  assumes run: "begin_block_epoch k ctx e s = (Ok stop, t)" and h: "hooks k = Some h"
    and stored: "epochs_of s (Identifier e) = Some e" and ok: "kv_ok (kvstore (kown s))"
  shows "\<not> stop \<and> for_each (run_call h) (hook_calls ctx e) (kext s) = (Ok (), kext t) \<and>
    kvstore (kown t) = kv_set (epoch_key (Identifier e)) (epoch_next ctx e) (kvstore (kown s)) \<and>
    (epoch_next ctx e \<noteq> e \<longrightarrow> cdc_marshals k (epoch_next ctx e))"
proof -
  have same: "kv_set (epoch_key (Identifier e)) e (kvstore (kown s)) = kvstore (kown s)"
    using ok stored by (intro kv_eqI) (auto simp: kv_ok_set kv_get_set epochs_of_def)
  show ?thesis
    using run h same
    by (auto simp: begin_block_epoch_def Let_def epoch_started_def AfterEpochEnd_def BeforeEpochStart_def
        starts_def ends_def epoch_next_def hook_calls_def StartInitialEpoch_def EndEpoch_def act_simps
        split: if_splits)
qed

abbreviation put_next :: "block_ctx \<Rightarrow> EpochInfo list \<Rightarrow> (bytes, EpochInfo) kv \<Rightarrow> (bytes, EpochInfo) kv" where
  "put_next ctx es m \<equiv> kvs.put_all (\<lambda>e. epoch_key (Identifier e)) (epoch_next ctx) es m"

lemma iterate_block_Ok:
  assumes "iterate_loop (\<lambda>_. begin_block_epoch k ctx) i es s = (Ok u, t)" and h: "hooks k = Some h"
    and "kv_ok (kvstore (kown s))" and "distinct (map Identifier es)"
    and "\<forall>e \<in> set es. epochs_of s (Identifier e) = Some e"
  shows "for_each (run_call h) (concat (map (hook_calls ctx) es)) (kext s) = (Ok (), kext t) \<and>
    kvstore (kown t) = put_next ctx es (kvstore (kown s)) \<and>
    (\<forall>e \<in> set es. epoch_next ctx e \<noteq> e \<longrightarrow> cdc_marshals k (epoch_next ctx e))"
  using assms
proof (induction es arbitrary: i s)
  case (Cons e es)
  obtain stop v where step: "begin_block_epoch k ctx e s = (Ok stop, v)"
    and rest: "(if stop then ret () else iterate_loop (\<lambda>_. begin_block_epoch k ctx) (i + 1) es) v = (Ok u, t)"
    using Cons.prems(1) by auto
  have "epochs_of s (Identifier e) = Some e" using Cons.prems(5) by simp
  note one = begin_block_epoch_Ok [OF step h this Cons.prems(3)]
  then have go: "\<not> stop" and calls: "for_each (run_call h) (hook_calls ctx e) (kext s) = (Ok (), kext v)"
    and kv: "kvstore (kown v) = kv_set (epoch_key (Identifier e)) (epoch_next ctx e) (kvstore (kown s))"
    and m: "epoch_next ctx e \<noteq> e \<longrightarrow> cdc_marshals k (epoch_next ctx e)"
    by blast+
  have "epochs_of v (Identifier e') = Some e'" if "e' \<in> set es" for e'
  proof -
    have "Identifier e' \<noteq> Identifier e" using that Cons.prems(4) by (metis distinct.simps(2) image_eqI list.simps(9) set_map)
    then show ?thesis using that Cons.prems(5) by (simp add: epochs_of_def kv kv_get_set)
  qed
  moreover have "kv_ok (kvstore (kown v))" using Cons.prems(3) by (simp add: kv kv_ok_set)
  moreover have "iterate_loop (\<lambda>_. begin_block_epoch k ctx) (i + 1) es v = (Ok u, t)"
    using rest go by simp
  ultimately have "for_each (run_call h) (concat (map (hook_calls ctx) es)) (kext v) = (Ok (), kext t) \<and>
      kvstore (kown t) = put_next ctx es (kvstore (kown v)) \<and>
      (\<forall>e \<in> set es. epoch_next ctx e \<noteq> e \<longrightarrow> cdc_marshals k (epoch_next ctx e))"
    using Cons.IH [of "i + 1" v] h Cons.prems(4) by simp
  then show ?case using calls m by (simp add: for_each_append kv)
qed simp

lemma BeginBlocker_Ok:
  assumes "BeginBlocker k ctx s = (Ok u, t)" and h: "hooks k = Some h" and ok: "epochs_ok s"
  shows "for_each (run_call h) (concat (map (hook_calls ctx) (all_epochs s))) (kext s) = (Ok (), kext t)"
    and "epochs_of t ident = map_option (epoch_next ctx) (epochs_of s ident)"
    and "epochs_ok t"
    and "epochs_of s ident = Some e \<Longrightarrow> epoch_next ctx e \<noteq> e \<Longrightarrow> cdc_marshals k (epoch_next ctx e)"
proof -
  have kv: "kv_ok (kvstore (kown s))" using ok by (simp add: epochs_ok_def)
  have d: "distinct (map Identifier (all_epochs s))"
    using all_epochs_props(2) [OF ok] strict_sorted_iff by blast
  have loop: "iterate_loop (\<lambda>_. begin_block_epoch k ctx) 0 (all_epochs s) s = (Ok u, t)"
    using assms(1) by (simp add: BeginBlocker_def IterateEpochInfo_def all_epochs_def)
  have mem: "e \<in> set (all_epochs s) \<longleftrightarrow> epochs_of s (Identifier e) = Some e" for e
    by (rule all_epochs_props(1) [OF ok])
  then have "\<forall>e \<in> set (all_epochs s). epochs_of s (Identifier e) = Some e" by blast
  note r = iterate_block_Ok [OF loop h kv d this]
  show "for_each (run_call h) (concat (map (hook_calls ctx) (all_epochs s))) (kext s) = (Ok (), kext t)"
    using r by blast
  have kt: "kvstore (kown t) = put_next ctx (all_epochs s) (kvstore (kown s))"
    and m: "\<And>e. e \<in> set (all_epochs s) \<Longrightarrow> epoch_next ctx e \<noteq> e \<Longrightarrow> cdc_marshals k (epoch_next ctx e)"
    using r by blast+
  have id: "Identifier e = i" if "epochs_of s i = Some e" for i e
    using that ok unfolding epochs_ok_def epochs_of_def by (metis epoch_key_inj)
  have d': "distinct (map (\<lambda>e. epoch_key (Identifier e)) (all_epochs s))"
    using d by (simp add: distinct_map inj_on_def)
  show next_of: "epochs_of t i = map_option (epoch_next ctx) (epochs_of s i)" for i
  proof (cases "epochs_of s i")
    case None
    then have "epoch_key i \<notin> (\<lambda>e. epoch_key (Identifier e)) ` set (all_epochs s)" using mem by auto
    from kvs.get_put_all_other [OF kv this] show ?thesis using None by (simp add: epochs_of_def kt)
  next
    case (Some e)
    then have "e \<in> set (all_epochs s)" "Identifier e = i" using id mem by auto
    then show ?thesis
      using kvs.get_put_all [OF kv d', of e "epoch_next ctx"] Some by (simp add: epochs_of_def kt)
  qed
  show "epochs_of s ident = Some e \<Longrightarrow> epoch_next ctx e \<noteq> e \<Longrightarrow> cdc_marshals k (epoch_next ctx e)"
    using m id mem by metis
  have "key = epoch_key (Identifier e) \<and> Identifier e \<noteq> []" if "kv_get (kvstore (kown t)) key = Some e" for key e
    using kvs.get_put_all_Some [OF kv d' that [unfolded kt]]
  proof
    assume "\<exists>x\<in>set (all_epochs s). epoch_key (Identifier x) = key \<and> epoch_next ctx x = e"
    then obtain x where "epochs_of s (Identifier x) = Some x" "key = epoch_key (Identifier x)" "e = epoch_next ctx x"
      using mem by blast
    then show ?thesis using ok unfolding epochs_ok_def epochs_of_def by (metis Identifier_next)
  qed (use ok in \<open>unfold epochs_ok_def, blast\<close>)
  then show "epochs_ok t" using kvs.inv_put_all [OF kv] unfolding epochs_ok_def kt by metis
qed

text \<open>When nothing stands in the way, the block goes through.\<close>

definition hooks_total :: "'x EpochHooks \<Rightarrow> bool" where
  "hooks_total h \<longleftrightarrow> (\<forall>c x. \<exists>x'. run_call h c x = (Ok (), x'))"

lemma hooks_totalD: "hooks_total h \<Longrightarrow> \<exists>x'. hook_AfterEpochEnd h ident n x = (Ok (), x')"
  "hooks_total h \<Longrightarrow> \<exists>x'. hook_BeforeEpochStart h ident n x = (Ok (), x')"
  unfolding hooks_total_def by (metis run_call.simps)+

lemma begin_block_epoch_total:
  assumes h: "hooks k = Some h" "hooks_total h" and id: "Identifier e \<noteq> []"
    and m: "starts ctx e \<or> ends ctx e \<Longrightarrow> cdc_marshals k (epoch_next ctx e)"
  shows "\<exists>t. begin_block_epoch k ctx e s = (Ok False, t)"
proof -
  have started: "\<exists>t. epoch_started k e' s = (Ok False, t)" if "cdc_marshals k e'" "Identifier e' \<noteq> []" for e' s
    using that h hooks_totalD(2) [OF h(2)] by (fastforce simp: epoch_started_def BeforeEpochStart_def)
  let ?e = "e\<lparr>CurrentEpochStartHeight := BlockHeight ctx\<rparr>"
  show ?thesis
  proof (cases "starts ctx e")
    case True
    then have "begin_block_epoch k ctx e s = epoch_started k (StartInitialEpoch ?e) s"
      by (simp add: begin_block_epoch_def starts_def Let_def)
    moreover have "cdc_marshals k (StartInitialEpoch ?e)" using True m by (simp add: epoch_next_def)
    ultimately show ?thesis using started id by (simp add: StartInitialEpoch_def)
  next
    case False
    show ?thesis
    proof (cases "ends ctx e")
      case True
      then have "begin_block_epoch k ctx e s =
          bnd (AfterEpochEnd k (Identifier e) (CurrentEpoch e + 1)) (\<lambda>_. epoch_started k (EndEpoch ?e)) s"
        by (simp add: begin_block_epoch_def ends_def Let_def EndEpoch_def)
      moreover have "cdc_marshals k (EndEpoch ?e)" using True False m by (simp add: epoch_next_def)
      moreover have "\<exists>u. AfterEpochEnd k (Identifier e) (CurrentEpoch e + 1) s = (Ok (), u)"
        using h hooks_totalD(1) [OF h(2)] by (simp add: AfterEpochEnd_def)
      ultimately show ?thesis using started id by (fastforce simp: EndEpoch_def)
    qed (use False in \<open>auto simp: begin_block_epoch_def starts_def ends_def Let_def\<close>)
  qed
qed

text \<open>A running epoch: its times fit a timestamp and time moves forward.\<close>

definition epoch_sane :: "EpochInfo \<Rightarrow> bool" where
  "epoch_sane e \<longleftrightarrow> proto_time (StartTime e) \<and> proto_time (CurrentEpochStartTime e) \<and> 0 < sint (Duration e)"

lemma epoch_sane_next:
  assumes "epoch_sane e" and "proto_time (BlockTime ctx)"
  shows "epoch_sane (epoch_next ctx e)"
proof -
  have "time_Add (CurrentEpochStartTime e) (Duration e) = CurrentEpochStartTime e + sint (Duration e)"
    using assms by (simp add: time_Add_exact epoch_sane_def)
  then have "proto_time (time_Add (CurrentEpochStartTime e) (Duration e))" if "ends ctx e"
    using that assms by (auto simp: proto_time_def epoch_sane_def ends_def)
  then show ?thesis
    using assms by (auto simp: epoch_sane_def epoch_next_def StartInitialEpoch_def EndEpoch_def)
qed

lemma BeginBlocker_total:
  assumes h: "hooks k = Some h" "hooks_total h"
    and codec: "\<And>e. epoch_sane e \<Longrightarrow> cdc_marshals k e"
    and ok: "epochs_ok s" and sane: "\<forall>ident e. epochs_of s ident = Some e \<longrightarrow> epoch_sane e"
    and time: "proto_time (BlockTime ctx)"
  shows "\<exists>t. BeginBlocker k ctx s = (Ok (), t)"
proof -
  have "\<exists>t. iterate_loop (\<lambda>_. begin_block_epoch k ctx) i es s' = (Ok (), t)"
    if "\<forall>e \<in> set es. epoch_sane e \<and> Identifier e \<noteq> []" for i es s'
    using that
  proof (induction es arbitrary: i s')
    case (Cons e es)
    have "cdc_marshals k (epoch_next ctx e)" using Cons.prems codec epoch_sane_next [OF _ time] by simp
    then obtain u where "begin_block_epoch k ctx e s' = (Ok False, u)"
      using begin_block_epoch_total [OF h, of e ctx s'] Cons.prems by auto
    moreover obtain t where "iterate_loop (\<lambda>_. begin_block_epoch k ctx) (i + 1) es u = (Ok (), t)"
      using Cons.IH [of "i + 1" u] Cons.prems by auto
    ultimately show ?case by (auto simp: bnd_def)
  qed simp
  moreover have "epoch_sane e \<and> Identifier e \<noteq> []" if "e \<in> set (all_epochs s)" for e
    using that sane ok unfolding all_epochs_props(1) [OF ok] epochs_of_def epochs_ok_def by blast
  ultimately show ?thesis by (simp add: BeginBlocker_def IterateEpochInfo_def all_epochs_def)
qed

section \<open>Histories\<close>

text \<open>
  Blocks in the order of their times; between two blocks the other modules change their
  own state only.
\<close>

inductive epoch_history :: "'x Keeper \<Rightarrow> int \<Rightarrow> 'x ep_state \<Rightarrow> int \<Rightarrow> 'x ep_state \<Rightarrow> bool"
  for k T0 s where
  start: "epoch_history k T0 s T0 s"
| others: "epoch_history k T0 s T u \<Longrightarrow> epoch_history k T0 s T (u\<lparr>kext := x\<rparr>)"
| block: "epoch_history k T0 s T u \<Longrightarrow> T \<le> BlockTime ctx \<Longrightarrow> BeginBlocker k ctx u = (Ok (), t) \<Longrightarrow>
    epoch_history k T0 s (BlockTime ctx) t"

text \<open>
  On schedule: the n-th epoch starts exactly n - 1 durations after the first, and not in
  the future. The counter is an int64, so n is its value before any wrap-around.
\<close>

definition on_schedule :: "int \<Rightarrow> EpochInfo \<Rightarrow> bool" where
  "on_schedule now e \<longleftrightarrow> proto_time (StartTime e) \<and> proto_time (CurrentEpochStartTime e) \<and>
     (EpochCountingStarted e \<longrightarrow> CurrentEpochStartTime e \<le> now \<and>
       (\<exists>n \<ge> 1. CurrentEpoch e = of_int n \<and>
          CurrentEpochStartTime e = StartTime e + (n - 1) * sint (Duration e)))"

lemma on_schedule_next:
  assumes sch: "on_schedule now e" and "now \<le> BlockTime ctx"
    and m: "epoch_next ctx e \<noteq> e \<Longrightarrow> proto_time (CurrentEpochStartTime (epoch_next ctx e))"
  shows "on_schedule (BlockTime ctx) (epoch_next ctx e)"
proof -
  consider "starts ctx e" | "\<not> starts ctx e" "ends ctx e" | "\<not> starts ctx e" "\<not> ends ctx e" by blast
  then show ?thesis
  proof cases
    case 1
    then show ?thesis
      using sch unfolding on_schedule_def
      by (auto simp: starts_def epoch_next_def StartInitialEpoch_def intro!: exI [of _ 1])
  next
    case 2
    let ?s = "CurrentEpochStartTime e" and ?d = "sint (Duration e)"
    have add: "time_Add ?s (Duration e) = ?s + ?d"
      using sch by (simp add: time_Add_exact on_schedule_def)
    obtain n where n: "1 \<le> n" "CurrentEpoch e = of_int n" "?s = StartTime e + (n - 1) * ?d"
      using sch 2 by (auto simp: on_schedule_def ends_def)
    have "CurrentEpoch (epoch_next ctx e) \<noteq> CurrentEpoch e" using 2 by (simp add: epoch_next_def EndEpoch_def)
    then have "proto_time (CurrentEpochStartTime (epoch_next ctx e))" using m by metis
    then have "proto_time (?s + ?d)" using 2 add by (simp add: epoch_next_def EndEpoch_def)
    moreover have "?s + ?d \<le> BlockTime ctx" using 2 add by (simp add: ends_def)
    moreover have "?s + ?d = StartTime e + (n + 1 - 1) * ?d" using n(3) by (simp add: algebra_simps)
    ultimately show ?thesis
      using sch 2 n add unfolding on_schedule_def
      by (auto simp: epoch_next_def EndEpoch_def intro!: exI [of _ "n + 1"])
  next
    case 3
    then show ?thesis using assms(1,2) by (auto simp: on_schedule_def epoch_next_def)
  qed
qed

lemma epochs_of_others [simp]: "epochs_of (s\<lparr>kext := x\<rparr>) = epochs_of s"
  and epochs_ok_others [simp]: "epochs_ok (s\<lparr>kext := x\<rparr>) = epochs_ok s"
  by (simp_all add: epochs_of_def epochs_ok_def fun_eq_iff)

lemma history_keeps:
  assumes "epoch_history k T0 s T t" and h: "hooks k = Some h" and ok: "epochs_ok s"
    and codec: "\<And>e. cdc_marshals k e \<Longrightarrow> proto_time (CurrentEpochStartTime e)"
    and sch: "\<forall>ident e. epochs_of s ident = Some e \<longrightarrow> on_schedule T0 e"
  shows "epochs_ok t \<and> (\<forall>ident e'. epochs_of t ident = Some e' \<longrightarrow> on_schedule T e' \<and>
    (\<exists>e. epochs_of s ident = Some e \<and> StartTime e' = StartTime e \<and> Duration e' = Duration e))"
  using assms(1)
proof (induction)
  case start
  then show ?case using ok sch by blast
next
  case (others T u x)
  then show ?case by simp
next
  case (block T u ctx t)
  have ok: "epochs_ok u" using block.IH by blast
  note b = BeginBlocker_Ok [OF block.hyps(3) h ok]
  have "on_schedule (BlockTime ctx) e' \<and>
      (\<exists>e. epochs_of s ident = Some e \<and> StartTime e' = StartTime e \<and> Duration e' = Duration e)"
    if e': "epochs_of t ident = Some e'" for ident e'
  proof -
    obtain e where e: "epochs_of u ident = Some e" "e' = epoch_next ctx e"
      using e' b(2) [of ident] by auto
    then have "on_schedule (BlockTime ctx) e'"
      using on_schedule_next [of T e ctx] block b(4) [of ident e] codec by metis
    then show ?thesis using e block.IH by auto
  qed
  then show ?case using b(3) by blast
qed

section \<open>Catching up\<close>

lemma blocks_run:
  assumes h: "hooks k = Some h" "hooks_total h"
    and codec: "\<And>e. epoch_sane e \<Longrightarrow> cdc_marshals k e"
    and "epochs_ok s" and "\<forall>ident e. epochs_of s ident = Some e \<longrightarrow> epoch_sane e"
    and "\<forall>ctx \<in> set ctxs. proto_time (BlockTime ctx)"
  shows "\<exists>t. for_each (BeginBlocker k) ctxs s = (Ok (), t) \<and>
    (\<forall>ident. epochs_of t ident = map_option (fold epoch_next ctxs) (epochs_of s ident))"
  using assms(4-)
proof (induction ctxs arbitrary: s)
  case Nil
  then show ?case by (simp add: option.map_ident)
next
  case (Cons ctx ctxs)
  obtain u where u: "BeginBlocker k ctx s = (Ok (), u)"
    using BeginBlocker_total [OF h codec Cons.prems(1,2)] Cons.prems(3) by auto
  note b = BeginBlocker_Ok [OF u h(1) Cons.prems(1)]
  have "\<forall>ident e. epochs_of u ident = Some e \<longrightarrow> epoch_sane e"
    using Cons.prems epoch_sane_next b(2) by fastforce
  then obtain t where t: "for_each (BeginBlocker k) ctxs u = (Ok (), t)"
    "\<forall>ident. epochs_of t ident = map_option (fold epoch_next ctxs) (epochs_of u ident)"
    using Cons.IH [OF b(3)] Cons.prems(3) by auto
  then show ?case
    using u b(2) by (auto simp: bnd_def option.map_comp comp_def)
qed

text \<open>Each block either finds the epoch up to date or moves it by one duration.\<close>

lemma fold_next_progress:
  assumes "epoch_sane e" and "EpochCountingStarted e" and "StartTime e \<le> T"
    and "\<forall>ctx \<in> set ctxs. T \<le> BlockTime ctx \<and> proto_time (BlockTime ctx)"
  shows "T \<le> CurrentEpochStartTime (fold epoch_next ctxs e) + sint (Duration e) \<or>
    CurrentEpochStartTime (fold epoch_next ctxs e) = CurrentEpochStartTime e + int (length ctxs) * sint (Duration e)"
    (is "_ \<le> ?start ctxs e + _ \<or> _")
  using assms
proof (induction ctxs arbitrary: e)
  case (Cons ctx ctxs)
  let ?e = "epoch_next ctx e"
  have add: "time_Add (CurrentEpochStartTime e) (Duration e) = CurrentEpochStartTime e + sint (Duration e)"
    using Cons.prems(1) by (simp add: time_Add_exact epoch_sane_def)
  have sane: "epoch_sane ?e" using Cons.prems by (simp add: epoch_sane_next)
  have started: "EpochCountingStarted ?e"
    using Cons.prems(2) by (auto simp: epoch_next_def starts_def EndEpoch_def)
  note IH = Cons.IH [OF sane started]
  show ?case
  proof (cases "ends ctx e")
    case True
    then have "CurrentEpochStartTime ?e = CurrentEpochStartTime e + sint (Duration e)"
      using Cons.prems(2) add by (simp add: epoch_next_def starts_def EndEpoch_def)
    then show ?thesis using IH Cons.prems(3,4) by (auto simp: algebra_simps)
  next
    case False
    then have "T \<le> CurrentEpochStartTime e + sint (Duration e)" and same: "?e = e"
      using Cons.prems add by (auto simp: ends_def epoch_next_def starts_def)
    moreover have "CurrentEpochStartTime e \<le> ?start ctxs e \<or> T \<le> ?start ctxs e + sint (Duration e)"
      using IH Cons.prems(1,3,4) by (auto simp: same epoch_sane_def)
    ultimately show ?thesis by (simp add: same) linarith
  qed
qed simp

section \<open>Genesis\<close>

lemma TrimSpace_Nil [simp]: "TrimSpace [] = []"
  by (simp add: TrimSpace_def strip_while_Nil)

lemma Identifier_genesis [simp]: "Identifier (genesis_epoch ctx e) = Identifier e"
  by (simp add: genesis_epoch_def)

lemma validate_epochs_Ok:
  "validate_epochs seen es = Ok () \<Longrightarrow>
     distinct (map Identifier es) \<and> (\<forall>e \<in> set es. Identifier e \<notin> set seen \<and> EpochInfo_Validate e = Ok ())"
proof (induction es arbitrary: seen)
  case (Cons e es)
  then have "validate_epochs (Identifier e # seen) es = Ok ()" "Identifier e \<notin> set seen" "EpochInfo_Validate e = Ok ()"
    by (auto split: if_splits)
  then show ?case using Cons.IH [of "Identifier e # seen"] by (auto simp: image_iff)
qed simp

lemma for_each_SetEpochInfo:
  assumes "\<forall>e \<in> set es. cdc_marshals k e \<and> Identifier e \<noteq> []"
  shows "for_each (SetEpochInfo k) es s =
    (Ok (), s\<lparr>kown := (kown s)\<lparr>kvstore := kvs.put_all (\<lambda>e. epoch_key (Identifier e)) (\<lambda>e. e) es (kvstore (kown s))\<rparr>\<rparr>)"
  using assms
proof (induction es arbitrary: s)
  case (Cons e es)
  then have "SetEpochInfo k e s =
      (Ok (), s\<lparr>kown := (kown s)\<lparr>kvstore := kv_set (epoch_key (Identifier e)) e (kvstore (kown s))\<rparr>\<rparr>)"
    by simp
  then show ?case using Cons by (simp add: bnd_def del: SetEpochInfo_Ok_iff)
qed (simp add: ret_def)

lemma for_each_map: "for_each f (map g xs) = for_each (\<lambda>x. f (g x)) xs"
  by (induction xs) auto

lemma InitGenesis_run:
  assumes v: "Validate g = Ok ()" and m: "\<forall>e \<in> set (Epochs g). cdc_marshals k (genesis_epoch ctx e)"
    and emp: "kvstore (kown s) = []"
  obtains t where "InitGenesis k ctx g s = (Ok (), t)" "epochs_ok t" "kext t = kext s"
    "all_epochs t = sort_key Identifier (map (genesis_epoch ctx) (Epochs g))"
proof -
  let ?es = "map (genesis_epoch ctx) (Epochs g)"
  let ?m = "kvs.put_all (\<lambda>e. epoch_key (Identifier e)) (\<lambda>e. e) ?es []"
  let ?t = "s\<lparr>kown := (kown s)\<lparr>kvstore := ?m\<rparr>\<rparr>"
  have d: "distinct (map Identifier (Epochs g))" and e: "\<forall>e \<in> set (Epochs g). EpochInfo_Validate e = Ok ()"
    using validate_epochs_Ok v by (auto simp: Validate_def)
  then have ne: "\<forall>e \<in> set ?es. cdc_marshals k e \<and> Identifier e \<noteq> []"
    using m by (auto simp: EpochInfo_Validate_def split: if_splits)
  have run: "InitGenesis k ctx g s = (Ok (), ?t)"
    using for_each_SetEpochInfo [OF ne, of s] emp by (simp add: InitGenesis_def for_each_map)
  have d': "distinct (map (\<lambda>e. epoch_key (Identifier e)) ?es)"
    using d by (simp add: distinct_map inj_on_def)
  have get: "kv_get ?m key = Some e \<longleftrightarrow> e \<in> set ?es \<and> key = epoch_key (Identifier e)" for key e
    using kvs.get_put_all_Some [OF kvs.inv_emp d', where k = key and v = e and val = "\<lambda>e. e"]
      kvs.get_put_all [OF kvs.inv_emp d', of e "\<lambda>e. e"] by (auto simp: kv_get_def [of "[]"])
  have kv: "kv_ok ?m" by (rule kvs.inv_put_all [OF kvs.inv_emp])
  have ok: "epochs_ok ?t" using get ne kv by (auto simp: epochs_ok_def)
  have "set (all_epochs ?t) = set ?es"
    using all_epochs_props(1) [OF ok] get by (auto simp: epochs_of_def set_eq_iff)
  moreover have "sorted (map Identifier (all_epochs ?t)) \<and> distinct (map Identifier (all_epochs ?t))"
    using all_epochs_props(2) [OF ok] strict_sorted_iff by blast
  moreover have inj: "inj_on Identifier (set ?es)" "distinct (map Identifier ?es)"
    using d by (auto simp: distinct_map inj_on_def comp_def)
  moreover have "distinct (map Identifier (sort_key Identifier ?es))"
    using inj by (metis distinct_map distinct_sort set_sort)
  ultimately have "all_epochs ?t = sort_key Identifier ?es"
    by (intro map_sorted_distinct_set_unique [where f = Identifier]) auto
  then show thesis using run ok by (intro that [of ?t]) auto
qed

section \<open>A concrete module\<close>

text \<open>
  Hooks that record their calls, and a codec that accepts what a protobuf timestamp can
  hold. Genesis is at the first second of 1970, three days and one second later the
  first block comes.
\<close>

definition log_hooks :: "(string \<times> string \<times> int) list EpochHooks" where
  "log_hooks = \<lparr>hook_AfterEpochEnd = \<lambda>ident n. modify (\<lambda>l. l @ [(''after'', ident, sint n)]),
     hook_BeforeEpochStart = \<lambda>ident n. modify (\<lambda>l. l @ [(''before'', ident, sint n)])\<rparr>"

definition demo_keeper :: "(string \<times> string \<times> int) list Keeper" where
  "demo_keeper = \<lparr>cdc_marshals = \<lambda>e. proto_time (StartTime e) \<and> proto_time (CurrentEpochStartTime e),
     hooks = Some (MultiEpochHooks [log_hooks])\<rparr>"

definition demo_ctx :: "int \<Rightarrow> block_ctx" where
  "demo_ctx sec = \<lparr>BlockTime = sec * 10 ^ 9, BlockHeight = 7\<rparr>"

definition demo_empty :: "(string \<times> string \<times> int) list ep_state" where
  "demo_empty = \<lparr>kown = \<lparr>pspace = None, kvstore = []\<rparr>, kext = []\<rparr>"

definition demo_start :: "(string \<times> string \<times> int) list ep_state" where
  "demo_start = snd (InitGenesis demo_keeper (demo_ctx 1) DefaultGenesisState demo_empty)"

definition demo_day1 :: "(string \<times> string \<times> int) list ep_state" where
  "demo_day1 = snd (BeginBlocker demo_keeper (demo_ctx 259201) demo_start)"

definition demo_day2 :: "(string \<times> string \<times> int) list ep_state" where
  "demo_day2 = snd (BeginBlocker demo_keeper (demo_ctx 259201) demo_day1)"

definition epochs_check :: "'x ep_state \<Rightarrow> bool" where
  "epochs_check s = (kv_ok (kvstore (kown s)) \<and>
     list_all (\<lambda>(key, e). key = epoch_key (Identifier e) \<and> Identifier e \<noteq> []) (kvstore (kown s)))"

lemma kv_get_in: "kv_get m key = Some v \<Longrightarrow> (key, v) \<in> set m"
  by (simp add: kv_get_def map_of_SomeD)

lemma epochs_checkD: "epochs_check s \<Longrightarrow> epochs_ok s"
  unfolding epochs_check_def epochs_ok_def list_all_iff by (auto dest!: kv_get_in)

definition stored_all :: "(EpochInfo \<Rightarrow> bool) \<Rightarrow> 'x ep_state \<Rightarrow> bool" where
  "stored_all P s = list_all (\<lambda>(key, e). P e) (kvstore (kown s))"

lemma stored_allD: "stored_all P s \<Longrightarrow> \<forall>ident e. epochs_of s ident = Some e \<longrightarrow> P e"
  by (auto simp: stored_all_def epochs_of_def list_all_iff dest!: kv_get_in)

lemma demo_hooks: "hooks demo_keeper = Some (MultiEpochHooks [log_hooks])"
  by (simp add: demo_keeper_def)

lemma demo_hooks_total: "hooks_total (MultiEpochHooks [log_hooks])"
proof -
  have "\<exists>x'. run_call (MultiEpochHooks [log_hooks]) c x = (Ok (), x')" for c x
    by (cases c) (simp_all add: MultiEpochHooks_def log_hooks_def bnd_def modify_def ret_def)
  then show ?thesis by (simp add: hooks_total_def)
qed

lemma DefaultGenesisState_valid: "Validate DefaultGenesisState = Ok ()"
proof -
  have "TrimSpace WeekEpochID = WeekEpochID" "TrimSpace DayEpochID = DayEpochID"
    by (rule TrimSpace_visible; simp add: WeekEpochID_def DayEpochID_def visible_def)+
  then show ?thesis
    by (simp add: Validate_def DefaultGenesisState_def NewGenesisState_def default_epoch_def
        EpochInfo_Validate_def WeekEpochID_def DayEpochID_def)
qed

lemma demo_start_run:
  "InitGenesis demo_keeper (demo_ctx 1) DefaultGenesisState demo_empty = (Ok (), demo_start)"
  unfolding demo_start_def by (rule pair_Ok_snd) code_simp

lemma demo_day1_run: "BeginBlocker demo_keeper (demo_ctx 259201) demo_start = (Ok (), demo_day1)"
  unfolding demo_day1_def by (rule pair_Ok_snd) code_simp

lemma demo_day2_run: "BeginBlocker demo_keeper (demo_ctx 259201) demo_day1 = (Ok (), demo_day2)"
  unfolding demo_day2_def by (rule pair_Ok_snd) code_simp

lemma demo_checks: "epochs_check demo_start" "epochs_check demo_day1"
  by code_simp+

section \<open>Properties\<close>

text \<open>C23. BeginBlocker refines the abstract module: a block that goes through replaces every
stored epoch by its successor (started when its start time has come, advanced by one
when its end time has passed, otherwise unchanged), neither adds nor drops an epoch, and
changes the other modules exactly by the hook calls, epochs in the order of their
identifiers and for each the end of the old epoch before the start of the new one.\<close>
theorem BeginBlocker_refines:
  assumes "epochs_ok s" and "hooks k = Some h" and "BeginBlocker k ctx s = (Ok (), t)"
  shows "epochs_ok t \<and>
    (\<forall>ident. epochs_of t ident = map_option (epoch_next ctx) (epochs_of s ident)) \<and>
    sorted_wrt (<) (map Identifier (all_epochs s)) \<and>
    for_each (run_call h) (concat (map (hook_calls ctx) (all_epochs s))) (kext s) = (Ok (), kext t)"
  using BeginBlocker_Ok [OF assms(3,2,1)] all_epochs_props(2) [OF assms(1)] by blast

theorem BeginBlocker_refines_witness:
  "epochs_of demo_day2 DayEpochID =
     map_option (epoch_next (demo_ctx 259201)) (epochs_of demo_day1 DayEpochID) \<and>
   kext demo_day2 = [(''before'', ''day'', 1), (''before'', ''week'', 1), (''after'', ''day'', 2), (''before'', ''day'', 2)]"
proof
  show "epochs_of demo_day2 DayEpochID =
      map_option (epoch_next (demo_ctx 259201)) (epochs_of demo_day1 DayEpochID)"
    using BeginBlocker_refines [OF epochs_checkD [OF demo_checks(2)] demo_hooks demo_day2_run] by blast
  show "kext demo_day2 =
      [(''before'', ''day'', 1), (''before'', ''week'', 1), (''after'', ''day'', 2), (''before'', ''day'', 2)]"
    by code_simp
qed

text \<open>C24. Epochs stay on schedule: over any history of blocks with non-decreasing times,
whatever the other modules do in between, every running epoch with number n started
exactly n - 1 durations after its start time, never in the future of the last block, and
its start time and duration are the ones it was created with. The codec is only assumed
to refuse instants outside the years 1 to 9999.\<close>
theorem epochs_on_schedule:
  assumes "epoch_history k T0 s T t" and "hooks k = Some h" and "epochs_ok s"
    and "\<And>e. cdc_marshals k e \<Longrightarrow> proto_time (CurrentEpochStartTime e)"
    and "\<forall>ident e. epochs_of s ident = Some e \<longrightarrow> on_schedule T0 e"
    and "epochs_of t ident = Some e'"
  shows "on_schedule T e' \<and>
    (\<exists>e. epochs_of s ident = Some e \<and> StartTime e' = StartTime e \<and> Duration e' = Duration e)"
  using history_keeps [OF assms(1-5)] assms(6) by blast

theorem epochs_on_schedule_witness:
  "\<exists>e. epochs_of demo_day2 DayEpochID = Some e \<and> CurrentEpoch e = 2 \<and> on_schedule (259201 * 10 ^ 9) e"
proof -
  have "stored_all (\<lambda>e. proto_time (StartTime e) \<and> proto_time (CurrentEpochStartTime e) \<and> \<not> EpochCountingStarted e) demo_start"
    by code_simp
  then have sch: "\<forall>ident e. epochs_of demo_start ident = Some e \<longrightarrow> on_schedule (10 ^ 9) e"
    unfolding on_schedule_def using stored_allD by fast
  have "epoch_history demo_keeper (10 ^ 9) demo_start (BlockTime (demo_ctx 259201)) demo_day1"
    by (rule epoch_history.block [OF epoch_history.start _ demo_day1_run]) (simp add: demo_ctx_def)
  then have hist: "epoch_history demo_keeper (10 ^ 9) demo_start (BlockTime (demo_ctx 259201)) demo_day2"
    by (rule epoch_history.block [OF _ _ demo_day2_run]) simp
  have e: "map_option CurrentEpoch (epochs_of demo_day2 DayEpochID) = Some 2" by code_simp
  then obtain e where e: "epochs_of demo_day2 DayEpochID = Some e" "CurrentEpoch e = 2" by auto
  have "cdc_marshals demo_keeper e' \<Longrightarrow> proto_time (CurrentEpochStartTime e')" for e'
    by (simp add: demo_keeper_def)
  from epochs_on_schedule [OF hist demo_hooks epochs_checkD [OF demo_checks(1)] this sch e(1)]
  show ?thesis using e by (simp add: demo_ctx_def)
qed

text \<open>C25. A late epoch catches up: when the hooks do not fail and the codec accepts sane epochs,
n blocks at or after an instant T all go through, and a running epoch that was at most n
durations behind T is no longer behind: its current period reaches T.\<close>
theorem late_epoch_catches_up:
  assumes "hooks k = Some h" and "hooks_total h" and "\<And>e. epoch_sane e \<Longrightarrow> cdc_marshals k e"
    and "epochs_ok s" and "\<forall>ident e. epochs_of s ident = Some e \<longrightarrow> epoch_sane e"
    and "\<forall>ctx \<in> set ctxs. T \<le> BlockTime ctx \<and> proto_time (BlockTime ctx)"
    and "epochs_of s ident = Some e" and "EpochCountingStarted e" and "StartTime e \<le> T"
    and "T \<le> CurrentEpochStartTime e + (1 + int (length ctxs)) * sint (Duration e)"
  shows "\<exists>t e'. for_each (BeginBlocker k) ctxs s = (Ok (), t) \<and> epochs_of t ident = Some e' \<and>
    T \<le> CurrentEpochStartTime e' + sint (Duration e)"
proof -
  obtain t where t: "for_each (BeginBlocker k) ctxs s = (Ok (), t)"
    "epochs_of t ident = map_option (fold epoch_next ctxs) (epochs_of s ident)"
    using blocks_run [OF assms(1-5), of ctxs] assms(6) by blast
  have "T \<le> CurrentEpochStartTime (fold epoch_next ctxs e) + sint (Duration e)"
    using fold_next_progress [of e T ctxs] assms(5-10) by (auto simp: algebra_simps)
  then show ?thesis using t assms(7) by auto
qed

theorem late_epoch_catches_up_witness:
  "\<exists>t e'. for_each (BeginBlocker demo_keeper) (replicate 2 (demo_ctx 259201)) demo_day1 = (Ok (), t) \<and>
     epochs_of t DayEpochID = Some e' \<and> 259201 * 10 ^ 9 \<le> CurrentEpochStartTime e' + 86400 * 10 ^ 9"
proof -
  have sane: "\<forall>ident e. epochs_of demo_day1 ident = Some e \<longrightarrow> epoch_sane e"
    by (rule stored_allD) code_simp
  have codec: "epoch_sane e \<Longrightarrow> cdc_marshals demo_keeper e" for e
    by (simp add: demo_keeper_def epoch_sane_def)
  have "map_option (\<lambda>e. EpochCountingStarted e \<and> StartTime e = 10 ^ 9 \<and> CurrentEpochStartTime e = 10 ^ 9 \<and>
      sint (Duration e) = 86400 * 10 ^ 9) (epochs_of demo_day1 DayEpochID) = Some True"
    by code_simp
  then obtain e where e: "epochs_of demo_day1 DayEpochID = Some e" "EpochCountingStarted e"
    "StartTime e = 10 ^ 9" "CurrentEpochStartTime e = 10 ^ 9" "sint (Duration e) = 86400 * 10 ^ 9"
    by auto
  have "\<forall>ctx \<in> set (replicate 2 (demo_ctx 259201)). 259201 * 10 ^ 9 \<le> BlockTime ctx \<and> proto_time (BlockTime ctx)"
    by (simp add: demo_ctx_def proto_time_def zero_time_def)
  from late_epoch_catches_up [OF demo_hooks demo_hooks_total codec epochs_checkD [OF demo_checks(2)] sane this e(1,2)]
  show ?thesis using e by simp
qed

text \<open>Genesis: a validated genesis state whose epochs the codec accepts is imported into an
empty store without failing, and exporting right away returns the same epochs, ordered
by identifier, with unset start times replaced by the genesis time and the heights by
the genesis height.\<close>
theorem epochs_genesis_round_trip:
  assumes "Validate g = Ok ()" and "kvstore (kown s) = []"
    and "\<forall>e \<in> set (Epochs g). cdc_marshals k (genesis_epoch ctx e)"
  shows "\<exists>t. InitGenesis k ctx g s = (Ok (), t) \<and> epochs_ok t \<and>
    ExportGenesis t = (Ok \<lparr>Epochs = sort_key Identifier (map (genesis_epoch ctx) (Epochs g))\<rparr>, t)"
proof -
  obtain t where "InitGenesis k ctx g s = (Ok (), t)" "epochs_ok t"
    "all_epochs t = sort_key Identifier (map (genesis_epoch ctx) (Epochs g))"
    using InitGenesis_run [OF assms(1,3,2)] by blast
  then show ?thesis by (auto simp: ExportGenesis_def AllEpochInfos_def all_epochs_def)
qed

theorem epochs_genesis_round_trip_witness:
  "ExportGenesis demo_start =
     (Ok \<lparr>Epochs = sort_key Identifier (map (genesis_epoch (demo_ctx 1)) (Epochs DefaultGenesisState))\<rparr>, demo_start)"
proof -
  have "Validate DefaultGenesisState = Ok ()" by (rule DefaultGenesisState_valid)
  moreover have "kvstore (kown demo_empty) = []" by (simp add: demo_empty_def)
  moreover have "list_all (\<lambda>e. cdc_marshals demo_keeper (genesis_epoch (demo_ctx 1) e)) (Epochs DefaultGenesisState)"
    by code_simp
  ultimately show ?thesis
    using epochs_genesis_round_trip [of DefaultGenesisState demo_empty demo_keeper "demo_ctx 1"] demo_start_run
    by (simp add: list_all_iff)
qed

end
