(* ===== verification/Inflation.thy ===== *)
theory Inflation
  imports Bank Modstore Epochs
begin

text \<open>
  The module x/inflation: at the end of every epoch of its identifier it mints the epoch
  provision, sends the staking share to the fee collector and the rest to the community
  pool, and after enough minting epochs moves to the next period with a smaller
  provision. The theory holds types, keeper, hooks, message server, genesis, migration
  and queries. Values of the store carry their type, as in \<open>Modstore\<close>.
\<close>

section \<open>types\<close>

definition ModuleName :: string where
  "ModuleName = ''inflation''"

record InflationDistribution =
  StakingRewards :: int
  CommunityPool :: int

record ExponentialCalculation =
  A :: int
  R :: int
  C :: int
  BondingTarget :: int
  MaxVariance :: int

record Params =
  MintDenom :: string
  ExpCalculation :: ExponentialCalculation
  Distribution :: InflationDistribution
  EnableInflation :: bool

record GenesisState =
  gs_Params :: Params
  gs_Period :: u64
  gs_EpochIdentifier :: string
  gs_EpochsPerPeriod :: i64
  gs_SkippedEpochs :: u64

definition KeyPrefixPeriod :: bytes where
  "KeyPrefixPeriod = [char_of (1 :: int)]"

definition KeyPrefixEpochMintProvision :: bytes where
  "KeyPrefixEpochMintProvision = [char_of (2 :: int)]"

definition KeyPrefixEpochIdentifier :: bytes where
  "KeyPrefixEpochIdentifier = [char_of (3 :: int)]"

definition KeyPrefixEpochsPerPeriod :: bytes where
  "KeyPrefixEpochsPerPeriod = [char_of (4 :: int)]"

definition KeyPrefixSkippedEpochs :: bytes where
  "KeyPrefixSkippedEpochs = [char_of (5 :: int)]"

definition NewParams :: "string \<Rightarrow> ExponentialCalculation \<Rightarrow> InflationDistribution \<Rightarrow> bool \<Rightarrow> Params" where
  "NewParams mintDenom exponentialCalculation inflationDistribution enableInflation =
     \<lparr>MintDenom = mintDenom, ExpCalculation = exponentialCalculation,
      Distribution = inflationDistribution, EnableInflation = enableInflation\<rparr>"

definition default_exponential :: ExponentialCalculation where
  "default_exponential = \<lparr>A = LegacyNewDecFromInt 16304348, R = LegacyNewDecWithPrec 35 2, C = 0,
     BondingTarget = LegacyNewDecWithPrec 80 2, MaxVariance = 0\<rparr>"

definition DefaultParams :: Params where
  "DefaultParams = \<lparr>MintDenom = ''atuc'', ExpCalculation = default_exponential,
     Distribution = \<lparr>StakingRewards = LegacyNewDecWithPrec 1000000000 9, CommunityPool = 0\<rparr>,
     EnableInflation = False\<rparr>"

definition validateMintDenom :: "sdk_lib \<Rightarrow> string \<Rightarrow> unit res" where
  "validateMintDenom L v =
     (if TrimSpace v = '''' then Err (PlainErr ''mint denom cannot be blank'') else ValidateDenom L v)"

definition validateExponentialCalculation :: "ExponentialCalculation \<Rightarrow> unit res" where
  "validateExponentialCalculation v =
     (if A v < 0 then Err (PlainErr ''initial value cannot be negative'')
      else if dec_one < R v then Err (PlainErr ''reduction factor cannot be greater than 1'')
      else if R v < 0 then Err (PlainErr ''reduction factor cannot be negative'')
      else if C v < 0 then Err (PlainErr ''long term inflation cannot be negative'')
      else if dec_one < BondingTarget v then Err (PlainErr ''bonded target cannot be greater than 1'')
      else if \<not> 0 < BondingTarget v then Err (PlainErr ''bonded target cannot be zero or negative'')
      else if MaxVariance v < 0 then Err (PlainErr ''max variance cannot be negative'')
      else Ok ())"

definition validateInflationDistribution :: "sdk_lib \<Rightarrow> InflationDistribution \<Rightarrow> unit res" where
  "validateInflationDistribution L v =
     (if StakingRewards v < 0 then Err (PlainErr ''staking distribution ratio must not be negative'')
      else if CommunityPool v < 0 then Err (PlainErr ''community pool distribution ratio must not be negative'')
      else rbind (DecAdd L (StakingRewards v) (CommunityPool v)) (\<lambda>totalProportions.
        if totalProportions \<noteq> dec_one then Err (PlainErr ''total distributions ratio should be 1'') else Ok ()))"

definition validateBool :: "bool \<Rightarrow> unit res" where
  "validateBool i = Ok ()"

definition Params_Validate :: "sdk_lib \<Rightarrow> Params \<Rightarrow> unit res" where
  "Params_Validate L p =
     rbind (validateMintDenom L (MintDenom p)) (\<lambda>_.
     rbind (validateExponentialCalculation (ExpCalculation p)) (\<lambda>_.
     rbind (validateInflationDistribution L (Distribution p)) (\<lambda>_.
     validateBool (EnableInflation p))))"

text \<open>What SetParamSet checks of each pair before writing it.\<close>

definition ParamSetPairs :: "sdk_lib \<Rightarrow> Params \<Rightarrow> unit res list" where
  "ParamSetPairs L p =
     [validateMintDenom L (MintDenom p), validateExponentialCalculation (ExpCalculation p),
      validateInflationDistribution L (Distribution p), validateBool (EnableInflation p)]"

definition NewGenesisState :: "Params \<Rightarrow> u64 \<Rightarrow> string \<Rightarrow> i64 \<Rightarrow> u64 \<Rightarrow> GenesisState" where
  "NewGenesisState params period epochIdentifier epochsPerPeriod skippedEpochs =
     \<lparr>gs_Params = params, gs_Period = period, gs_EpochIdentifier = epochIdentifier,
      gs_EpochsPerPeriod = epochsPerPeriod, gs_SkippedEpochs = skippedEpochs\<rparr>"

definition DefaultGenesisState :: GenesisState where
  "DefaultGenesisState = \<lparr>gs_Params = DefaultParams, gs_Period = 0, gs_EpochIdentifier = DayEpochID,
     gs_EpochsPerPeriod = 30, gs_SkippedEpochs = 0\<rparr>"

definition validateEpochsPerPeriod :: "i64 \<Rightarrow> unit res" where
  "validateEpochsPerPeriod v =
     (if v \<le>s 0 then Err (PlainErr ''epochs per period must be positive'') else Ok ())"

definition validateSkippedEpochs :: "u64 \<Rightarrow> unit res" where
  "validateSkippedEpochs v = Ok ()"

definition GenesisState_Validate :: "sdk_lib \<Rightarrow> GenesisState \<Rightarrow> unit res" where
  "GenesisState_Validate L gs =
     rbind (ValidateEpochIdentifierInterface (Some (gs_EpochIdentifier gs))) (\<lambda>_.
     rbind (validateEpochsPerPeriod (gs_EpochsPerPeriod gs)) (\<lambda>_.
     rbind (validateSkippedEpochs (gs_SkippedEpochs gs)) (\<lambda>_.
     Params_Validate L (gs_Params gs))))"

section \<open>inflation_calculation.go\<close>

text \<open>The power reduction is a constant of ethermint, the argument \<open>PowerReduction\<close>.\<close>

definition CalculateEpochMintProvision :: "sdk_lib \<Rightarrow> int \<Rightarrow> Params \<Rightarrow> u64 \<Rightarrow> i64 \<Rightarrow> int \<Rightarrow> int res" where
  "CalculateEpochMintProvision L PowerReduction params period epochsPerPeriod bondedRatio =
     (let x = period; a = A (ExpCalculation params); r = R (ExpCalculation params);
          c = C (ExpCalculation params); bTarget = BondingTarget (ExpCalculation params);
          maxVariance = MaxVariance (ExpCalculation params)
      in rbind (DecSub L dec_one r) (\<lambda>decay.
         rbind (DecPower L decay x) (\<lambda>power.
         rbind (DecMul L a power) (\<lambda>reduced.
         rbind (DecAdd L reduced c) (\<lambda>exponentialDecay.
         let bondedRatio1 = (if bTarget \<le> bondedRatio then bTarget else bondedRatio) in
         rbind (DecQuo L maxVariance bTarget) (\<lambda>slope.
         rbind (DecMul L bondedRatio1 slope) (\<lambda>sub.
         rbind (DecAdd L dec_one maxVariance) (\<lambda>most.
         rbind (DecSub L most sub) (\<lambda>bondingIncentive.
         rbind (DecMul L exponentialDecay bondingIncentive) (\<lambda>periodProvision.
         rbind (DecQuo L periodProvision (LegacyNewDecFromInt (sint epochsPerPeriod))) (\<lambda>epochProvision.
         DecMul L epochProvision (LegacyNewDecFromInt PowerReduction))))))))))))"

section \<open>The keeper\<close>

record 'x Keeper =
  accountKeeper :: "'x account_keeper"
  bankKeeper :: "'x bank_keeper"
  GetModuleAccount :: "string \<Rightarrow> ('x, bool) act"
  FundCommunityPool :: "coin list \<Rightarrow> bytes \<Rightarrow> ('x, unit) act"
  StakingTokenSupply :: "'x \<Rightarrow> int res"
  TotalBondedTokens :: "'x \<Rightarrow> int res"
  feeCollectorName :: string
  authority :: string
  PowerReduction :: int

datatype inf_value = U64Val u64 | StringVal string | DecVal int

type_synonym 'x inf_state = "(Params, inf_value, 'x) mstate"

definition GetAuthority :: "'x Keeper \<Rightarrow> string" where
  "GetAuthority k = authority k"

definition GetParams :: "('x inf_state, Params) act" where
  "GetParams = param_get"

definition SetParams :: "sdk_lib \<Rightarrow> Params \<Rightarrow> ('x inf_state, unit) act" where
  "SetParams L params =
     (if list_all (\<lambda>r. r = Ok ()) (ParamSetPairs L params) then param_set params else panic ''invalid parameter'')"

definition get_u64 :: "bytes \<Rightarrow> ('x inf_state, u64) act" where
  "get_u64 key =
     bnd (store_get key) (\<lambda>bz.
       case bz of None \<Rightarrow> ret 0 | Some (U64Val n) \<Rightarrow> ret n | Some v \<Rightarrow> panic ''unmarshal'')"

definition GetPeriod :: "('x inf_state, u64) act" where
  "GetPeriod = get_u64 KeyPrefixPeriod"

definition SetPeriod :: "u64 \<Rightarrow> ('x inf_state, unit) act" where
  "SetPeriod period = store_set KeyPrefixPeriod (U64Val period)"

definition GetEpochIdentifier :: "('x inf_state, string) act" where
  "GetEpochIdentifier =
     bnd (store_get KeyPrefixEpochIdentifier) (\<lambda>bz.
       case bz of None \<Rightarrow> ret '''' | Some (StringVal v) \<Rightarrow> ret v | Some v \<Rightarrow> panic ''unmarshal'')"

definition SetEpochIdentifier :: "string \<Rightarrow> ('x inf_state, unit) act" where
  "SetEpochIdentifier epochIdentifier = store_set KeyPrefixEpochIdentifier (StringVal epochIdentifier)"

definition GetEpochsPerPeriod :: "('x inf_state, i64) act" where
  "GetEpochsPerPeriod = get_u64 KeyPrefixEpochsPerPeriod"

definition SetEpochsPerPeriod :: "i64 \<Rightarrow> ('x inf_state, unit) act" where
  "SetEpochsPerPeriod epochsPerPeriod = store_set KeyPrefixEpochsPerPeriod (U64Val epochsPerPeriod)"

definition GetSkippedEpochs :: "('x inf_state, u64) act" where
  "GetSkippedEpochs = get_u64 KeyPrefixSkippedEpochs"

definition SetSkippedEpochs :: "u64 \<Rightarrow> ('x inf_state, unit) act" where
  "SetSkippedEpochs skippedEpochs = store_set KeyPrefixSkippedEpochs (U64Val skippedEpochs)"

definition GetEpochMintProvision :: "('x inf_state, int option) act" where
  "GetEpochMintProvision =
     bnd (store_get KeyPrefixEpochMintProvision) (\<lambda>bz.
       case bz of None \<Rightarrow> ret None | Some (DecVal d) \<Rightarrow> ret (Some d) | Some v \<Rightarrow> panic ''unmarshal'')"

definition SetEpochMintProvision :: "int \<Rightarrow> ('x inf_state, unit) act" where
  "SetEpochMintProvision epochMintProvision =
     store_set KeyPrefixEpochMintProvision (DecVal epochMintProvision)"

section \<open>inflation.go\<close>

definition MintCoins_inflation :: "sdk_lib \<Rightarrow> 'x Keeper \<Rightarrow> coin \<Rightarrow> ('x inf_state, unit) act" where
  "MintCoins_inflation L k coin =
     bnd (lift (NewCoins L [coin])) (\<lambda>coins.
       if coins = [] then ret () else on_ext (MintCoins (bankKeeper k) ModuleName coins))"

definition GetProportions :: "sdk_lib \<Rightarrow> coin \<Rightarrow> int \<Rightarrow> coin res" where
  "GetProportions L coin distribution =
     rbind (DecMul L (LegacyNewDecFromInt (Amount coin)) distribution) (\<lambda>share.
     rbind (DecTruncateInt L share) (\<lambda>n.
     NewCoin L (Denom coin) n))"

definition AllocateExponentialInflation ::
    "sdk_lib \<Rightarrow> 'x Keeper \<Rightarrow> coin \<Rightarrow> ('x inf_state, coin list \<times> coin list) act" where
  "AllocateExponentialInflation L k mintedCoin =
     bnd GetParams (\<lambda>params.
     let proportions = Distribution params in
     bnd (lift (rbind (GetProportions L mintedCoin (StakingRewards proportions)) (\<lambda>c. NewCoins L [c]))) (\<lambda>staking.
     bnd (on_ext (SendCoinsFromModuleToModule (bankKeeper k) ModuleName (feeCollectorName k) staking)) (\<lambda>_.
     let moduleAddr = GetModuleAddress (accountKeeper k) ModuleName in
     bnd (gets (\<lambda>s. GetAllBalances (bankKeeper k) moduleAddr (kext s))) (\<lambda>communityPool.
     bnd (on_ext (FundCommunityPool k communityPool moduleAddr)) (\<lambda>_.
     ret (staking, communityPool))))))"

definition MintAndAllocateInflation ::
    "sdk_lib \<Rightarrow> 'x Keeper \<Rightarrow> coin \<Rightarrow> ('x inf_state, coin list \<times> coin list) act" where
  "MintAndAllocateInflation L k coin =
     bnd (MintCoins_inflation L k coin) (\<lambda>_. AllocateExponentialInflation L k coin)"

definition BondedRatio :: "sdk_lib \<Rightarrow> 'x Keeper \<Rightarrow> ('x inf_state, int) act" where
  "BondedRatio L k =
     bnd (gets kext) (\<lambda>x.
       case StakingTokenSupply k x of
         Panic p \<Rightarrow> panic p
       | Err e \<Rightarrow> ret 0
       | Ok stakeSupply \<Rightarrow>
           if \<not> 0 < stakeSupply then ret 0
           else (case TotalBondedTokens k x of
               Panic p \<Rightarrow> panic p
             | Err e \<Rightarrow> ret 0
             | Ok totalBonded \<Rightarrow> lift (DecQuoInt L (LegacyNewDecFromInt totalBonded) stakeSupply)))"

definition GetCirculatingSupply :: "'x Keeper \<Rightarrow> ('x inf_state, int) act" where
  "GetCirculatingSupply k =
     bnd GetParams (\<lambda>params.
     gets (\<lambda>s. LegacyNewDecFromInt (Amount (GetSupply (bankKeeper k) (MintDenom params) (kext s)))))"

definition GetInflationRate :: "sdk_lib \<Rightarrow> 'x Keeper \<Rightarrow> ('x inf_state, int) act" where
  "GetInflationRate L k =
     bnd GetEpochMintProvision (\<lambda>found.
     let epochMintProvision = (case found of None \<Rightarrow> 0 | Some d \<Rightarrow> d) in
     if epochMintProvision = 0 then ret 0
     else
       bnd GetEpochsPerPeriod (\<lambda>epp.
       if epp = 0 then ret 0
       else
         let epochsPerPeriod = LegacyNewDecFromInt (sint epp) in
         bnd (GetCirculatingSupply k) (\<lambda>circulatingSupply.
         if circulatingSupply = 0 then ret 0
         else lift
           (rbind (DecMul L epochMintProvision epochsPerPeriod) (\<lambda>yearly.
            rbind (DecQuo L yearly circulatingSupply) (\<lambda>ratio.
            DecMul L ratio (LegacyNewDecFromInt 100)))))))"

section \<open>hooks.go\<close>

definition BeforeEpochStart :: "string \<Rightarrow> i64 \<Rightarrow> ('x inf_state, unit) act" where
  "BeforeEpochStart epochIdentifier epochNumber = ret ()"

text \<open>The end of AfterEpochEnd: a period that has passed is closed and the provision recomputed.\<close>

definition close_period :: "sdk_lib \<Rightarrow> 'x Keeper \<Rightarrow> Params \<Rightarrow> u64 \<Rightarrow> i64 \<Rightarrow> ('x inf_state, unit) act" where
  "close_period L k params skippedEpochs epochNumber =
     bnd GetPeriod (\<lambda>period.
     bnd GetEpochsPerPeriod (\<lambda>epochsPerPeriod.
     if epochsPerPeriod <s epochNumber - epochsPerPeriod * period - skippedEpochs then
       bnd (SetPeriod (period + 1)) (\<lambda>_.
       bnd GetPeriod (\<lambda>period1.
       bnd (BondedRatio L k) (\<lambda>bondedRatio.
       bnd (lift (CalculateEpochMintProvision L (PowerReduction k) params period1 epochsPerPeriod bondedRatio))
         (\<lambda>newProvision.
       SetEpochMintProvision newProvision))))
     else ret ()))"

definition AfterEpochEnd :: "sdk_lib \<Rightarrow> 'x Keeper \<Rightarrow> string \<Rightarrow> i64 \<Rightarrow> ('x inf_state, unit) act" where
  "AfterEpochEnd L k epochIdentifier epochNumber =
     bnd GetParams (\<lambda>params.
     bnd GetSkippedEpochs (\<lambda>skippedEpochs.
     if \<not> EnableInflation params then
       (if epochIdentifier \<noteq> DayEpochID then ret () else SetSkippedEpochs (skippedEpochs + 1))
     else
       bnd GetEpochIdentifier (\<lambda>expEpochID.
       if epochIdentifier \<noteq> expEpochID then ret ()
       else
         bnd GetEpochMintProvision (\<lambda>found.
         case found of None \<Rightarrow> panic ''the epochMintProvision was not found''
         | Some epochMintProvision \<Rightarrow>
             bnd (lift (rbind (DecTruncateInt L epochMintProvision) (NewCoin L (MintDenom params)))) (\<lambda>mintedCoin.
             bnd (attempt (MintAndAllocateInflation L k mintedCoin)) (\<lambda>allocated.
             case allocated of Inl e \<Rightarrow> panic ''MintAndAllocateInflation''
             | Inr shares \<Rightarrow> close_period L k params skippedEpochs epochNumber))))))"

text \<open>The keeper as hooks of x/epochs, on a state that holds the inflation module.\<close>

definition Hooks :: "sdk_lib \<Rightarrow> 'x Keeper \<Rightarrow> 'x inf_state EpochHooks" where
  "Hooks L k = \<lparr>hook_AfterEpochEnd = AfterEpochEnd L k, hook_BeforeEpochStart = BeforeEpochStart\<rparr>"

section \<open>Message server, genesis and migration\<close>

record MsgUpdateParams =
  Authority :: string
  NewParameters :: Params

definition ErrInvalidSigner :: err where
  "ErrInvalidSigner = SdkErr ''gov.ErrInvalidSigner''"

definition msg_UpdateParams :: "sdk_lib \<Rightarrow> 'x Keeper \<Rightarrow> MsgUpdateParams \<Rightarrow> ('x inf_state, unit) act" where
  "msg_UpdateParams L k req =
     (if GetAuthority k \<noteq> Authority req then raise ErrInvalidSigner
      else
        bnd (lift (Params_Validate L (NewParameters req))) (\<lambda>_.
        SetParams L (NewParameters req)))"

definition InitGenesis :: "sdk_lib \<Rightarrow> 'x Keeper \<Rightarrow> GenesisState \<Rightarrow> ('x inf_state, unit) act" where
  "InitGenesis L k data =
     bnd (on_ext (GetModuleAccount k ModuleName)) (\<lambda>acc.
     if \<not> acc then panic ''the inflation module account has not been set''
     else
       let params = gs_Params data; period = gs_Period data; epochsPerPeriod = gs_EpochsPerPeriod data in
       bnd (SetParams L params) (\<lambda>_.
       bnd (SetPeriod period) (\<lambda>_.
       bnd (SetEpochIdentifier (gs_EpochIdentifier data)) (\<lambda>_.
       bnd (SetEpochsPerPeriod epochsPerPeriod) (\<lambda>_.
       bnd (SetSkippedEpochs (gs_SkippedEpochs data)) (\<lambda>_.
       bnd (BondedRatio L k) (\<lambda>bondedRatio.
       bnd (lift (CalculateEpochMintProvision L (PowerReduction k) params period epochsPerPeriod bondedRatio))
         (\<lambda>epochMintProvision.
       SetEpochMintProvision epochMintProvision))))))))"

definition ExportGenesis :: "('x inf_state, GenesisState) act" where
  "ExportGenesis =
     bnd GetParams (\<lambda>params.
     bnd GetPeriod (\<lambda>period.
     bnd GetEpochIdentifier (\<lambda>epochIdentifier.
     bnd GetEpochsPerPeriod (\<lambda>epochsPerPeriod.
     bnd GetSkippedEpochs (\<lambda>skippedEpochs.
     ret \<lparr>gs_Params = params, gs_Period = period, gs_EpochIdentifier = epochIdentifier,
          gs_EpochsPerPeriod = epochsPerPeriod, gs_SkippedEpochs = skippedEpochs\<rparr>)))))"

text \<open>migrations/v2, called by Migrate1to2.\<close>

definition UpdateParams_v2 :: "sdk_lib \<Rightarrow> 'x Keeper \<Rightarrow> ('x inf_state, unit) act" where
  "UpdateParams_v2 L k =
     bnd GetParams (\<lambda>params0.
     let params = params0\<lparr>ExpCalculation := default_exponential\<rparr> in
     bnd (SetParams L params) (\<lambda>_.
     bnd (SetEpochsPerPeriod 30) (\<lambda>_.
     bnd (lift (CalculateEpochMintProvision L (PowerReduction k) params 0 30 (LegacyNewDecFromInt 1)))
       (\<lambda>epochMintProvision.
     SetEpochMintProvision epochMintProvision))))"

section \<open>Queries\<close>

text \<open>A DecCoin is the SDK's; its constructor, which may panic, is an argument.\<close>

definition EpochMintProvision_query :: "(string \<Rightarrow> int \<Rightarrow> 'dc res) \<Rightarrow> ('x inf_state, 'dc) act" where
  "EpochMintProvision_query NewDecCoinFromDec =
     bnd GetEpochMintProvision (\<lambda>found.
     case found of None \<Rightarrow> raise status_NotFound
     | Some epochMintProvision \<Rightarrow>
         bnd GetParams (\<lambda>params. lift (NewDecCoinFromDec (MintDenom params) epochMintProvision)))"

definition CirculatingSupply_query ::
    "'x Keeper \<Rightarrow> (string \<Rightarrow> int \<Rightarrow> 'dc res) \<Rightarrow> ('x inf_state, 'dc) act" where
  "CirculatingSupply_query k NewDecCoinFromDec =
     bnd (GetCirculatingSupply k) (\<lambda>circulatingSupply.
     bnd GetParams (\<lambda>params. lift (NewDecCoinFromDec (MintDenom params) circulatingSupply)))"

definition Period_query :: "('x inf_state, u64) act" where
  "Period_query = GetPeriod"

definition SkippedEpochs_query :: "('x inf_state, u64) act" where
  "SkippedEpochs_query = GetSkippedEpochs"

definition InflationRate_query :: "sdk_lib \<Rightarrow> 'x Keeper \<Rightarrow> ('x inf_state, int) act" where
  "InflationRate_query L k = GetInflationRate L k"

definition Params_query :: "('x inf_state, Params) act" where
  "Params_query = GetParams"

end
