(* ===== verification/Inflation_Props.thy ===== *)
theory Inflation_Props
  imports Complex_Main Inflation Epochs_Props Ledger
begin

text \<open>
  What x/inflation guarantees: how much is minted and where it goes, that the period is
  the number of minting epochs divided by the epochs per period, that the epoch
  provision is the documented formula up to rounding, and that a switched-off module only counts.
\<close>

section \<open>Reading the store\<close>

abbreviation inf_get :: "'x inf_state \<Rightarrow> bytes \<Rightarrow> inf_value option" where
  "inf_get s \<equiv> kv_get (kvstore (kown s))"

definition u64_at :: "bytes \<Rightarrow> 'x inf_state \<Rightarrow> u64" where
  "u64_at key s = (case inf_get s key of Some (U64Val n) \<Rightarrow> n | _ \<Rightarrow> 0)"

definition string_at :: "bytes \<Rightarrow> 'x inf_state \<Rightarrow> string" where
  "string_at key s = (case inf_get s key of Some (StringVal v) \<Rightarrow> v | _ \<Rightarrow> [])"

lemma inf_keys_distinct [simp]:
  "KeyPrefixPeriod \<noteq> KeyPrefixEpochMintProvision" "KeyPrefixEpochMintProvision \<noteq> KeyPrefixPeriod"
  "KeyPrefixPeriod \<noteq> KeyPrefixEpochIdentifier" "KeyPrefixEpochIdentifier \<noteq> KeyPrefixPeriod"
  "KeyPrefixPeriod \<noteq> KeyPrefixEpochsPerPeriod" "KeyPrefixEpochsPerPeriod \<noteq> KeyPrefixPeriod"
  "KeyPrefixPeriod \<noteq> KeyPrefixSkippedEpochs" "KeyPrefixSkippedEpochs \<noteq> KeyPrefixPeriod"
  "KeyPrefixEpochMintProvision \<noteq> KeyPrefixEpochIdentifier" "KeyPrefixEpochIdentifier \<noteq> KeyPrefixEpochMintProvision"
  "KeyPrefixEpochMintProvision \<noteq> KeyPrefixEpochsPerPeriod" "KeyPrefixEpochsPerPeriod \<noteq> KeyPrefixEpochMintProvision"
  "KeyPrefixEpochMintProvision \<noteq> KeyPrefixSkippedEpochs" "KeyPrefixSkippedEpochs \<noteq> KeyPrefixEpochMintProvision"
  "KeyPrefixEpochIdentifier \<noteq> KeyPrefixEpochsPerPeriod" "KeyPrefixEpochsPerPeriod \<noteq> KeyPrefixEpochIdentifier"
  "KeyPrefixEpochIdentifier \<noteq> KeyPrefixSkippedEpochs" "KeyPrefixSkippedEpochs \<noteq> KeyPrefixEpochIdentifier"
  "KeyPrefixEpochsPerPeriod \<noteq> KeyPrefixSkippedEpochs" "KeyPrefixSkippedEpochs \<noteq> KeyPrefixEpochsPerPeriod"
  by (simp_all add: KeyPrefixPeriod_def KeyPrefixEpochMintProvision_def KeyPrefixEpochIdentifier_def
      KeyPrefixEpochsPerPeriod_def KeyPrefixSkippedEpochs_def)




lemmas get_defs = GetParams_def GetPeriod_def GetEpochsPerPeriod_def GetSkippedEpochs_def
lemmas set_defs = SetPeriod_def SetSkippedEpochs_def SetEpochMintProvision_def SetEpochIdentifier_def
  SetEpochsPerPeriod_def


text \<open>Actions that read only.\<close>

lemma BondedRatio_Ok: "BondedRatio L k s = (Ok b, t) \<Longrightarrow> t = s"
  by (auto simp: BondedRatio_def split: res.splits if_splits)


section \<open>Minting\<close>


section \<open>The hook\<close>





section \<open>Periods\<close>











section \<open>The epoch provision\<close>

text \<open>The number a decimal stands for, and the yearly formula with the bonded ratio capped at its target.\<close>

definition dec_val :: "int \<Rightarrow> real" where
  "dec_val n = real_of_int n / 10 ^ 18"

definition period_formula :: "ExponentialCalculation \<Rightarrow> nat \<Rightarrow> int \<Rightarrow> real" where
  "period_formula ec x b = (dec_val (A ec) * (1 - dec_val (R ec)) ^ x + dec_val (C ec)) *
     (1 + dec_val (MaxVariance ec) - min (dec_val b) (dec_val (BondingTarget ec)) * (dec_val (MaxVariance ec) / dec_val (BondingTarget ec)))"

text \<open>What one unit \<open>u\<close> in the last digit per operation amounts to in the end.\<close>

lemma product_error:
  fixes d i u :: real
  assumes "\<bar>d' - d\<bar> \<le> h" and "\<bar>i' - i\<bar> \<le> 3 * u / 2" and "0 \<le> d" "d \<le> n" and "0 \<le> i" "i \<le> 1 + m" and "0 \<le> u" "u \<le> 1 / 2"
  shows "\<bar>d' * i' - d * i\<bar> \<le> h * (2 + m) + n * (3 * u / 2)"
proof -
  have h: "0 \<le> h" using assms(1) by linarith
  have "\<bar>d' - d\<bar> * i \<le> h * (1 + m)" using assms h by (intro mult_mono) auto
  moreover have "d * \<bar>i' - i\<bar> \<le> n * (3 * u / 2)" using assms by (intro mult_mono) auto
  moreover have "\<bar>d' - d\<bar> * \<bar>i' - i\<bar> \<le> h * 1" using assms h by (intro mult_mono) auto
  moreover have "\<bar>d' * i' - d * i\<bar> \<le> \<bar>d' - d\<bar> * i + d * \<bar>i' - i\<bar> + \<bar>d' - d\<bar> * \<bar>i' - i\<bar>"
  proof -
    have "d' * i' - d * i = (d' - d) * i + d * (i' - i) + (d' - d) * (i' - i)" by (simp add: algebra_simps)
    then show ?thesis
      using abs_triangle_ineq [of "(d' - d) * i + d * (i' - i)" "(d' - d) * (i' - i)"]
        abs_triangle_ineq [of "(d' - d) * i" "d * (i' - i)"] assms(3,5) by (simp add: abs_mult)
  qed
  ultimately show ?thesis by (simp add: algebra_simps)
qed

lemma scaled_error:
  fixes y f u g :: real
  assumes "\<bar>y - f\<bar> \<le> 1 / u * g" and "0 \<le> (n :: int)"
  shows "\<bar>y * n - f * n\<bar> \<le> n / u * g"
proof -
  have "\<bar>y - f\<bar> * n \<le> 1 / u * g * n" using assms by (intro mult_right_mono) auto
  moreover have "\<bar>y * n - f * n\<bar> = \<bar>y - f\<bar> * n" using assms(2) by (simp add: abs_mult flip: left_diff_distrib)
  ultimately show ?thesis by (simp add: field_simps)
qed

lemma provision_error:
  fixes a c m t b p u e :: real
  assumes nn: "0 \<le> a" "0 \<le> c" "0 \<le> m" "0 < t" "t \<le> 1" "0 \<le> b" "b \<le> t" "0 \<le> p" "p \<le> 1" "0 \<le> u" "u \<le> 1 / 2" "0 < e"
    and power: "\<bar>p' - p\<bar> \<le> k * u / 2" and reduced: "\<bar>q - a * p'\<bar> \<le> u / 2" and slope: "\<bar>s - m / t\<bar> \<le> u"
    and taken: "\<bar>v - b * s\<bar> \<le> u / 2" and period: "\<bar>pp - (q + c) * (1 + m - v)\<bar> \<le> u / 2" and epoch: "\<bar>ep - pp / e\<bar> \<le> u"
  shows "\<bar>ep - (a * p + c) * (1 + m - b * (m / t)) / e\<bar> \<le> u * (1 + (1 + (1 + a * k) * (2 + m) + 3 * (a + c)) / (2 * e))"
proof -
  let ?d = "a * p + c" and ?i = "1 + m - b * (m / t)"
  have "a * \<bar>p' - p\<bar> \<le> a * (k * u / 2)" using nn(1) power by (intro mult_left_mono)
  then have "\<bar>a * p' - a * p\<bar> \<le> a * k * u / 2" using nn(1) by (simp add: abs_mult flip: right_diff_distrib)
  moreover have "(1 + a * k) * u / 2 = u / 2 + a * k * u / 2" by (simp add: field_simps)
  ultimately have D: "\<bar>(q + c) - ?d\<bar> \<le> (1 + a * k) * u / 2" using reduced by linarith
  have "b * \<bar>s - m / t\<bar> \<le> 1 * u" using nn slope by (intro mult_mono) auto
  then have "\<bar>b * s - b * (m / t)\<bar> \<le> u" using nn(6) by (simp only: abs_mult abs_of_nonneg flip: right_diff_distrib)
  then have I: "\<bar>(1 + m - v) - ?i\<bar> \<le> 3 * u / 2" using taken by linarith
  have "b * (m / t) \<le> t * (m / t)" using nn by (intro mult_right_mono) auto
  then have Ix: "0 \<le> ?i" "?i \<le> 1 + m" using nn by auto
  have "a * p \<le> a * 1" using nn by (intro mult_left_mono) auto
  then have Dx: "0 \<le> ?d" "?d \<le> a + c" using nn by auto
  have "u / 2 * (1 + (1 + a * k) * (2 + m) + 3 * (a + c)) =
      u / 2 + ((1 + a * k) * u / 2 * (2 + m) + (a + c) * (3 * u / 2))" by (simp add: field_simps)
  then have "\<bar>pp - ?d * ?i\<bar> \<le> u / 2 * (1 + (1 + a * k) * (2 + m) + 3 * (a + c))"
    using product_error [OF D I Dx Ix nn(10,11)] period by linarith
  then have "\<bar>pp - ?d * ?i\<bar> / e \<le> u / 2 * (1 + (1 + a * k) * (2 + m) + 3 * (a + c)) / e"
    using nn(12) by (intro divide_right_mono) auto
  then have "\<bar>pp / e - ?d * ?i / e\<bar> \<le> u / 2 * (1 + (1 + a * k) * (2 + m) + 3 * (a + c)) / e"
    using nn(12) by (simp add: abs_divide flip: diff_divide_distrib)
  then have "\<bar>ep - ?d * ?i / e\<bar> \<le> u + u / 2 * (1 + (1 + a * k) * (2 + m) + 3 * (a + c)) / e" using epoch by linarith
  also have "\<dots> = u * (1 + (1 + (1 + a * k) * (2 + m) + 3 * (a + c)) / (2 * e))" using nn(12) by (simp add: field_simps)
  finally show ?thesis .
qed

context sdk_laws
begin

lemma DecMul_integral_right: "DecMul L b (LegacyNewDecFromInt n) = Ok c \<Longrightarrow> c = b * n"
proof -
  assume "DecMul L b (LegacyNewDecFromInt n) = Ok c"
  from DecMul_ok [OF this] have "\<bar>2 * ((c - b * n) * dec_one)\<bar> \<le> dec_one"
    by (simp only: LegacyNewDecFromInt_def left_diff_distrib mult.assoc)
  then show "c = b * n" by simp
qed

text \<open>How far the operations are from those of the reals.\<close>

lemma DecMul_real:
  assumes "DecMul L a b = Ok c"
  shows "\<bar>dec_val c - dec_val a * dec_val b\<bar> \<le> 1 / 10 ^ 18 / 2"
proof -
  have "real_of_int \<bar>2 * (c * dec_one - a * b)\<bar> \<le> real_of_int dec_one" using DecMul_ok [OF assms] by (simp only: of_int_le_iff)
  then show ?thesis by (simp add: dec_val_def field_simps abs_le_iff)
qed

lemma DecQuo_real:
  assumes "DecQuo L a b = Ok c"
  shows "\<bar>dec_val c - dec_val a / dec_val b\<bar> \<le> 1 / 10 ^ 18"
proof -
  have near: "\<bar>c * b - a * dec_one\<bar> < \<bar>b\<bar>" by (rule DecQuo_ok [OF assms])
  then have b: "real_of_int b \<noteq> 0" by auto
  have "real_of_int \<bar>c * b - a * dec_one\<bar> \<le> real_of_int \<bar>b\<bar>" using near by (simp only: of_int_le_iff)
  then have "\<bar>real_of_int c * b - real_of_int a * 10 ^ 18\<bar> / \<bar>real_of_int b\<bar> \<le> 1" using b by (simp add: divide_le_eq)
  then have "\<bar>real_of_int c - real_of_int a / b * 10 ^ 18\<bar> \<le> 1" using b by (simp add: diff_divide_distrib flip: abs_divide)
  moreover have "dec_val c - dec_val a / dec_val b = (real_of_int c - real_of_int a / b * 10 ^ 18) / 10 ^ 18"
    using b by (simp add: dec_val_def field_simps)
  ultimately show ?thesis by (simp only: abs_divide) (simp add: divide_right_mono)
qed

lemma DecPower_real:
  assumes "DecPower L a e = Ok c" and "0 \<le> a" and "a \<le> dec_one"
  shows "\<bar>dec_val c - dec_val a ^ unat e\<bar> \<le> real (unat e) * (1 / 10 ^ 18) / 2"
proof -
  define d :: real where "d = 10 ^ 18"
  let ?n = "unat e"
  have d: "0 < d" "d = real_of_int dec_one" by (simp_all add: d_def)
  have "real_of_int (2 * \<bar>c * dec_one ^ ?n - a ^ ?n * dec_one\<bar>) \<le> real_of_int (int ?n * dec_one ^ ?n)"
    using DecPower_near [OF assms] by (simp only: of_int_le_iff)
  then have "2 * \<bar>real_of_int c * d ^ ?n - real_of_int a ^ ?n * d\<bar> \<le> real ?n * d ^ ?n"
    by (simp only: d(2)) simp
  then have "\<bar>real_of_int c * d ^ ?n - real_of_int a ^ ?n * d\<bar> / (d ^ ?n * d) \<le> real ?n * d ^ ?n / 2 / (d ^ ?n * d)"
    using d(1) by (intro divide_right_mono) auto
  moreover have "(real_of_int c * d ^ ?n - real_of_int a ^ ?n * d) / (d ^ ?n * d) = real_of_int c / d - (real_of_int a / d) ^ ?n"
    using d(1) by (simp add: field_simps)
  moreover have "\<bar>x\<bar> / (d ^ ?n * d) = \<bar>x / (d ^ ?n * d)\<bar>" for x using d(1) by (simp add: abs_divide)
  ultimately show ?thesis using d(1) unfolding dec_val_def d_def [symmetric] by (simp add: field_simps)
qed

lemma provision_accuracy:
  assumes v: "validateExponentialCalculation ec = Ok ()" and ec: "ec = ExpCalculation p" and b: "0 \<le> b" and e: "0 < sint e"
    and pr: "0 \<le> pr" and run: "CalculateEpochMintProvision L pr p x e b = Ok w"
  shows "\<bar>dec_val w - period_formula ec (unat x) b / sint e * pr\<bar> \<le> pr / 10 ^ 18 *
    (1 + (1 + (1 + dec_val (A ec) * unat x) * (2 + dec_val (MaxVariance ec)) + 3 * (dec_val (A ec) + dec_val (C ec))) / (2 * real_of_int (sint e)))"
proof -
  let ?t = "BondingTarget ec" and ?b = "if BondingTarget ec \<le> b then BondingTarget ec else b"
  have nn: "0 \<le> A ec" "0 \<le> R ec" "R ec \<le> dec_one" "0 \<le> C ec" "0 \<le> MaxVariance ec" "0 < ?t" "?t \<le> dec_one"
    using v by (auto simp: validateExponentialCalculation_def split: if_splits)
  obtain power reduced slope taken pp ep where
    power: "DecPower L (dec_one - R ec) x = Ok power" and reduced: "DecMul L (A ec) power = Ok reduced"
    and slope: "DecQuo L (MaxVariance ec) ?t = Ok slope" and taken: "DecMul L ?b slope = Ok taken"
    and pp: "DecMul L (reduced + C ec) (dec_one + MaxVariance ec - taken) = Ok pp"
    and ep: "DecQuo L pp (LegacyNewDecFromInt (sint e)) = Ok ep" and w: "DecMul L ep (LegacyNewDecFromInt pr) = Ok w"
    using run by (auto simp: CalculateEpochMintProvision_def ec [symmetric] Let_def dest!: DecSub_ok DecAdd_ok)
  have w: "dec_val w = dec_val ep * pr" using DecMul_integral_right [OF w] by (simp add: dec_val_def)
  have b': "dec_val ?b = min (dec_val b) (dec_val ?t)" by (auto simp: dec_val_def min_def divide_le_cancel)
  have "\<bar>dec_val ep - period_formula ec (unat x) b / sint e\<bar> \<le> 1 / 10 ^ 18 *
    (1 + (1 + (1 + dec_val (A ec) * unat x) * (2 + dec_val (MaxVariance ec)) + 3 * (dec_val (A ec) + dec_val (C ec))) / (2 * real_of_int (sint e)))"
    unfolding period_formula_def b' [symmetric]
  proof (rule provision_error)
    show "\<bar>dec_val power - (1 - dec_val (R ec)) ^ unat x\<bar> \<le> real (unat x) * (1 / 10 ^ 18) / 2"
      using DecPower_real [OF power] nn by (simp add: dec_val_def diff_divide_distrib)
    show "\<bar>dec_val pp - (dec_val reduced + dec_val (C ec)) * (1 + dec_val (MaxVariance ec) - dec_val taken)\<bar> \<le> 1 / 10 ^ 18 / 2"
      using DecMul_real [OF pp] by (simp add: dec_val_def add_divide_distrib diff_divide_distrib)
    show "\<bar>dec_val ep - dec_val pp / sint e\<bar> \<le> 1 / 10 ^ 18"
      using DecQuo_real [OF ep] by (simp add: dec_val_def LegacyNewDecFromInt_def)
    show "0 < real_of_int (sint e)" using e by (simp only: of_int_0_less_iff)
    show "(1 - dec_val (R ec)) ^ unat x \<le> 1" using nn by (intro power_le_one) (auto simp: dec_val_def)
  qed (use nn b e DecMul_real [OF reduced] DecQuo_real [OF slope] DecMul_real [OF taken] in
      \<open>auto simp: dec_val_def divide_le_cancel\<close>)
  from scaled_error [OF this pr] show ?thesis by (simp only: w)
qed

text \<open>Rounded products and quotients of non-negative decimals with bounded arguments.\<close>

lemma DecMul_range:
  assumes "0 \<le> a" "a \<le> M" "0 \<le> b" "b \<le> N" and "M * N < 2 ^ 256"
  obtains c where "DecMul L a b = Ok c" "0 \<le> c"
    "c * dec_one \<le> a * b + dec_one" "a * b \<le> c * dec_one + dec_one"
proof -
  have "a * b \<le> M * N" using assms(1-4) by (intro mult_mono) auto
  moreover have "0 \<le> a * b" using assms by simp
  ultimately have "\<bar>a * b\<bar> < 2 ^ 256" using assms(5) by simp
  then obtain c where c: "DecMul L a b = Ok c" using DecMul_total by blast
  then show thesis using that DecMul_nonneg [OF c assms(1,3)] DecMul_ok [OF c] by (auto simp: abs_le_iff)
qed

lemma DecQuo_range:
  assumes "0 \<le> a" "a \<le> M" "0 < b" and "M * dec_one < 2 ^ 256"
  obtains c where "DecQuo L a b = Ok c" "0 \<le> c" "c * b \<le> a * dec_one + b" "a * dec_one \<le> c * b + b"
proof -
  have "\<bar>a * dec_one\<bar> < 2 ^ 256" using assms by simp
  then obtain c where c: "DecQuo L a b = Ok c" using DecQuo_total [of b a] assms(3) by auto
  have near: "\<bar>c * b - a * dec_one\<bar> < b" using DecQuo_ok [OF c] assms(3) by simp
  have "0 \<le> c"
  proof (rule ccontr)
    assume "\<not> 0 \<le> c"
    then have "c * b \<le> - b" using assms(3) by (simp add: mult_le_cancel_right [of c b "- 1", simplified])
    then show False using near assms(1) by simp
  qed
  then show thesis using that c near by auto
qed

lemma DecAdd_range: "0 \<le> a \<Longrightarrow> 0 \<le> b \<Longrightarrow> a + b < 2 ^ 256 \<Longrightarrow> DecAdd L a b = Ok (a + b)"
  using DecAdd_total [of a b] DecAdd_ok [of a b] by force

lemma DecSub_range: "\<bar>a - b\<bar> < 2 ^ 256 \<Longrightarrow> DecSub L a b = Ok (a - b)"
  using DecSub_total [of a b] DecSub_ok [of a b] by force

text \<open>The decayed value lies between the long-term value and the sum of both.\<close>

lemma decay_range:
  assumes "validateExponentialCalculation ec = Ok ()" and "A ec < 2 ^ 120" and "C ec < 2 ^ 120"
  obtains power reduced where "DecSub L dec_one (R ec) = Ok (dec_one - R ec)"
    "DecPower L (dec_one - R ec) x = Ok power" "DecMul L (A ec) power = Ok reduced"
    "DecAdd L reduced (C ec) = Ok (reduced + C ec)" "0 \<le> reduced" "reduced \<le> A ec"
proof -
  have v: "0 \<le> A ec" "0 \<le> R ec" "R ec \<le> dec_one" "0 \<le> C ec"
    using assms(1) by (auto simp: validateExponentialCalculation_def split: if_splits)
  then have d: "0 \<le> dec_one - R ec" "dec_one - R ec \<le> dec_one" by auto
  obtain power where pw: "DecPower L (dec_one - R ec) x = Ok power" using DecPower_total [OF d] by blast
  then have pwr: "0 \<le> power" "power \<le> dec_one" using DecPower_unit [OF _ d] by auto
  obtain reduced where red: "DecMul L (A ec) power = Ok reduced" "0 \<le> reduced"
    using DecMul_range [of "A ec" "2 ^ 120" power dec_one] v pwr assms(2) by auto
  have "A ec * power \<le> A ec * dec_one" using v pwr by (intro mult_left_mono) auto
  then have "2 * (reduced * dec_one) \<le> 2 * (A ec * dec_one) + dec_one" using DecMul_ok [OF red(1)] by (simp add: abs_le_iff)
  then have "reduced \<le> A ec" by simp
  moreover have "DecSub L dec_one (R ec) = Ok (dec_one - R ec)" using v by (intro DecSub_range) simp
  moreover have "DecAdd L reduced (C ec) = Ok (reduced + C ec)"
    using \<open>reduced \<le> A ec\<close> red(2) v assms(2,3) by (intro DecAdd_range) auto
  ultimately show thesis using that pw red by blast
qed

text \<open>The bonding incentive lies between 1 (up to the last digit) and 1 plus the variance.\<close>

lemma incentive_range:
  assumes "validateExponentialCalculation ec = Ok ()" and "MaxVariance ec < 2 ^ 60" and "0 \<le> b"
  defines "b1 \<equiv> if BondingTarget ec \<le> b then BondingTarget ec else b"
  obtains slope sub where "DecQuo L (MaxVariance ec) (BondingTarget ec) = Ok slope" "DecMul L b1 slope = Ok sub"
    "DecAdd L dec_one (MaxVariance ec) = Ok (dec_one + MaxVariance ec)"
    "DecSub L (dec_one + MaxVariance ec) sub = Ok (dec_one + MaxVariance ec - sub)"
    "0 \<le> sub" "sub \<le> MaxVariance ec + 2"
proof -
  let ?m = "MaxVariance ec" and ?t = "BondingTarget ec"
  have v: "0 \<le> ?m" "0 < ?t" "?t \<le> dec_one"
    using assms(1) by (auto simp: validateExponentialCalculation_def split: if_splits)
  obtain slope where sl: "DecQuo L ?m ?t = Ok slope" "0 \<le> slope" "slope * ?t \<le> ?m * dec_one + ?t"
    using DecQuo_range [of ?m "2 ^ 60" ?t] v assms(2) by auto
  have b1: "0 \<le> b1" "b1 \<le> ?t" using assms(3) v by (auto simp: b1_def)
  have "slope \<le> slope * ?t" using sl(2) v(2) mult_left_mono [of 1 ?t slope] by simp
  then have "slope \<le> 2 ^ 60 * dec_one + dec_one" using sl(3) v assms(2) by simp
  then obtain sub where sub: "DecMul L b1 slope = Ok sub" "0 \<le> sub" "sub * dec_one \<le> b1 * slope + dec_one"
    using DecMul_range [of b1 dec_one slope "2 ^ 60 * dec_one + dec_one"] b1 sl(2) v by auto
  have "b1 * slope \<le> ?t * slope" using b1 sl(2) by (intro mult_right_mono) auto
  then have "sub * dec_one \<le> ?m * dec_one + 2 * dec_one" using sub(3) sl(3) v(3) by (simp add: mult.commute)
  then have le: "sub \<le> ?m + 2" by simp
  have "DecAdd L dec_one ?m = Ok (dec_one + ?m)" using v assms(2) by (intro DecAdd_range) auto
  moreover have "DecSub L (dec_one + ?m) sub = Ok (dec_one + ?m - sub)"
    using v assms(2) le sub(2) by (intro DecSub_range) (simp add: abs_less_iff)
  ultimately show thesis using that sl(1) sub(1,2) le by blast
qed

lemma provision_range:
  assumes v: "validateExponentialCalculation ec = Ok ()" and ec: "ec = ExpCalculation p"
    and big: "A ec < 2 ^ 100" "C ec < 2 ^ 100" "MaxVariance ec < 2 ^ 60" and b: "0 \<le> b"
    and e: "0 < sint e" and pr: "0 \<le> pr" "pr < 2 ^ 60"
  obtains w where "CalculateEpochMintProvision L pr p x e b = Ok w" "0 \<le> w"
proof -
  let ?b = "if BondingTarget ec \<le> b then BondingTarget ec else b"
  have nn: "0 \<le> A ec" "0 \<le> C ec" "0 \<le> MaxVariance ec"
    using v by (auto simp: validateExponentialCalculation_def split: if_splits)
  obtain power reduced where d: "DecSub L dec_one (R ec) = Ok (dec_one - R ec)"
    "DecPower L (dec_one - R ec) x = Ok power" "DecMul L (A ec) power = Ok reduced"
    "DecAdd L reduced (C ec) = Ok (reduced + C ec)" "0 \<le> reduced" "reduced \<le> A ec"
    using decay_range [OF v, of x] big by auto
  obtain slope sub where i: "DecQuo L (MaxVariance ec) (BondingTarget ec) = Ok slope" "DecMul L ?b slope = Ok sub"
    "DecAdd L dec_one (MaxVariance ec) = Ok (dec_one + MaxVariance ec)"
    "DecSub L (dec_one + MaxVariance ec) sub = Ok (dec_one + MaxVariance ec - sub)"
    "0 \<le> sub" "sub \<le> MaxVariance ec + 2"
    using incentive_range [OF v big(3) b] by auto
  define E B where "E = reduced + C ec" and "B = dec_one + MaxVariance ec - sub"
  have E: "E \<le> A ec + C ec" "0 \<le> E" and B: "B \<le> dec_one + MaxVariance ec" "0 \<le> B"
    using d(5,6) i(5,6) nn by (auto simp: E_def B_def)
  have EB: "E \<le> 2 ^ 101" "B \<le> 2 ^ 61" using E B big by auto
  obtain pp where pp: "DecMul L E B = Ok pp" "0 \<le> pp" "pp * dec_one \<le> E * B + dec_one" "E * B \<le> pp * dec_one + dec_one"
    using DecMul_range [of E "2 ^ 101" B "2 ^ 61"] E(2) B(2) EB by auto
  have "E * B \<le> 2 ^ 101 * 2 ^ 61" using EB E(2) B(2) by (intro mult_mono) auto
  then have pp_le: "pp \<le> 2 ^ 104" using pp(3) by simp
  obtain ep where ep: "DecQuo L pp (sint e * dec_one) = Ok ep" "0 \<le> ep"
    "ep * (sint e * dec_one) \<le> pp * dec_one + sint e * dec_one" "pp * dec_one \<le> ep * (sint e * dec_one) + sint e * dec_one"
    using DecQuo_range [of pp "2 ^ 104" "sint e * dec_one"] pp(2) pp_le e by auto
  have "ep \<le> ep * sint e" using ep(2) e mult_left_mono [of 1 "sint e" ep] by simp
  moreover have "ep * sint e \<le> pp + sint e" using ep(3) by simp
  ultimately have "ep \<le> 2 ^ 105" using pp_le sint_i64_bounds [of e] by simp
  then obtain w where w: "DecMul L ep (LegacyNewDecFromInt pr) = Ok w" "0 \<le> w"
    using DecMul_range [of ep "2 ^ 105" "LegacyNewDecFromInt pr" "2 ^ 60 * dec_one"] ep(2) pr
    by (auto simp: LegacyNewDecFromInt_def)
  have run: "CalculateEpochMintProvision L pr p x e b = Ok w"
    using d(1-4) i(1-4) pp(1) ep(1) w(1) by (simp add: CalculateEpochMintProvision_def ec [symmetric] E_def B_def LegacyNewDecFromInt_def)
  then show thesis using that w(2) by blast
qed

end

section \<open>A concrete chain\<close>

text \<open>The ledger as bank, with the community pool kept in the distribution account.\<close>

definition inf_keeper :: "ledger Keeper" where
  "inf_keeper = \<lparr>accountKeeper = ledger_accounts, bankKeeper = ledger_bank, GetModuleAccount = \<lambda>m. ret True,
     FundCommunityPool = \<lambda>cs a. ledger_send a (mod_addr ''distribution'') cs,
     StakingTokenSupply = \<lambda>x. Ok 1000, TotalBondedTokens = \<lambda>x. Ok 500,
     feeCollectorName = ''fee_collector'', authority = ''gov'', PowerReduction = 10 ^ 18\<rparr>"


definition inf_params :: "bool \<Rightarrow> Params" where
  "inf_params on = \<lparr>MintDenom = ''atuc'', ExpCalculation = default_exponential,
     Distribution = \<lparr>StakingRewards = LegacyNewDecWithPrec 80 2, CommunityPool = LegacyNewDecWithPrec 20 2\<rparr>,
     EnableInflation = on\<rparr>"

definition inf_empty :: "ledger inf_state" where
  "inf_empty = \<lparr>kown = \<lparr>pspace = None, kvstore = []\<rparr>, kext = \<lparr>accts = [], totals = []\<rparr>\<rparr>"

text \<open>A module three epochs long per period, three epochs into it.\<close>

definition inf_state :: "bool \<Rightarrow> ledger inf_state" where
  "inf_state on = \<lparr>kown = \<lparr>pspace = Some (inf_params on),
      kvstore = [(KeyPrefixPeriod, U64Val 0), (KeyPrefixEpochMintProvision, DecVal (LegacyNewDecFromInt 1000)),
        (KeyPrefixEpochIdentifier, StringVal DayEpochID), (KeyPrefixEpochsPerPeriod, U64Val 3),
        (KeyPrefixSkippedEpochs, U64Val 0)]\<rparr>,
    kext = \<lparr>accts = [], totals = []\<rparr>\<rparr>"


lemma inf_state_sel: "pspace (kown (inf_state on)) = Some (inf_params on)"
  "string_at KeyPrefixEpochIdentifier (inf_state on) = DayEpochID"
  "inf_get (inf_state on) KeyPrefixEpochMintProvision = Some (DecVal (1000 * dec_one))"
  "u64_at KeyPrefixSkippedEpochs (inf_state on) = 0" "u64_at KeyPrefixPeriod (inf_state on) = 0"
  "u64_at KeyPrefixEpochsPerPeriod (inf_state on) = 3"
  by (simp_all add: inf_state_def string_at_def u64_at_def kv_get_def LegacyNewDecFromInt_def)



section \<open>Properties\<close>





text \<open>C39. The epoch provision is the documented formula up to rounding. For parameters that pass validation, whenever
the calculation returns, its result is the period's value (a (1 - r) ^ x + c) (1 + maxVariance - b (maxVariance / target)),
with the bonded ratio b capped at the target, divided by the epochs per period and scaled by the power reduction, off by
at most the stated number of units in the last digit. Validation sets no upper limits; for initial and long-term values
below 2 ^ 100, a variance below 2 ^ 60 (as stored integers) and a power reduction below 2 ^ 60 the calculation never
panics, in any period and at any bonded ratio, and the provision is not negative.\<close>
theorem epoch_provision_follows_formula:
  assumes "sdk_laws L" and "validateExponentialCalculation (ExpCalculation p) = Ok ()"
    and "0 \<le> b" and "0 < sint e" and "0 \<le> pr"
  shows "(\<forall>w. CalculateEpochMintProvision L pr p x e b = Ok w \<longrightarrow>
      \<bar>dec_val w - period_formula (ExpCalculation p) (unat x) b / sint e * pr\<bar> \<le> pr / 10 ^ 18 *
        (1 + (1 + (1 + dec_val (A (ExpCalculation p)) * unat x) * (2 + dec_val (MaxVariance (ExpCalculation p))) +
              3 * (dec_val (A (ExpCalculation p)) + dec_val (C (ExpCalculation p)))) / (2 * real_of_int (sint e)))) \<and>
    (A (ExpCalculation p) < 2 ^ 100 \<and> C (ExpCalculation p) < 2 ^ 100 \<and> MaxVariance (ExpCalculation p) < 2 ^ 60 \<and> pr < 2 ^ 60 \<longrightarrow>
      (\<exists>w. CalculateEpochMintProvision L pr p x e b = Ok w \<and> 0 \<le> w))"
proof (intro conjI allI impI, goal_cases)
  case (1 w)
  show ?case by (rule sdk_laws.provision_accuracy [OF assms(1,2) refl assms(3-5) 1])
next
  case 2
  then show ?case using sdk_laws.provision_range [OF assms(1,2) refl _ _ _ assms(3-5)] by metis
qed

text \<open>The example of the specification: its second year at a bonded ratio above the target.\<close>

definition spec_params :: Params where
  "spec_params = DefaultParams\<lparr>ExpCalculation := \<lparr>A = 300000000 * dec_one, R = 5 * 10 ^ 17, C = 9375000 * dec_one,
     BondingTarget = 66 * 10 ^ 16, MaxVariance = 4 * 10 ^ 17\<rparr>\<rparr>"

theorem epoch_provision_follows_formula_witness:
  "\<exists>w. CalculateEpochMintProvision ref_lib (10 ^ 18) spec_params 1 365 (8 * 10 ^ 17) = Ok w \<and> 0 \<le> w \<and>
     \<bar>dec_val w - 159375000 / 365 * 10 ^ 18\<bar> \<le> 3 * 10 ^ 6"
proof -
  have v: "validateExponentialCalculation (ExpCalculation spec_params) = Ok ()" by code_simp
  have sel: "A (ExpCalculation spec_params) = 300000000 * dec_one" "C (ExpCalculation spec_params) = 9375000 * dec_one"
    "MaxVariance (ExpCalculation spec_params) = 4 * 10 ^ 17" by (simp_all add: spec_params_def)
  have f: "period_formula (ExpCalculation spec_params) 1 (8 * 10 ^ 17) = 159375000"
    by (simp add: period_formula_def dec_val_def spec_params_def)
  note formula = epoch_provision_follows_formula [OF rlib.sdk_laws_axioms v, of "8 * 10 ^ 17" 365 "10 ^ 18" 1]
  then obtain w where w: "CalculateEpochMintProvision ref_lib (10 ^ 18) spec_params 1 365 (8 * 10 ^ 17) = Ok w" "0 \<le> w"
    by (auto simp: sel)
  then have "\<bar>dec_val w - 159375000 / 365 * 10 ^ 18\<bar> \<le> 3 * 10 ^ 6"
    using formula f by (auto simp: sel dec_val_def intro: order_trans)
  then show ?thesis using w by blast
qed

text \<open>A switched-off module only counts: the hook never fails and never touches balances,
supply, period or provision. It raises the counter of skipped epochs when a day epoch
ended and does nothing at the end of any other epoch, whatever the identifier the module
mints for.\<close>
theorem switched_off_inflation_only_counts:
  assumes "pspace (kown s) = Some p" and "\<not> EnableInflation p"
    and "inf_get s KeyPrefixSkippedEpochs \<in> {None, Some (U64Val sk)}"
  shows "AfterEpochEnd L k ident n s =
    (Ok (), if ident = DayEpochID
      then s\<lparr>kown := (kown s)\<lparr>kvstore := kv_set KeyPrefixSkippedEpochs
          (U64Val (u64_at KeyPrefixSkippedEpochs s + 1)) (kvstore (kown s))\<rparr>\<rparr>
      else s)"
  using assms
  by (auto simp: AfterEpochEnd_def get_defs get_u64_def u64_at_def param_get_def set_defs store_defs bnd_def gets_def
      lift_def must_def ret_def modify_def)

theorem switched_off_inflation_only_counts_witness:
  "AfterEpochEnd ref_lib inf_keeper WeekEpochID 7 (inf_state False) = (Ok (), inf_state False) \<and>
   u64_at KeyPrefixSkippedEpochs (snd (AfterEpochEnd ref_lib inf_keeper DayEpochID 7 (inf_state False))) = 1"
proof -
  have "\<not> EnableInflation (inf_params False)" by (simp add: inf_params_def)
  moreover have "inf_get (inf_state False) KeyPrefixSkippedEpochs \<in> {None, Some (U64Val 0)}" by code_simp
  ultimately show ?thesis
    using switched_off_inflation_only_counts [OF inf_state_sel(1), where sk = 0 and L = ref_lib and k = inf_keeper and n = 7]
    by (simp add: WeekEpochID_def DayEpochID_def) (simp add: u64_at_def kv_get_set inf_state_def kv_get_def)
qed

text \<open>Genesis: whatever state it is imported over, an accepted inflation genesis is what an
export right after the import returns, and the stored provision is the one computed for
its period.\<close>
theorem inflation_genesis_round_trip:
  assumes "InitGenesis L k data s = (Ok (), t)"
  shows "ExportGenesis t = (Ok data, t) \<and>
    (\<exists>b d. inf_get t KeyPrefixEpochMintProvision = Some (DecVal d) \<and>
      CalculateEpochMintProvision L (PowerReduction k) (gs_Params data) (gs_Period data) (gs_EpochsPerPeriod data) b = Ok d)"
  using assms
  by (auto simp: InitGenesis_def Let_def SetParams_def set_defs split: if_splits dest!: BondedRatio_Ok)
    (auto simp: ExportGenesis_def get_defs get_u64_def GetEpochIdentifier_def kv_get_set)

theorem inflation_genesis_round_trip_witness:
  "fst (ExportGenesis (snd (InitGenesis ref_lib inf_keeper
     (NewGenesisState (inf_params True) 0 DayEpochID 30 0) inf_empty))) =
   Ok (NewGenesisState (inf_params True) 0 DayEpochID 30 0)"
proof -
  let ?g = "NewGenesisState (inf_params True) 0 DayEpochID 30 0"
  have "TrimSpace ''atuc'' = ''atuc''" by (rule TrimSpace_visible) (simp_all add: visible_def)
  then have pairs: "list_all (\<lambda>r. r = Ok ()) (ParamSetPairs ref_lib (inf_params True))"
    by (simp add: ParamSetPairs_def validateMintDenom_def validateExponentialCalculation_def
        validateInflationDistribution_def validateBool_def inf_params_def default_exponential_def ref_lib_sel
        LegacyNewDecFromInt_def LegacyNewDecWithPrec_def dec_checked_def denom_ok_def letter_def)
  obtain w where "CalculateEpochMintProvision ref_lib (10 ^ 18) (inf_params True) 0 30 (5 * 10 ^ 17) = Ok w"
    using rlib.provision_range [of default_exponential "inf_params True" "5 * 10 ^ 17" 30 "10 ^ 18" 0]
    by (auto simp: inf_params_def default_exponential_def validateExponentialCalculation_def
        LegacyNewDecFromInt_def LegacyNewDecWithPrec_def)
  then have "fst (InitGenesis ref_lib inf_keeper ?g inf_empty) = Ok ()"
    using pairs
    by (simp add: InitGenesis_def inf_keeper_def on_ext_def bnd_def ret_def SetParams_def set_defs NewGenesisState_def
        store_defs modify_def BondedRatio_def gets_def lift_def ref_lib_sel quo_checked_def LegacyNewDecFromInt_def
        signed_divide_int_def Let_def)
  from inflation_genesis_round_trip [OF pair_Ok_snd [OF this]] show ?thesis by simp
qed

end
