(* ===== verification/Evm.thy ===== *)
theory Evm
  imports Bank Gotime
begin

text \<open>
  The Ethereum side as the modules see it: addresses and their hexadecimal form, the ABI
  codec of a contract, messages and responses of the EVM, and the EVM keeper. All of it
  is code of other repositories, so it enters as records of functions; the locales state
  the documented behaviour the modules rely on.
\<close>

section \<open>Addresses and hashes\<close>

record eth_lib =
  IsHexAddress :: "string \<Rightarrow> bool"
  HexToAddress :: "string \<Rightarrow> bytes"
  AddressHex :: "bytes \<Rightarrow> string"
  BytesToAddress :: "bytes \<Rightarrow> bytes"
  CreateAddress :: "bytes \<Rightarrow> u64 \<Rightarrow> bytes"
  Keccak256Hex :: "bytes \<Rightarrow> string"
  Keccak256 :: "bytes \<Rightarrow> bytes"
  tmhash_Sum :: "bytes \<Rightarrow> bytes"
  ValidateAddress :: "string \<Rightarrow> unit res"
  ValidateNonZeroAddress :: "string \<Rightarrow> unit res"
  ValidateIBCDenom :: "string \<Rightarrow> unit res"

text \<open>An address has twenty bytes; its hexadecimal form is read back, a hash is not empty.\<close>

locale eth_laws =
  fixes E :: eth_lib
  assumes hex_roundtrip: "length a = 20 \<Longrightarrow> HexToAddress E (AddressHex E a) = a"
    and hex_is_hex: "length a = 20 \<Longrightarrow> IsHexAddress E (AddressHex E a)"
    and hex_length: "length (HexToAddress E h) = 20"
    and create_length: "length (CreateAddress E a n) = 20"
    and bytes_length: "length (BytesToAddress E b) = 20"
    and bytes_address: "length b = 20 \<Longrightarrow> BytesToAddress E b = b"
    and hash_nonempty: "tmhash_Sum E b \<noteq> []"

section \<open>The ABI of a contract\<close>

datatype abi_value = AddressVal bytes | BigVal int | TextVal string | ByteVal "8 word" | BoolVal bool | BytesVal bytes | ListVal "abi_value list"

record abi =
  Pack :: "string \<Rightarrow> abi_value list \<Rightarrow> bytes res"
  Unpack :: "string \<Rightarrow> bytes \<Rightarrow> abi_value list res"
  UnpackText :: "string \<Rightarrow> bytes \<Rightarrow> string res"
  UnpackByte :: "string \<Rightarrow> bytes \<Rightarrow> 8 word res"
  UnpackBool :: "string \<Rightarrow> bytes \<Rightarrow> bool res"
  EventByID :: "bytes \<Rightarrow> string option"

section \<open>Messages and the EVM keeper\<close>

record eth_message =
  msgFrom :: bytes
  msgTo :: "bytes option"
  msgNonce :: u64
  msgValue :: int
  msgGasLimit :: u64
  msgData :: bytes
  msgIsFake :: bool

text \<open>The log of a response carries its topics in hexadecimal, the log of a receipt as bytes.\<close>

record evm_log =
  LogAddress :: bytes
  Topics :: "bytes list"
  LogData :: bytes

record evm_response =
  Ret :: bytes
  VmError :: string
  LogTopics :: "string list list"

definition Failed :: "evm_response \<Rightarrow> bool" where
  "Failed r = (VmError r \<noteq> [])"

text \<open>
  GetAccountWithoutBalance returns whether the account found is a contract. EstimateGas
  runs the message on a copy of the state.
\<close>

record 'x evm_keeper =
  GetAccountWithoutBalance :: "bytes \<Rightarrow> 'x \<Rightarrow> bool option"
  GetSequence :: "bytes \<Rightarrow> 'x \<Rightarrow> u64 res"
  EstimateGas :: "bytes \<Rightarrow> bytes option \<Rightarrow> bytes \<Rightarrow> u64 \<Rightarrow> 'x \<Rightarrow> u64 res"
  ApplyMessage :: "eth_message \<Rightarrow> bool \<Rightarrow> ('x, evm_response) act"
  DefaultGasCap :: u64

text \<open>
  What the modules rely on: a call that is not committed leaves no trace, and a call that
  is committed touches coin balances and supply of the EVM denomination only.
\<close>

locale evm_laws = bank_laws L bk ak binv + eth_laws E
  for L :: sdk_lib and bk :: "'x bank_keeper" and ak :: "'x account_keeper" and binv :: "'x \<Rightarrow> bool"
    and E :: eth_lib +
  fixes ek :: "'x evm_keeper" and evm_denom :: string
  assumes apply_view: "ApplyMessage ek m False x = (q, x') \<Longrightarrow> x' = x"
    and apply_frame: "binv x \<Longrightarrow> ApplyMessage ek m True x = (Ok r, x') \<Longrightarrow>
      binv x' \<and> (d \<noteq> evm_denom \<longrightarrow> bal bk x' a d = bal bk x a d \<and> sup bk x' d = sup bk x d)"

section \<open>Effects outside the EVM denomination\<close>

text \<open>
  By how much balances and supply differ after some steps, for every denomination the EVM
  has no hand in. Effects of consecutive steps add up.
\<close>

definition shifts :: "'x bank_keeper \<Rightarrow> string \<Rightarrow> 'x \<Rightarrow> (bytes \<Rightarrow> string \<Rightarrow> int) \<Rightarrow> (string \<Rightarrow> int) \<Rightarrow> 'x \<Rightarrow> bool" where
  "shifts bk ed x db ds x' \<longleftrightarrow>
     (\<forall>d. d \<noteq> ed \<longrightarrow> sup bk x' d = sup bk x d + ds d \<and> (\<forall>a. bal bk x' a d = bal bk x a d + db a d))"

definition paid :: "bytes \<Rightarrow> coin list \<Rightarrow> bytes \<Rightarrow> string \<Rightarrow> int" where
  "paid a cs = (\<lambda>b d. if b = a then coins_amt cs d else 0)"

lemma shifts_moves: "moves bk x a b cs x' \<Longrightarrow> shifts bk ed x (\<lambda>c d. paid b cs c d - paid a cs c d) (\<lambda>_. 0) x'"
  and shifts_mints: "mints bk x a cs x' \<Longrightarrow> shifts bk ed x (paid a cs) (coins_amt cs) x'"
  and shifts_burns: "burns bk x a cs x' \<Longrightarrow> shifts bk ed x (\<lambda>c d. - paid a cs c d) (\<lambda>d. - coins_amt cs d) x'"
  by (simp_all add: shifts_def paid_def moves_def mints_def burns_def)

lemma shifts_refl: "shifts bk ed x (\<lambda>_ _. 0) (\<lambda>_. 0) x"
  by (simp add: shifts_def)

lemma shifts_trans:
  "shifts bk ed x db ds y \<Longrightarrow> shifts bk ed y db' ds' z \<Longrightarrow> shifts bk ed x (\<lambda>a d. db a d + db' a d) (\<lambda>d. ds d + ds' d) z"
  by (simp add: shifts_def)

lemma shifts_eq: "shifts bk ed x db ds y \<Longrightarrow> (\<And>a d. d \<noteq> ed \<Longrightarrow> db a d = db' a d) \<Longrightarrow> (\<And>d. d \<noteq> ed \<Longrightarrow> ds d = ds' d) \<Longrightarrow>
    shifts bk ed x db' ds' y"
  by (simp add: shifts_def)

lemma paid_single [simp]: "paid a [c] b d = (if b = a \<and> d = Denom c then Amount c else 0)"
  by (simp add: paid_def)

context evm_laws
begin

lemma apply_shifts: "binv x \<Longrightarrow> ApplyMessage ek m True x = (Ok r, x') \<Longrightarrow> binv x' \<and> shifts bk evm_denom x (\<lambda>_ _. 0) (\<lambda>_. 0) x'"
  using apply_frame unfolding shifts_def by auto

lemma pay_shifts: "binv x \<Longrightarrow> SendCoinsFromModuleToAccount bk m b cs x = (Ok (), x') \<Longrightarrow>
    binv x' \<and> shifts bk evm_denom x (\<lambda>c d. paid b cs c d - paid (GetModuleAddress ak m) cs c d) (\<lambda>_. 0) x'"
  using send_from_module shifts_moves by metis

lemma escrow_shifts: "binv x \<Longrightarrow> SendCoinsFromAccountToModule bk a m cs x = (Ok (), x') \<Longrightarrow>
    binv x' \<and> shifts bk evm_denom x (\<lambda>c d. paid (GetModuleAddress ak m) cs c d - paid a cs c d) (\<lambda>_. 0) x'"
  using send_to_module shifts_moves by metis

lemma mint_shifts: "binv x \<Longrightarrow> MintCoins bk m cs x = (Ok (), x') \<Longrightarrow>
    binv x' \<and> shifts bk evm_denom x (paid (GetModuleAddress ak m) cs) (coins_amt cs) x'"
  using mint shifts_mints by metis

lemma burn_shifts: "binv x \<Longrightarrow> BurnCoins bk m cs x = (Ok (), x') \<Longrightarrow>
    binv x' \<and> shifts bk evm_denom x (\<lambda>c d. - paid (GetModuleAddress ak m) cs c d) (\<lambda>d. - coins_amt cs d) x'"
  using burn shifts_burns by metis

end

end
