(* ===== verification/Erc20_Types.thy ===== *)
theory Erc20_Types
  imports Evm Modstore
begin

text \<open>
  x/erc20/types: token pairs, messages, proposals, parameters, genesis state, coin
  metadata and the sanitizing of token names. Regular expressions are written out as the
  functions on byte strings they denote.
\<close>

section \<open>errors.go and keys.go\<close>

definition ModuleName :: string where
  "ModuleName = ''erc20''"

definition ErrERC20Disabled :: err where "ErrERC20Disabled = RegErr ModuleName 2"
definition ErrInternalTokenPair :: err where "ErrInternalTokenPair = RegErr ModuleName 3"
definition ErrTokenPairNotFound :: err where "ErrTokenPairNotFound = RegErr ModuleName 4"
definition ErrTokenPairAlreadyExists :: err where "ErrTokenPairAlreadyExists = RegErr ModuleName 5"
definition ErrUndefinedOwner :: err where "ErrUndefinedOwner = RegErr ModuleName 6"
definition ErrBalanceInvariance :: err where "ErrBalanceInvariance = RegErr ModuleName 7"
definition ErrUnexpectedEvent :: err where "ErrUnexpectedEvent = RegErr ModuleName 8"
definition ErrABIPack :: err where "ErrABIPack = RegErr ModuleName 9"
definition ErrABIUnpack :: err where "ErrABIUnpack = RegErr ModuleName 10"
definition ErrEVMDenom :: err where "ErrEVMDenom = RegErr ModuleName 11"
definition ErrEVMCall :: err where "ErrEVMCall = RegErr ModuleName 12"
definition ErrERC20TokenPairDisabled :: err where "ErrERC20TokenPairDisabled = RegErr ModuleName 13"

definition ErrInvalidCoins :: err where "ErrInvalidCoins = SdkErr ''sdkerrors.ErrInvalidCoins''"
definition ErrInvalidAddress :: err where "ErrInvalidAddress = SdkErr ''sdkerrors.ErrInvalidAddress''"
definition ErrUnauthorized :: err where "ErrUnauthorized = SdkErr ''sdkerrors.ErrUnauthorized''"
definition ErrLogic :: err where "ErrLogic = SdkErr ''sdkerrors.ErrLogic''"
definition ErrSendDisabled :: err where "ErrSendDisabled = SdkErr ''banktypes.ErrSendDisabled''"
definition ErrVMExecution :: err where "ErrVMExecution = SdkErr ''evmtypes.ErrVMExecution''"
definition ErrInvalidSigner :: err where "ErrInvalidSigner = SdkErr ''govtypes.ErrInvalidSigner''"

definition KeyPrefixTokenPair :: bytes where
  "KeyPrefixTokenPair = [char_of (1 :: int)]"

definition KeyPrefixTokenPairByERC20Address :: bytes where
  "KeyPrefixTokenPairByERC20Address = [char_of (2 :: int)]"

definition KeyPrefixTokenPairByDenom :: bytes where
  "KeyPrefixTokenPairByDenom = [char_of (3 :: int)]"

section \<open>token_pair.go\<close>

datatype Owner = OWNER_UNSPECIFIED | OWNER_MODULE | OWNER_EXTERNAL

record TokenPair =
  Erc20Address :: string
  PairDenom :: string
  Enabled :: bool
  ContractOwner :: Owner

definition NewTokenPair :: "eth_lib \<Rightarrow> bytes \<Rightarrow> string \<Rightarrow> bool \<Rightarrow> Owner \<Rightarrow> TokenPair" where
  "NewTokenPair E erc20Address denom enabled contractOwner =
     \<lparr>Erc20Address = AddressHex E erc20Address, PairDenom = denom, Enabled = True, ContractOwner = contractOwner\<rparr>"

definition GetID :: "eth_lib \<Rightarrow> TokenPair \<Rightarrow> bytes" where
  "GetID E tp = tmhash_Sum E (Erc20Address tp @ ''|'' @ PairDenom tp)"

definition GetERC20Contract :: "eth_lib \<Rightarrow> TokenPair \<Rightarrow> bytes" where
  "GetERC20Contract E tp = HexToAddress E (Erc20Address tp)"

definition TokenPair_Validate :: "sdk_lib \<Rightarrow> eth_lib \<Rightarrow> TokenPair \<Rightarrow> unit res" where
  "TokenPair_Validate L E tp =
     rbind (ValidateDenom L (PairDenom tp)) (\<lambda>_. ValidateAddress E (Erc20Address tp))"

definition IsNativeCoin :: "TokenPair \<Rightarrow> bool" where
  "IsNativeCoin tp = (ContractOwner tp = OWNER_MODULE)"

definition IsNativeERC20 :: "TokenPair \<Rightarrow> bool" where
  "IsNativeERC20 tp = (ContractOwner tp = OWNER_EXTERNAL)"

section \<open>evm.go, params.go and genesis.go\<close>

record ERC20Data =
  TokenName :: string
  TokenSymbol :: string
  Decimals :: "8 word"

definition NewERC20Data :: "string \<Rightarrow> string \<Rightarrow> 8 word \<Rightarrow> ERC20Data" where
  "NewERC20Data name symbol decimals = \<lparr>TokenName = name, TokenSymbol = symbol, Decimals = decimals\<rparr>"

record Params =
  EnableErc20 :: bool
  EnableEVMHook :: bool

definition NewParams :: "bool \<Rightarrow> bool \<Rightarrow> Params" where
  "NewParams enableErc20 enableEVMHook = \<lparr>EnableErc20 = enableErc20, EnableEVMHook = enableEVMHook\<rparr>"

definition DefaultParams :: Params where
  "DefaultParams = \<lparr>EnableErc20 = True, EnableEVMHook = True\<rparr>"

definition Params_Validate :: "Params \<Rightarrow> unit res" where
  "Params_Validate p = Ok ()"

record TokenPairDenomIndex =
  idxDenom :: string
  idxDenomPairId :: bytes

record TokenPairERC20AddressIndex =
  idxErc20Address :: bytes
  idxErc20PairId :: bytes

record GenesisState =
  gs_Params :: Params
  TokenPairs :: "TokenPair list"
  DenomIndexes :: "TokenPairDenomIndex list"
  Erc20AddressIndexes :: "TokenPairERC20AddressIndex list"

definition NewGenesisState :: "Params \<Rightarrow> TokenPair list \<Rightarrow> TokenPairDenomIndex list \<Rightarrow>
    TokenPairERC20AddressIndex list \<Rightarrow> GenesisState" where
  "NewGenesisState params pairs denomIndexes erc20AddrIndexes =
     \<lparr>gs_Params = params, TokenPairs = pairs, DenomIndexes = denomIndexes, Erc20AddressIndexes = erc20AddrIndexes\<rparr>"

definition DefaultGenesisState :: GenesisState where
  "DefaultGenesisState = \<lparr>gs_Params = DefaultParams, TokenPairs = [], DenomIndexes = [], Erc20AddressIndexes = []\<rparr>"

fun validate_pairs :: "sdk_lib \<Rightarrow> eth_lib \<Rightarrow> string list \<Rightarrow> string list \<Rightarrow> TokenPair list \<Rightarrow> unit res" where
  "validate_pairs L E seenErc20 seenDenom [] = Ok ()"
| "validate_pairs L E seenErc20 seenDenom (b # bs) =
     (if Erc20Address b \<in> set seenErc20 then Err (PlainErr ''token ERC20 contract duplicated on genesis'')
      else if PairDenom b \<in> set seenDenom then Err (PlainErr ''coin denomination duplicated on genesis'')
      else rbind (TokenPair_Validate L E b) (\<lambda>_.
        validate_pairs L E (Erc20Address b # seenErc20) (PairDenom b # seenDenom) bs))"

definition GenesisState_Validate :: "sdk_lib \<Rightarrow> eth_lib \<Rightarrow> GenesisState \<Rightarrow> unit res" where
  "GenesisState_Validate L E gs =
     rbind (validate_pairs L E [] [] (TokenPairs gs)) (\<lambda>_. Params_Validate (gs_Params gs))"

section \<open>utils.go\<close>

text \<open>Coin metadata of the bank module.\<close>

record DenomUnit =
  UnitDenom :: string
  Exponent :: "32 word"
  Aliases :: "string list"

record Metadata =
  Description :: string
  DenomUnits :: "DenomUnit list"
  Base :: string
  Display :: string
  Name :: string
  Symbol :: string
  URI :: string
  URIHash :: string

definition ascii_letter :: "char \<Rightarrow> bool" where
  "ascii_letter c = (let n = (of_char c :: int) in (n < 91 \<and> 64 < n) \<or> (n < 123 \<and> 96 < n))"

definition newline :: char where
  "newline = char_of (10 :: int)"

text \<open>The expression \<open>(?m)^(\d+)\<close>: the digits at the start of every line go.\<close>

fun drop_line_digits :: "bool \<Rightarrow> string \<Rightarrow> string" where
  "drop_line_digits start [] = []"
| "drop_line_digits start (c # s) =
     (if start \<and> is_digit c then drop_line_digits True s
      else c # drop_line_digits (c = newline) s)"

definition removeLeadingNumbers :: "string \<Rightarrow> string" where
  "removeLeadingNumbers str = drop_line_digits True str"

text \<open>
  The expression \<open>^[^A-Za-z]|[^a-zA-Z0-9/-]\<close>: every byte outside the second class goes,
  and so does a first byte that is not a letter.
\<close>

definition name_char :: "char \<Rightarrow> bool" where
  "name_char c = (ascii_letter c \<or> is_digit c \<or> c = CHR ''/'' \<or> c = CHR ''-'')"

definition removeSpecialChars :: "string \<Rightarrow> string" where
  "removeSpecialChars str =
     (case str of [] \<Rightarrow> []
      | c # s \<Rightarrow> (if ascii_letter c then [c] else []) @ filter name_char s)"

function removeInvalidPrefixes :: "string \<Rightarrow> string" where
  "removeInvalidPrefixes str =
     (if HasPrefix str ''ibc/'' then removeInvalidPrefixes (drop 4 str)
      else if HasPrefix str ''erc20/'' then removeInvalidPrefixes (drop 6 str)
      else str)"
  by pat_completeness auto

termination
  by (relation "measure length") (auto simp: HasPrefix_iff)

declare removeInvalidPrefixes.simps [simp del]

definition SanitizeERC20Name :: "string \<Rightarrow> string" where
  "SanitizeERC20Name name =
     (let name1 = removeLeadingNumbers name;
          name2 = removeSpecialChars name1;
          name3 = (if 128 < length name2 then take 128 name2 else name2)
      in removeInvalidPrefixes name3)"

fun EqualStringSlice_from :: "string list \<Rightarrow> string list \<Rightarrow> bool" where
  "EqualStringSlice_from (a # as) (b # bs) = (if a \<noteq> b then False else EqualStringSlice_from as bs)"
| "EqualStringSlice_from _ _ = True"

definition EqualStringSlice :: "string list \<Rightarrow> string list \<Rightarrow> bool" where
  "EqualStringSlice aliasesA aliasesB =
     (if length aliasesA \<noteq> length aliasesB then False else EqualStringSlice_from aliasesA aliasesB)"

fun equal_units :: "DenomUnit list \<Rightarrow> DenomUnit list \<Rightarrow> bool" where
  "equal_units (v # vs) (w # ws) =
     (if Exponent v \<noteq> Exponent w \<or> UnitDenom v \<noteq> UnitDenom w \<or> \<not> EqualStringSlice (Aliases v) (Aliases w)
      then False else equal_units vs ws)"
| "equal_units _ _ = True"

definition EqualMetadata :: "Metadata \<Rightarrow> Metadata \<Rightarrow> unit res" where
  "EqualMetadata a b =
     (if Base a = Base b \<and> Description a = Description b \<and> Display a = Display b \<and> Name a = Name b \<and> Symbol a = Symbol b
      then
        if length (DenomUnits a) \<noteq> length (DenomUnits b)
        then Err (PlainErr ''metadata provided has different denom units from stored'')
        else if \<not> equal_units (DenomUnits a) (DenomUnits b)
        then Err (PlainErr ''metadata provided has different denom unit from stored'')
        else Ok ()
      else Err (PlainErr ''metadata provided is different from stored''))"

section \<open>msg.go and proposal.go\<close>

record MsgConvertCoin =
  cc_Coin :: coin
  cc_Receiver :: string
  cc_Sender :: string

record MsgConvertERC20 =
  ce_ContractAddress :: string
  ce_Amount :: int
  ce_Receiver :: string
  ce_Sender :: string

definition NewMsgConvertCoin :: "sdk_lib \<Rightarrow> eth_lib \<Rightarrow> coin \<Rightarrow> bytes \<Rightarrow> bytes \<Rightarrow> MsgConvertCoin" where
  "NewMsgConvertCoin L E coin receiver sender =
     \<lparr>cc_Coin = coin, cc_Receiver = AddressHex E receiver, cc_Sender = AddrString L sender\<rparr>"

definition NewMsgConvertERC20 :: "sdk_lib \<Rightarrow> eth_lib \<Rightarrow> int \<Rightarrow> bytes \<Rightarrow> bytes \<Rightarrow> bytes \<Rightarrow> MsgConvertERC20" where
  "NewMsgConvertERC20 L E amount receiver contract sender =
     \<lparr>ce_ContractAddress = AddressHex E contract, ce_Amount = amount, ce_Receiver = AddrString L receiver,
      ce_Sender = AddressHex E sender\<rparr>"

definition GetSigners :: "eth_lib \<Rightarrow> MsgConvertERC20 \<Rightarrow> bytes list" where
  "GetSigners E msg = [HexToAddress E (ce_Sender msg)]"

definition ValidateErc20Denom :: "eth_lib \<Rightarrow> string \<Rightarrow> unit res" where
  "ValidateErc20Denom E denom =
     (let denomSplit = SplitN2 CHR ''/'' denom
      in if length denomSplit \<noteq> 2 \<or> denomSplit ! 0 \<noteq> ModuleName then Err (PlainErr ''invalid denom'')
         else ValidateAddress E (denomSplit ! 1))"

definition CreateDenomDescription :: "string \<Rightarrow> string" where
  "CreateDenomDescription address = ''Cosmos coin token representation of '' @ address"

definition CreateDenom :: "string \<Rightarrow> string" where
  "CreateDenom address = ModuleName @ ''/'' @ address"

definition ibc_DenomPrefix :: string where
  "ibc_DenomPrefix = ''ibc''"

definition validateIBCVoucherMetadata :: "Metadata \<Rightarrow> unit res" where
  "validateIBCVoucherMetadata metadata =
     (let denomSplit = SplitN2 CHR ''/'' (Base metadata)
      in if denomSplit ! 0 = Base metadata \<and> TrimSpace (Base metadata) \<noteq> '''' then Ok ()
         else if length denomSplit \<noteq> 2 \<or> denomSplit ! 0 \<noteq> ibc_DenomPrefix then Err (PlainErr ''invalid metadata'')
         else Ok ())"

text \<open>
  The proposals. Validating metadata and the title and description of a proposal is the
  work of the SDK.
\<close>

record RegisterCoinProposal =
  rc_Title :: string
  rc_Description :: string
  rc_Metadata :: Metadata

record RegisterERC20Proposal =
  re_Title :: string
  re_Description :: string
  re_Erc20Address :: string

record ToggleTokenConversionProposal =
  tt_Title :: string
  tt_Description :: string
  tt_Token :: string

definition RegisterCoin_ValidateBasic :: "eth_lib \<Rightarrow> (Metadata \<Rightarrow> unit res) \<Rightarrow>
    (string \<Rightarrow> string \<Rightarrow> unit res) \<Rightarrow> RegisterCoinProposal \<Rightarrow> unit res" where
  "RegisterCoin_ValidateBasic E Metadata_Validate ValidateAbstract rtbp =
     rbind (Metadata_Validate (rc_Metadata rtbp)) (\<lambda>_.
     rbind (ValidateIBCDenom E (Base (rc_Metadata rtbp))) (\<lambda>_.
     rbind (validateIBCVoucherMetadata (rc_Metadata rtbp)) (\<lambda>_.
     ValidateAbstract (rc_Title rtbp) (rc_Description rtbp))))"

definition RegisterERC20_ValidateBasic :: "eth_lib \<Rightarrow> (string \<Rightarrow> string \<Rightarrow> unit res) \<Rightarrow>
    RegisterERC20Proposal \<Rightarrow> unit res" where
  "RegisterERC20_ValidateBasic E ValidateAbstract rtbp =
     rbind (ValidateAddress E (re_Erc20Address rtbp)) (\<lambda>_.
     ValidateAbstract (re_Title rtbp) (re_Description rtbp))"

definition ToggleTokenConversion_ValidateBasic :: "sdk_lib \<Rightarrow> eth_lib \<Rightarrow> (string \<Rightarrow> string \<Rightarrow> unit res) \<Rightarrow>
    ToggleTokenConversionProposal \<Rightarrow> unit res" where
  "ToggleTokenConversion_ValidateBasic L E ValidateAbstract ttcp =
     rbind (case ValidateAddress E (tt_Token ttcp) of Err e \<Rightarrow> ValidateDenom L (tt_Token ttcp) | r \<Rightarrow> r) (\<lambda>_.
     ValidateAbstract (tt_Title ttcp) (tt_Description ttcp))"

end
