(* ===== verification/Erc20.thy ===== *)
theory Erc20
  imports Erc20_Types
begin

text \<open>
  x/erc20/keeper: the registry of token pairs with its two indexes, the calls into the
  EVM, registration and toggling of pairs, the conversion of coins into tokens and back,
  the EVM hook, genesis and queries.
\<close>

section \<open>The keeper and its state\<close>

record 'x Keeper =
  accountKeeper :: "'x account_keeper"
  bankKeeper :: "'x bank_keeper"
  evmKeeper :: "'x evm_keeper"
  eth :: eth_lib
  erc20ABI :: abi
  erc20Bin :: bytes
  BlockedAddr :: "bytes \<Rightarrow> bool"
  IsSendEnabledCoin :: "string \<Rightarrow> 'x \<Rightarrow> bool"
  GetDenomMetaData :: "string \<Rightarrow> 'x \<Rightarrow> Metadata option"
  SetDenomMetaData :: "Metadata \<Rightarrow> 'x \<Rightarrow> 'x"
  HasSupply :: "string \<Rightarrow> 'x \<Rightarrow> bool"
  Metadata_Validate :: "Metadata \<Rightarrow> unit res"
  GetModuleAccount :: "string \<Rightarrow> ('x, bool) act"
  authority :: string

datatype erc_value = PairVal TokenPair | IdVal bytes

type_synonym 'x erc_state = "(Params, erc_value, 'x) mstate"

definition ModuleAddress :: "'x Keeper \<Rightarrow> bytes" where
  "ModuleAddress k = BytesToAddress (eth k) (GetModuleAddress (accountKeeper k) ModuleName)"

definition GetAuthority :: "'x Keeper \<Rightarrow> string" where
  "GetAuthority k = authority k"

definition GetParams :: "('x erc_state, Params) act" where
  "GetParams = param_get"

definition SetParams :: "Params \<Rightarrow> ('x erc_state, unit) act" where
  "SetParams params = param_set params"

section \<open>token_pairs.go\<close>

definition pair_key :: "bytes \<Rightarrow> bytes" where
  "pair_key ident = KeyPrefixTokenPair @ ident"

definition erc20_key :: "bytes \<Rightarrow> bytes" where
  "erc20_key erc20 = KeyPrefixTokenPairByERC20Address @ erc20"

definition denom_key :: "string \<Rightarrow> bytes" where
  "denom_key denom = KeyPrefixTokenPairByDenom @ denom"

fun decode_pairs :: "(bytes \<times> erc_value) list \<Rightarrow> TokenPair list res" where
  "decode_pairs [] = Ok []"
| "decode_pairs ((key, PairVal tokenPair) # es) = rbind (decode_pairs es) (\<lambda>tokenPairs. Ok (tokenPair # tokenPairs))"
| "decode_pairs (e # es) = Panic ''unmarshal''"

definition GetTokenPairs :: "('x erc_state, TokenPair list) act" where
  "GetTokenPairs = bnd (store_iterate KeyPrefixTokenPair) (\<lambda>es. lift (decode_pairs es))"

definition get_id :: "bytes \<Rightarrow> ('x erc_state, bytes option) act" where
  "get_id key =
     bnd (store_get key) (\<lambda>bz.
       case bz of None \<Rightarrow> ret None | Some (IdVal ident) \<Rightarrow> ret (Some ident) | Some v \<Rightarrow> panic ''unmarshal'')"

definition GetTokenPairIdByERC20Addr :: "bytes \<Rightarrow> ('x erc_state, bytes option) act" where
  "GetTokenPairIdByERC20Addr erc20 = get_id (erc20_key erc20)"

definition GetTokenPairIdByDenom :: "string \<Rightarrow> ('x erc_state, bytes option) act" where
  "GetTokenPairIdByDenom denom = get_id (denom_key denom)"

definition GetTokenPairID :: "'x Keeper \<Rightarrow> string \<Rightarrow> ('x erc_state, bytes option) act" where
  "GetTokenPairID k token =
     (if IsHexAddress (eth k) token
      then let addr = HexToAddress (eth k) token in GetTokenPairIdByERC20Addr addr
      else GetTokenPairIdByDenom token)"

definition GetTokenPair :: "bytes option \<Rightarrow> ('x erc_state, TokenPair option) act" where
  "GetTokenPair ident =
     (case ident of None \<Rightarrow> ret None
      | Some ident' \<Rightarrow>
          bnd (store_get (pair_key ident')) (\<lambda>bz.
            case bz of None \<Rightarrow> ret None | Some (PairVal tokenPair) \<Rightarrow> ret (Some tokenPair)
            | Some v \<Rightarrow> panic ''unmarshal''))"

definition no_id :: "bytes option \<Rightarrow> bool" where
  "no_id ident = (case ident of None \<Rightarrow> True | Some b \<Rightarrow> b = [])"

text \<open>A prefix store refuses an empty key.\<close>

definition set_prefixed :: "bytes \<Rightarrow> bytes \<Rightarrow> erc_value \<Rightarrow> ('x erc_state, unit) act" where
  "set_prefixed prefix key v = (if key = [] then panic ''key is nil or empty'' else store_set (prefix @ key) v)"

definition SetTokenPair :: "'x Keeper \<Rightarrow> TokenPair \<Rightarrow> ('x erc_state, unit) act" where
  "SetTokenPair k tokenPair = set_prefixed KeyPrefixTokenPair (GetID (eth k) tokenPair) (PairVal tokenPair)"

definition SetTokenPairIdByERC20Addr :: "bytes \<Rightarrow> bytes \<Rightarrow> ('x erc_state, unit) act" where
  "SetTokenPairIdByERC20Addr erc20 ident = set_prefixed KeyPrefixTokenPairByERC20Address erc20 (IdVal ident)"

definition SetTokenPairIdByDenom :: "string \<Rightarrow> bytes \<Rightarrow> ('x erc_state, unit) act" where
  "SetTokenPairIdByDenom denom ident = set_prefixed KeyPrefixTokenPairByDenom denom (IdVal ident)"

definition deleteTokenPair :: "bytes \<Rightarrow> ('x erc_state, unit) act" where
  "deleteTokenPair ident = store_delete (pair_key ident)"

definition deleteTokenPairIdByERC20Addr :: "bytes \<Rightarrow> ('x erc_state, unit) act" where
  "deleteTokenPairIdByERC20Addr erc20 = store_delete (erc20_key erc20)"

definition deleteTokenPairIdByDenom :: "string \<Rightarrow> ('x erc_state, unit) act" where
  "deleteTokenPairIdByDenom denom = store_delete (denom_key denom)"

definition DeleteTokenPair :: "'x Keeper \<Rightarrow> TokenPair \<Rightarrow> ('x erc_state, unit) act" where
  "DeleteTokenPair k tokenPair =
     (let ident = GetID (eth k) tokenPair in
      bnd (deleteTokenPair ident) (\<lambda>_.
      bnd (deleteTokenPairIdByERC20Addr (GetERC20Contract (eth k) tokenPair)) (\<lambda>_.
      deleteTokenPairIdByDenom (PairDenom tokenPair))))"

definition IsTokenPairRegistered :: "bytes \<Rightarrow> ('x erc_state, bool) act" where
  "IsTokenPairRegistered ident = store_has (pair_key ident)"

definition IsERC20Registered :: "bytes \<Rightarrow> ('x erc_state, bool) act" where
  "IsERC20Registered erc20 = store_has (erc20_key erc20)"

definition IsDenomRegistered :: "string \<Rightarrow> ('x erc_state, bool) act" where
  "IsDenomRegistered denom = store_has (denom_key denom)"

text \<open>The iterators of the indexes return the keys without their one-byte prefix.\<close>

fun decode_ids :: "(bytes \<times> erc_value) list \<Rightarrow> (bytes \<times> bytes) list res" where
  "decode_ids [] = Ok []"
| "decode_ids ((key, IdVal ident) # es) = rbind (decode_ids es) (\<lambda>ids. Ok ((drop 1 key, ident) # ids))"
| "decode_ids (e # es) = Panic ''unmarshal''"

definition GetAllTokenPairDenomIndexes :: "('x erc_state, TokenPairDenomIndex list) act" where
  "GetAllTokenPairDenomIndexes =
     bnd (store_iterate KeyPrefixTokenPairByDenom) (\<lambda>es.
     bnd (lift (decode_ids es)) (\<lambda>ids.
     ret (map (\<lambda>(denom, ident). \<lparr>idxDenom = denom, idxDenomPairId = ident\<rparr>) ids)))"

definition GetAllTokenPairERC20AddressIndexes :: "'x Keeper \<Rightarrow> ('x erc_state, TokenPairERC20AddressIndex list) act" where
  "GetAllTokenPairERC20AddressIndexes k =
     bnd (store_iterate KeyPrefixTokenPairByERC20Address) (\<lambda>es.
     bnd (lift (decode_ids es)) (\<lambda>ids.
     ret (map (\<lambda>(key, ident). \<lparr>idxErc20Address = BytesToAddress (eth k) key, idxErc20PairId = ident\<rparr>) ids)))"

section \<open>evm.go\<close>

definition CallEVMWithData :: "'x Keeper \<Rightarrow> bytes \<Rightarrow> bytes option \<Rightarrow> bytes \<Rightarrow> bool \<Rightarrow> ('x erc_state, evm_response) act" where
  "CallEVMWithData k from_addr contract data commit =
     bnd (gets (\<lambda>s. GetSequence (evmKeeper k) from_addr (kext s))) (\<lambda>seq.
     bnd (lift seq) (\<lambda>nonce.
     bnd (if commit
          then bnd (gets (\<lambda>s. EstimateGas (evmKeeper k) from_addr contract data (DefaultGasCap (evmKeeper k)) (kext s))) lift
          else ret (DefaultGasCap (evmKeeper k))) (\<lambda>gasCap.
     let msg = \<lparr>msgFrom = from_addr, msgTo = contract, msgNonce = nonce, msgValue = 0, msgGasLimit = gasCap, msgData = data,
                msgIsFake = \<not> commit\<rparr> in
     bnd (on_ext (ApplyMessage (evmKeeper k) msg commit)) (\<lambda>res.
     if Failed res then raise ErrVMExecution else ret res))))"

definition CallEVM :: "'x Keeper \<Rightarrow> abi \<Rightarrow> bytes \<Rightarrow> bytes \<Rightarrow> bool \<Rightarrow> string \<Rightarrow> abi_value list \<Rightarrow>
    ('x erc_state, evm_response) act" where
  "CallEVM k a from_addr contract commit method args =
     (case Pack a method args of
        Err e \<Rightarrow> raise ErrABIPack
      | Panic p \<Rightarrow> panic p
      | Ok data \<Rightarrow> CallEVMWithData k from_addr (Some contract) data commit)"

definition BalanceOf :: "'x Keeper \<Rightarrow> bytes \<Rightarrow> bytes \<Rightarrow> ('x erc_state, int option) act" where
  "BalanceOf k contract account =
     bnd (attempt (CallEVM k (erc20ABI k) (ModuleAddress k) contract False ''balanceOf'' [AddressVal account])) (\<lambda>r.
     case r of Inl e \<Rightarrow> ret None
     | Inr res \<Rightarrow>
         (case Unpack (erc20ABI k) ''balanceOf'' (Ret res) of
            Err e \<Rightarrow> ret None
          | Panic p \<Rightarrow> panic p
          | Ok unpacked \<Rightarrow> (case unpacked of BigVal balance # _ \<Rightarrow> ret (Some balance) | _ \<Rightarrow> ret None)))"

definition DeployERC20Contract :: "'x Keeper \<Rightarrow> Metadata \<Rightarrow> ('x erc_state, bytes) act" where
  "DeployERC20Contract k coinMetadata =
     (let decimals = (if DenomUnits coinMetadata \<noteq> [] then ucast (Exponent (last (DenomUnits coinMetadata))) else 0)
      in case Pack (erc20ABI k) '''' [TextVal (Name coinMetadata), TextVal (Symbol coinMetadata), ByteVal decimals] of
        Err e \<Rightarrow> raise ErrABIPack
      | Panic p \<Rightarrow> panic p
      | Ok ctorArgs \<Rightarrow>
          let data = erc20Bin k @ ctorArgs in
          bnd (gets (\<lambda>s. GetSequence (evmKeeper k) (ModuleAddress k) (kext s))) (\<lambda>seq.
          bnd (lift seq) (\<lambda>nonce.
          let contractAddr = CreateAddress (eth k) (ModuleAddress k) nonce in
          bnd (CallEVMWithData k (ModuleAddress k) None data True) (\<lambda>_.
          ret contractAddr))))"

text \<open>An unpacking error is reported as ErrABIUnpack.\<close>

definition unpacked :: "'a res \<Rightarrow> ('s, 'a) act" where
  "unpacked r = (case r of Ok v \<Rightarrow> ret v | Err e \<Rightarrow> raise ErrABIUnpack | Panic p \<Rightarrow> panic p)"

definition QueryERC20 :: "'x Keeper \<Rightarrow> bytes \<Rightarrow> ('x erc_state, ERC20Data) act" where
  "QueryERC20 k contract =
     bnd (CallEVM k (erc20ABI k) (ModuleAddress k) contract False ''name'' []) (\<lambda>res.
     bnd (unpacked (UnpackText (erc20ABI k) ''name'' (Ret res))) (\<lambda>nameRes.
     bnd (CallEVM k (erc20ABI k) (ModuleAddress k) contract False ''symbol'' []) (\<lambda>res.
     bnd (unpacked (UnpackText (erc20ABI k) ''symbol'' (Ret res))) (\<lambda>symbolRes.
     bnd (CallEVM k (erc20ABI k) (ModuleAddress k) contract False ''decimals'' []) (\<lambda>res.
     bnd (unpacked (UnpackByte (erc20ABI k) ''decimals'' (Ret res))) (\<lambda>decimalRes.
     ret (NewERC20Data nameRes symbolRes decimalRes)))))))"

fun monitor_logs :: "string \<Rightarrow> string list list \<Rightarrow> unit res" where
  "monitor_logs sig [] = Ok ()"
| "monitor_logs sig ([] # logs) = Panic ''index out of range''"
| "monitor_logs sig ((topic # topics) # logs) =
     (if topic = sig then Err ErrUnexpectedEvent else monitor_logs sig logs)"

definition monitorApprovalEvent :: "'x Keeper \<Rightarrow> evm_response \<Rightarrow> unit res" where
  "monitorApprovalEvent k res =
     monitor_logs (Keccak256Hex (eth k) ''Approval(address,address,uint256)'') (LogTopics res)"

section \<open>proposals.go\<close>

definition verifyMetadata :: "'x Keeper \<Rightarrow> Metadata \<Rightarrow> ('x erc_state, unit) act" where
  "verifyMetadata k coinMetadata =
     bnd (gets (\<lambda>s. GetDenomMetaData k (Base coinMetadata) (kext s))) (\<lambda>meta.
     case meta of
       None \<Rightarrow> modify (\<lambda>s. s\<lparr>kext := SetDenomMetaData k coinMetadata (kext s)\<rparr>)
     | Some m \<Rightarrow> lift (EqualMetadata m coinMetadata))"

text \<open>Storing a new pair under its identifier and in both indexes.\<close>

definition set_pair :: "'x Keeper \<Rightarrow> TokenPair \<Rightarrow> ('x erc_state, unit) act" where
  "set_pair k pair =
     bnd (SetTokenPair k pair) (\<lambda>_.
     bnd (SetTokenPairIdByDenom (PairDenom pair) (GetID (eth k) pair)) (\<lambda>_.
     SetTokenPairIdByERC20Addr (HexToAddress (eth k) (Erc20Address pair)) (GetID (eth k) pair)))"

definition RegisterCoin :: "'x Keeper \<Rightarrow> Metadata \<Rightarrow> ('x erc_state, TokenPair) act" where
  "RegisterCoin k coinMetadata =
     bnd GetParams (\<lambda>params.
     if \<not> EnableErc20 params then raise ErrERC20Disabled
     else if Contains (Base coinMetadata) ''CANTO'' then raise ErrEVMDenom
     else
       bnd (IsDenomRegistered (Base coinMetadata)) (\<lambda>registered.
       if registered then raise ErrTokenPairAlreadyExists
       else
         bnd (gets (\<lambda>s. HasSupply k (Base coinMetadata) (kext s))) (\<lambda>has.
         if \<not> has then raise ErrInvalidCoins
         else
           bnd (attempt (verifyMetadata k coinMetadata)) (\<lambda>v.
           case v of Inl e \<Rightarrow> raise ErrInternalTokenPair
           | Inr _ \<Rightarrow>
               bnd (DeployERC20Contract k coinMetadata) (\<lambda>addr.
               let pair = NewTokenPair (eth k) addr (Base coinMetadata) True OWNER_MODULE in
               bnd (set_pair k pair) (\<lambda>_. ret pair))))))"

definition erc20_metadata :: "string \<Rightarrow> ERC20Data \<Rightarrow> Metadata" where
  "erc20_metadata strContract erc20Data =
     (let base = CreateDenom strContract;
          metadata = \<lparr>Description = CreateDenomDescription strContract,
            DenomUnits = [\<lparr>UnitDenom = base, Exponent = 0, Aliases = []\<rparr>], Base = base, Display = base,
            Name = CreateDenom strContract, Symbol = TokenSymbol erc20Data, URI = '''', URIHash = ''''\<rparr>
      in if 0 < Decimals erc20Data
         then let nameSanitized = SanitizeERC20Name (TokenName erc20Data)
              in metadata\<lparr>DenomUnits := DenomUnits metadata @
                     [\<lparr>UnitDenom = nameSanitized, Exponent = ucast (Decimals erc20Data), Aliases = []\<rparr>],
                   Display := nameSanitized\<rparr>
         else metadata)"

definition CreateCoinMetadata :: "'x Keeper \<Rightarrow> bytes \<Rightarrow> ('x erc_state, Metadata) act" where
  "CreateCoinMetadata k contract =
     (let strContract = AddressHex (eth k) contract in
      bnd (QueryERC20 k contract) (\<lambda>erc20Data.
      bnd (gets (\<lambda>s. GetDenomMetaData k (CreateDenom strContract) (kext s))) (\<lambda>meta.
      if meta \<noteq> None then raise ErrInternalTokenPair
      else
        bnd (IsDenomRegistered (CreateDenom strContract)) (\<lambda>registered.
        if registered then raise ErrInternalTokenPair
        else
          let metadata = erc20_metadata strContract erc20Data in
          bnd (lift (Metadata_Validate k metadata)) (\<lambda>_.
          bnd (modify (\<lambda>s. s\<lparr>kext := SetDenomMetaData k metadata (kext s)\<rparr>)) (\<lambda>_.
          ret metadata))))))"

definition RegisterERC20 :: "'x Keeper \<Rightarrow> bytes \<Rightarrow> ('x erc_state, TokenPair) act" where
  "RegisterERC20 k contract =
     bnd GetParams (\<lambda>params.
     if \<not> EnableErc20 params then raise ErrERC20Disabled
     else
       bnd (IsERC20Registered contract) (\<lambda>registered.
       if registered then raise ErrTokenPairAlreadyExists
       else
         bnd (CreateCoinMetadata k contract) (\<lambda>metadata.
         let pair = NewTokenPair (eth k) contract (Name metadata) True OWNER_EXTERNAL in
         bnd (set_pair k pair) (\<lambda>_. ret pair))))"

definition ToggleConversion :: "'x Keeper \<Rightarrow> string \<Rightarrow> ('x erc_state, TokenPair) act" where
  "ToggleConversion k token =
     bnd (GetTokenPairID k token) (\<lambda>ident.
     if no_id ident then raise ErrTokenPairNotFound
     else
       bnd (GetTokenPair ident) (\<lambda>found.
       case found of None \<Rightarrow> raise ErrTokenPairNotFound
       | Some pair0 \<Rightarrow>
           let pair = pair0\<lparr>Enabled := \<not> Enabled pair0\<rparr> in
           bnd (SetTokenPair k pair) (\<lambda>_. ret pair)))"

section \<open>mint.go\<close>

definition MintingEnabled :: "'x Keeper \<Rightarrow> bytes \<Rightarrow> bytes \<Rightarrow> string \<Rightarrow> ('x erc_state, TokenPair) act" where
  "MintingEnabled k sender receiver token =
     bnd GetParams (\<lambda>params.
     if \<not> EnableErc20 params then raise ErrERC20Disabled
     else
       bnd (GetTokenPairID k token) (\<lambda>ident.
       if no_id ident then raise ErrTokenPairNotFound
       else
         bnd (GetTokenPair ident) (\<lambda>found.
         case found of None \<Rightarrow> raise ErrTokenPairNotFound
         | Some pair \<Rightarrow>
             if \<not> Enabled pair then raise ErrERC20TokenPairDisabled
             else if BlockedAddr k receiver then raise ErrUnauthorized
             else
               bnd (gets (\<lambda>s. IsSendEnabledCoin k (PairDenom pair) (kext s))) (\<lambda>enabled.
               if sender \<noteq> receiver \<and> \<not> enabled then raise ErrSendDisabled else ret pair))))"

section \<open>msg_server.go\<close>

text \<open>A balance the EVM does not report is an error.\<close>

definition balance_of :: "'x Keeper \<Rightarrow> bytes \<Rightarrow> bytes \<Rightarrow> ('x erc_state, int) act" where
  "balance_of k contract account =
     bnd (BalanceOf k contract account) (\<lambda>balanceToken.
     case balanceToken of None \<Rightarrow> raise ErrEVMCall | Some b \<Rightarrow> ret b)"

definition check_coin_received :: "sdk_lib \<Rightarrow> 'x Keeper \<Rightarrow> bytes \<Rightarrow> string \<Rightarrow> coin \<Rightarrow> coin \<Rightarrow> ('x erc_state, unit) act" where
  "check_coin_received L k receiver denom balanceCoin amount =
     bnd (gets (\<lambda>s. GetBalance (bankKeeper k) receiver denom (kext s))) (\<lambda>balanceCoinAfter.
     bnd (lift (CoinAdd L balanceCoin amount)) (\<lambda>expCoin.
     bnd (lift (CoinIsEqual L balanceCoinAfter expCoin)) (\<lambda>same.
     if \<not> same then raise ErrBalanceInvariance else ret ())))"

definition convertCoinNativeCoin :: "'x Keeper \<Rightarrow> TokenPair \<Rightarrow> MsgConvertCoin \<Rightarrow> bytes \<Rightarrow> bytes \<Rightarrow> ('x erc_state, unit) act" where
  "convertCoinNativeCoin k pair msg receiver sender =
     (let coins = [cc_Coin msg]; contract = GetERC20Contract (eth k) pair in
      bnd (balance_of k contract receiver) (\<lambda>balanceToken.
      bnd (on_ext (SendCoinsFromAccountToModule (bankKeeper k) sender ModuleName coins)) (\<lambda>_.
      bnd (CallEVM k (erc20ABI k) (ModuleAddress k) contract True ''mint''
            [AddressVal receiver, BigVal (Amount (cc_Coin msg))]) (\<lambda>_.
      let tokens = Amount (cc_Coin msg) in
      bnd (balance_of k contract receiver) (\<lambda>balanceTokenAfter.
      let expToken = balanceToken + tokens in
      if balanceTokenAfter \<noteq> expToken then raise ErrBalanceInvariance else ret ())))))"

definition convertERC20NativeCoin :: "sdk_lib \<Rightarrow> 'x Keeper \<Rightarrow> TokenPair \<Rightarrow> MsgConvertERC20 \<Rightarrow> bytes \<Rightarrow> bytes \<Rightarrow>
    ('x erc_state, unit) act" where
  "convertERC20NativeCoin L k pair msg receiver sender =
     (let coin = \<lparr>Denom = PairDenom pair, Amount = ce_Amount msg\<rparr>; coins = [coin];
          contract = GetERC20Contract (eth k) pair in
      bnd (gets (\<lambda>s. GetBalance (bankKeeper k) receiver (PairDenom pair) (kext s))) (\<lambda>balanceCoin.
      bnd (balance_of k contract sender) (\<lambda>balanceToken.
      bnd (CallEVM k (erc20ABI k) (ModuleAddress k) contract True ''burnCoins''
            [AddressVal sender, BigVal (ce_Amount msg)]) (\<lambda>_.
      bnd (on_ext (SendCoinsFromModuleToAccount (bankKeeper k) ModuleName receiver coins)) (\<lambda>_.
      bnd (check_coin_received L k receiver (PairDenom pair) balanceCoin coin) (\<lambda>_.
      let tokens = Amount coin in
      bnd (balance_of k contract sender) (\<lambda>balanceTokenAfter.
      let expToken = balanceToken - tokens in
      if balanceTokenAfter \<noteq> expToken then raise ErrBalanceInvariance else ret ())))))))"

definition convertERC20NativeToken :: "sdk_lib \<Rightarrow> 'x Keeper \<Rightarrow> TokenPair \<Rightarrow> MsgConvertERC20 \<Rightarrow> bytes \<Rightarrow> bytes \<Rightarrow>
    ('x erc_state, unit) act" where
  "convertERC20NativeToken L k pair msg receiver sender =
     (let coin = \<lparr>Denom = PairDenom pair, Amount = ce_Amount msg\<rparr>; coins = [coin];
          contract = GetERC20Contract (eth k) pair in
      bnd (gets (\<lambda>s. GetBalance (bankKeeper k) receiver (PairDenom pair) (kext s))) (\<lambda>balanceCoin.
      bnd (balance_of k contract (ModuleAddress k)) (\<lambda>balanceToken.
      bnd (lift (Pack (erc20ABI k) ''transfer'' [AddressVal (ModuleAddress k), BigVal (ce_Amount msg)])) (\<lambda>transferData.
      bnd (CallEVMWithData k sender (Some contract) transferData True) (\<lambda>res.
      bnd (lift (UnpackBool (erc20ABI k) ''transfer'' (Ret res))) (\<lambda>unpackedRet.
      if \<not> unpackedRet then raise ErrLogic
      else
        let tokens = Amount coin in
        bnd (balance_of k contract (ModuleAddress k)) (\<lambda>balanceTokenAfter.
        let expToken = balanceToken + tokens in
        if balanceTokenAfter \<noteq> expToken then raise ErrBalanceInvariance
        else
          bnd (on_ext (MintCoins (bankKeeper k) ModuleName coins)) (\<lambda>_.
          bnd (on_ext (SendCoinsFromModuleToAccount (bankKeeper k) ModuleName receiver coins)) (\<lambda>_.
          bnd (check_coin_received L k receiver (PairDenom pair) balanceCoin coin) (\<lambda>_.
          lift (monitorApprovalEvent k res)))))))))))"

definition convertCoinNativeERC20 :: "'x Keeper \<Rightarrow> TokenPair \<Rightarrow> MsgConvertCoin \<Rightarrow> bytes \<Rightarrow> bytes \<Rightarrow> ('x erc_state, unit) act" where
  "convertCoinNativeERC20 k pair msg receiver sender =
     (let coins = [cc_Coin msg]; contract = GetERC20Contract (eth k) pair in
      bnd (balance_of k contract receiver) (\<lambda>balanceToken.
      bnd (on_ext (SendCoinsFromAccountToModule (bankKeeper k) sender ModuleName coins)) (\<lambda>_.
      bnd (CallEVM k (erc20ABI k) (ModuleAddress k) contract True ''transfer''
            [AddressVal receiver, BigVal (Amount (cc_Coin msg))]) (\<lambda>res.
      bnd (lift (UnpackBool (erc20ABI k) ''transfer'' (Ret res))) (\<lambda>unpackedRet.
      if \<not> unpackedRet then raise ErrLogic
      else
        let tokens = Amount (cc_Coin msg) in
        bnd (balance_of k contract receiver) (\<lambda>balanceTokenAfter.
        let expToken = balanceToken + tokens in
        if balanceTokenAfter \<noteq> expToken then raise ErrBalanceInvariance
        else
          bnd (on_ext (BurnCoins (bankKeeper k) ModuleName coins)) (\<lambda>_.
          lift (monitorApprovalEvent k res))))))))"

text \<open>A pair whose contract is gone is dropped; the handler then returns a nil response.\<close>

definition contract_gone :: "'x Keeper \<Rightarrow> TokenPair \<Rightarrow> 'x \<Rightarrow> bool" where
  "contract_gone k pair x =
     (case GetAccountWithoutBalance (evmKeeper k) (HexToAddress (eth k) (Erc20Address pair)) x of
        None \<Rightarrow> True | Some isContract \<Rightarrow> \<not> isContract)"

definition ConvertCoin :: "sdk_lib \<Rightarrow> 'x Keeper \<Rightarrow> MsgConvertCoin \<Rightarrow> ('x erc_state, unit option) act" where
  "ConvertCoin L k msg =
     bnd (lift (case ValidateErc20Denom (eth k) (Denom (cc_Coin msg)) of
                  Err e \<Rightarrow> ValidateIBCDenom (eth k) (Denom (cc_Coin msg)) | r \<Rightarrow> r)) (\<lambda>_.
     if \<not> 0 < Amount (cc_Coin msg) then raise ErrInvalidCoins
     else
       bnd (lift (AccAddressFromBech32 L (cc_Sender msg))) (\<lambda>sender.
       if \<not> IsHexAddress (eth k) (cc_Receiver msg) then raise ErrInvalidAddress
       else
         let receiver = HexToAddress (eth k) (cc_Receiver msg) in
         bnd (MintingEnabled k sender receiver (Denom (cc_Coin msg))) (\<lambda>pair.
         bnd (gets (\<lambda>s. contract_gone k pair (kext s))) (\<lambda>gone.
         if gone then bnd (DeleteTokenPair k pair) (\<lambda>_. ret None)
         else if IsNativeCoin pair then bnd (convertCoinNativeCoin k pair msg receiver sender) (\<lambda>u. ret (Some u))
         else if IsNativeERC20 pair then bnd (convertCoinNativeERC20 k pair msg receiver sender) (\<lambda>u. ret (Some u))
         else raise ErrUndefinedOwner))))"

definition ConvertERC20 :: "sdk_lib \<Rightarrow> 'x Keeper \<Rightarrow> MsgConvertERC20 \<Rightarrow> ('x erc_state, unit option) act" where
  "ConvertERC20 L k msg =
     (if \<not> IsHexAddress (eth k) (ce_ContractAddress msg) then raise ErrInvalidAddress
      else if \<not> 0 < ce_Amount msg then raise ErrInvalidCoins
      else
        bnd (lift (AccAddressFromBech32 L (ce_Receiver msg))) (\<lambda>receiver.
        if \<not> IsHexAddress (eth k) (ce_Sender msg) then raise ErrInvalidAddress
        else
          let sender = HexToAddress (eth k) (ce_Sender msg) in
          bnd (MintingEnabled k sender receiver (ce_ContractAddress msg)) (\<lambda>pair.
          bnd (gets (\<lambda>s. contract_gone k pair (kext s))) (\<lambda>gone.
          if gone then bnd (DeleteTokenPair k pair) (\<lambda>_. ret None)
          else if IsNativeCoin pair then bnd (convertERC20NativeCoin L k pair msg receiver sender) (\<lambda>u. ret (Some u))
          else if IsNativeERC20 pair then bnd (convertERC20NativeToken L k pair msg receiver sender) (\<lambda>u. ret (Some u))
          else raise ErrUndefinedOwner))))"

text \<open>The messages of governance: all four check the authority first.\<close>

definition msg_UpdateParams :: "'x Keeper \<Rightarrow> string \<Rightarrow> Params \<Rightarrow> ('x erc_state, unit) act" where
  "msg_UpdateParams k auth params =
     (if GetAuthority k \<noteq> auth then raise ErrInvalidSigner
      else bnd (lift (Params_Validate params)) (\<lambda>_. SetParams params))"

definition msg_RegisterCoin :: "'x Keeper \<Rightarrow> string \<Rightarrow> Metadata \<Rightarrow> ('x erc_state, unit) act" where
  "msg_RegisterCoin k auth coinMetadata =
     (if GetAuthority k \<noteq> auth then raise ErrInvalidSigner
      else bnd (RegisterCoin k coinMetadata) (\<lambda>_. ret ()))"

definition msg_RegisterERC20 :: "'x Keeper \<Rightarrow> string \<Rightarrow> string \<Rightarrow> ('x erc_state, unit) act" where
  "msg_RegisterERC20 k auth erc20Address =
     (if GetAuthority k \<noteq> auth then raise ErrInvalidSigner
      else
        let contract = HexToAddress (eth k) erc20Address in
        bnd (RegisterERC20 k contract) (\<lambda>_. ret ()))"

definition msg_ToggleTokenConversion :: "'x Keeper \<Rightarrow> string \<Rightarrow> string \<Rightarrow> ('x erc_state, unit) act" where
  "msg_ToggleTokenConversion k auth token =
     (if GetAuthority k \<noteq> auth then raise ErrInvalidSigner
      else bnd (ToggleConversion k token) (\<lambda>_. ret ()))"

section \<open>evm_hooks.go\<close>

definition ERC20EventTransfer :: string where
  "ERC20EventTransfer = ''Transfer''"

text \<open>The amount of a log that is a Transfer event of the ERC20 interface.\<close>

definition transfer_amount :: "'x Keeper \<Rightarrow> evm_log \<Rightarrow> int option res" where
  "transfer_amount k log =
     (if length (Topics log) \<noteq> 3 then Ok None
      else
        case EventByID (erc20ABI k) (Topics log ! 0) of
          None \<Rightarrow> Ok None
        | Some name \<Rightarrow>
            if name \<noteq> ERC20EventTransfer then Ok None
            else
              case Unpack (erc20ABI k) name (LogData log) of
                Err e \<Rightarrow> Ok None
              | Panic p \<Rightarrow> Panic p
              | Ok transferEvent \<Rightarrow>
                  Ok (case transferEvent of BigVal tokens # _ \<Rightarrow> if 0 < tokens then Some tokens else None | _ \<Rightarrow> None))"

definition convert_log :: "'x Keeper \<Rightarrow> evm_log \<Rightarrow> TokenPair \<Rightarrow> int \<Rightarrow> coin list \<Rightarrow> ('x erc_state, unit) act" where
  "convert_log k log pair tokens coins =
     bnd (attempt (case ContractOwner pair of
            OWNER_MODULE \<Rightarrow>
              bnd (CallEVM k (erc20ABI k) (ModuleAddress k) (LogAddress log) True ''burn'' [BigVal tokens]) (\<lambda>_. ret ())
          | OWNER_EXTERNAL \<Rightarrow> on_ext (MintCoins (bankKeeper k) ModuleName coins)
          | OWNER_UNSPECIFIED \<Rightarrow> raise ErrUndefinedOwner)) (\<lambda>done.
     case done of Inl e \<Rightarrow> ret ()
     | Inr _ \<Rightarrow>
         let recipient = BytesToAddress (eth k) (Topics log ! 1) in
         bnd (attempt (on_ext (SendCoinsFromModuleToAccount (bankKeeper k) ModuleName recipient coins))) (\<lambda>_.
         ret ()))"

definition process_log :: "sdk_lib \<Rightarrow> 'x Keeper \<Rightarrow> evm_log \<Rightarrow> ('x erc_state, unit) act" where
  "process_log L k log =
     bnd (lift (transfer_amount k log)) (\<lambda>amount.
     case amount of None \<Rightarrow> ret ()
     | Some tokens \<Rightarrow>
         bnd (GetTokenPairIdByERC20Addr (LogAddress log)) (\<lambda>ident.
         if no_id ident then ret ()
         else
           bnd (GetTokenPair ident) (\<lambda>found.
           case found of None \<Rightarrow> ret ()
           | Some pair \<Rightarrow>
               if BytesToAddress (eth k) (Topics log ! 2) \<noteq> ModuleAddress k then ret ()
               else if \<not> Enabled pair then ret ()
               else
                 bnd (lift (NewIntFromBigInt L tokens)) (\<lambda>n.
                 convert_log k log pair tokens [\<lparr>Denom = PairDenom pair, Amount = n\<rparr>]))))"

definition PostTxProcessing :: "sdk_lib \<Rightarrow> 'x Keeper \<Rightarrow> evm_log list \<Rightarrow> ('x erc_state, unit) act" where
  "PostTxProcessing L k logs =
     bnd GetParams (\<lambda>params.
     if \<not> EnableErc20 params \<or> \<not> EnableEVMHook params then ret ()
     else for_each (process_log L k) logs)"

section \<open>Genesis, migration and queries\<close>

definition InitGenesis :: "'x Keeper \<Rightarrow> GenesisState \<Rightarrow> ('x erc_state, unit) act" where
  "InitGenesis k data =
     bnd (SetParams (gs_Params data)) (\<lambda>_.
     bnd (on_ext (GetModuleAccount k ModuleName)) (\<lambda>acc.
     if \<not> acc then panic ''the erc20 module account has not been set''
     else
       bnd (for_each (SetTokenPair k) (TokenPairs data)) (\<lambda>_.
       bnd (for_each (\<lambda>idx. SetTokenPairIdByDenom (idxDenom idx) (idxDenomPairId idx)) (DenomIndexes data)) (\<lambda>_.
       for_each (\<lambda>idx. SetTokenPairIdByERC20Addr (BytesToAddress (eth k) (idxErc20Address idx)) (idxErc20PairId idx))
         (Erc20AddressIndexes data)))))"

definition ExportGenesis :: "'x Keeper \<Rightarrow> ('x erc_state, GenesisState) act" where
  "ExportGenesis k =
     bnd GetParams (\<lambda>params.
     bnd GetTokenPairs (\<lambda>tokenPairs.
     bnd GetAllTokenPairDenomIndexes (\<lambda>denomIndexes.
     bnd (GetAllTokenPairERC20AddressIndexes k) (\<lambda>erc20AddressIndexes.
     ret \<lparr>gs_Params = params, TokenPairs = tokenPairs, DenomIndexes = denomIndexes,
          Erc20AddressIndexes = erc20AddressIndexes\<rparr>))))"

definition UpdateParams_v2 :: "('x erc_state, unit) act" where
  "UpdateParams_v2 = param_set \<lparr>EnableErc20 = True, EnableEVMHook = True\<rparr>"

definition TokenPairs_query :: "('pg \<Rightarrow> (bytes \<times> erc_value) list \<Rightarrow> ((bytes \<times> erc_value) list \<times> 'pr) res) \<Rightarrow>
    'pg option \<Rightarrow> ('x erc_state, TokenPair list \<times> 'pr) act" where
  "TokenPairs_query paginate req =
     (case req of None \<Rightarrow> raise status_InvalidArgument
      | Some pagination \<Rightarrow>
          bnd (store_iterate KeyPrefixTokenPair) (\<lambda>es.
          case paginate pagination es of
            Err e \<Rightarrow> raise status_Internal
          | Panic p \<Rightarrow> panic p
          | Ok (page, pageRes) \<Rightarrow>
              (case decode_pairs page of Ok pairs \<Rightarrow> ret (pairs, pageRes) | _ \<Rightarrow> raise status_Internal)))"

definition TokenPair_query :: "sdk_lib \<Rightarrow> 'x Keeper \<Rightarrow> string option \<Rightarrow> ('x erc_state, TokenPair) act" where
  "TokenPair_query L k req =
     (case req of None \<Rightarrow> raise status_InvalidArgument
      | Some token \<Rightarrow>
          if ValidateAddress (eth k) token \<noteq> Ok () \<and> ValidateDenom L token \<noteq> Ok () then raise status_InvalidArgument
          else
            bnd (GetTokenPairID k token) (\<lambda>ident.
            if no_id ident then raise status_NotFound
            else
              bnd (GetTokenPair ident) (\<lambda>found.
              case found of None \<Rightarrow> raise status_NotFound | Some pair \<Rightarrow> ret pair)))"

definition Params_query :: "('x erc_state, Params) act" where
  "Params_query = GetParams"

end
