(* ===== verification/Erc20_Registry.thy ===== *)
theory Erc20_Registry
  imports Erc20
begin

text \<open>
  The invariant of the registry of token pairs and that every operation of the module
  keeps it: a pair is stored under its identifier and found through its denomination and
  through its contract, and neither index points anywhere else.
\<close>

section \<open>The invariant\<close>

abbreviation erc_get :: "'x erc_state \<Rightarrow> bytes \<Rightarrow> erc_value option" where
  "erc_get s \<equiv> kv_get (kvstore (kown s))"

definition registered :: "eth_lib \<Rightarrow> 'x erc_state \<Rightarrow> TokenPair \<Rightarrow> bool" where
  "registered E s p \<longleftrightarrow> erc_get s (pair_key (GetID E p)) = Some (PairVal p)"

definition pairs_ok :: "eth_lib \<Rightarrow> 'x erc_state \<Rightarrow> bool" where
  "pairs_ok E s \<longleftrightarrow> kv_ok (kvstore (kown s)) \<and>
     (\<forall>i v. erc_get s (pair_key i) = Some v \<longrightarrow>
        (\<exists>p. v = PairVal p \<and> i = GetID E p \<and> erc_get s (denom_key (PairDenom p)) = Some (IdVal i) \<and>
             erc_get s (erc20_key (GetERC20Contract E p)) = Some (IdVal i))) \<and>
     (\<forall>d v. erc_get s (denom_key d) = Some v \<longrightarrow>
        (\<exists>p. v = IdVal (GetID E p) \<and> registered E s p \<and> PairDenom p = d)) \<and>
     (\<forall>a v. erc_get s (erc20_key a) = Some v \<longrightarrow>
        (\<exists>p. v = IdVal (GetID E p) \<and> registered E s p \<and> GetERC20Contract E p = a))"

lemma erc_keys [simp]:
  "pair_key i \<noteq> denom_key d" "denom_key d \<noteq> pair_key i" "pair_key i \<noteq> erc20_key a" "erc20_key a \<noteq> pair_key i"
  "denom_key d \<noteq> erc20_key a" "erc20_key a \<noteq> denom_key d"
  "pair_key i = pair_key j \<longleftrightarrow> i = j" "denom_key d = denom_key e \<longleftrightarrow> d = e" "erc20_key a = erc20_key b \<longleftrightarrow> a = b"
  by (auto simp: pair_key_def denom_key_def erc20_key_def KeyPrefixTokenPair_def KeyPrefixTokenPairByDenom_def
      KeyPrefixTokenPairByERC20Address_def)

lemma pairs_ok_pair:
  assumes "pairs_ok E s" and "erc_get s (pair_key i) = Some v"
  obtains p where "v = PairVal p" "i = GetID E p" "erc_get s (denom_key (PairDenom p)) = Some (IdVal i)"
    "erc_get s (erc20_key (GetERC20Contract E p)) = Some (IdVal i)"
  using assms unfolding pairs_ok_def by blast

lemma pairs_ok_denom:
  assumes "pairs_ok E s" and "erc_get s (denom_key d) = Some v"
  obtains p where "v = IdVal (GetID E p)" "registered E s p" "PairDenom p = d"
  using assms unfolding pairs_ok_def by blast

lemma pairs_ok_erc20:
  assumes "pairs_ok E s" and "erc_get s (erc20_key a) = Some v"
  obtains p where "v = IdVal (GetID E p)" "registered E s p" "GetERC20Contract E p = a"
  using assms unfolding pairs_ok_def by blast

text \<open>A registered pair is determined by its denomination, and by its contract.\<close>

lemma registered_unique:
  assumes "pairs_ok E s" and "registered E s p" and "registered E s q"
    and "PairDenom p = PairDenom q \<or> GetERC20Contract E p = GetERC20Contract E q"
  shows "p = q"
proof -
  obtain p' where "PairVal p = PairVal p'" "erc_get s (denom_key (PairDenom p')) = Some (IdVal (GetID E p))"
    "erc_get s (erc20_key (GetERC20Contract E p')) = Some (IdVal (GetID E p))"
    using assms(2) unfolding registered_def by (rule pairs_ok_pair [OF assms(1)])
  moreover obtain q' where "PairVal q = PairVal q'" "erc_get s (denom_key (PairDenom q')) = Some (IdVal (GetID E q))"
    "erc_get s (erc20_key (GetERC20Contract E q')) = Some (IdVal (GetID E q))"
    using assms(3) unfolding registered_def by (rule pairs_ok_pair [OF assms(1)])
  ultimately have "GetID E p = GetID E q" using assms(4) by auto
  then show ?thesis using assms(2,3) by (simp add: registered_def)
qed

section \<open>Storing, toggling and deleting a pair\<close>

lemma set_pair_Ok:
  assumes "set_pair k p s = (Ok u, t)"
  shows "kext t = kext s \<and> pspace (kown t) = pspace (kown s) \<and>
    kvstore (kown t) = kv_set (erc20_key (GetERC20Contract (eth k) p)) (IdVal (GetID (eth k) p))
      (kv_set (denom_key (PairDenom p)) (IdVal (GetID (eth k) p))
      (kv_set (pair_key (GetID (eth k) p)) (PairVal p) (kvstore (kown s))))"
  using assms
  by (auto simp: set_pair_def SetTokenPair_def SetTokenPairIdByDenom_def SetTokenPairIdByERC20Addr_def
      set_prefixed_def pair_key_def denom_key_def erc20_key_def GetERC20Contract_def split: if_splits)

lemma set_pair_keeps:
  assumes ok: "pairs_ok (eth k) s" and run: "set_pair k p s = (Ok u, t)"
    and free: "erc_get s (denom_key (PairDenom p)) = None" "erc_get s (erc20_key (GetERC20Contract (eth k) p)) = None"
    and id: "erc_get s (pair_key (GetID (eth k) p)) = None"
  shows "pairs_ok (eth k) t"
proof -
  let ?E = "eth k"
  have kv: "kvstore (kown t) = kv_set (erc20_key (GetERC20Contract ?E p)) (IdVal (GetID ?E p))
      (kv_set (denom_key (PairDenom p)) (IdVal (GetID ?E p))
      (kv_set (pair_key (GetID ?E p)) (PairVal p) (kvstore (kown s))))"
    using set_pair_Ok [OF run] by blast
  have get: "erc_get t (pair_key i) = (if i = GetID ?E p then Some (PairVal p) else erc_get s (pair_key i))"
    "erc_get t (denom_key d) = (if d = PairDenom p then Some (IdVal (GetID ?E p)) else erc_get s (denom_key d))"
    "erc_get t (erc20_key a) = (if a = GetERC20Contract ?E p then Some (IdVal (GetID ?E p)) else erc_get s (erc20_key a))"
    for i d a
    by (simp_all add: kv kv_get_set)
  have old: "registered ?E t q" if "registered ?E s q" for q
    using that id by (auto simp: registered_def get)
  have new: "registered ?E t p" by (simp add: registered_def get)
  have "\<exists>q. v = PairVal q \<and> i = GetID ?E q \<and> erc_get t (denom_key (PairDenom q)) = Some (IdVal i) \<and>
      erc_get t (erc20_key (GetERC20Contract ?E q)) = Some (IdVal i)" if "erc_get t (pair_key i) = Some v" for i v
  proof (cases "i = GetID ?E p")
    case False
    then have "erc_get s (pair_key i) = Some v" using that by (simp add: get)
    from pairs_ok_pair [OF ok this] obtain q where "v = PairVal q" "i = GetID ?E q"
      "erc_get s (denom_key (PairDenom q)) = Some (IdVal i)"
      "erc_get s (erc20_key (GetERC20Contract ?E q)) = Some (IdVal i)" .
    moreover from this have "PairDenom q \<noteq> PairDenom p" "GetERC20Contract ?E q \<noteq> GetERC20Contract ?E p"
      using free by auto
    ultimately show ?thesis by (simp add: get)
  qed (use that in \<open>auto simp: get intro!: exI [of _ p]\<close>)
  moreover have "\<exists>q. v = IdVal (GetID ?E q) \<and> registered ?E t q \<and> PairDenom q = d"
    if "erc_get t (denom_key d) = Some v" for d v
    using that new old pairs_ok_denom [OF ok] by (cases "d = PairDenom p") (auto simp: get, metis)
  moreover have "\<exists>q. v = IdVal (GetID ?E q) \<and> registered ?E t q \<and> GetERC20Contract ?E q = a"
    if "erc_get t (erc20_key a) = Some v" for a v
    using that new old pairs_ok_erc20 [OF ok] by (cases "a = GetERC20Contract ?E p") (auto simp: get, metis)
  moreover have "kv_ok (kvstore (kown t))" using ok by (simp add: pairs_ok_def kv kv_ok_set)
  ultimately show ?thesis unfolding pairs_ok_def by blast
qed

text \<open>Switching a pair on or off keeps its identifier.\<close>

lemma toggle_keeps:
  assumes ok: "pairs_ok E s" and p: "registered E s p"
    and kv: "kvstore (kown t) = kv_set (pair_key (GetID E p)) (PairVal (p\<lparr>Enabled := b\<rparr>)) (kvstore (kown s))"
  shows "pairs_ok E t"
proof -
  let ?p = "p\<lparr>Enabled := b\<rparr>"
  have sel: "GetID E ?p = GetID E p" "GetERC20Contract E ?p = GetERC20Contract E p"
    by (simp_all add: GetID_def GetERC20Contract_def)
  have get: "erc_get t (pair_key i) = (if i = GetID E p then Some (PairVal ?p) else erc_get s (pair_key i))"
    "erc_get t (denom_key d) = erc_get s (denom_key d)" "erc_get t (erc20_key a) = erc_get s (erc20_key a)" for i d a
    by (simp_all add: kv kv_get_set)
  have same: "\<exists>q'. registered E t q' \<and> GetID E q' = GetID E q \<and> PairDenom q' = PairDenom q \<and>
      GetERC20Contract E q' = GetERC20Contract E q" if "registered E s q" for q
  proof (cases "GetID E q = GetID E p")
    case True
    then have "q = p" using that p by (simp add: registered_def)
    then show ?thesis using sel by (intro exI [of _ ?p]) (simp add: registered_def get)
  next
    case False
    then show ?thesis using that by (intro exI [of _ q]) (simp add: registered_def get)
  qed
  have "\<exists>q. v = PairVal q \<and> i = GetID E q \<and> erc_get t (denom_key (PairDenom q)) = Some (IdVal i) \<and>
      erc_get t (erc20_key (GetERC20Contract E q)) = Some (IdVal i)" if "erc_get t (pair_key i) = Some v" for i v
  proof (cases "i = GetID E p")
    case True
    have "erc_get s (denom_key (PairDenom p)) = Some (IdVal (GetID E p)) \<and>
        erc_get s (erc20_key (GetERC20Contract E p)) = Some (IdVal (GetID E p))"
      using ok p unfolding pairs_ok_def registered_def by blast
    then show ?thesis using that True sel by (intro exI [of _ ?p]) (simp add: get)
  next
    case False
    then show ?thesis using that ok unfolding pairs_ok_def get by auto
  qed
  moreover have "\<exists>q. v = IdVal (GetID E q) \<and> registered E t q \<and> PairDenom q = d"
    if "erc_get t (denom_key d) = Some v" for d v
    using that same pairs_ok_denom [OF ok, of d v] unfolding get by metis
  moreover have "\<exists>q. v = IdVal (GetID E q) \<and> registered E t q \<and> GetERC20Contract E q = a"
    if "erc_get t (erc20_key a) = Some v" for a v
    using that same pairs_ok_erc20 [OF ok, of a v] unfolding get by metis
  moreover have "kv_ok (kvstore (kown t))" using ok by (simp add: pairs_ok_def kv kv_ok_set)
  ultimately show ?thesis unfolding pairs_ok_def by blast
qed

text \<open>Dropping a registered pair removes it from the store and from both indexes.\<close>

lemma DeleteTokenPair_Ok:
  assumes "DeleteTokenPair k p s = (Ok u, t)"
  shows "kext t = kext s \<and> pspace (kown t) = pspace (kown s) \<and>
    kvstore (kown t) = kv_del (denom_key (PairDenom p))
      (kv_del (erc20_key (GetERC20Contract (eth k) p)) (kv_del (pair_key (GetID (eth k) p)) (kvstore (kown s))))"
  using assms
  by (auto simp: DeleteTokenPair_def deleteTokenPair_def deleteTokenPairIdByERC20Addr_def deleteTokenPairIdByDenom_def)

lemma delete_keeps:
  assumes ok: "pairs_ok (eth k) s" and run: "DeleteTokenPair k p s = (Ok u, t)" and p: "registered (eth k) s p"
  shows "pairs_ok (eth k) t \<and> (\<forall>q. registered (eth k) t q \<longleftrightarrow> registered (eth k) s q \<and> q \<noteq> p)"
proof -
  let ?E = "eth k"
  have kv: "kvstore (kown t) = kv_del (denom_key (PairDenom p))
      (kv_del (erc20_key (GetERC20Contract ?E p)) (kv_del (pair_key (GetID ?E p)) (kvstore (kown s))))"
    using DeleteTokenPair_Ok [OF run] by blast
  have okm: "kv_ok (kvstore (kown s))" using ok by (simp add: pairs_ok_def)
  have get: "erc_get t (pair_key i) = (if i = GetID ?E p then None else erc_get s (pair_key i))"
    "erc_get t (denom_key d) = (if d = PairDenom p then None else erc_get s (denom_key d))"
    "erc_get t (erc20_key a) = (if a = GetERC20Contract ?E p then None else erc_get s (erc20_key a))" for i d a
    using okm by (simp_all add: kv kv_get_del kv_ok_del)
  have reg: "registered ?E t q \<longleftrightarrow> registered ?E s q \<and> q \<noteq> p" for q
    using p by (auto simp: registered_def get)
  have "\<exists>q. v = PairVal q \<and> i = GetID ?E q \<and> erc_get t (denom_key (PairDenom q)) = Some (IdVal i) \<and>
      erc_get t (erc20_key (GetERC20Contract ?E q)) = Some (IdVal i)" if "erc_get t (pair_key i) = Some v" for i v
  proof -
    have i: "i \<noteq> GetID ?E p" "erc_get s (pair_key i) = Some v" using that by (auto simp: get split: if_splits)
    from pairs_ok_pair [OF ok i(2)] obtain q where q: "v = PairVal q" "i = GetID ?E q"
      "erc_get s (denom_key (PairDenom q)) = Some (IdVal i)"
      "erc_get s (erc20_key (GetERC20Contract ?E q)) = Some (IdVal i)" .
    then have "registered ?E s q" using i by (simp add: registered_def)
    then have "PairDenom q \<noteq> PairDenom p" "GetERC20Contract ?E q \<noteq> GetERC20Contract ?E p"
      using registered_unique [OF ok _ p, of q] i q by auto
    then show ?thesis using q by (auto simp: get)
  qed
  moreover have "\<exists>q. v = IdVal (GetID ?E q) \<and> registered ?E t q \<and> PairDenom q = d"
    if "erc_get t (denom_key d) = Some v" for d v
    using that reg pairs_ok_denom [OF ok, of d v] unfolding get by (metis option.distinct(1))
  moreover have "\<exists>q. v = IdVal (GetID ?E q) \<and> registered ?E t q \<and> GetERC20Contract ?E q = a"
    if "erc_get t (erc20_key a) = Some v" for a v
    using that reg pairs_ok_erc20 [OF ok, of a v] unfolding get by (metis option.distinct(1))
  moreover have "kv_ok (kvstore (kown t))" using okm by (simp add: kv kv_ok_del)
  ultimately show ?thesis using reg unfolding pairs_ok_def by blast
qed

lemma pairs_ok_cong: "kvstore (kown t) = kvstore (kown s) \<Longrightarrow> pairs_ok E t = pairs_ok E s"
  by (simp add: pairs_ok_def registered_def)

section \<open>Operations that leave the registry alone\<close>

lemma get_id_Ok_iff: "get_id key s = (Ok r, t) \<longleftrightarrow> t = s \<and>
    (case erc_get s key of None \<Rightarrow> r = None | Some (IdVal i) \<Rightarrow> r = Some i | Some (PairVal p) \<Rightarrow> False)"
  by (auto simp: get_id_def split: option.splits erc_value.splits)

lemma GetTokenPair_Ok: "GetTokenPair (Some i) s = (Ok (Some p), t) \<longleftrightarrow> t = s \<and> erc_get s (pair_key i) = Some (PairVal p)"
  by (auto simp: GetTokenPair_def split: option.splits erc_value.splits)

lemma GetTokenPairID_Ok:
  assumes "GetTokenPairID k token s = (Ok r, t)"
  shows "t = s \<and> (\<forall>i. r = Some i \<longrightarrow>
    erc_get s (if IsHexAddress (eth k) token then erc20_key (HexToAddress (eth k) token) else denom_key token) = Some (IdVal i))"
  using assms
  by (auto simp: GetTokenPairID_def GetTokenPairIdByERC20Addr_def GetTokenPairIdByDenom_def get_id_Ok_iff
      split: if_splits option.splits erc_value.splits)

text \<open>The pair found for a token is the registered one.\<close>

definition pair_for :: "'x Keeper \<Rightarrow> 'x erc_state \<Rightarrow> string \<Rightarrow> TokenPair \<Rightarrow> bool" where
  "pair_for k s token p \<longleftrightarrow> registered (eth k) s p \<and>
     (if IsHexAddress (eth k) token then GetERC20Contract (eth k) p = HexToAddress (eth k) token else PairDenom p = token)"

lemma lookup_pair:
  assumes ok: "pairs_ok (eth k) s" and "GetTokenPairID k token s = (Ok (Some i), s)"
    and p: "erc_get s (pair_key i) = Some (PairVal p)"
  shows "pair_for k s token p"
proof -
  let ?E = "eth k"
  have idx: "erc_get s (if IsHexAddress ?E token then erc20_key (HexToAddress ?E token) else denom_key token) = Some (IdVal i)"
    using GetTokenPairID_Ok [OF assms(2)] by blast
  have i: "i = GetID ?E p" using ok p unfolding pairs_ok_def by blast
  then have reg: "registered ?E s p" using p by (simp add: registered_def)
  show ?thesis
  proof (cases "IsHexAddress ?E token")
    case True
    then obtain q where "registered ?E s q" "GetID ?E q = i" "GetERC20Contract ?E q = HexToAddress ?E token"
      using pairs_ok_erc20 [OF ok, of "HexToAddress ?E token" "IdVal i"] idx by auto
    moreover from this have "q = p" using reg i by (simp add: registered_def)
    ultimately show ?thesis using True reg by (simp add: pair_for_def)
  next
    case False
    then obtain q where "registered ?E s q" "GetID ?E q = i" "PairDenom q = token"
      using pairs_ok_denom [OF ok, of token "IdVal i"] idx by auto
    moreover from this have "q = p" using reg i by (simp add: registered_def)
    ultimately show ?thesis using False reg by (simp add: pair_for_def)
  qed
qed

lemma MintingEnabled_Ok:
  assumes "MintingEnabled k sender receiver token s = (Ok p, t)" and "pairs_ok (eth k) s"
  shows "t = s \<and> pair_for k s token p \<and> Enabled p \<and> \<not> BlockedAddr k receiver \<and>
    (\<exists>params. pspace (kown s) = Some params \<and> EnableErc20 params)"
proof -
  have "\<exists>params r s1 found s2. pspace (kown s) = Some params \<and> EnableErc20 params \<and>
      GetTokenPairID k token s = (Ok r, s1) \<and> \<not> no_id r \<and> GetTokenPair r s1 = (Ok found, s2) \<and>
      (case found of None \<Rightarrow> raise ErrTokenPairNotFound
       | Some pair \<Rightarrow>
           if \<not> Enabled pair then raise ErrERC20TokenPairDisabled
           else if BlockedAddr k receiver then raise ErrUnauthorized
           else
             bnd (gets (\<lambda>s. IsSendEnabledCoin k (PairDenom pair) (kext s))) (\<lambda>enabled.
             if sender \<noteq> receiver \<and> \<not> enabled then raise ErrSendDisabled else ret pair)) s2 = (Ok p, t)"
    using assms(1) unfolding MintingEnabled_def GetParams_def bnd_Ok_iff [of param_get] bnd_Ok_iff [of "GetTokenPairID k token"]
      bnd_Ok_iff [of "GetTokenPair _"] if_act_Ok_iff [of "\<not> EnableErc20 _"] if_act_Ok_iff [of "no_id _"] raise_Ok_iff
      param_get_Ok_iff by blast
  then obtain params r s1 found s2 where ps: "pspace (kown s) = Some params" "EnableErc20 params"
    and r: "GetTokenPairID k token s = (Ok r, s1)" "\<not> no_id r" and f: "GetTokenPair r s1 = (Ok found, s2)"
    and rest: "(case found of None \<Rightarrow> raise ErrTokenPairNotFound
       | Some pair \<Rightarrow>
           if \<not> Enabled pair then raise ErrERC20TokenPairDisabled
           else if BlockedAddr k receiver then raise ErrUnauthorized
           else
             bnd (gets (\<lambda>s. IsSendEnabledCoin k (PairDenom pair) (kext s))) (\<lambda>enabled.
             if sender \<noteq> receiver \<and> \<not> enabled then raise ErrSendDisabled else ret pair)) s2 = (Ok p, t)"
    by blast
  have s1: "s1 = s" using GetTokenPairID_Ok r(1) by blast
  obtain i where i: "r = Some i" using r(2) by (auto simp: no_id_def split: option.splits)
  have "found = Some p" "Enabled p" "\<not> BlockedAddr k receiver" "t = s2"
    using rest by (auto split: option.splits if_splits)
  then have "t = s" "erc_get s (pair_key i) = Some (PairVal p)" "Enabled p" "\<not> BlockedAddr k receiver"
    "GetTokenPairID k token s = (Ok (Some i), s)"
    using f r(1) s1 i by (auto simp: GetTokenPair_Ok)
  then show ?thesis
    using lookup_pair [OF assms(2)] ps by blast
qed

text \<open>Calls into the EVM and the conversions touch other modules only, on success and on failure.\<close>

lemma keeps_CallEVMWithData [keeps_intros]: "keeps kown (CallEVMWithData k a c d b)"
  unfolding CallEVMWithData_def Let_def by (intro keeps_intros)

lemma keeps_CallEVM [keeps_intros]: "keeps kown (CallEVM k a x c b m args)"
  unfolding CallEVM_def by (auto intro: keeps_intros split: res.split)

lemma keeps_BalanceOf [keeps_intros]: "keeps kown (BalanceOf k c a)"
  unfolding BalanceOf_def
  by (intro keeps_intros) (auto intro: keeps_intros split: sum.split res.split list.split abi_value.split)

lemma keeps_balance_of [keeps_intros]: "keeps kown (balance_of k c a)"
  unfolding balance_of_def by (intro keeps_intros) (auto intro: keeps_intros split: option.split)

lemma keeps_check_coin [keeps_intros]: "keeps kown (check_coin_received L k r d b a)"
  unfolding check_coin_received_def by (intro keeps_intros)

lemma keeps_conversions [keeps_intros]:
  "keeps kown (convertCoinNativeCoin k p m r a)" "keeps kown (convertCoinNativeERC20 k p m r a)"
  "keeps kown (convertERC20NativeCoin L k p e r a)" "keeps kown (convertERC20NativeToken L k p e r a)"
  unfolding convertCoinNativeCoin_def convertCoinNativeERC20_def convertERC20NativeCoin_def
    convertERC20NativeToken_def Let_def
  by (intro keeps_intros)+

lemma keeps_DeployERC20Contract [keeps_intros]: "keeps kown (DeployERC20Contract k m)"
  unfolding DeployERC20Contract_def Let_def by (auto intro!: keeps_intros split: res.split)

lemma keeps_unpacked [keeps_intros]: "keeps f (unpacked r)"
  unfolding unpacked_def by (auto intro: keeps_intros split: res.split)

lemma keeps_QueryERC20 [keeps_intros]: "keeps kown (QueryERC20 k c)"
  unfolding QueryERC20_def by (intro keeps_intros)

lemma keeps_verifyMetadata [keeps_intros]: "keeps kown (verifyMetadata k m)"
  unfolding verifyMetadata_def
  by (intro keeps_intros) (auto intro!: keeps_intros keeps_modify split: option.split)

lemma keeps_reads [keeps_intros]: "keeps kown GetParams" "keeps kown (GetTokenPairID k token)"
  "keeps kown (GetTokenPairIdByERC20Addr c)" "keeps kown (GetTokenPair i)" "keeps kown (IsDenomRegistered d)"
  by (auto simp: keeps_def GetParams_def param_get_def GetTokenPairID_def GetTokenPairIdByERC20Addr_def
      GetTokenPairIdByDenom_def get_id_def GetTokenPair_def IsDenomRegistered_def store_defs bnd_def gets_def
      lift_def ret_def panic_def split: option.split erc_value.split res.split)

lemma keeps_CreateCoinMetadata [keeps_intros]: "keeps kown (CreateCoinMetadata k c)"
  unfolding CreateCoinMetadata_def Let_def by (intro keeps_intros) (auto intro!: keeps_modify)

lemma keeps_PostTxProcessing [keeps_intros]: "keeps kown (PostTxProcessing L k logs)"
proof -
  have "keeps kown (convert_log k log p n cs)" for log p n cs
    unfolding convert_log_def Let_def
    by (intro keeps_intros) (auto intro!: keeps_intros split: Owner.split sum.split)
  then have "keeps kown (process_log L k log)" for log
    unfolding process_log_def
    by (intro keeps_intros) (auto intro!: keeps_intros split: option.split)
  then show ?thesis unfolding PostTxProcessing_def by (intro keeps_intros)
qed

section \<open>Every operation keeps the registry\<close>

text \<open>The messages of the module and its EVM hook.\<close>

datatype erc_op =
  OpUpdateParams string Params
| OpRegisterCoin string Metadata
| OpRegisterERC20 string string
| OpToggle string string
| OpConvertCoin MsgConvertCoin
| OpConvertERC20 MsgConvertERC20
| OpHook "evm_log list"

fun erc_run :: "sdk_lib \<Rightarrow> 'x Keeper \<Rightarrow> erc_op \<Rightarrow> ('x erc_state, unit) act" where
  "erc_run L k (OpUpdateParams auth p) = msg_UpdateParams k auth p"
| "erc_run L k (OpRegisterCoin auth m) = msg_RegisterCoin k auth m"
| "erc_run L k (OpRegisterERC20 auth a) = msg_RegisterERC20 k auth a"
| "erc_run L k (OpToggle auth t) = msg_ToggleTokenConversion k auth t"
| "erc_run L k (OpConvertCoin m) = bnd (ConvertCoin L k m) (\<lambda>_. ret ())"
| "erc_run L k (OpConvertERC20 m) = bnd (ConvertERC20 L k m) (\<lambda>_. ret ())"
| "erc_run L k (OpHook logs) = PostTxProcessing L k logs"

text \<open>
  A contract address that a coming deployment will use is not registered yet, and the
  identifiers of the pairs before and after do not collide.
\<close>

definition deploy_fresh :: "'x Keeper \<Rightarrow> 'x erc_state \<Rightarrow> bool" where
  "deploy_fresh k s \<longleftrightarrow> (\<forall>n. GetSequence (evmKeeper k) (ModuleAddress k) (kext s) = Ok n \<longrightarrow>
     erc_get s (erc20_key (CreateAddress (eth k) (ModuleAddress k) n)) = None)"

definition no_collision :: "eth_lib \<Rightarrow> 'x erc_state \<Rightarrow> 'x erc_state \<Rightarrow> bool" where
  "no_collision E s t \<longleftrightarrow> (\<forall>p q. registered E s q \<longrightarrow> registered E t p \<longrightarrow> GetID E p = GetID E q \<longrightarrow>
     PairDenom p = PairDenom q)"

lemma new_pair_keeps:
  assumes ok: "pairs_ok (eth k) s" and run: "set_pair k p u = (Ok v, t)" and u: "kown u = kown s"
    and free: "erc_get s (denom_key (PairDenom p)) = None" "erc_get s (erc20_key (GetERC20Contract (eth k) p)) = None"
    and nc: "no_collision (eth k) s t"
  shows "pairs_ok (eth k) t"
proof -
  have "registered (eth k) t p"
    using set_pair_Ok [OF run] by (simp add: registered_def kv_get_set)
  moreover have "\<exists>q. registered (eth k) s q \<and> GetID (eth k) q = GetID (eth k) p \<and>
      erc_get s (denom_key (PairDenom q)) \<noteq> None" if "erc_get s (pair_key (GetID (eth k) p)) = Some w" for w
    using that pairs_ok_pair [OF ok that] by (metis option.distinct(1) registered_def)
  ultimately have "erc_get s (pair_key (GetID (eth k) p)) = None"
    using nc free(1) unfolding no_collision_def by (metis option.exhaust)
  then show ?thesis
    using set_pair_keeps [OF _ run] ok free u pairs_ok_cong [of u s] by simp
qed

lemma RegisterCoin_Ok:
  assumes "RegisterCoin k m s = (Ok p, t)"
    and seq: "\<And>m a x. GetSequence (evmKeeper k) a (SetDenomMetaData k m x) = GetSequence (evmKeeper k) a x"
  obtains n u where "GetSequence (evmKeeper k) (ModuleAddress k) (kext s) = Ok n"
    "p = NewTokenPair (eth k) (CreateAddress (eth k) (ModuleAddress k) n) (Base m) True OWNER_MODULE"
    "kown u = kown s" "set_pair k p u = (Ok (), t)" "erc_get s (denom_key (Base m)) = None"
proof -
  obtain v s1 where free: "erc_get s (denom_key (Base m)) = None" and v: "attempt (verifyMetadata k m) s = (Ok v, s1)"
    and rest: "(case v of Inl e \<Rightarrow> raise ErrInternalTokenPair
           | Inr _ \<Rightarrow>
               bnd (DeployERC20Contract k m) (\<lambda>addr.
               let pair = NewTokenPair (eth k) addr (Base m) True OWNER_MODULE in
               bnd (set_pair k pair) (\<lambda>_. ret pair))) s1 = (Ok p, t)"
    using assms(1) by (auto simp: RegisterCoin_def GetParams_def IsDenomRegistered_def split: if_splits)
  have k1: "kown s1 = kown s" using keepsD [OF keeps_attempt [OF keeps_verifyMetadata] v] .
  have "GetSequence (evmKeeper k) a (kext s1) = GetSequence (evmKeeper k) a (kext s)" for a
    using v seq by (auto simp: attempt_Ok_iff verifyMetadata_def bnd_def gets_def modify_def lift_def
        split: option.splits res.splits)
  moreover obtain addr u where d: "DeployERC20Contract k m s1 = (Ok addr, u)"
    and p: "p = NewTokenPair (eth k) addr (Base m) True OWNER_MODULE" "set_pair k p u = (Ok (), t)"
    using rest by (auto simp: Let_def split: sum.splits)
  moreover obtain n where "GetSequence (evmKeeper k) (ModuleAddress k) (kext s1) = Ok n"
    "addr = CreateAddress (eth k) (ModuleAddress k) n"
    using d by (auto simp: DeployERC20Contract_def Let_def split: res.splits)
  moreover have "kown u = kown s" using keepsD [OF keeps_DeployERC20Contract d] k1 by simp
  ultimately show thesis using that [OF _ _ _ _ free] by metis
qed

lemma RegisterERC20_Ok:
  assumes "RegisterERC20 k c s = (Ok p, t)"
  obtains u where "p = NewTokenPair (eth k) c (CreateDenom (AddressHex (eth k) c)) True OWNER_EXTERNAL"
    "kown u = kown s" "set_pair k p u = (Ok (), t)" "erc_get s (erc20_key c) = None"
    "erc_get s (denom_key (CreateDenom (AddressHex (eth k) c))) = None"
proof -
  obtain md u where free: "erc_get s (erc20_key c) = None" and md: "CreateCoinMetadata k c s = (Ok md, u)"
    and p: "p = NewTokenPair (eth k) c (Name md) True OWNER_EXTERNAL" "set_pair k p u = (Ok (), t)"
    using assms by (auto simp: RegisterERC20_def GetParams_def IsERC20Registered_def Let_def split: if_splits)
  obtain dat s1 where q: "QueryERC20 k c s = (Ok dat, s1)" and d: "erc_get s1 (denom_key (CreateDenom (AddressHex (eth k) c))) = None"
    and "md = erc20_metadata (AddressHex (eth k) c) dat"
    using md by (auto simp: CreateCoinMetadata_def IsDenomRegistered_def Let_def split: if_splits)
  moreover have "kown s1 = kown s" using keepsD [OF keeps_QueryERC20 q] .
  moreover have "kown u = kown s" using keepsD [OF keeps_CreateCoinMetadata md] .
  ultimately show thesis
    using that p free by (auto simp: erc20_metadata_def Let_def split: if_splits)
qed

lemma ToggleConversion_keeps:
  assumes ok: "pairs_ok (eth k) s" and run: "ToggleConversion k token s = (Ok q, t)"
  obtains p where "pair_for k s token p" "q = p\<lparr>Enabled := \<not> Enabled p\<rparr>" "registered (eth k) t q" "pairs_ok (eth k) t"
    "kext t = kext s"
proof -
  obtain r s1 s2 p where r: "GetTokenPairID k token s = (Ok r, s1)" "\<not> no_id r" and f: "GetTokenPair r s1 = (Ok (Some p), s2)"
    and st: "SetTokenPair k (p\<lparr>Enabled := \<not> Enabled p\<rparr>) s2 = (Ok (), t)" "q = p\<lparr>Enabled := \<not> Enabled p\<rparr>"
    using run by (auto simp: ToggleConversion_def Let_def split: if_splits option.splits)
  have s1: "s1 = s" using GetTokenPairID_Ok r(1) by blast
  obtain i where i: "r = Some i" using r(2) by (auto simp: no_id_def split: option.splits)
  have p: "erc_get s (pair_key i) = Some (PairVal p)" "s2 = s" using f s1 i by (auto simp: GetTokenPair_Ok)
  have pf: "pair_for k s token p" using lookup_pair [OF ok] r(1) s1 i p by blast
  have "GetID (eth k) q = GetID (eth k) p" by (simp add: st GetID_def)
  then have kv: "kvstore (kown t) = kv_set (pair_key (GetID (eth k) p)) (PairVal q) (kvstore (kown s))" "kext t = kext s"
    using st p(2) by (auto simp: SetTokenPair_def set_prefixed_def pair_key_def split: if_splits)
  then have "pairs_ok (eth k) t" using toggle_keeps [OF ok] pf st(2) by (auto simp: pair_for_def)
  moreover have "registered (eth k) t q"
    using kv \<open>GetID (eth k) q = GetID (eth k) p\<close> by (simp add: registered_def kv_get_set)
  ultimately show thesis using that pf st(2) kv(2) by blast
qed

text \<open>A conversion that succeeds: the pair found is enabled, and is dropped or used according to its owner.\<close>

lemma ConvertCoin_Ok:
  assumes run: "ConvertCoin L k m s = (Ok r, t)" and ok: "pairs_ok (eth k) s"
  obtains sender p where "AccAddressFromBech32 L (cc_Sender m) = Ok sender" "0 < Amount (cc_Coin m)"
    "pair_for k s (Denom (cc_Coin m)) p" "Enabled p"
    "r = None \<and> contract_gone k p (kext s) \<and> DeleteTokenPair k p s = (Ok (), t) \<or>
     r = Some () \<and> \<not> contract_gone k p (kext s) \<and>
     (IsNativeCoin p \<and> convertCoinNativeCoin k p m (HexToAddress (eth k) (cc_Receiver m)) sender s = (Ok (), t) \<or>
      IsNativeERC20 p \<and> convertCoinNativeERC20 k p m (HexToAddress (eth k) (cc_Receiver m)) sender s = (Ok (), t))"
proof -
  let ?r = "HexToAddress (eth k) (cc_Receiver m)"
  obtain sender p s1 where sender: "AccAddressFromBech32 L (cc_Sender m) = Ok sender" "0 < Amount (cc_Coin m)"
    and me: "MintingEnabled k sender ?r (Denom (cc_Coin m)) s = (Ok p, s1)"
    and rest: "(if contract_gone k p (kext s1) then bnd (DeleteTokenPair k p) (\<lambda>_. ret None)
         else if IsNativeCoin p then bnd (convertCoinNativeCoin k p m ?r sender) (\<lambda>u. ret (Some u))
         else if IsNativeERC20 p then bnd (convertCoinNativeERC20 k p m ?r sender) (\<lambda>u. ret (Some u))
         else raise ErrUndefinedOwner) s1 = (Ok r, t)"
    using run unfolding ConvertCoin_def Let_def bnd_Ok_iff [of "lift _"] bnd_Ok_iff [of "MintingEnabled _ _ _ _"]
      bnd_Ok_iff [of "gets _"] if_act_Ok_iff [of "\<not> 0 < _"] if_act_Ok_iff [of "\<not> IsHexAddress _ _"] raise_Ok_iff
      lift_Ok_iff gets_Ok_iff by blast
  have "s1 = s" "pair_for k s (Denom (cc_Coin m)) p" "Enabled p" using MintingEnabled_Ok [OF me ok] by auto
  then show thesis using that [OF sender] rest by (auto split: if_splits)
qed

lemma ConvertERC20_Ok:
  assumes run: "ConvertERC20 L k m s = (Ok r, t)" and ok: "pairs_ok (eth k) s"
  obtains receiver p where "AccAddressFromBech32 L (ce_Receiver m) = Ok receiver" "0 < ce_Amount m"
    "IsHexAddress (eth k) (ce_ContractAddress m)" "pair_for k s (ce_ContractAddress m) p" "Enabled p"
    "r = None \<and> contract_gone k p (kext s) \<and> DeleteTokenPair k p s = (Ok (), t) \<or>
     r = Some () \<and> \<not> contract_gone k p (kext s) \<and>
     (IsNativeCoin p \<and> convertERC20NativeCoin L k p m receiver (HexToAddress (eth k) (ce_Sender m)) s = (Ok (), t) \<or>
      IsNativeERC20 p \<and> convertERC20NativeToken L k p m receiver (HexToAddress (eth k) (ce_Sender m)) s = (Ok (), t))"
proof -
  let ?f = "HexToAddress (eth k) (ce_Sender m)"
  obtain receiver p s1 where rc: "AccAddressFromBech32 L (ce_Receiver m) = Ok receiver" "0 < ce_Amount m"
      "IsHexAddress (eth k) (ce_ContractAddress m)"
    and me: "MintingEnabled k ?f receiver (ce_ContractAddress m) s = (Ok p, s1)"
    and rest: "(if contract_gone k p (kext s1) then bnd (DeleteTokenPair k p) (\<lambda>_. ret None)
         else if IsNativeCoin p then bnd (convertERC20NativeCoin L k p m receiver ?f) (\<lambda>u. ret (Some u))
         else if IsNativeERC20 p then bnd (convertERC20NativeToken L k p m receiver ?f) (\<lambda>u. ret (Some u))
         else raise ErrUndefinedOwner) s1 = (Ok r, t)"
    using run unfolding ConvertERC20_def Let_def bnd_Ok_iff [of "lift _"] bnd_Ok_iff [of "MintingEnabled _ _ _ _"]
      bnd_Ok_iff [of "gets _"] if_act_Ok_iff [of "\<not> 0 < _"] if_act_Ok_iff [of "\<not> IsHexAddress _ _"] raise_Ok_iff
      lift_Ok_iff gets_Ok_iff by blast
  have "s1 = s" "pair_for k s (ce_ContractAddress m) p" "Enabled p" using MintingEnabled_Ok [OF me ok] by auto
  then show thesis using that [OF rc] rest by (auto split: if_splits)
qed

lemma same_own_ok: "pairs_ok E s \<Longrightarrow> kown t = kown s \<Longrightarrow> pairs_ok E t"
  using pairs_ok_cong by metis

lemma conversion_keeps_registry:
  assumes ok: "pairs_ok (eth k) s"
  shows "ConvertCoin L k m s = (Ok r, t) \<Longrightarrow> pairs_ok (eth k) t"
    and "ConvertERC20 L k n s = (Ok r, t) \<Longrightarrow> pairs_ok (eth k) t"
proof -
  assume run: "ConvertCoin L k m s = (Ok r, t)"
  show "pairs_ok (eth k) t"
    by (rule ConvertCoin_Ok [OF run ok])
      (metis delete_keeps [OF ok] keepsD [OF keeps_conversions(1)] keepsD [OF keeps_conversions(2)] pair_for_def
        same_own_ok [OF ok])
next
  assume run: "ConvertERC20 L k n s = (Ok r, t)"
  show "pairs_ok (eth k) t"
    by (rule ConvertERC20_Ok [OF run ok])
      (metis delete_keeps [OF ok] keepsD [OF keeps_conversions(3)] keepsD [OF keeps_conversions(4)] pair_for_def
        same_own_ok [OF ok])
qed

lemma erc_run_keeps:
  assumes "eth_laws (eth k)" and ok: "pairs_ok (eth k) s" and run: "erc_run L k op s = (Ok (), t)"
    and seq: "\<And>m a x. GetSequence (evmKeeper k) a (SetDenomMetaData k m x) = GetSequence (evmKeeper k) a x"
    and fresh: "deploy_fresh k s" and nc: "no_collision (eth k) s t"
  shows "pairs_ok (eth k) t"
proof (cases op)
  case (OpUpdateParams auth p)
  then have "kvstore (kown t) = kvstore (kown s)"
    using run by (auto simp: msg_UpdateParams_def SetParams_def split: if_splits)
  then show ?thesis using ok pairs_ok_cong by metis
next
  case (OpRegisterCoin auth m)
  then obtain p where reg: "RegisterCoin k m s = (Ok p, t)"
    using run by (auto simp: msg_RegisterCoin_def split: if_splits)
  show ?thesis
  proof (rule RegisterCoin_Ok [OF reg seq])
    fix n u
    assume n: "GetSequence (evmKeeper k) (ModuleAddress k) (kext s) = Ok n"
      and p: "p = NewTokenPair (eth k) (CreateAddress (eth k) (ModuleAddress k) n) (Base m) True OWNER_MODULE"
      and u: "kown u = kown s" "set_pair k p u = (Ok (), t)" "erc_get s (denom_key (Base m)) = None"
    have "GetERC20Contract (eth k) p = CreateAddress (eth k) (ModuleAddress k) n"
      using assms(1) by (simp add: p NewTokenPair_def GetERC20Contract_def eth_laws.hex_roundtrip eth_laws.create_length)
    then show ?thesis
      using new_pair_keeps [OF ok u(2,1) _ _ nc] fresh n u(3) by (simp add: p NewTokenPair_def deploy_fresh_def)
  qed
next
  case (OpRegisterERC20 auth a)
  let ?c = "HexToAddress (eth k) a"
  obtain p where reg: "RegisterERC20 k ?c s = (Ok p, t)"
    using run OpRegisterERC20 by (auto simp: msg_RegisterERC20_def Let_def split: if_splits)
  have "HexToAddress (eth k) (AddressHex (eth k) ?c) = ?c"
    using assms(1) by (simp add: eth_laws.hex_roundtrip eth_laws.hex_length)
  then have "GetERC20Contract (eth k) (NewTokenPair (eth k) ?c d True OWNER_EXTERNAL) = ?c" for d
    by (simp add: NewTokenPair_def GetERC20Contract_def)
  moreover obtain u where "p = NewTokenPair (eth k) ?c (CreateDenom (AddressHex (eth k) ?c)) True OWNER_EXTERNAL"
    "kown u = kown s" "set_pair k p u = (Ok (), t)" "erc_get s (erc20_key ?c) = None"
    "erc_get s (denom_key (CreateDenom (AddressHex (eth k) ?c))) = None"
    using RegisterERC20_Ok [OF reg] .
  ultimately show ?thesis
    using new_pair_keeps [OF ok _ _ _ _ nc, of p u "()"] by (simp add: NewTokenPair_def)
next
  case (OpToggle auth tok)
  then obtain q where "ToggleConversion k tok s = (Ok q, t)"
    using run by (auto simp: msg_ToggleTokenConversion_def split: if_splits)
  then show ?thesis by (rule ToggleConversion_keeps [OF ok])
next
  case (OpConvertCoin m)
  then obtain r where "ConvertCoin L k m s = (Ok r, t)" using run by (simp add: bnd_Ok_iff) blast
  then show ?thesis by (rule conversion_keeps_registry [OF ok])
next
  case (OpConvertERC20 m)
  then obtain r where "ConvertERC20 L k m s = (Ok r, t)" using run by (simp add: bnd_Ok_iff) blast
  then show ?thesis by (rule conversion_keeps_registry [OF ok])
next
  case (OpHook logs)
  then have "kown t = kown s" using run keepsD [OF keeps_PostTxProcessing, of L k logs s "Ok ()" t] by simp
  then show ?thesis using same_own_ok [OF ok] by blast
qed

end
