(* ===== verification/Erc20_Convert.thy ===== *)
theory Erc20_Convert
  imports Erc20_Registry
begin

text \<open>
  What a conversion does to coins and tokens. Coins are read from the bank, tokens as the
  contract reports them to balanceOf.
\<close>

section \<open>The reported balance\<close>

definition reported :: "'x Keeper \<Rightarrow> 'x erc_state \<Rightarrow> bytes \<Rightarrow> bytes \<Rightarrow> int option" where
  "reported k s contract account = (case fst (BalanceOf k contract account s) of Ok b \<Rightarrow> b | _ \<Rightarrow> None)"

text \<open>The transfer of the sender's tokens to the module, from one state to the next.\<close>

definition escrowed :: "'x Keeper \<Rightarrow> TokenPair \<Rightarrow> MsgConvertERC20 \<Rightarrow> bytes \<Rightarrow> 'x erc_state \<Rightarrow> 'x erc_state \<Rightarrow> bool" where
  "escrowed k p m sender s u \<longleftrightarrow>
     (\<exists>data res. Pack (erc20ABI k) ''transfer'' [AddressVal (ModuleAddress k), BigVal (ce_Amount m)] = Ok data \<and>
        CallEVMWithData k sender (Some (GetERC20Contract (eth k) p)) data True s = (Ok res, u))"

text \<open>The keepers the module is given, and the denomination the EVM itself moves.\<close>

locale erc20_env =
  evm_laws L "bankKeeper k" "accountKeeper k" binv "eth k" "evmKeeper k" evm_denom
  for L :: sdk_lib and k :: "'x Keeper" and binv :: "'x \<Rightarrow> bool" and evm_denom :: string
begin

lemma view_keeps: "keeps (\<lambda>s. s) (CallEVM k a f c False m args)"
proof -
  have "keeps (\<lambda>s. s) (on_ext (ApplyMessage (evmKeeper k) m False))" for m
    using apply_view unfolding keeps_def on_ext_def zoom_def by (auto split: prod.splits)
  then show ?thesis
    unfolding CallEVM_def CallEVMWithData_def Let_def by (auto intro!: keeps_intros split: res.split)
qed

lemma BalanceOf_view: "BalanceOf k c a s = (r, t) \<Longrightarrow> t = s"
  by (erule keepsD [of "\<lambda>s. s", rotated]) (unfold BalanceOf_def, intro keeps_intros view_keeps,
      auto intro!: keeps_intros split: sum.split res.split list.split abi_value.split)

lemma balance_of_Ok: "balance_of k c a s = (Ok b, t) \<Longrightarrow> t = s \<and> reported k s c a = Some b"
  unfolding balance_of_def reported_def bnd_Ok_iff
  using BalanceOf_view by (fastforce split: option.splits)

text \<open>The effect of a committed call on the coins the EVM does not move.\<close>

lemma CallEVMWithData_Ok:
  assumes "CallEVMWithData k f c d True s = (Ok r, t)" and "binv (kext s)"
  shows "kown t = kown s \<and> binv (kext t) \<and> shifts (bankKeeper k) evm_denom (kext s) (\<lambda>_ _. 0) (\<lambda>_. 0) (kext t)"
proof -
  obtain m x where "ApplyMessage (evmKeeper k) m True (kext s) = (Ok r, x)" "t = s\<lparr>kext := x\<rparr>"
    using assms(1) by (auto simp: CallEVMWithData_def Let_def on_ext_Ok_iff split: if_splits)
  then show ?thesis using apply_shifts [OF assms(2)] by auto
qed

lemma CallEVM_Ok:
  assumes "CallEVM k a f c True m args s = (Ok r, t)" and "binv (kext s)"
  shows "kown t = kown s \<and> binv (kext t) \<and> shifts (bankKeeper k) evm_denom (kext s) (\<lambda>_ _. 0) (\<lambda>_. 0) (kext t)"
  using CallEVMWithData_Ok [OF _ assms(2)] assms(1) by (auto simp: CallEVM_def split: res.splits)

text \<open>Paying coins into the module, out of it, creating and destroying them.\<close>

lemma on_ext_shifts:
  assumes "binv (kext s)"
  shows "on_ext (SendCoinsFromAccountToModule (bankKeeper k) a m cs) s = (Ok (), t) \<Longrightarrow> kown t = kown s \<and> binv (kext t) \<and>
      shifts (bankKeeper k) evm_denom (kext s) (\<lambda>c d. paid (GetModuleAddress (accountKeeper k) m) cs c d - paid a cs c d)
        (\<lambda>_. 0) (kext t)"
    and "on_ext (SendCoinsFromModuleToAccount (bankKeeper k) m b cs) s = (Ok (), t) \<Longrightarrow> kown t = kown s \<and> binv (kext t) \<and>
      shifts (bankKeeper k) evm_denom (kext s) (\<lambda>c d. paid b cs c d - paid (GetModuleAddress (accountKeeper k) m) cs c d)
        (\<lambda>_. 0) (kext t)"
    and "on_ext (MintCoins (bankKeeper k) m cs) s = (Ok (), t) \<Longrightarrow> kown t = kown s \<and> binv (kext t) \<and>
      shifts (bankKeeper k) evm_denom (kext s) (paid (GetModuleAddress (accountKeeper k) m) cs) (coins_amt cs) (kext t)"
    and "on_ext (BurnCoins (bankKeeper k) m cs) s = (Ok (), t) \<Longrightarrow> kown t = kown s \<and> binv (kext t) \<and>
      shifts (bankKeeper k) evm_denom (kext s) (\<lambda>c d. - paid (GetModuleAddress (accountKeeper k) m) cs c d)
        (\<lambda>d. - coins_amt cs d) (kext t)"
  using escrow_shifts [OF assms] pay_shifts [OF assms] mint_shifts [OF assms] burn_shifts [OF assms]
  by (auto simp: on_ext_Ok_iff)

lemma check_coin_Ok: "check_coin_received L k r d b c s = (Ok u, t) \<Longrightarrow> t = s"
  by (auto simp: check_coin_received_def split: if_splits)

lemma convertCoinNativeCoin_Ok:
  assumes run: "convertCoinNativeCoin k p m r a s = (Ok (), t)" and ok: "binv (kext s)"
  shows "kown t = kown s \<and> binv (kext t) \<and>
    shifts (bankKeeper k) evm_denom (kext s)
      (\<lambda>c d. paid (GetModuleAddress (accountKeeper k) ModuleName) [cc_Coin m] c d - paid a [cc_Coin m] c d) (\<lambda>_. 0) (kext t) \<and>
    (\<exists>b. reported k s (GetERC20Contract (eth k) p) r = Some b \<and>
         reported k t (GetERC20Contract (eth k) p) r = Some (b + Amount (cc_Coin m)))"
proof -
  let ?c = "GetERC20Contract (eth k) p"
  obtain b s0 s1 s2 v b' where b: "balance_of k ?c r s = (Ok b, s0)"
    and pay: "on_ext (SendCoinsFromAccountToModule (bankKeeper k) a ModuleName [cc_Coin m]) s0 = (Ok (), s1)"
    and call: "CallEVM k (erc20ABI k) (ModuleAddress k) ?c True ''mint'' [AddressVal r, BigVal (Amount (cc_Coin m))] s1 = (Ok v, s2)"
    and b': "balance_of k ?c r s2 = (Ok b', t)" "b' = b + Amount (cc_Coin m)"
    using run unfolding convertCoinNativeCoin_def Let_def bnd_Ok_iff if_act_Ok_iff raise_Ok_iff ret_Ok_iff by auto
  have s0: "s0 = s" and t: "t = s2" using balance_of_Ok b b' by blast+
  note pay' = on_ext_shifts(1) [OF ok pay [unfolded s0]]
  with CallEVM_Ok [OF call] have "kown t = kown s" "binv (kext t)" using t by auto
  moreover have "shifts (bankKeeper k) evm_denom (kext s)
      (\<lambda>c d. paid (GetModuleAddress (accountKeeper k) ModuleName) [cc_Coin m] c d - paid a [cc_Coin m] c d) (\<lambda>_. 0) (kext t)"
    using shifts_trans [OF pay' [THEN conjunct2, THEN conjunct2]] CallEVM_Ok [OF call] pay' t by fastforce
  ultimately show ?thesis using balance_of_Ok [OF b] balance_of_Ok [OF b'(1)] b' t by blast
qed

lemma convertERC20NativeCoin_Ok:
  assumes run: "convertERC20NativeCoin L k p m r a s = (Ok (), t)" and ok: "binv (kext s)"
  shows "kown t = kown s \<and> binv (kext t) \<and>
    (let c = \<lparr>Denom = PairDenom p, Amount = ce_Amount m\<rparr> in
     shifts (bankKeeper k) evm_denom (kext s)
      (\<lambda>b d. paid r [c] b d - paid (GetModuleAddress (accountKeeper k) ModuleName) [c] b d) (\<lambda>_. 0) (kext t)) \<and>
    (\<exists>b. reported k s (GetERC20Contract (eth k) p) a = Some b \<and>
         reported k t (GetERC20Contract (eth k) p) a = Some (b - ce_Amount m))"
proof -
  let ?c = "GetERC20Contract (eth k) p" and ?x = "\<lparr>Denom = PairDenom p, Amount = ce_Amount m\<rparr>"
  obtain b s0 s1 s2 s3 v b' u bc where b: "balance_of k ?c a s = (Ok b, s0)"
    and call: "CallEVM k (erc20ABI k) (ModuleAddress k) ?c True ''burnCoins'' [AddressVal a, BigVal (ce_Amount m)] s0 = (Ok v, s1)"
    and pay: "on_ext (SendCoinsFromModuleToAccount (bankKeeper k) ModuleName r [?x]) s1 = (Ok (), s2)"
    and chk: "check_coin_received L k r (PairDenom p) bc ?x s2 = (Ok u, s3)"
    and b': "balance_of k ?c a s3 = (Ok b', t)" "b' = b - ce_Amount m"
    using run unfolding convertERC20NativeCoin_def Let_def bnd_Ok_iff if_act_Ok_iff raise_Ok_iff ret_Ok_iff gets_Ok_iff by auto
  have s0: "s0 = s" and t: "t = s2" using balance_of_Ok b b' check_coin_Ok [OF chk] by blast+
  note call' = CallEVM_Ok [OF call [unfolded s0] ok]
  then have ok1: "binv (kext s1)" by blast
  note pay' = on_ext_shifts(2) [OF ok1 pay]
  have "shifts (bankKeeper k) evm_denom (kext s)
      (\<lambda>b d. paid r [?x] b d - paid (GetModuleAddress (accountKeeper k) ModuleName) [?x] b d) (\<lambda>_. 0) (kext t)"
    using shifts_trans [OF call' [THEN conjunct2, THEN conjunct2] pay' [THEN conjunct2, THEN conjunct2]] t by simp
  then show ?thesis
    using call' pay' balance_of_Ok [OF b] balance_of_Ok [OF b'(1)] b' t unfolding Let_def by simp
qed

text \<open>
  For a token owned by others the report is checked before the coins are created or
  destroyed, in the state \<open>u\<close>.
\<close>

lemma convertCoinNativeERC20_Ok:
  assumes run: "convertCoinNativeERC20 k p m r a s = (Ok (), t)" and ok: "binv (kext s)"
  shows "kown t = kown s \<and> binv (kext t) \<and>
    shifts (bankKeeper k) evm_denom (kext s) (\<lambda>c d. - paid a [cc_Coin m] c d) (\<lambda>d. - coins_amt [cc_Coin m] d) (kext t) \<and>
    (\<exists>b u. reported k s (GetERC20Contract (eth k) p) r = Some b \<and>
         reported k u (GetERC20Contract (eth k) p) r = Some (b + Amount (cc_Coin m)) \<and>
         on_ext (BurnCoins (bankKeeper k) ModuleName [cc_Coin m]) u = (Ok (), t))"
proof -
  let ?c = "GetERC20Contract (eth k) p" and ?M = "GetModuleAddress (accountKeeper k) ModuleName"
  obtain b s0 s1 s2 s3 v b' where b: "balance_of k ?c r s = (Ok b, s0)"
    and pay: "on_ext (SendCoinsFromAccountToModule (bankKeeper k) a ModuleName [cc_Coin m]) s0 = (Ok (), s1)"
    and call: "CallEVM k (erc20ABI k) (ModuleAddress k) ?c True ''transfer'' [AddressVal r, BigVal (Amount (cc_Coin m))] s1 = (Ok v, s2)"
    and b': "balance_of k ?c r s2 = (Ok b', s3)" "b' = b + Amount (cc_Coin m)"
    and burn: "on_ext (BurnCoins (bankKeeper k) ModuleName [cc_Coin m]) s3 = (Ok (), t)"
    using run unfolding convertCoinNativeERC20_def Let_def bnd_Ok_iff if_act_Ok_iff raise_Ok_iff ret_Ok_iff lift_Ok_iff by auto
  have s0: "s0 = s" and s3: "s3 = s2" using balance_of_Ok b b' by blast+
  note pay' = on_ext_shifts(1) [OF ok pay [unfolded s0]]
  note call' = CallEVM_Ok [OF call pay' [THEN conjunct2, THEN conjunct1]]
  note burn' = on_ext_shifts(4) [OF call' [THEN conjunct2, THEN conjunct1] burn [unfolded s3]]
  have "shifts (bankKeeper k) evm_denom (kext s) (\<lambda>c d. - paid a [cc_Coin m] c d) (\<lambda>d. - coins_amt [cc_Coin m] d) (kext t)"
    by (rule shifts_eq [OF shifts_trans [OF shifts_trans [OF pay' [THEN conjunct2, THEN conjunct2]
          call' [THEN conjunct2, THEN conjunct2]] burn' [THEN conjunct2, THEN conjunct2]]]) auto
  then show ?thesis
    using pay' call' burn' balance_of_Ok [OF b] balance_of_Ok [OF b'(1)] b'(2) burn s3 by auto
qed

lemma convertERC20NativeToken_Ok:
  assumes run: "convertERC20NativeToken L k p m r a s = (Ok (), t)" and ok: "binv (kext s)"
  shows "kown t = kown s \<and> binv (kext t) \<and>
    (let c = \<lparr>Denom = PairDenom p, Amount = ce_Amount m\<rparr> in
     shifts (bankKeeper k) evm_denom (kext s) (paid r [c]) (coins_amt [c]) (kext t) \<and>
     (\<exists>b u u'. reported k s (GetERC20Contract (eth k) p) (ModuleAddress k) = Some b \<and> escrowed k p m a s u \<and>
         reported k u (GetERC20Contract (eth k) p) (ModuleAddress k) = Some (b + ce_Amount m) \<and>
         on_ext (MintCoins (bankKeeper k) ModuleName [c]) u = (Ok (), u') \<and>
         on_ext (SendCoinsFromModuleToAccount (bankKeeper k) ModuleName r [c]) u' = (Ok (), t)))"
proof -
  let ?c = "GetERC20Contract (eth k) p" and ?x = "\<lparr>Denom = PairDenom p, Amount = ce_Amount m\<rparr>"
  let ?M = "GetModuleAddress (accountKeeper k) ModuleName"
  obtain b s0 s1 s2 s3 s4 v b' w dat bc where b: "balance_of k ?c (ModuleAddress k) s = (Ok b, s0)"
    and dat: "Pack (erc20ABI k) ''transfer'' [AddressVal (ModuleAddress k), BigVal (ce_Amount m)] = Ok dat"
    and call: "CallEVMWithData k a (Some ?c) dat True s0 = (Ok v, s1)"
    and b': "balance_of k ?c (ModuleAddress k) s1 = (Ok b', s2)" "b' = b + ce_Amount m"
    and mint: "on_ext (MintCoins (bankKeeper k) ModuleName [?x]) s2 = (Ok (), s3)"
    and pay: "on_ext (SendCoinsFromModuleToAccount (bankKeeper k) ModuleName r [?x]) s3 = (Ok (), s4)"
    and chk: "check_coin_received L k r (PairDenom p) bc ?x s4 = (Ok w, t)"
    using run unfolding convertERC20NativeToken_def Let_def bnd_Ok_iff if_act_Ok_iff raise_Ok_iff ret_Ok_iff gets_Ok_iff
      lift_Ok_iff by auto
  have s0: "s0 = s" and s2: "s2 = s1" and t: "t = s4" using balance_of_Ok b b' check_coin_Ok [OF chk] by blast+
  note call' = CallEVMWithData_Ok [OF call [unfolded s0] ok]
  note mint' = on_ext_shifts(3) [OF call' [THEN conjunct2, THEN conjunct1] mint [unfolded s2]]
  note pay' = on_ext_shifts(2) [OF mint' [THEN conjunct2, THEN conjunct1] pay]
  have "shifts (bankKeeper k) evm_denom (kext s) (paid r [?x]) (coins_amt [?x]) (kext t)"
    unfolding t
    by (rule shifts_eq [OF shifts_trans [OF shifts_trans [OF call' [THEN conjunct2, THEN conjunct2]
          mint' [THEN conjunct2, THEN conjunct2]] pay' [THEN conjunct2, THEN conjunct2]]]) auto
  then show ?thesis
    using call' mint' pay' balance_of_Ok [OF b] balance_of_Ok [OF b'(1)] b'(2) mint pay s0 s2 t dat call
    unfolding Let_def escrowed_def by auto
qed

text \<open>
  Both directions as one effect: coins leave the sender for the module's escrow or are
  destroyed, and come from there or are created; the owner of the contract decides.
\<close>

lemma ConvertCoin_effect:
  assumes run: "ConvertCoin L k m s = (Ok (Some ()), t)" and ok: "pairs_ok (eth k) s" and bk: "binv (kext s)"
  obtains sender p where "AccAddressFromBech32 L (cc_Sender m) = Ok sender" "0 < Amount (cc_Coin m)"
    "pair_for k s (Denom (cc_Coin m)) p" "Enabled p" "kown t = kown s" "binv (kext t)" "IsNativeCoin p \<noteq> IsNativeERC20 p"
    "shifts (bankKeeper k) evm_denom (kext s)
       (\<lambda>a d. (if IsNativeCoin p then paid (GetModuleAddress (accountKeeper k) ModuleName) [cc_Coin m] a d else 0)
         - paid sender [cc_Coin m] a d)
       (\<lambda>d. if IsNativeERC20 p then - coins_amt [cc_Coin m] d else 0) (kext t)"
    "\<exists>b u. reported k s (GetERC20Contract (eth k) p) (HexToAddress (eth k) (cc_Receiver m)) = Some b \<and>
       reported k u (GetERC20Contract (eth k) p) (HexToAddress (eth k) (cc_Receiver m)) = Some (b + Amount (cc_Coin m)) \<and>
       (if IsNativeCoin p then u = t else on_ext (BurnCoins (bankKeeper k) ModuleName [cc_Coin m]) u = (Ok (), t))"
proof (rule ConvertCoin_Ok [OF run ok], goal_cases)
  case (1 sender p)
  have excl: "IsNativeCoin p \<Longrightarrow> \<not> IsNativeERC20 p" by (simp add: IsNativeCoin_def IsNativeERC20_def)
  from 1 consider
    (coin) "IsNativeCoin p" "convertCoinNativeCoin k p m (HexToAddress (eth k) (cc_Receiver m)) sender s = (Ok (), t)"
  | (token) "IsNativeERC20 p" "convertCoinNativeERC20 k p m (HexToAddress (eth k) (cc_Receiver m)) sender s = (Ok (), t)"
    by blast
  then show thesis
  proof cases
    case coin
    then show ?thesis using that [OF 1(2-5)] convertCoinNativeCoin_Ok [OF coin(2) bk] excl by simp
  next
    case token
    then have "\<not> IsNativeCoin p" using excl by blast
    then show ?thesis using that [OF 1(2-5)] convertCoinNativeERC20_Ok [OF token(2) bk] token(1) by simp
  qed
qed

lemma ConvertERC20_effect:
  assumes run: "ConvertERC20 L k m s = (Ok (Some ()), t)" and ok: "pairs_ok (eth k) s" and bk: "binv (kext s)"
  obtains receiver p c where "AccAddressFromBech32 L (ce_Receiver m) = Ok receiver" "0 < ce_Amount m"
    "pair_for k s (ce_ContractAddress m) p" "GetERC20Contract (eth k) p = HexToAddress (eth k) (ce_ContractAddress m)"
    "Enabled p" "kown t = kown s" "binv (kext t)" "IsNativeCoin p \<noteq> IsNativeERC20 p"
    "c = \<lparr>Denom = PairDenom p, Amount = ce_Amount m\<rparr>"
    "shifts (bankKeeper k) evm_denom (kext s)
       (\<lambda>a d. paid receiver [c] a d
         - (if IsNativeCoin p then paid (GetModuleAddress (accountKeeper k) ModuleName) [c] a d else 0))
       (\<lambda>d. if IsNativeERC20 p then coins_amt [c] d else 0) (kext t)"
    "\<exists>b u. if IsNativeCoin p
       then reported k s (GetERC20Contract (eth k) p) (HexToAddress (eth k) (ce_Sender m)) = Some b \<and>
         reported k t (GetERC20Contract (eth k) p) (HexToAddress (eth k) (ce_Sender m)) = Some (b - ce_Amount m)
       else reported k s (GetERC20Contract (eth k) p) (ModuleAddress k) = Some b \<and>
         escrowed k p m (HexToAddress (eth k) (ce_Sender m)) s u \<and>
         reported k u (GetERC20Contract (eth k) p) (ModuleAddress k) = Some (b + ce_Amount m) \<and>
         (\<exists>v. on_ext (MintCoins (bankKeeper k) ModuleName [c]) u = (Ok (), v) \<and>
           on_ext (SendCoinsFromModuleToAccount (bankKeeper k) ModuleName receiver [c]) v = (Ok (), t))"
proof (rule ConvertERC20_Ok [OF run ok], goal_cases)
  case (1 receiver p)
  let ?s = "HexToAddress (eth k) (ce_Sender m)"
  have excl: "IsNativeCoin p \<Longrightarrow> \<not> IsNativeERC20 p" by (simp add: IsNativeCoin_def IsNativeERC20_def)
  have c: "GetERC20Contract (eth k) p = HexToAddress (eth k) (ce_ContractAddress m)"
    using 1(4,5) by (simp add: pair_for_def)
  from 1 consider (coin) "IsNativeCoin p" "convertERC20NativeCoin L k p m receiver ?s s = (Ok (), t)"
  | (token) "IsNativeERC20 p" "convertERC20NativeToken L k p m receiver ?s s = (Ok (), t)"
    by blast
  then show thesis
  proof cases
    case coin
    then show ?thesis
      using convertERC20NativeCoin_Ok [OF coin(2) bk] excl 1(6) by (intro that [OF 1(2,3,5) c]) (auto simp: Let_def)
  next
    case token
    then have n: "\<not> IsNativeCoin p" using excl by blast
    show ?thesis
      by (rule that [OF 1(2,3,5) c 1(6) _ _ _ refl])
        (use convertERC20NativeToken_Ok [OF token(2) bk] token(1) n in \<open>simp_all add: Let_def del: paid_single coins_amt_Cons\<close>)
  qed
qed

end

end
