(* ===== verification/Evm_Ref.thy ===== *)
theory Evm_Ref
  imports Evm Ledger
begin

text \<open>
  A small machine that keeps the contracts of the keepers: the ledger next to token
  contracts with balances, called through an encoding of one byte per amount. It shows
  that the laws can hold and runs the concrete examples.
\<close>

section \<open>Addresses\<close>

definition pad20 :: "bytes \<Rightarrow> bytes" where
  "pad20 b = replicate (20 - length b) (CHR ''0'') @ drop (length b - 20) b"

definition word_byte :: "u64 \<Rightarrow> char" where
  "word_byte n = char_of (uint n)"

definition ref_eth :: eth_lib where
  "ref_eth = \<lparr>
     IsHexAddress = \<lambda>s. take 2 s = ''0x'' \<and> length s = 22,
     HexToAddress = \<lambda>s. pad20 (drop 2 s),
     AddressHex = \<lambda>a. ''0x'' @ a,
     BytesToAddress = pad20,
     CreateAddress = \<lambda>a n. pad20 (''contract'' @ [word_byte n]),
     Keccak256Hex = \<lambda>b. ''0xk'' @ b,
     Keccak256 = \<lambda>b. CHR ''k'' # b,
     tmhash_Sum = \<lambda>b. CHR ''h'' # b,
     ValidateAddress = \<lambda>s. check (take 2 s = ''0x'' \<and> length s = 22) ''address'' (),
     ValidateNonZeroAddress = \<lambda>s. check (take 2 s = ''0x'' \<and> length s = 22 \<and> drop 2 s \<noteq> replicate 20 (CHR ''0'')) ''address'' (),
     ValidateIBCDenom = \<lambda>d. check (denom_ok d) ''denom'' ()\<rparr>"

lemma pad20_length [simp]: "length (pad20 b) = 20"
  by (simp add: pad20_def)

lemma pad20_id: "length b = 20 \<Longrightarrow> pad20 b = b"
  by (simp add: pad20_def)

interpretation reth: eth_laws ref_eth
  by unfold_locales (simp_all add: ref_eth_def pad20_id)

section \<open>The ledger inside a larger state\<close>

record world =
  led :: ledger
  tokens :: "(bytes, (bytes, int) kv) kv"
  seqs :: "(bytes, u64) kv"

definition on_led :: "(ledger, 'a) act \<Rightarrow> (world, 'a) act" where
  "on_led m w = (case m (led w) of (r, x) \<Rightarrow> (r, w\<lparr>led := x\<rparr>))"

definition world_bank :: "world bank_keeper" where
  "world_bank = \<lparr>
     SendCoins = \<lambda>a b cs. on_led (SendCoins ledger_bank a b cs),
     SendCoinsFromModuleToAccount = \<lambda>m b cs. on_led (SendCoinsFromModuleToAccount ledger_bank m b cs),
     SendCoinsFromAccountToModule = \<lambda>a m cs. on_led (SendCoinsFromAccountToModule ledger_bank a m cs),
     SendCoinsFromModuleToModule = \<lambda>m n cs. on_led (SendCoinsFromModuleToModule ledger_bank m n cs),
     MintCoins = \<lambda>m cs. on_led (MintCoins ledger_bank m cs),
     BurnCoins = \<lambda>m cs. on_led (BurnCoins ledger_bank m cs),
     GetAllBalances = \<lambda>a w. GetAllBalances ledger_bank a (led w),
     GetBalance = \<lambda>a d w. GetBalance ledger_bank a d (led w),
     GetSupply = \<lambda>d w. GetSupply ledger_bank d (led w)\<rparr>"

definition world_accounts :: "world account_keeper" where
  "world_accounts = \<lparr>
     GetAccount = \<lambda>a w. GetAccount ledger_accounts a (led w),
     GetModuleAddress = GetModuleAddress ledger_accounts\<rparr>"

definition world_ok :: "world \<Rightarrow> bool" where
  "world_ok w = ledger_ok (led w)"

lemma on_led_Ok: "on_led m w = (Ok v, w') \<longleftrightarrow> (\<exists>x. m (led w) = (Ok v, x) \<and> w' = w\<lparr>led := x\<rparr>)"
  by (auto simp: on_led_def split: prod.splits)

lemma world_bal: "bal world_bank w a d = bal ledger_bank (led w) a d"
  and world_sup: "sup world_bank w d = sup ledger_bank (led w) d"
  by (simp_all add: bal_def sup_def world_bank_def)

lemma world_effects:
  "moves world_bank w a b cs w' \<longleftrightarrow> moves ledger_bank (led w) a b cs (led w')"
  "mints world_bank w a cs w' \<longleftrightarrow> mints ledger_bank (led w) a cs (led w')"
  "burns world_bank w a cs w' \<longleftrightarrow> burns ledger_bank (led w) a cs (led w')"
  "keeps_accounts world_accounts w w' \<longleftrightarrow> keeps_accounts ledger_accounts (led w) (led w')"
  by (simp_all add: moves_def mints_def burns_def keeps_accounts_def world_bal world_sup world_accounts_def
      del: ledger_bal ledger_sup)

lemma world_bank_sel:
  "SendCoins world_bank a b cs = on_led (SendCoins ledger_bank a b cs)"
  "SendCoinsFromModuleToAccount world_bank m b cs = on_led (SendCoinsFromModuleToAccount ledger_bank m b cs)"
  "SendCoinsFromAccountToModule world_bank a m cs = on_led (SendCoinsFromAccountToModule ledger_bank a m cs)"
  "SendCoinsFromModuleToModule world_bank m n cs = on_led (SendCoinsFromModuleToModule ledger_bank m n cs)"
  "MintCoins world_bank m cs = on_led (MintCoins ledger_bank m cs)"
  "BurnCoins world_bank m cs = on_led (BurnCoins ledger_bank m cs)"
  "GetAllBalances world_bank a w = GetAllBalances ledger_bank a (led w)"
  "GetBalance world_bank a d w = GetBalance ledger_bank a d (led w)"
  "GetAccount world_accounts a w = GetAccount ledger_accounts a (led w)"
  "GetModuleAddress world_accounts m = GetModuleAddress ledger_accounts m"
  by (simp_all add: world_bank_def world_accounts_def)

interpretation wbank: bank_laws ref_lib world_bank world_accounts world_ok
proof (unfold_locales, goal_cases)
  case (1 x a d)
  then show ?case using lbank.all_balances by (simp add: world_bank_sel world_bal world_ok_def del: ledger_bal)
next
  case (2 x d)
  then show ?case using lbank.sup_nonneg by (simp add: world_ok_def world_sup del: ledger_sup)
next
  case (3 a x b)
  then show ?case using lbank.account_address by (simp add: world_bank_sel)
next
  case (4 x a b cs x')
  then show ?case using lbank.send by (fastforce simp: world_bank_sel on_led_Ok world_ok_def world_effects simp del: ledger_account)
next
  case (5 x m b cs x')
  then show ?case using lbank.send_from_module by (fastforce simp: world_bank_sel on_led_Ok world_ok_def world_effects)
next
  case (6 x a m cs x')
  then show ?case using lbank.send_to_module by (fastforce simp: world_bank_sel on_led_Ok world_ok_def world_effects)
next
  case (7 x m n cs x')
  then show ?case using lbank.send_modules by (fastforce simp: world_bank_sel on_led_Ok world_ok_def world_effects)
next
  case (8 x m cs x')
  then show ?case using lbank.mint by (fastforce simp: world_bank_sel on_led_Ok world_ok_def world_effects)
next
  case (9 x m cs x')
  then show ?case using lbank.burn by (fastforce simp: world_bank_sel on_led_Ok world_ok_def world_effects)
next
  case (10 a d x)
  then show ?case by (simp add: world_bank_sel ledger_bank_sel)
qed

section \<open>Token contracts\<close>

definition enc_arg :: "abi_value \<Rightarrow> bytes res" where
  "enc_arg v =
     (case v of
        AddressVal a \<Rightarrow> check (length a = 20) ''address'' a
      | BigVal n \<Rightarrow> check (0 \<le> n \<and> n < 256) ''amount'' [char_of n]
      | TextVal s \<Rightarrow> Ok []
      | ByteVal b \<Rightarrow> Ok []
      | BoolVal b \<Rightarrow> Ok (if b then ''1'' else ''0'')
      | BytesVal b \<Rightarrow> Ok []
      | ListVal vs \<Rightarrow> Ok [])"

fun enc_args :: "abi_value list \<Rightarrow> bytes res" where
  "enc_args [] = Ok []"
| "enc_args (v # vs) = rbind (enc_arg v) (\<lambda>b. rbind (enc_args vs) (\<lambda>bs. Ok (b @ bs)))"

definition separator :: char where
  "separator = CHR ''|''"

definition ref_abi :: abi where
  "ref_abi = \<lparr>
     Pack = \<lambda>method args. rbind (enc_args args) (\<lambda>bs. Ok (method @ separator # bs)),
     Unpack = \<lambda>method b. Ok (map (\<lambda>c. BigVal (of_char c)) b),
     UnpackText = \<lambda>method b. Ok b,
     UnpackByte = \<lambda>method b. (case b of [] \<Rightarrow> Err (PlainErr ''empty'') | c # _ \<Rightarrow> Ok (of_char c)),
     UnpackBool = \<lambda>method b. Ok (b = ''1''),
     EventByID = \<lambda>b. if b = ''Transfer'' then Some ''Transfer'' else None\<rparr>"

definition token_call :: "bytes \<Rightarrow> string \<Rightarrow> bytes \<Rightarrow> (bytes, int) kv \<Rightarrow> (bytes \<times> (bytes, int) kv) option" where
  "token_call caller method args m =
     (let a = take 20 args; n = (case drop 20 args of [] \<Rightarrow> 0 | c # _ \<Rightarrow> of_char c) in
      if method = ''balanceOf'' then Some ([char_of (get0 m a)], m)
      else if method = ''mint'' then Some ([], kv_set a (get0 m a + n) m)
      else if method = ''burnCoins'' then
        (if n \<le> get0 m a then Some ([], kv_set a (get0 m a - n) m) else None)
      else if method = ''transfer'' then
        (if n \<le> get0 m caller
         then let m1 = kv_set caller (get0 m caller - n) m in Some (''1'', kv_set a (get0 m1 a + n) m1)
         else None)
      else if method = ''name'' then Some (''Token'', m)
      else if method = ''symbol'' then Some (''TKN'', m)
      else if method = ''decimals'' then Some ([char_of (6 :: int)], m)
      else Some ([], m))"

definition next_seq :: "bytes \<Rightarrow> world \<Rightarrow> u64" where
  "next_seq a w = (case kv_get (seqs w) a of None \<Rightarrow> 0 | Some n \<Rightarrow> n)"

definition ref_run :: "eth_message \<Rightarrow> world \<Rightarrow> (bytes \<times> world) option" where
  "ref_run msg w =
     (let w1 = w\<lparr>seqs := kv_set (msgFrom msg) (next_seq (msgFrom msg) w + 1) (seqs w)\<rparr> in
      case msgTo msg of
        None \<Rightarrow> Some ([], w1\<lparr>tokens := kv_set (CreateAddress ref_eth (msgFrom msg) (msgNonce msg)) [] (tokens w)\<rparr>)
      | Some c \<Rightarrow>
          (case kv_get (tokens w) c of
             None \<Rightarrow> Some ([], w1)
           | Some m \<Rightarrow>
               (case token_call (msgFrom msg) (takeWhile (\<lambda>b. b \<noteq> separator) (msgData msg))
                       (drop 1 (dropWhile (\<lambda>b. b \<noteq> separator) (msgData msg))) m of
                  None \<Rightarrow> None
                | Some (out, m') \<Rightarrow> Some (out, w1\<lparr>tokens := kv_set c m' (tokens w)\<rparr>))))"

definition ref_evm :: "world evm_keeper" where
  "ref_evm = \<lparr>
     GetAccountWithoutBalance = \<lambda>a w.
       if kv_has (tokens w) a then Some True else if kv_has (accts (led w)) a then Some False else None,
     GetSequence = \<lambda>a w. Ok (next_seq a w),
     EstimateGas = \<lambda>a c d cap w. Ok cap,
     ApplyMessage = \<lambda>msg commit w.
       (case ref_run msg w of
          None \<Rightarrow> (Ok \<lparr>Ret = [], VmError = ''execution reverted'', LogTopics = []\<rparr>, w)
        | Some (out, w') \<Rightarrow> (Ok \<lparr>Ret = out, VmError = [], LogTopics = []\<rparr>, if commit then w' else w)),
     DefaultGasCap = 25000000\<rparr>"

lemma ref_run_led: "ref_run msg w = Some (out, w') \<Longrightarrow> led w' = led w"
  by (auto simp: ref_run_def Let_def split: option.splits)

interpretation wevm: evm_laws ref_lib world_bank world_accounts world_ok ref_eth ref_evm "''acanto''"
  by unfold_locales
    (auto simp: ref_evm_def world_ok_def world_bal world_sup dest: ref_run_led split: option.splits prod.splits)

end
