(* ===== verification/Erc20_Props.thy ===== *)
theory Erc20_Props
  imports Erc20_Convert Evm_Ref "HOL-Library.Sublist"
begin

text \<open>
  The properties of x/erc20: the registry stays consistent under every message, a
  conversion moves exactly the amount asked for, converting there and back changes
  nothing, what is switched off refuses, and how names and metadata are treated.
\<close>

section \<open>Refusals\<close>

lemma refuses_bnd_read:
  assumes "m s = (Ok v, s)"
  shows "refuses (bnd m f) s \<longleftrightarrow> refuses (f v) s"
  using assms by (simp add: refuses_def bnd_def)

lemma refuses_bnd: "refuses m s \<Longrightarrow> refuses (bnd m f) s"
  by (auto simp: refuses_def bnd_def split: prod.splits res.splits)

lemma MintingEnabled_disabled:
  assumes "pspace (kown s) = Some p" and "\<not> EnableErc20 p"
  shows "refuses (MintingEnabled k a b token) s"
  using assms unfolding MintingEnabled_def GetParams_def
  by (subst refuses_bnd_read [of _ _ p]) (simp_all add: param_get_def)

lemma ConvertCoin_refuses:
  assumes "\<And>a. refuses (MintingEnabled k a (HexToAddress (eth k) (cc_Receiver m)) (Denom (cc_Coin m))) s"
  shows "refuses (ConvertCoin L k m) s"
  using assms by (auto simp: ConvertCoin_def Let_def intro!: refuses_bnd)

lemma ConvertERC20_refuses:
  assumes "\<And>b. refuses (MintingEnabled k (HexToAddress (eth k) (ce_Sender m)) b (ce_ContractAddress m)) s"
  shows "refuses (ConvertERC20 L k m) s"
  using assms by (auto simp: ConvertERC20_def Let_def intro!: refuses_bnd)

lemma pair_lookup:
  assumes ok: "pairs_ok (eth k) s" and p: "pair_for k s token p"
  shows "GetTokenPairID k token s = (Ok (Some (GetID (eth k) p)), s)"
    and "GetTokenPair (Some (GetID (eth k) p)) s = (Ok (Some p), s)"
proof -
  have reg: "erc_get s (pair_key (GetID (eth k) p)) = Some (PairVal p)" using p by (simp add: pair_for_def registered_def)
  have idx: "erc_get s (denom_key (PairDenom p)) = Some (IdVal (GetID (eth k) p))"
    "erc_get s (erc20_key (GetERC20Contract (eth k) p)) = Some (IdVal (GetID (eth k) p))"
    using pairs_ok_pair [OF ok reg] by auto
  then show "GetTokenPairID k token s = (Ok (Some (GetID (eth k) p)), s)"
    using p by (auto simp: GetTokenPairID_def GetTokenPairIdByERC20Addr_def GetTokenPairIdByDenom_def get_id_Ok_iff
        pair_for_def Let_def split: if_splits)
  show "GetTokenPair (Some (GetID (eth k) p)) s = (Ok (Some p), s)" using reg by (simp add: GetTokenPair_Ok)
qed

lemma MintingEnabled_pair_off:
  assumes ok: "pairs_ok (eth k) s" and p: "pair_for k s token p" "\<not> Enabled p" and ps: "pspace (kown s) = Some params"
  shows "refuses (MintingEnabled k a b token) s"
proof (cases "EnableErc20 params \<and> \<not> no_id (Some (GetID (eth k) p))")
  case True
  then show ?thesis
    unfolding MintingEnabled_def GetParams_def using p(2) ps
    by (subst refuses_bnd_read [of _ _ params], simp add: param_get_def)
      (simp add: refuses_bnd_read [of "GetTokenPairID k token", OF pair_lookup(1) [OF ok p(1)]] refuses_bnd_read [of "GetTokenPair _", OF pair_lookup(2) [OF ok p(1)]])
next
  case False
  then show ?thesis
    unfolding MintingEnabled_def GetParams_def using ps
    by (subst refuses_bnd_read [of _ _ params], simp add: param_get_def)
      (auto simp: refuses_bnd_read [of "GetTokenPairID k token", OF pair_lookup(1) [OF ok p(1)]])
qed

section \<open>Names and metadata\<close>

lemma removeInvalidPrefixes_suffix: "\<exists>p. s = p @ removeInvalidPrefixes s"
proof (induction s rule: removeInvalidPrefixes.induct)
  case (1 s)
  consider "HasPrefix s ''ibc/''" | "\<not> HasPrefix s ''ibc/''" "HasPrefix s ''erc20/''"
    | "\<not> HasPrefix s ''ibc/''" "\<not> HasPrefix s ''erc20/''" by blast
  then show ?case
  proof cases
    case 1
    then have "removeInvalidPrefixes s = removeInvalidPrefixes (drop 4 s)" by (simp add: removeInvalidPrefixes.simps [of s])
    then show ?thesis using "1.IH"(1) [OF 1] append_take_drop_id [of 4 s] by (metis append.assoc)
  next
    case 2
    then have "removeInvalidPrefixes s = removeInvalidPrefixes (drop 6 s)" by (simp add: removeInvalidPrefixes.simps [of s])
    then show ?thesis using "1.IH"(2) [OF 2] append_take_drop_id [of 6 s] by (metis append.assoc)
  qed (simp add: removeInvalidPrefixes.simps [of s])
qed

lemma removeInvalidPrefixes_none:
  "\<not> HasPrefix (removeInvalidPrefixes s) ''ibc/'' \<and> \<not> HasPrefix (removeInvalidPrefixes s) ''erc20/''"
proof (induction s rule: removeInvalidPrefixes.induct)
  case (1 s)
  then show ?case by (simp add: removeInvalidPrefixes.simps [of s])
qed

lemma removeSpecialChars_chars: "c \<in> set (removeSpecialChars s) \<Longrightarrow> name_char c"
  by (cases s) (auto simp: removeSpecialChars_def name_char_def)

lemma EqualStringSlice_iff: "EqualStringSlice as bs \<longleftrightarrow> as = bs"
proof -
  have "length as = length bs \<Longrightarrow> EqualStringSlice_from as bs \<longleftrightarrow> as = bs"
    by (induction as bs rule: list_induct2) auto
  then show ?thesis by (auto simp: EqualStringSlice_def)
qed

lemma equal_units_iff: "length vs = length ws \<Longrightarrow> equal_units vs ws \<longleftrightarrow> vs = ws"
  by (induction vs ws rule: list_induct2) (auto simp: EqualStringSlice_iff)

section \<open>A concrete chain\<close>

text \<open>One coin with a contract of the module, one token owned by others.\<close>

definition erc_keeper :: "world Keeper" where
  "erc_keeper = \<lparr>accountKeeper = world_accounts, bankKeeper = world_bank, evmKeeper = ref_evm, eth = ref_eth,
     erc20ABI = ref_abi, erc20Bin = ''bin'', BlockedAddr = \<lambda>a. False, IsSendEnabledCoin = \<lambda>d w. True,
     GetDenomMetaData = \<lambda>d w. None, SetDenomMetaData = \<lambda>m w. w, HasSupply = \<lambda>d w. True,
     Metadata_Validate = \<lambda>m. Ok (), GetModuleAccount = \<lambda>m. ret True, authority = ''gov''\<rparr>"

interpretation eenv: erc20_env ref_lib erc_keeper world_ok "''acanto''"
proof -
  show "erc20_env ref_lib erc_keeper world_ok ''acanto''"
    unfolding erc20_env_def by (simp add: erc_keeper_def wevm.evm_laws_axioms)
qed

definition alice :: bytes where
  "alice = pad20 ''alice''"

definition coin_contract :: bytes where
  "coin_contract = pad20 ''coin''"

definition token_contract :: bytes where
  "token_contract = pad20 ''token''"

definition coin_pair :: TokenPair where
  "coin_pair = \<lparr>Erc20Address = ''0x'' @ coin_contract, PairDenom = ''ucoin'', Enabled = True, ContractOwner = OWNER_MODULE\<rparr>"

definition token_pair :: TokenPair where
  "token_pair = \<lparr>Erc20Address = ''0x'' @ token_contract, PairDenom = ''erc20/0x'' @ token_contract, Enabled = False,
     ContractOwner = OWNER_EXTERNAL\<rparr>"

definition erc_store :: "(bytes, erc_value) kv" where
  "erc_store = fold (\<lambda>(key, v). kv_set key v)
     (concat (map (\<lambda>p. [(pair_key (GetID ref_eth p), PairVal p), (denom_key (PairDenom p), IdVal (GetID ref_eth p)),
        (erc20_key (GetERC20Contract ref_eth p), IdVal (GetID ref_eth p))]) [coin_pair, token_pair])) []"

definition erc_chain :: "bool \<Rightarrow> world erc_state" where
  "erc_chain on = \<lparr>kown = \<lparr>pspace = Some \<lparr>EnableErc20 = on, EnableEVMHook = True\<rparr>, kvstore = erc_store\<rparr>,
     kext = \<lparr>led = \<lparr>accts = [(alice, [(''ucoin'', 100)])], totals = [(''ucoin'', 100)]\<rparr>,
       tokens = [(coin_contract, []), (token_contract, [(alice, 50)])], seqs = []\<rparr>\<rparr>"

definition convert_msg :: "MsgConvertCoin" where
  "convert_msg = \<lparr>cc_Coin = \<lparr>Denom = ''ucoin'', Amount = 40\<rparr>, cc_Receiver = ''0x'' @ alice, cc_Sender = bech32_prefix @ alice\<rparr>"

definition convert_back_msg :: "MsgConvertERC20" where
  "convert_back_msg = \<lparr>ce_ContractAddress = ''0x'' @ coin_contract, ce_Amount = 40, ce_Receiver = bech32_prefix @ alice,
     ce_Sender = ''0x'' @ alice\<rparr>"

definition erc_before :: "world erc_state" where
  "erc_before = \<lparr>kown = \<lparr>pspace = None, kvstore = []\<rparr>, kext = kext (erc_chain True)\<rparr>"

lemma erc_chain_ok: "pairs_ok ref_eth (erc_chain on)"
proof -
  define s1 where "s1 = snd (set_pair erc_keeper coin_pair erc_before)"
  define s2 where "s2 = snd (set_pair erc_keeper token_pair s1)"
  have runs: "set_pair erc_keeper coin_pair erc_before = (Ok (), s1)" "set_pair erc_keeper token_pair s1 = (Ok (), s2)"
    unfolding s1_def s2_def by (rule pair_Ok_snd, code_simp)+
  have "eth erc_keeper = ref_eth" by (simp add: erc_keeper_def)
  moreover have "pairs_ok (eth erc_keeper) erc_before"
    by (simp add: pairs_ok_def erc_before_def kv_ok_def kv_get_def)
  then have "pairs_ok (eth erc_keeper) s1"
    by (rule set_pair_keeps [OF _ runs(1)]) (simp_all add: erc_before_def kv_get_def)
  then have "pairs_ok (eth erc_keeper) s2"
    by (rule set_pair_keeps [OF _ runs(2)]) (unfold s1_def, code_simp+)
  moreover have "kvstore (kown s2) = kvstore (kown (erc_chain True))"
    unfolding s1_def s2_def by code_simp
  moreover have "kvstore (kown (erc_chain True)) = kvstore (kown (erc_chain on))" by (simp add: erc_chain_def)
  ultimately show ?thesis using pairs_ok_cong by metis
qed

lemma erc_world_ok: "world_ok (kext (erc_chain on))"
  unfolding world_ok_def by (rule ledger_checkD) (simp add: erc_chain_def, code_simp)

definition erc_converted :: "world erc_state" where
  "erc_converted = snd (ConvertCoin ref_lib erc_keeper convert_msg (erc_chain True))"

definition erc_back :: "world erc_state" where
  "erc_back = snd (ConvertERC20 ref_lib erc_keeper convert_back_msg erc_converted)"

lemma erc_converted_run: "ConvertCoin ref_lib erc_keeper convert_msg (erc_chain True) = (Ok (Some ()), erc_converted)"
  unfolding erc_converted_def by (rule pair_Ok_snd) code_simp

lemma erc_back_run: "ConvertERC20 ref_lib erc_keeper convert_back_msg erc_converted = (Ok (Some ()), erc_back)"
  unfolding erc_back_def erc_converted_def by (rule pair_Ok_snd) code_simp

lemma erc_chain_pairs: "pair_for erc_keeper (erc_chain on) ''ucoin'' coin_pair"
  "pair_for erc_keeper (erc_chain on) (''0x'' @ token_contract) token_pair"
  unfolding pair_for_def registered_def by code_simp+

definition new_coin :: Metadata where
  "new_coin = \<lparr>Description = [], DenomUnits = [], Base = ''unew'', Display = [], Name = ''New'', Symbol = ''NEW'', URI = [],
     URIHash = []\<rparr>"

definition new_pair :: TokenPair where
  "new_pair = NewTokenPair ref_eth (CreateAddress ref_eth (ModuleAddress erc_keeper) 0) ''unew'' True OWNER_MODULE"

definition erc_deployed :: "world erc_state" where
  "erc_deployed = snd (DeployERC20Contract erc_keeper new_coin (erc_chain True))"

definition erc_registered :: "world erc_state" where
  "erc_registered = snd (set_pair erc_keeper new_pair erc_deployed)"

lemma erc_registered_run:
  "erc_run ref_lib erc_keeper (OpRegisterCoin ''gov'' new_coin) (erc_chain True) = (Ok (), erc_registered)"
proof -
  have d: "DeployERC20Contract erc_keeper new_coin (erc_chain True) =
      (Ok (CreateAddress ref_eth (ModuleAddress erc_keeper) 0), erc_deployed)"
    unfolding erc_deployed_def by (rule pair_Ok_snd) code_simp
  have p: "set_pair erc_keeper new_pair erc_deployed = (Ok (), erc_registered)"
    unfolding erc_registered_def erc_deployed_def by (rule pair_Ok_snd) code_simp
  have "IsDenomRegistered ''unew'' (erc_chain True) = (Ok False, erc_chain True)" by code_simp
  moreover have "\<not> Contains ''unew'' ''CANTO''" by code_simp
  moreover have "verifyMetadata erc_keeper new_coin (erc_chain True) = (Ok (), erc_chain True)"
    by (simp add: verifyMetadata_def bnd_def gets_def modify_def erc_keeper_def)
  moreover have "GetParams (erc_chain True) = (Ok \<lparr>EnableErc20 = True, EnableEVMHook = True\<rparr>, erc_chain True)"
    by (simp add: GetParams_def param_get_def erc_chain_def)
  moreover have "Base new_coin = ''unew''" "HasSupply erc_keeper ''unew'' x" "GetAuthority erc_keeper = ''gov''"
    "eth erc_keeper = ref_eth" for x
    by (simp_all add: new_coin_def erc_keeper_def GetAuthority_def)
  ultimately show ?thesis
    using d p unfolding new_pair_def
    by (simp add: msg_RegisterCoin_def RegisterCoin_def bnd_def attempt_def gets_def ret_def Let_def)
qed

lemma erc_registered_pairs: "no_collision ref_eth (erc_chain True) erc_registered"
proof -
  have kv: "kvstore (kown erc_registered) = kv_set (erc20_key (GetERC20Contract ref_eth new_pair)) (IdVal (GetID ref_eth new_pair))
      (kv_set (denom_key (PairDenom new_pair)) (IdVal (GetID ref_eth new_pair))
      (kv_set (pair_key (GetID ref_eth new_pair)) (PairVal new_pair) (kvstore (kown (erc_chain True)))))"
    unfolding erc_registered_def erc_deployed_def by code_simp
  have "erc_get (erc_chain True) (pair_key (GetID ref_eth new_pair)) = None" by code_simp
  then show ?thesis
    unfolding no_collision_def registered_def kv by (auto simp: kv_get_set split: if_splits)
qed

section \<open>Properties\<close>

text \<open>C8. The registry of token pairs stays consistent: after every message of the module and after its
EVM hook, each stored pair is found under its identifier, through its denomination and
through its contract, and no index entry points anywhere else. A new contract must not
be registered already and the identifiers, which are hashes, must not collide.\<close>
theorem registry_stays_consistent:
  assumes "eth_laws (eth k)" and "pairs_ok (eth k) s" and "erc_run L k op s = (Ok (), t)"
    and "\<And>m a x. GetSequence (evmKeeper k) a (SetDenomMetaData k m x) = GetSequence (evmKeeper k) a x"
    and "deploy_fresh k s" and "no_collision (eth k) s t"
  shows "pairs_ok (eth k) t"
  using assms by (rule erc_run_keeps)

theorem registry_stays_consistent_witness:
  "pairs_ok (eth erc_keeper) erc_registered \<and> registered ref_eth erc_registered new_pair"
proof
  have e: "eth erc_keeper = ref_eth" by (simp add: erc_keeper_def)
  have "GetSequence (evmKeeper erc_keeper) (ModuleAddress erc_keeper) (kext (erc_chain True)) = Ok 0" by code_simp
  moreover have "erc_get (erc_chain True) (erc20_key (CreateAddress (eth erc_keeper) (ModuleAddress erc_keeper) 0)) = None"
    by code_simp
  ultimately have "deploy_fresh erc_keeper (erc_chain True)" unfolding deploy_fresh_def by simp
  then show "pairs_ok (eth erc_keeper) erc_registered"
    using erc_chain_ok [of True] erc_registered_pairs reth.eth_laws_axioms
    by (intro registry_stays_consistent [OF _ _ erc_registered_run]) (simp_all only: e, simp add: erc_keeper_def)
  show "registered ref_eth erc_registered new_pair" unfolding registered_def erc_registered_def erc_deployed_def by code_simp
qed

text \<open>C9. Converting coins into tokens moves exactly the amount. When ConvertCoin answers, the pair it used is
registered for the denomination and enabled; the sender lost the amount, which the module
now holds in escrow when the contract is the module's own and which is gone from the
supply when it is not; no other balance or supply outside the EVM's own denomination
changed; and the contract reported the receiver's tokens risen by the same amount.\<close>
theorem convert_coin_moves_amount:
  assumes env: "erc20_env L k binv evm_denom" and ok: "pairs_ok (eth k) s" and bk: "binv (kext s)"
    and run: "ConvertCoin L k m s = (Ok (Some ()), t)"
  shows "\<exists>sender p b u. AccAddressFromBech32 L (cc_Sender m) = Ok sender \<and> pair_for k s (Denom (cc_Coin m)) p \<and> Enabled p \<and>
    kown t = kown s \<and>
    (\<forall>a d. d \<noteq> evm_denom \<longrightarrow> bal (bankKeeper k) (kext t) a d = bal (bankKeeper k) (kext s) a d
       - (if a = sender \<and> d = Denom (cc_Coin m) then Amount (cc_Coin m) else 0)
       + (if IsNativeCoin p \<and> a = GetModuleAddress (accountKeeper k) ModuleName \<and> d = Denom (cc_Coin m)
          then Amount (cc_Coin m) else 0)) \<and>
    (\<forall>d. d \<noteq> evm_denom \<longrightarrow> sup (bankKeeper k) (kext t) d = sup (bankKeeper k) (kext s) d
       - (if IsNativeERC20 p \<and> d = Denom (cc_Coin m) then Amount (cc_Coin m) else 0)) \<and>
    reported k s (GetERC20Contract (eth k) p) (HexToAddress (eth k) (cc_Receiver m)) = Some b \<and>
    reported k u (GetERC20Contract (eth k) p) (HexToAddress (eth k) (cc_Receiver m)) = Some (b + Amount (cc_Coin m)) \<and>
    (if IsNativeCoin p then u = t else on_ext (BurnCoins (bankKeeper k) ModuleName [cc_Coin m]) u = (Ok (), t))"
proof (rule erc20_env.ConvertCoin_effect [OF env run ok bk], goal_cases)
  case (1 sender p)
  from 1(9) obtain b u where "reported k s (GetERC20Contract (eth k) p) (HexToAddress (eth k) (cc_Receiver m)) = Some b"
    "reported k u (GetERC20Contract (eth k) p) (HexToAddress (eth k) (cc_Receiver m)) = Some (b + Amount (cc_Coin m))"
    "if IsNativeCoin p then u = t else on_ext (BurnCoins (bankKeeper k) ModuleName [cc_Coin m]) u = (Ok (), t)"
    by blast
  then show ?case
    using 1(1,3,4,5,7,8)
    by (intro exI [of _ sender] exI [of _ p] exI [of _ b] exI [of _ u]) (simp add: shifts_def)
qed

theorem convert_coin_moves_amount_witness:
  "ConvertCoin ref_lib erc_keeper convert_msg (erc_chain True) = (Ok (Some ()), erc_converted) \<and>
    (\<exists>p. pair_for erc_keeper (erc_chain True) ''ucoin'' p \<and> Enabled p) \<and> kown erc_converted = kown (erc_chain True) \<and>
    bal world_bank (kext erc_converted) alice ''ucoin'' = 60 \<and> sup world_bank (kext erc_converted) ''ucoin'' = 100 \<and>
    reported erc_keeper erc_converted coin_contract alice = Some 40"
proof -
  have "eth erc_keeper = ref_eth" by (simp add: erc_keeper_def)
  note conv = convert_coin_moves_amount
    [OF eenv.erc20_env_axioms erc_chain_ok [of True, folded this] erc_world_ok erc_converted_run]
  have "Denom (cc_Coin convert_msg) = ''ucoin''" by (simp add: convert_msg_def)
  then have "(\<exists>p. pair_for erc_keeper (erc_chain True) ''ucoin'' p \<and> Enabled p) \<and> kown erc_converted = kown (erc_chain True)"
    using conv by (elim exE conjE) (intro conjI exI, simp_all only:)
  moreover have "bal world_bank (kext erc_converted) alice ''ucoin'' = 60" "sup world_bank (kext erc_converted) ''ucoin'' = 100"
    "reported erc_keeper erc_converted coin_contract alice = Some 40"
    unfolding erc_converted_def by code_simp+
  ultimately show ?thesis using erc_converted_run by blast
qed

text \<open>C10. Converting tokens into coins moves exactly the amount. When ConvertERC20 answers, the receiver gained the
amount in the pair's denomination, out of the module's escrow when the contract is the
module's own and newly created when it is not; no other balance or supply outside the
EVM's own denomination changed. When the contract is the module's own it reports the
sender's tokens fallen by the same amount; when it is not, the sender's tokens were first
transferred to the module, which the contract then reports to hold that much more, and
the coins were created and paid out from there.\<close>
theorem convert_erc20_moves_amount:
  assumes env: "erc20_env L k binv evm_denom" and ok: "pairs_ok (eth k) s" and bk: "binv (kext s)"
    and run: "ConvertERC20 L k m s = (Ok (Some ()), t)"
  shows "\<exists>receiver p b u. AccAddressFromBech32 L (ce_Receiver m) = Ok receiver \<and> pair_for k s (ce_ContractAddress m) p \<and>
    Enabled p \<and> IsNativeCoin p \<noteq> IsNativeERC20 p \<and> kown t = kown s \<and>
    (\<forall>a d. d \<noteq> evm_denom \<longrightarrow> bal (bankKeeper k) (kext t) a d = bal (bankKeeper k) (kext s) a d
       + (if a = receiver \<and> d = PairDenom p then ce_Amount m else 0)
       - (if IsNativeCoin p \<and> a = GetModuleAddress (accountKeeper k) ModuleName \<and> d = PairDenom p
          then ce_Amount m else 0)) \<and>
    (\<forall>d. d \<noteq> evm_denom \<longrightarrow> sup (bankKeeper k) (kext t) d = sup (bankKeeper k) (kext s) d
       + (if IsNativeERC20 p \<and> d = PairDenom p then ce_Amount m else 0)) \<and>
    (if IsNativeCoin p
     then reported k s (GetERC20Contract (eth k) p) (HexToAddress (eth k) (ce_Sender m)) = Some b \<and>
       reported k t (GetERC20Contract (eth k) p) (HexToAddress (eth k) (ce_Sender m)) = Some (b - ce_Amount m)
     else reported k s (GetERC20Contract (eth k) p) (ModuleAddress k) = Some b \<and>
       escrowed k p m (HexToAddress (eth k) (ce_Sender m)) s u \<and>
       reported k u (GetERC20Contract (eth k) p) (ModuleAddress k) = Some (b + ce_Amount m) \<and>
       (\<exists>v. on_ext (MintCoins (bankKeeper k) ModuleName [\<lparr>Denom = PairDenom p, Amount = ce_Amount m\<rparr>]) u = (Ok (), v) \<and>
         on_ext (SendCoinsFromModuleToAccount (bankKeeper k) ModuleName receiver [\<lparr>Denom = PairDenom p, Amount = ce_Amount m\<rparr>]) v = (Ok (), t)))"
proof (rule erc20_env.ConvertERC20_effect [OF env run ok bk], goal_cases)
  case (1 receiver p c)
  from 1(11) obtain b u where tied: "if IsNativeCoin p
     then reported k s (GetERC20Contract (eth k) p) (HexToAddress (eth k) (ce_Sender m)) = Some b \<and>
       reported k t (GetERC20Contract (eth k) p) (HexToAddress (eth k) (ce_Sender m)) = Some (b - ce_Amount m)
     else reported k s (GetERC20Contract (eth k) p) (ModuleAddress k) = Some b \<and>
       escrowed k p m (HexToAddress (eth k) (ce_Sender m)) s u \<and>
       reported k u (GetERC20Contract (eth k) p) (ModuleAddress k) = Some (b + ce_Amount m) \<and>
       (\<exists>v. on_ext (MintCoins (bankKeeper k) ModuleName [c]) u = (Ok (), v) \<and>
         on_ext (SendCoinsFromModuleToAccount (bankKeeper k) ModuleName receiver [c]) v = (Ok (), t))"
    by blast
  have "\<forall>a d. d \<noteq> evm_denom \<longrightarrow> bal (bankKeeper k) (kext t) a d = bal (bankKeeper k) (kext s) a d
       + (if a = receiver \<and> d = PairDenom p then ce_Amount m else 0)
       - (if IsNativeCoin p \<and> a = GetModuleAddress (accountKeeper k) ModuleName \<and> d = PairDenom p then ce_Amount m else 0)"
    "\<forall>d. d \<noteq> evm_denom \<longrightarrow> sup (bankKeeper k) (kext t) d = sup (bankKeeper k) (kext s) d
       + (if IsNativeERC20 p \<and> d = PairDenom p then ce_Amount m else 0)"
    using 1(8,10) unfolding 1(9) by (simp_all add: shifts_def)
  with 1(1,3,5,6,8) tied [unfolded 1(9)] show ?case
    by (intro exI [of _ receiver] exI [of _ p] exI [of _ b] exI [of _ u] conjI)
qed

lemma erc_converted_ok: "pairs_ok (eth erc_keeper) erc_converted" "world_ok (kext erc_converted)"
proof -
  have "eth erc_keeper = ref_eth" by (simp add: erc_keeper_def)
  note ok = erc_chain_ok [of True, folded this]
  show "pairs_ok (eth erc_keeper) erc_converted" by (rule conversion_keeps_registry(1) [OF ok erc_converted_run])
  show "world_ok (kext erc_converted)" by (rule eenv.ConvertCoin_effect [OF erc_converted_run ok erc_world_ok])
qed

text \<open>A chain with one token owned by others, and tokens sold to it.\<close>

definition open_pair :: TokenPair where
  "open_pair = token_pair\<lparr>Enabled := True\<rparr>"

definition erc_open :: "world erc_state" where
  "erc_open = \<lparr>kown = \<lparr>pspace = Some \<lparr>EnableErc20 = True, EnableEVMHook = True\<rparr>,
     kvstore = kvstore (kown (snd (set_pair erc_keeper open_pair erc_before)))\<rparr>, kext = kext (erc_chain True)\<rparr>"

definition sell_msg :: "MsgConvertERC20" where
  "sell_msg = \<lparr>ce_ContractAddress = ''0x'' @ token_contract, ce_Amount = 30, ce_Receiver = bech32_prefix @ alice,
     ce_Sender = ''0x'' @ alice\<rparr>"

definition erc_sold :: "world erc_state" where
  "erc_sold = snd (ConvertERC20 ref_lib erc_keeper sell_msg erc_open)"

lemma erc_open_ok: "pairs_ok (eth erc_keeper) erc_open" "world_ok (kext erc_open)"
proof -
  have "pairs_ok (eth erc_keeper) erc_before" by (simp add: pairs_ok_def erc_before_def kv_ok_def kv_get_def)
  moreover have "set_pair erc_keeper open_pair erc_before = (Ok (), snd (set_pair erc_keeper open_pair erc_before))"
    by (rule pair_Ok_snd) code_simp
  ultimately have "pairs_ok (eth erc_keeper) (snd (set_pair erc_keeper open_pair erc_before))"
    by (rule set_pair_keeps) (simp_all add: erc_before_def kv_get_def)
  then show "pairs_ok (eth erc_keeper) erc_open"
    using pairs_ok_cong [of erc_open "snd (set_pair erc_keeper open_pair erc_before)"] by (simp add: erc_open_def)
  show "world_ok (kext erc_open)" using erc_world_ok by (simp add: erc_open_def)
qed

lemma erc_sold_run: "ConvertERC20 ref_lib erc_keeper sell_msg erc_open = (Ok (Some ()), erc_sold)"
  unfolding erc_sold_def by (rule pair_Ok_snd) code_simp

lemma erc_open_pair: "pair_for erc_keeper erc_open (''0x'' @ token_contract) open_pair" "\<not> IsNativeCoin open_pair"
  unfolding pair_for_def registered_def by code_simp+

theorem convert_erc20_moves_amount_witness:
  "ConvertERC20 ref_lib erc_keeper convert_back_msg erc_converted = (Ok (Some ()), erc_back) \<and>
    (\<exists>p. pair_for erc_keeper erc_converted (''0x'' @ coin_contract) p \<and> Enabled p) \<and> kown erc_back = kown erc_converted \<and>
    bal world_bank (kext erc_back) alice ''ucoin'' = 100 \<and> reported erc_keeper erc_back coin_contract alice = Some 0 \<and>
    ConvertERC20 ref_lib erc_keeper sell_msg erc_open = (Ok (Some ()), erc_sold) \<and>
    (\<exists>u. escrowed erc_keeper open_pair sell_msg (HexToAddress (eth erc_keeper) (ce_Sender sell_msg)) erc_open u \<and>
      reported erc_keeper u (GetERC20Contract (eth erc_keeper) open_pair) (ModuleAddress erc_keeper) = Some 30) \<and>
    bal world_bank (kext erc_sold) alice (PairDenom open_pair) = 30 \<and> reported erc_keeper erc_sold token_contract alice = Some 20"
proof -
  note conv = convert_erc20_moves_amount [OF eenv.erc20_env_axioms erc_converted_ok erc_back_run]
  have "ce_ContractAddress convert_back_msg = ''0x'' @ coin_contract" by (simp add: convert_back_msg_def)
  then have "(\<exists>p. pair_for erc_keeper erc_converted (''0x'' @ coin_contract) p \<and> Enabled p) \<and> kown erc_back = kown erc_converted"
    using conv by (elim exE conjE) (intro conjI exI, simp_all only:)
  moreover have "bal world_bank (kext erc_back) alice ''ucoin'' = 100"
    "reported erc_keeper erc_back coin_contract alice = Some 0"
    unfolding erc_back_def erc_converted_def by code_simp+
  moreover have "\<exists>u. escrowed erc_keeper open_pair sell_msg (HexToAddress (eth erc_keeper) (ce_Sender sell_msg)) erc_open u \<and>
      reported erc_keeper u (GetERC20Contract (eth erc_keeper) open_pair) (ModuleAddress erc_keeper) = Some 30"
  proof -
    from convert_erc20_moves_amount [OF eenv.erc20_env_axioms erc_open_ok erc_sold_run] obtain p b u where
      p: "pair_for erc_keeper erc_open (ce_ContractAddress sell_msg) p"
      and tied: "if IsNativeCoin p then True else
         reported erc_keeper erc_open (GetERC20Contract (eth erc_keeper) p) (ModuleAddress erc_keeper) = Some b \<and>
         escrowed erc_keeper p sell_msg (HexToAddress (eth erc_keeper) (ce_Sender sell_msg)) erc_open u \<and>
         reported erc_keeper u (GetERC20Contract (eth erc_keeper) p) (ModuleAddress erc_keeper) = Some (b + ce_Amount sell_msg)"
      by (elim exE conjE) (simp split: if_splits)
    have "p = open_pair"
      using registered_unique [OF erc_open_ok(1), of p open_pair] p erc_open_pair(1) by (simp add: pair_for_def sell_msg_def split: if_splits)
    moreover have "reported erc_keeper erc_open (GetERC20Contract (eth erc_keeper) open_pair) (ModuleAddress erc_keeper) = Some 0"
      unfolding erc_open_def by code_simp
    ultimately show ?thesis using tied erc_open_pair(2) by (auto simp: sell_msg_def)
  qed
  moreover have "bal world_bank (kext erc_sold) alice (PairDenom open_pair) = 30"
    "reported erc_keeper erc_sold token_contract alice = Some 20"
    unfolding erc_sold_def by code_simp+
  ultimately show ?thesis using erc_back_run erc_sold_run by blast
qed

text \<open>C28. Converting there and back restores everything: when the receiver of the tokens converts the same amount
back to the account the coins came from, every balance and supply outside the EVM's own
denomination is what it was, the registry is unchanged, and for a contract of the module
so is the balance it reports.\<close>
theorem conversion_round_trip:
  assumes env: "erc20_env L k binv evm_denom" and ok: "pairs_ok (eth k) s" and bk: "binv (kext s)"
    and there: "ConvertCoin L k m s = (Ok (Some ()), t)" and return: "ConvertERC20 L k n t = (Ok (Some ()), u)"
    and pair: "pair_for k s (Denom (cc_Coin m)) p" "\<not> IsHexAddress (eth k) (Denom (cc_Coin m))"
      "GetERC20Contract (eth k) p = HexToAddress (eth k) (ce_ContractAddress n)"
    and same: "ce_Amount n = Amount (cc_Coin m)" "AccAddressFromBech32 L (ce_Receiver n) = AccAddressFromBech32 L (cc_Sender m)"
      "HexToAddress (eth k) (ce_Sender n) = HexToAddress (eth k) (cc_Receiver m)"
  shows "kown u = kown s \<and>
    (\<forall>a d. d \<noteq> evm_denom \<longrightarrow> bal (bankKeeper k) (kext u) a d = bal (bankKeeper k) (kext s) a d) \<and>
    (\<forall>d. d \<noteq> evm_denom \<longrightarrow> sup (bankKeeper k) (kext u) d = sup (bankKeeper k) (kext s) d) \<and>
    (IsNativeCoin p \<longrightarrow> reported k u (GetERC20Contract (eth k) p) (HexToAddress (eth k) (cc_Receiver m)) =
       reported k s (GetERC20Contract (eth k) p) (HexToAddress (eth k) (cc_Receiver m)))"
proof (rule erc20_env.ConvertCoin_effect [OF env there ok bk], goal_cases)
  case there: (1 sender q)
  have q: "q = p"
    using registered_unique [OF ok, of q p] there(3) pair(1,2) by (simp add: pair_for_def)
  have okt: "pairs_ok (eth k) t" using same_own_ok [OF ok] there(5) by blast
  show ?case
  proof (rule erc20_env.ConvertERC20_effect [OF env return okt there(6)], goal_cases)
    case return: (1 receiver r c)
    have "registered (eth k) s r" using return(3) there(5) by (simp add: pair_for_def registered_def)
    then have r: "r = p"
      using registered_unique [OF ok, of r p] return(4) pair(1,3) by (simp add: pair_for_def)
    have c: "c = cc_Coin m" using return(9) same(1) pair(1,2) by (simp add: r pair_for_def)
    have "receiver = sender" using return(1) there(1) same(2) by simp
    then have "shifts (bankKeeper k) evm_denom (kext s) (\<lambda>_ _. 0) (\<lambda>_. 0) (kext u)"
      by (intro shifts_eq [OF shifts_trans [OF there(8) return(10)]]) (simp_all add: q r c)
    moreover have "IsNativeCoin p \<longrightarrow> reported k u (GetERC20Contract (eth k) p) (HexToAddress (eth k) (cc_Receiver m)) =
       reported k s (GetERC20Contract (eth k) p) (HexToAddress (eth k) (cc_Receiver m))"
      using there(9) return(11) same(1,3) unfolding q r by auto
    ultimately show ?case using there(5) return(6) unfolding shifts_def by simp
  qed
qed

theorem conversion_round_trip_witness:
  "kown erc_back = kown (erc_chain True) \<and>
    bal world_bank (kext erc_back) alice ''ucoin'' = bal world_bank (kext (erc_chain True)) alice ''ucoin''"
proof -
  have e: "eth erc_keeper = ref_eth" "bankKeeper erc_keeper = world_bank" by (simp_all add: erc_keeper_def)
  have d: "Denom (cc_Coin convert_msg) = ''ucoin''" by (simp add: convert_msg_def)
  have h: "\<not> IsHexAddress ref_eth ''ucoin''"
    "GetERC20Contract ref_eth coin_pair = HexToAddress ref_eth (ce_ContractAddress convert_back_msg)"
    "HexToAddress ref_eth (ce_Sender convert_back_msg) = HexToAddress ref_eth (cc_Receiver convert_msg)"
    by code_simp+
  have "ce_Amount convert_back_msg = Amount (cc_Coin convert_msg)" "ce_Receiver convert_back_msg = cc_Sender convert_msg"
    by (simp_all add: convert_back_msg_def convert_msg_def)
  then show ?thesis
    using conversion_round_trip [OF eenv.erc20_env_axioms _ erc_world_ok erc_converted_run erc_back_run, of coin_pair]
      erc_chain_ok [of True] erc_chain_pairs(1) [of True] h unfolding e d by simp
qed

text \<open>C30. What is switched off refuses without a write: with the module disabled both conversions and both
registrations fail and leave the state as it was, and the EVM hook does nothing; with a
single pair disabled both conversions of it fail the same way.\<close>
theorem disabled_conversion_refuses:
  assumes params: "pspace (kown s) = Some params"
  shows "(\<not> EnableErc20 params \<longrightarrow>
      refuses (ConvertCoin L k m) s \<and> refuses (ConvertERC20 L k n) s \<and> refuses (RegisterCoin k md) s \<and>
      refuses (RegisterERC20 k c) s \<and> PostTxProcessing L k logs s = (Ok (), s)) \<and>
    (pairs_ok (eth k) s \<and> \<not> Enabled p \<longrightarrow>
      (pair_for k s (Denom (cc_Coin m)) p \<longrightarrow> refuses (ConvertCoin L k m) s) \<and>
      (pair_for k s (ce_ContractAddress n) p \<longrightarrow> refuses (ConvertERC20 L k n) s))"
proof -
  have "GetParams s = (Ok params, s)" using params by (simp add: GetParams_def param_get_Ok_iff)
  then have "refuses (RegisterCoin k md) s" "refuses (RegisterERC20 k c) s" "PostTxProcessing L k logs s = (Ok (), s)"
    if "\<not> EnableErc20 params"
    using that
    by (simp_all add: RegisterCoin_def RegisterERC20_def PostTxProcessing_def refuses_def bnd_def raise_def ret_def)
  then show ?thesis
    using MintingEnabled_disabled [OF params] MintingEnabled_pair_off [OF _ _ _ params]
    by (auto intro!: ConvertCoin_refuses ConvertERC20_refuses)
qed

theorem disabled_conversion_refuses_witness:
  "refuses (ConvertCoin ref_lib erc_keeper convert_msg) (erc_chain False) \<and>
    refuses (ConvertERC20 ref_lib erc_keeper (convert_back_msg\<lparr>ce_ContractAddress := ''0x'' @ token_contract\<rparr>)) (erc_chain True)"
proof
  have off: "pspace (kown (erc_chain b)) = Some \<lparr>EnableErc20 = b, EnableEVMHook = True\<rparr>" for b by (simp add: erc_chain_def)
  have e: "eth erc_keeper = ref_eth" "\<not> Enabled token_pair" by (simp_all add: erc_keeper_def token_pair_def)
  show "refuses (ConvertCoin ref_lib erc_keeper convert_msg) (erc_chain False)"
    using disabled_conversion_refuses [OF off [of False], of ref_lib erc_keeper convert_msg] by simp
  show "refuses (ConvertERC20 ref_lib erc_keeper (convert_back_msg\<lparr>ce_ContractAddress := ''0x'' @ token_contract\<rparr>)) (erc_chain True)"
    using disabled_conversion_refuses [OF off [of True], of ref_lib erc_keeper _ "convert_back_msg\<lparr>ce_ContractAddress := ''0x'' @ token_contract\<rparr>"
        _ _ _ token_pair] erc_chain_ok [of True] erc_chain_pairs(2) [of True] e by simp
qed

text \<open>Sanitizing a token name ends with at most 128 bytes taken from the name in order, all of them letters,
digits, slashes or dashes, and without the prefix of an IBC voucher or of a converted
token.\<close>
theorem sanitized_name:
  "length (SanitizeERC20Name name) \<le> 128 \<and> list_all name_char (SanitizeERC20Name name) \<and>
   subseq (SanitizeERC20Name name) name \<and>
   \<not> HasPrefix (SanitizeERC20Name name) ''ibc/'' \<and> \<not> HasPrefix (SanitizeERC20Name name) ''erc20/''"
proof -
  let ?n = "removeSpecialChars (removeLeadingNumbers name)"
  have digits: "subseq (drop_line_digits b s) s" for b s
    by (induction b s rule: drop_line_digits.induct) auto
  have "subseq ?n (removeLeadingNumbers name)"
    by (cases "removeLeadingNumbers name") (auto simp: removeSpecialChars_def)
  then have sub: "subseq ?n name" using digits subseq_order.trans unfolding removeLeadingNumbers_def by blast
  define t where "t = (if 128 < length ?n then take 128 ?n else ?n)"
  have t: "subseq t ?n" "length t \<le> 128" unfolding t_def by (auto simp: prefix_imp_subseq take_is_prefix)
  obtain q where "t = q @ removeInvalidPrefixes t" using removeInvalidPrefixes_suffix by blast
  then have r: "subseq (removeInvalidPrefixes t) t" by (metis subseq_append_le_same_iff subseq_drop_many subseq_order.refl)
  moreover have "SanitizeERC20Name name = removeInvalidPrefixes t" by (simp add: SanitizeERC20Name_def t_def Let_def)
  moreover have "length (removeInvalidPrefixes t) \<le> 128" using list_emb_length [OF r] t(2) by simp
  moreover have "set (removeInvalidPrefixes t) \<subseteq> set ?n"
    using list_emb_set [OF r] list_emb_set [OF t(1)] by blast
  ultimately show ?thesis
    using removeInvalidPrefixes_none removeSpecialChars_chars t(1) sub
    by (auto simp: list_all_iff intro: subseq_order.trans)
qed

text \<open>C40. EqualMetadata accepts exactly the pairs of metadata that agree in base, description, display, name,
symbol and every denomination unit with its exponent and aliases; the two fields of the
URI do not matter.\<close>
theorem equal_metadata_iff:
  "EqualMetadata a b = Ok () \<longleftrightarrow> a\<lparr>URI := u, URIHash := h\<rparr> = b\<lparr>URI := u, URIHash := h\<rparr>"
  by (cases a, cases b) (auto simp: EqualMetadata_def equal_units_iff)

end
