(* ===== verification/Csr.thy ===== *)
theory Csr
  imports Evm Modstore
begin

text \<open>
  x/csr, contract secured revenue: the register of NFTs and the contracts assigned to
  them, the events of the Turnstile contract that change it, the split of the
  transaction fee in the EVM hook, deployment of the Turnstile, genesis and queries.
\<close>

section \<open>keys.go, errors.go and events.go\<close>

definition ModuleName :: string where
  "ModuleName = ''csr''"

definition TurnstileKey :: bytes where
  "TurnstileKey = ''Turnstile''"

definition KeyPrefixCSR :: bytes where
  "KeyPrefixCSR = [char_of (1 :: int)]"

definition KeyPrefixContract :: bytes where
  "KeyPrefixContract = [char_of (2 :: int)]"

definition KeyPrefixAddrs :: bytes where
  "KeyPrefixAddrs = [char_of (3 :: int)]"

definition ErrSmartContractSupply :: err where "ErrSmartContractSupply = RegErr ModuleName 1000"
definition ErrDuplicateSmartContracts :: err where "ErrDuplicateSmartContracts = RegErr ModuleName 1001"
definition ErrInvalidSmartContractAddress :: err where "ErrInvalidSmartContractAddress = RegErr ModuleName 1002"
definition ErrInvalidParams :: err where "ErrInvalidParams = RegErr ModuleName 1003"
definition ErrPrevRegisteredSmartContract :: err where "ErrPrevRegisteredSmartContract = RegErr ModuleName 2000"
definition ErrFeeDistribution :: err where "ErrFeeDistribution = RegErr ModuleName 2001"
definition ErrContractDeployments :: err where "ErrContractDeployments = RegErr ModuleName 2004"
definition ErrMethodCall :: err where "ErrMethodCall = RegErr ModuleName 2005"
definition ErrRegisterInvalidContract :: err where "ErrRegisterInvalidContract = RegErr ModuleName 2007"
definition ErrNonexistentCSR :: err where "ErrNonexistentCSR = RegErr ModuleName 2009"
definition ErrNFTNotFound :: err where "ErrNFTNotFound = RegErr ModuleName 2010"
definition ErrDuplicateNFTID :: err where "ErrDuplicateNFTID = RegErr ModuleName 2011"

definition ErrVMExecution :: err where "ErrVMExecution = SdkErr ''evmtypes.ErrVMExecution''"
definition ErrInvalidSigner :: err where "ErrInvalidSigner = SdkErr ''govtypes.ErrInvalidSigner''"

definition TurnstileEventRegister :: string where
  "TurnstileEventRegister = ''Register''"

definition TurnstileEventUpdate :: string where
  "TurnstileEventUpdate = ''Assign''"

record RegisterCSREvent =
  reg_SmartContract :: bytes
  reg_Recipient :: bytes
  reg_TokenId :: int

record UpdateCSREvent =
  upd_SmartContract :: bytes
  upd_TokenId :: int

section \<open>csr.go, params.go and genesis.go of the types\<close>

record CSR =
  Contracts :: "string list"
  Id :: u64
  Txs :: u64
  Revenue :: int

definition NewCSR :: "string list \<Rightarrow> u64 \<Rightarrow> CSR" where
  "NewCSR contracts nft = \<lparr>Contracts = contracts, Id = nft, Txs = 0, Revenue = 0\<rparr>"

fun validate_contracts :: "eth_lib \<Rightarrow> string list \<Rightarrow> string list \<Rightarrow> unit res" where
  "validate_contracts E seenSmartContracts [] = Ok ()"
| "validate_contracts E seenSmartContracts (smartContract # cs) =
     (case ValidateNonZeroAddress E smartContract of
        Err e \<Rightarrow> Err ErrInvalidSmartContractAddress
      | Panic p \<Rightarrow> Panic p
      | Ok _ \<Rightarrow>
          if smartContract \<in> set seenSmartContracts then Err ErrDuplicateSmartContracts
          else validate_contracts E (smartContract # seenSmartContracts) cs)"

definition CSR_Validate :: "eth_lib \<Rightarrow> CSR \<Rightarrow> unit res" where
  "CSR_Validate E csr =
     rbind (validate_contracts E [] (Contracts csr)) (\<lambda>_.
     let numSmartContracts = length (Contracts csr) in
     if numSmartContracts < 1 then Err ErrSmartContractSupply else Ok ())"

text \<open>The shares are a decimal; nil is not a value of the type.\<close>

record Params =
  EnableCsr :: bool
  CsrShares :: int

definition NewParams :: "bool \<Rightarrow> int \<Rightarrow> Params" where
  "NewParams enableCSR csrShares = \<lparr>EnableCsr = enableCSR, CsrShares = csrShares\<rparr>"

definition DefaultParams :: Params where
  "DefaultParams = NewParams False (LegacyNewDecWithPrec 20 2)"

definition ValidateShares :: "int \<Rightarrow> unit res" where
  "ValidateShares v =
     (if v < 0 then Err ErrInvalidParams else if dec_one < v then Err ErrInvalidParams else Ok ())"

definition Params_Validate :: "Params \<Rightarrow> unit res" where
  "Params_Validate p = ValidateShares (CsrShares p)"

record GenesisState =
  gs_Params :: Params
  Csrs :: "CSR list"
  TurnstileAddress :: string

definition NewGenesisState :: "Params \<Rightarrow> CSR list \<Rightarrow> string \<Rightarrow> GenesisState" where
  "NewGenesisState params csrs turnstileAddress = \<lparr>gs_Params = params, Csrs = csrs, TurnstileAddress = turnstileAddress\<rparr>"

definition DefaultGenesis :: GenesisState where
  "DefaultGenesis = NewGenesisState DefaultParams [] ''''"

definition GenesisState_Validate :: "GenesisState \<Rightarrow> unit res" where
  "GenesisState_Validate gs = Params_Validate (gs_Params gs)"

section \<open>The keeper and its state\<close>

text \<open>EvmDenom is the denomination in the parameters of the EVM module; EvmAccount is whether the account found has code.\<close>

record 'x Keeper =
  accountKeeper :: "'x account_keeper"
  bankKeeper :: "'x bank_keeper"
  evmKeeper :: "'x evm_keeper"
  eth :: eth_lib
  turnstileABI :: abi
  turnstileBin :: bytes
  EvmAccount :: "bytes \<Rightarrow> 'x \<Rightarrow> bool option"
  EvmDenom :: "'x \<Rightarrow> string"
  GetModuleAccount :: "string \<Rightarrow> ('x, bool) act"
  FeeCollectorName :: string
  authority :: string

datatype csr_value = CsrVal CSR | NftVal bytes | AddrVal bytes

type_synonym 'x csr_state = "(Params, csr_value, 'x) mstate"

definition ModuleAddress :: "'x Keeper \<Rightarrow> bytes" where
  "ModuleAddress k = BytesToAddress (eth k) (GetModuleAddress (accountKeeper k) ModuleName)"

definition GetAuthority :: "'x Keeper \<Rightarrow> string" where
  "GetAuthority k = authority k"

definition GetParams :: "('x csr_state, Params) act" where
  "GetParams = param_get"

definition GetDefaultParams :: Params where
  "GetDefaultParams = DefaultParams"

definition SetParams :: "Params \<Rightarrow> ('x csr_state, unit) act" where
  "SetParams params = param_set params"

section \<open>csr.go of the keeper\<close>

text \<open>Eight bytes, the lowest first.\<close>

definition UInt64ToBytes :: "u64 \<Rightarrow> bytes" where
  "UInt64ToBytes number = map (\<lambda>i. char_of (uint number div 256 ^ i)) [0..<8]"

definition BytesToUInt64 :: "bytes \<Rightarrow> u64 res" where
  "BytesToUInt64 bz =
     (if length bz < 8 then Panic ''index out of range''
      else Ok (word_of_int (horner_sum of_char 256 (take 8 bz))))"

definition csr_key :: "u64 \<Rightarrow> bytes" where
  "csr_key nftId = KeyPrefixCSR @ UInt64ToBytes nftId"

definition contract_key :: "string \<Rightarrow> bytes" where
  "contract_key address = KeyPrefixContract @ address"

definition GetCSR :: "u64 \<Rightarrow> ('x csr_state, CSR option) act" where
  "GetCSR nftId =
     bnd (store_get (csr_key nftId)) (\<lambda>bz.
       case bz of None \<Rightarrow> ret None | Some (CsrVal csr) \<Rightarrow> ret (Some csr) | Some v \<Rightarrow> panic ''unmarshal'')"

fun decode_csrs :: "(bytes \<times> csr_value) list \<Rightarrow> CSR list res" where
  "decode_csrs [] = Ok []"
| "decode_csrs ((key, CsrVal csr) # es) = rbind (decode_csrs es) (\<lambda>csrs. Ok (csr # csrs))"
| "decode_csrs (e # es) = Panic ''unmarshal''"

definition GetAllCSRs :: "('x csr_state, CSR list) act" where
  "GetAllCSRs = bnd (store_iterate KeyPrefixCSR) (\<lambda>es. lift (decode_csrs es))"

definition GetNFTByContract :: "string \<Rightarrow> ('x csr_state, u64 option) act" where
  "GetNFTByContract address =
     bnd (store_get (contract_key address)) (\<lambda>bz.
       case bz of None \<Rightarrow> ret None
       | Some (NftVal b) \<Rightarrow> bnd (lift (BytesToUInt64 b)) (\<lambda>nftId. ret (Some nftId))
       | Some v \<Rightarrow> panic ''unmarshal'')"

text \<open>A prefix store refuses an empty key.\<close>

definition set_contract :: "bytes \<Rightarrow> string \<Rightarrow> ('x csr_state, unit) act" where
  "set_contract nftId contract =
     (if contract = [] then panic ''key is nil or empty'' else store_set (contract_key contract) (NftVal nftId))"

definition SetCSR :: "CSR \<Rightarrow> ('x csr_state, unit) act" where
  "SetCSR csr =
     bnd (store_set (csr_key (Id csr)) (CsrVal csr)) (\<lambda>_.
     for_each (set_contract (UInt64ToBytes (Id csr))) (Contracts csr))"

definition GetTurnstile :: "'x Keeper \<Rightarrow> ('x csr_state, bytes option) act" where
  "GetTurnstile k =
     bnd (store_get (KeyPrefixAddrs @ TurnstileKey)) (\<lambda>bz.
       case bz of None \<Rightarrow> ret None
       | Some (AddrVal b) \<Rightarrow> ret (if b = [] then None else Some (BytesToAddress (eth k) b))
       | Some v \<Rightarrow> panic ''unmarshal'')"

definition SetTurnstile :: "bytes \<Rightarrow> ('x csr_state, unit) act" where
  "SetTurnstile turnstile = store_set (KeyPrefixAddrs @ TurnstileKey) (AddrVal turnstile)"

section \<open>evm.go\<close>

definition DefaultGasLimit :: u64 where
  "DefaultGasLimit = 30000000"

definition CallEVM :: "'x Keeper \<Rightarrow> bytes \<Rightarrow> bytes option \<Rightarrow> int \<Rightarrow> bytes \<Rightarrow> bool \<Rightarrow> ('x csr_state, evm_response) act" where
  "CallEVM k from_addr to_addr amount data commit =
     bnd (gets (\<lambda>s. GetSequence (evmKeeper k) from_addr (kext s))) (\<lambda>seq.
     bnd (lift seq) (\<lambda>nonce.
     let msg = \<lparr>msgFrom = from_addr, msgTo = to_addr, msgNonce = nonce, msgValue = amount, msgGasLimit = DefaultGasLimit,
                msgData = data, msgIsFake = \<not> commit\<rparr> in
     bnd (on_ext (ApplyMessage (evmKeeper k) msg commit)) (\<lambda>res.
     if Failed res then raise ErrVMExecution else ret res)))"

definition DeployContract :: "'x Keeper \<Rightarrow> abi \<Rightarrow> bytes \<Rightarrow> abi_value list \<Rightarrow> ('x csr_state, bytes) act" where
  "DeployContract k contractABI bin args =
     bnd (wrapped ErrContractDeployments (lift (Pack contractABI '''' args))) (\<lambda>ctorArgs.
     let data = bin @ ctorArgs in
     bnd (gets (\<lambda>s. GetSequence (evmKeeper k) (ModuleAddress k) (kext s))) (\<lambda>seq.
     bnd (wrapped ErrContractDeployments (lift seq)) (\<lambda>nonce.
     bnd (wrapped ErrContractDeployments (CallEVM k (ModuleAddress k) None 0 data True)) (\<lambda>_.
     ret (CreateAddress (eth k) (ModuleAddress k) nonce)))))"

definition DeployTurnstile :: "'x Keeper \<Rightarrow> ('x csr_state, bytes) act" where
  "DeployTurnstile k = wrapped ErrContractDeployments (DeployContract k (turnstileABI k) (turnstileBin k) [])"

definition CallMethod :: "'x Keeper \<Rightarrow> string \<Rightarrow> abi \<Rightarrow> bytes \<Rightarrow> bytes option \<Rightarrow> int \<Rightarrow> abi_value list \<Rightarrow>
    ('x csr_state, evm_response) act" where
  "CallMethod k method contractABI from_addr contractAddr amount args =
     bnd (wrapped ErrMethodCall (lift (Pack contractABI method args))) (\<lambda>data.
     wrapped ErrMethodCall (CallEVM k from_addr contractAddr amount data True))"

section \<open>event_handler.go\<close>

definition unpack_register :: "abi \<Rightarrow> bytes \<Rightarrow> RegisterCSREvent res" where
  "unpack_register A data =
     rbind (Unpack A TurnstileEventRegister data) (\<lambda>vs.
       case vs of
         [AddressVal c, AddressVal r, BigVal n] \<Rightarrow> Ok \<lparr>reg_SmartContract = c, reg_Recipient = r, reg_TokenId = n\<rparr>
       | _ \<Rightarrow> Err (PlainErr ''abi: cannot unmarshal''))"

definition unpack_update :: "abi \<Rightarrow> bytes \<Rightarrow> UpdateCSREvent res" where
  "unpack_update A data =
     rbind (Unpack A TurnstileEventUpdate data) (\<lambda>vs.
       case vs of
         [AddressVal c, BigVal n] \<Rightarrow> Ok \<lparr>upd_SmartContract = c, upd_TokenId = n\<rparr>
       | _ \<Rightarrow> Err (PlainErr ''abi: cannot unmarshal''))"

text \<open>The method Uint64 of a big integer that is not negative: its low 64 bits.\<close>

definition big_Uint64 :: "int \<Rightarrow> u64" where
  "big_Uint64 n = word_of_int n"

definition ValidateContract :: "'x Keeper \<Rightarrow> bytes \<Rightarrow> ('x csr_state, unit) act" where
  "ValidateContract k contract =
     bnd (GetNFTByContract (AddressHex (eth k) contract)) (\<lambda>found.
     if found \<noteq> None then raise ErrPrevRegisteredSmartContract
     else
       bnd (gets (\<lambda>s. EvmAccount k contract (kext s))) (\<lambda>account.
       if account \<noteq> Some True then raise ErrRegisterInvalidContract else ret ()))"

definition RegisterEvent :: "'x Keeper \<Rightarrow> bytes \<Rightarrow> ('x csr_state, unit) act" where
  "RegisterEvent k data =
     bnd (lift (unpack_register (turnstileABI k) data)) (\<lambda>event.
     bnd (ValidateContract k (reg_SmartContract event)) (\<lambda>_.
     let nftID = big_Uint64 (reg_TokenId event) in
     bnd (GetCSR nftID) (\<lambda>found.
     if found \<noteq> None then raise ErrDuplicateNFTID
     else
       let csr = NewCSR [AddressHex (eth k) (reg_SmartContract event)] nftID in
       bnd (lift (CSR_Validate (eth k) csr)) (\<lambda>_. SetCSR csr))))"

definition UpdateEvent :: "'x Keeper \<Rightarrow> bytes \<Rightarrow> ('x csr_state, unit) act" where
  "UpdateEvent k data =
     bnd (lift (unpack_update (turnstileABI k) data)) (\<lambda>event.
     bnd (ValidateContract k (upd_SmartContract event)) (\<lambda>_.
     let nftID = big_Uint64 (upd_TokenId event) in
     bnd (GetCSR nftID) (\<lambda>found.
     case found of None \<Rightarrow> raise ErrNFTNotFound
     | Some csr0 \<Rightarrow>
         let csr = csr0\<lparr>Contracts := Contracts csr0 @ [AddressHex (eth k) (upd_SmartContract event)]\<rparr> in
         bnd (lift (CSR_Validate (eth k) csr)) (\<lambda>_. SetCSR csr))))"

section \<open>evm_hooks.go\<close>

text \<open>The loop over the logs ends with the first event that is unknown or refused.\<close>

fun process_logs :: "'x Keeper \<Rightarrow> bytes \<Rightarrow> evm_log list \<Rightarrow> ('x csr_state, unit) act" where
  "process_logs k turnstileAddress [] = ret ()"
| "process_logs k turnstileAddress (log # logs) =
     (case Topics log of [] \<Rightarrow> process_logs k turnstileAddress logs
      | eventID # _ \<Rightarrow>
          if LogAddress log \<noteq> turnstileAddress then process_logs k turnstileAddress logs
          else
            case EventByID (turnstileABI k) eventID of None \<Rightarrow> ret ()
            | Some name \<Rightarrow>
                bnd (attempt (if name = TurnstileEventRegister then RegisterEvent k (LogData log)
                              else if name = TurnstileEventUpdate then UpdateEvent k (LogData log)
                              else ret ())) (\<lambda>r.
                case r of Inl e \<Rightarrow> ret () | Inr _ \<Rightarrow> process_logs k turnstileAddress logs))"

definition processEvents :: "'x Keeper \<Rightarrow> evm_log list \<Rightarrow> ('x csr_state, unit) act" where
  "processEvents k logs =
     bnd (GetTurnstile k) (\<lambda>found.
     case found of None \<Rightarrow> panic ''the turnstile contract has not been found''
     | Some turnstileAddress \<Rightarrow> process_logs k turnstileAddress logs)"

text \<open>What the hook reads of the message and of the receipt.\<close>

record evm_tx =
  txTo :: "bytes option"
  GasPrice :: int
  GasUsed :: u64
  Logs :: "evm_log list"

text \<open>The share of the fee that goes to the NFT, and the payment of both parts.\<close>

definition distribute :: "sdk_lib \<Rightarrow> 'x Keeper \<Rightarrow> Params \<Rightarrow> string \<Rightarrow> int \<Rightarrow> u64 \<Rightarrow> ('x csr_state, unit) act" where
  "distribute L k params evmDenom fee nftID =
     bnd (GetCSR nftID) (\<lambda>found.
     case found of None \<Rightarrow> raise ErrNonexistentCSR
     | Some csr \<Rightarrow>
         bnd (lift (rbind (DecMul L (LegacyNewDecFromInt fee) (CsrShares params)) (DecTruncateInt L))) (\<lambda>csrFee.
         bnd (lift (IntSub L fee csrFee)) (\<lambda>remainingFee.
         let burnRemainingFees = [\<lparr>Denom = evmDenom, Amount = remainingFee\<rparr>] in
         bnd (GetTurnstile k) (\<lambda>turnstile.
         case turnstile of None \<Rightarrow> raise ErrContractDeployments
         | Some turnstileAddress \<Rightarrow>
             bnd (wrapped ErrFeeDistribution (CallMethod k ''distributeFees'' (turnstileABI k) (ModuleAddress k)
                    (Some turnstileAddress) csrFee [BigVal (uint nftID)])) (\<lambda>_.
             bnd (wrapped ErrFeeDistribution (on_ext (BurnCoins (bankKeeper k) ModuleName burnRemainingFees))) (\<lambda>_.
             bnd (lift (IntAdd L (Revenue csr) csrFee)) (\<lambda>revenue.
             SetCSR (csr\<lparr>Txs := Txs csr + 1, Revenue := revenue\<rparr>))))))))"

definition PostTxProcessing :: "sdk_lib \<Rightarrow> 'x Keeper \<Rightarrow> evm_tx \<Rightarrow> ('x csr_state, unit) act" where
  "PostTxProcessing L k tx =
     bnd GetParams (\<lambda>params.
     if \<not> EnableCsr params then ret ()
     else
       bnd (processEvents k (Logs tx)) (\<lambda>_.
       if GasUsed tx = 0 then ret ()
       else
         bnd (lift (rbind (NewIntFromBigInt L (GasPrice tx)) (IntMul L (uint (GasUsed tx))))) (\<lambda>fee.
         bnd (gets (\<lambda>s. EvmDenom k (kext s))) (\<lambda>evmDenom.
         let fees = [\<lparr>Denom = evmDenom, Amount = fee\<rparr>];
             burn_all = wrapped ErrFeeDistribution (on_ext (BurnCoins (bankKeeper k) ModuleName fees)) in
         bnd (wrapped ErrFeeDistribution
               (on_ext (SendCoinsFromModuleToModule (bankKeeper k) (FeeCollectorName k) ModuleName fees))) (\<lambda>_.
         case txTo tx of None \<Rightarrow> burn_all
         | Some contract \<Rightarrow>
             bnd (GetNFTByContract (AddressHex (eth k) contract)) (\<lambda>foundNFT.
             case foundNFT of None \<Rightarrow> burn_all
             | Some nftID \<Rightarrow> distribute L k params evmDenom fee nftID))))))"

section \<open>Begin block, message server, genesis\<close>

definition BeginBlock :: "'x Keeper \<Rightarrow> ('x csr_state, unit) act" where
  "BeginBlock k =
     bnd (GetTurnstile k) (\<lambda>found.
     if found \<noteq> None then ret ()
     else
       bnd GetParams (\<lambda>params.
       if \<not> EnableCsr params then ret ()
       else
         bnd (attempt (DeployTurnstile k)) (\<lambda>r.
         case r of Inl e \<Rightarrow> panic ''error deploying Turnstile''
         | Inr turnstile \<Rightarrow> SetTurnstile turnstile)))"

definition msg_UpdateParams :: "'x Keeper \<Rightarrow> string \<Rightarrow> Params \<Rightarrow> ('x csr_state, unit) act" where
  "msg_UpdateParams k auth params =
     (if GetAuthority k \<noteq> auth then raise ErrInvalidSigner
      else bnd (lift (Params_Validate params)) (\<lambda>_. SetParams params))"

definition InitGenesis :: "'x Keeper \<Rightarrow> GenesisState \<Rightarrow> ('x csr_state, unit) act" where
  "InitGenesis k genState =
     bnd (SetParams (gs_Params genState)) (\<lambda>_.
     bnd (for_each SetCSR (Csrs genState)) (\<lambda>_.
     bnd (if TurnstileAddress genState \<noteq> ''''
          then SetTurnstile (HexToAddress (eth k) (TurnstileAddress genState)) else ret ()) (\<lambda>_.
     bnd (on_ext (GetModuleAccount k ModuleName)) (\<lambda>acc.
     if \<not> acc then panic ''the csr module account has not been set'' else ret ()))))"

definition ExportGenesis :: "'x Keeper \<Rightarrow> ('x csr_state, GenesisState) act" where
  "ExportGenesis k =
     bnd GetParams (\<lambda>params.
     bnd GetAllCSRs (\<lambda>csrs.
     bnd (GetTurnstile k) (\<lambda>turnstile.
     ret (DefaultGenesis\<lparr>gs_Params := params, Csrs := csrs,
            TurnstileAddress := (case turnstile of None \<Rightarrow> '''' | Some a \<Rightarrow> AddressHex (eth k) a)\<rparr>))))"

section \<open>grpc_query.go\<close>

definition Params_query :: "('x csr_state, Params) act" where
  "Params_query = GetParams"

fun page_csrs :: "(bytes \<times> csr_value) list \<Rightarrow> ('x csr_state, CSR list) act" where
  "page_csrs [] = ret []"
| "page_csrs ((key, v) # es) =
     bnd (lift (BytesToUInt64 (drop 1 key))) (\<lambda>nft.
     bnd (GetCSR nft) (\<lambda>found.
     case found of None \<Rightarrow> panic ''nil pointer''
     | Some csr \<Rightarrow> bnd (page_csrs es) (\<lambda>csrs. ret (csr # csrs))))"

text \<open>Which entries a page holds is the choice of the SDK's Paginate.\<close>

definition CSRs_query :: "('pg \<Rightarrow> (bytes \<times> csr_value) list \<Rightarrow> ((bytes \<times> csr_value) list \<times> 'pr) res) \<Rightarrow>
    'pg option \<Rightarrow> ('x csr_state, CSR list \<times> 'pr) act" where
  "CSRs_query paginate request =
     (case request of None \<Rightarrow> raise status_InvalidArgument
      | Some pagination \<Rightarrow>
          bnd (store_iterate KeyPrefixCSR) (\<lambda>es.
          bnd (wrapped status_Internal (lift (paginate pagination es))) (\<lambda>(page, pageRes).
          bnd (page_csrs page) (\<lambda>csrs. ret (csrs, pageRes)))))"

definition CSRByNFT :: "u64 option \<Rightarrow> ('x csr_state, CSR) act" where
  "CSRByNFT request =
     (case request of None \<Rightarrow> raise status_InvalidArgument
      | Some nftId \<Rightarrow>
          bnd (GetCSR nftId) (\<lambda>found.
          case found of None \<Rightarrow> raise status_NotFound | Some csr \<Rightarrow> ret csr))"

definition CSRByContract :: "'x Keeper \<Rightarrow> string option \<Rightarrow> ('x csr_state, CSR) act" where
  "CSRByContract k request =
     (case request of None \<Rightarrow> raise status_InvalidArgument
      | Some address \<Rightarrow>
          if TrimSpace address = '''' then raise status_InvalidArgument
          else
            bnd (wrapped status_InvalidArgument (lift (ValidateNonZeroAddress (eth k) address))) (\<lambda>_.
            bnd (GetNFTByContract address) (\<lambda>found.
            case found of None \<Rightarrow> raise status_NotFound
            | Some nft \<Rightarrow>
                bnd (GetCSR nft) (\<lambda>csr. case csr of None \<Rightarrow> panic ''nil pointer'' | Some c \<Rightarrow> ret c))))"

definition Turnstile_query :: "'x Keeper \<Rightarrow> ('x csr_state, string) act" where
  "Turnstile_query k =
     bnd (GetTurnstile k) (\<lambda>found.
     case found of None \<Rightarrow> raise status_NotFound | Some address \<Rightarrow> ret (AddressHex (eth k) address))"

end
