(* ===== verification/Csr_Registry.thy ===== *)
theory Csr_Registry
  imports Csr
begin

text \<open>
  The register of x/csr: identifiers as keys, what is found after a write, and the
  invariant that the index of contracts and the stored NFTs agree, kept by every event,
  by the hook and by the other operations.
\<close>

section \<open>Keys\<close>

lemma UInt64ToBytes_length [simp]: "length (UInt64ToBytes n) = 8"
  by (simp add: UInt64ToBytes_def)

lemma horner_bytes:
  "horner_sum of_char 256 (map (\<lambda>i. char_of (n div 256 ^ i)) [0..<m]) = n mod 256 ^ m" for n :: int
proof (induction m)
  case (Suc m)
  have "horner_sum of_char 256 (map (\<lambda>i. char_of (n div 256 ^ i)) [0..<Suc m]) =
      n mod 256 ^ m + 256 ^ m * (n div 256 ^ m mod 256)"
    using Suc by (simp add: horner_sum_append of_char_of)
  also have "\<dots> = n mod (256 ^ m * 256)"
    using zmod_zmult2_eq [of 256 n "256 ^ m"] by simp
  finally show ?case by (simp add: mult.commute)
qed simp

lemma BytesToUInt64_UInt64ToBytes [simp]: "BytesToUInt64 (UInt64ToBytes n) = Ok n"
proof -
  have "uint n mod 256 ^ 8 = uint n" using uint_lt2p [of n] by simp
  then show ?thesis using horner_bytes [of "uint n" 8] by (simp add: BytesToUInt64_def UInt64ToBytes_def)
qed

lemma UInt64ToBytes_inj [simp]: "UInt64ToBytes m = UInt64ToBytes n \<longleftrightarrow> m = n"
  by (metis BytesToUInt64_UInt64ToBytes res.inject(1))

abbreviation csr_get :: "'x csr_state \<Rightarrow> bytes \<Rightarrow> csr_value option" where
  "csr_get s \<equiv> kv_get (kvstore (kown s))"

abbreviation turnstile_key :: bytes where
  "turnstile_key \<equiv> KeyPrefixAddrs @ TurnstileKey"

lemma csr_keys [simp]:
  "csr_key m = csr_key n \<longleftrightarrow> m = n" "contract_key a = contract_key b \<longleftrightarrow> a = b"
  "csr_key n \<noteq> contract_key a" "contract_key a \<noteq> csr_key n"
  "csr_key n \<noteq> turnstile_key" "turnstile_key \<noteq> csr_key n"
  "contract_key a \<noteq> turnstile_key" "turnstile_key \<noteq> contract_key a"
  by (auto simp: csr_key_def contract_key_def KeyPrefixCSR_def KeyPrefixContract_def KeyPrefixAddrs_def)

lemma key_images [simp]: "contract_key a \<in> contract_key ` A \<longleftrightarrow> a \<in> A" "csr_key n \<notin> contract_key ` A"
  by auto

section \<open>Reading and writing\<close>

lemma GetCSR_Ok_iff [act_simps]: "GetCSR n s = (Ok r, t) \<longleftrightarrow> t = s \<and>
    (case csr_get s (csr_key n) of None \<Rightarrow> r = None | Some (CsrVal c) \<Rightarrow> r = Some c | Some v \<Rightarrow> False)"
  by (auto simp: GetCSR_def split: option.splits csr_value.splits)

lemma GetNFT_Ok_iff [act_simps]: "GetNFTByContract a s = (Ok r, t) \<longleftrightarrow> t = s \<and>
    (case csr_get s (contract_key a) of None \<Rightarrow> r = None
     | Some (NftVal b) \<Rightarrow> (\<exists>n. BytesToUInt64 b = Ok n \<and> r = Some n) | Some v \<Rightarrow> False)"
  by (auto simp: GetNFTByContract_def split: option.splits csr_value.splits)

lemma GetCSR_bnd_Ok: "bnd (GetCSR n) f s = (Ok y, t) \<longleftrightarrow> (csr_get s (csr_key n) = None \<and> f None s = (Ok y, t)) \<or>
    (\<exists>c. csr_get s (csr_key n) = Some (CsrVal c) \<and> f (Some c) s = (Ok y, t))"
proof (cases "csr_get s (csr_key n)")
  case (Some v)
  then show ?thesis unfolding bnd_Ok_iff GetCSR_Ok_iff by (cases v) auto
qed (simp add: GetCSR_Ok_iff)

lemma set_contracts_Ok:
  "for_each (set_contract b) cs s = (Ok u, t) \<Longrightarrow> [] \<notin> set cs \<and>
    t = s\<lparr>kown := (kown s)\<lparr>kvstore := fold (\<lambda>c. kv_set (contract_key c) (NftVal b)) cs (kvstore (kown s))\<rparr>\<rparr>"
  by (induction cs arbitrary: s) (fastforce simp: set_contract_def split: if_splits)+

lemma get_fold_contracts:
  "kv_get (fold (\<lambda>c. kv_set (contract_key c) v) cs m) x = (if x \<in> contract_key ` set cs then Some v else kv_get m x)"
  by (induction cs arbitrary: m) (auto simp: kv_get_set)

lemma kv_ok_fold_contracts: "kv_ok m \<Longrightarrow> kv_ok (fold (\<lambda>c. kv_set (contract_key c) v) cs m)"
  by (induction cs arbitrary: m) (auto intro: kv_ok_set)

lemma SetCSR_Ok:
  assumes "SetCSR c s = (Ok u, t)"
  shows "kext t = kext s \<and> pspace (kown t) = pspace (kown s) \<and> [] \<notin> set (Contracts c) \<and>
    (kv_ok (kvstore (kown s)) \<longrightarrow> kv_ok (kvstore (kown t))) \<and>
    csr_get t x = (if x \<in> contract_key ` set (Contracts c) then Some (NftVal (UInt64ToBytes (Id c)))
      else if x = csr_key (Id c) then Some (CsrVal c) else csr_get s x)"
proof -
  define m where "m = kv_set (csr_key (Id c)) (CsrVal c) (kvstore (kown s))"
  have "for_each (set_contract (UInt64ToBytes (Id c))) (Contracts c) (s\<lparr>kown := (kown s)\<lparr>kvstore := m\<rparr>\<rparr>) = (Ok u, t)"
    using assms by (auto simp: SetCSR_def m_def)
  from set_contracts_Ok [OF this] have t: "[] \<notin> set (Contracts c)"
    "t = s\<lparr>kown := (kown s)\<lparr>kvstore := fold (\<lambda>a. kv_set (contract_key a) (NftVal (UInt64ToBytes (Id c)))) (Contracts c) m\<rparr>\<rparr>"
    by auto
  then show ?thesis
    by (auto simp: get_fold_contracts m_def kv_get_set intro!: kv_ok_fold_contracts kv_ok_set)
qed

text \<open>Storing succeeds as long as no contract is the empty string.\<close>

lemma SetCSR_total: "[] \<notin> set (Contracts c) \<Longrightarrow> \<exists>t. SetCSR c s = (Ok (), t)"
proof -
  have "[] \<notin> set cs \<Longrightarrow> \<exists>t. for_each (set_contract b) cs s = (Ok (), t)" for b cs and s :: "'a csr_state"
    by (induction cs arbitrary: s) (auto simp: set_contract_def)
  then show "[] \<notin> set (Contracts c) \<Longrightarrow> \<exists>t. SetCSR c s = (Ok (), t)" by (simp add: SetCSR_def)
qed

section \<open>The invariant\<close>

definition csr_ok :: "eth_lib \<Rightarrow> 'x csr_state \<Rightarrow> bool" where
  "csr_ok E s \<longleftrightarrow> kv_ok (kvstore (kown s)) \<and>
     (\<forall>n v. csr_get s (csr_key n) = Some v \<longrightarrow>
        (\<exists>c. v = CsrVal c \<and> Id c = n \<and> CSR_Validate E c = Ok () \<and>
             (\<forall>a \<in> set (Contracts c). csr_get s (contract_key a) = Some (NftVal (UInt64ToBytes n))))) \<and>
     (\<forall>a v. csr_get s (contract_key a) = Some v \<longrightarrow>
        (\<exists>c. v = NftVal (UInt64ToBytes (Id c)) \<and> csr_get s (csr_key (Id c)) = Some (CsrVal c) \<and> a \<in> set (Contracts c)))"

lemma csr_ok_nft:
  assumes "csr_ok E s" and "csr_get s (csr_key n) = Some v"
  obtains c where "v = CsrVal c" "Id c = n" "CSR_Validate E c = Ok ()"
    "\<And>a. a \<in> set (Contracts c) \<Longrightarrow> csr_get s (contract_key a) = Some (NftVal (UInt64ToBytes n))"
  using assms unfolding csr_ok_def by blast

lemma csr_ok_contract:
  assumes "csr_ok E s" and "csr_get s (contract_key a) = Some v"
  obtains c where "v = NftVal (UInt64ToBytes (Id c))" "csr_get s (csr_key (Id c)) = Some (CsrVal c)" "a \<in> set (Contracts c)"
  using assms unfolding csr_ok_def by blast

lemma csr_ok_cong: "kvstore (kown t) = kvstore (kown s) \<Longrightarrow> csr_ok E t = csr_ok E s"
  by (simp add: csr_ok_def)

lemma SetCSR_keeps:
  assumes ok: "csr_ok E s" and run: "SetCSR c s = (Ok u, t)" and valid: "CSR_Validate E c = Ok ()"
    and free: "\<And>a. a \<in> set (Contracts c) \<Longrightarrow> csr_get s (contract_key a) = None \<or>
      csr_get s (contract_key a) = Some (NftVal (UInt64ToBytes (Id c)))"
    and grows: "\<And>c'. csr_get s (csr_key (Id c)) = Some (CsrVal c') \<Longrightarrow> set (Contracts c') \<subseteq> set (Contracts c)"
  shows "csr_ok E t"
proof -
  note get = SetCSR_Ok [OF run]
  have nfts: "\<exists>c'. v = CsrVal c' \<and> Id c' = n \<and> CSR_Validate E c' = Ok () \<and>
      (\<forall>a \<in> set (Contracts c'). csr_get t (contract_key a) = Some (NftVal (UInt64ToBytes n)))"
    if v: "csr_get t (csr_key n) = Some v" for n v
  proof (cases "n = Id c")
    case True
    then show ?thesis using v valid get by auto
  next
    case False
    then have "csr_get s (csr_key n) = Some v" using v get by auto
    then obtain c' where c': "v = CsrVal c'" "Id c' = n" "CSR_Validate E c' = Ok ()"
      "\<And>a. a \<in> set (Contracts c') \<Longrightarrow> csr_get s (contract_key a) = Some (NftVal (UInt64ToBytes n))"
      using csr_ok_nft [OF ok] by metis
    then have "a \<notin> set (Contracts c)" if "a \<in> set (Contracts c')" for a
      using free [of a] that False by auto
    then show ?thesis using c' get by (intro exI [of _ c']) auto
  qed
  have index: "\<exists>c'. v = NftVal (UInt64ToBytes (Id c')) \<and> csr_get t (csr_key (Id c')) = Some (CsrVal c') \<and> a \<in> set (Contracts c')"
    if v: "csr_get t (contract_key a) = Some v" for a v
  proof (cases "a \<in> set (Contracts c)")
    case True
    then show ?thesis using v get by (intro exI [of _ c]) auto
  next
    case False
    then have "csr_get s (contract_key a) = Some v" using v get by auto
    then obtain c' where c': "v = NftVal (UInt64ToBytes (Id c'))" "csr_get s (csr_key (Id c')) = Some (CsrVal c')"
      "a \<in> set (Contracts c')" using csr_ok_contract [OF ok] by metis
    then have "Id c' \<noteq> Id c" using grows [of c'] False by auto
    then show ?thesis using c' get by (intro exI [of _ c']) auto
  qed
  have "kv_ok (kvstore (kown t))" using ok get by (auto simp: csr_ok_def)
  then show ?thesis unfolding csr_ok_def using nfts index by blast
qed

section \<open>Events\<close>

lemma ValidateContract_Ok_iff [act_simps]: "ValidateContract k c s = (Ok u, t) \<longleftrightarrow> t = s \<and>
    csr_get s (contract_key (AddressHex (eth k) c)) = None \<and> EvmAccount k c (kext s) = Some True"
  by (auto simp: ValidateContract_def GetNFT_Ok_iff split: option.splits csr_value.splits)

lemma RegisterEvent_Ok_iff:
  "RegisterEvent k d s = (Ok u, t) \<longleftrightarrow>
     (\<exists>e. unpack_register (turnstileABI k) d = Ok e \<and>
        csr_get s (contract_key (AddressHex (eth k) (reg_SmartContract e))) = None \<and>
        EvmAccount k (reg_SmartContract e) (kext s) = Some True \<and>
        csr_get s (csr_key (big_Uint64 (reg_TokenId e))) = None \<and>
        CSR_Validate (eth k) (NewCSR [AddressHex (eth k) (reg_SmartContract e)] (big_Uint64 (reg_TokenId e))) = Ok () \<and>
        SetCSR (NewCSR [AddressHex (eth k) (reg_SmartContract e)] (big_Uint64 (reg_TokenId e))) s = (Ok u, t))"
  unfolding RegisterEvent_def Let_def bnd_Ok_iff [of "lift _"] bnd_Ok_iff [of "ValidateContract _ _"] GetCSR_bnd_Ok
    lift_Ok_iff ValidateContract_Ok_iff
  by simp

lemma UpdateEvent_Ok_iff:
  "UpdateEvent k d s = (Ok u, t) \<longleftrightarrow>
     (\<exists>e c. unpack_update (turnstileABI k) d = Ok e \<and>
        csr_get s (contract_key (AddressHex (eth k) (upd_SmartContract e))) = None \<and>
        EvmAccount k (upd_SmartContract e) (kext s) = Some True \<and>
        csr_get s (csr_key (big_Uint64 (upd_TokenId e))) = Some (CsrVal c) \<and>
        CSR_Validate (eth k) (c\<lparr>Contracts := Contracts c @ [AddressHex (eth k) (upd_SmartContract e)]\<rparr>) = Ok () \<and>
        SetCSR (c\<lparr>Contracts := Contracts c @ [AddressHex (eth k) (upd_SmartContract e)]\<rparr>) s = (Ok u, t))"
  unfolding UpdateEvent_def Let_def bnd_Ok_iff [of "lift _"] bnd_Ok_iff [of "ValidateContract _ _"] GetCSR_bnd_Ok
    lift_Ok_iff ValidateContract_Ok_iff
  by auto

text \<open>An event that is refused has written nothing.\<close>

definition err_clean :: "('s, 'a) act \<Rightarrow> bool" where
  "err_clean m \<longleftrightarrow> (\<forall>s e t. m s = (Err e, t) \<longrightarrow> t = s)"

lemma err_clean_bnd: "keeps (\<lambda>s. s) m \<Longrightarrow> (\<And>x. err_clean (f x)) \<Longrightarrow> err_clean (bnd m f)"
proof -
  assume m: "keeps (\<lambda>s. s) m" and f: "\<And>x. err_clean (f x)"
  have "u = s" if "m s = (r, u)" for r u s using keepsD [OF m that] .
  then show "err_clean (bnd m f)"
    using f unfolding err_clean_def bnd_Err_iff by metis
qed

lemma err_clean_basic: "err_clean (raise e)" "err_clean (panic p)"
  by (simp_all add: err_clean_def raise_def panic_def)

lemma err_clean_if: "err_clean m \<Longrightarrow> err_clean n \<Longrightarrow> err_clean (if b then m else n)"
  by simp

lemma SetCSR_err_clean: "err_clean (SetCSR c)"
proof -
  have "for_each (set_contract b) cs s \<noteq> (Err e, t)" for b cs e t and s :: "'a csr_state"
    by (induction cs arbitrary: s)
      (auto simp: bnd_Err_iff set_contract_def store_set_def modify_def ret_def panic_def split: if_splits)
  then show ?thesis by (simp add: err_clean_def SetCSR_def bnd_Err_iff store_set_def modify_def)
qed

lemma reads_keep: "keeps (\<lambda>s. s) (GetCSR n)" "keeps (\<lambda>s. s) (GetNFTByContract a)" "keeps (\<lambda>s. s) (ValidateContract k c)"
proof -
  have get: "keeps (\<lambda>s. s) (store_get x)" for x :: bytes by (simp add: keeps_def store_get_def gets_def)
  then show "keeps (\<lambda>s. s) (GetCSR n)"
    unfolding GetCSR_def by (intro keeps_intros) (auto intro: keeps_intros split: option.split csr_value.split)
  from get show nft: "keeps (\<lambda>s. s) (GetNFTByContract a)" for a
    unfolding GetNFTByContract_def by (intro keeps_intros) (auto intro!: keeps_intros split: option.split csr_value.split)
  show "keeps (\<lambda>s. s) (ValidateContract k c)"
    unfolding ValidateContract_def by (intro keeps_intros nft)
qed

lemma event_err_clean: "err_clean (RegisterEvent k d)" "err_clean (UpdateEvent k d)"
  unfolding RegisterEvent_def UpdateEvent_def Let_def
  by (intro err_clean_bnd err_clean_basic err_clean_if SetCSR_err_clean reads_keep keeps_basic,
      auto intro!: err_clean_bnd err_clean_basic SetCSR_err_clean keeps_basic reads_keep split: option.split)

lemma event_Err: "RegisterEvent k d s = (Err e, t) \<Longrightarrow> t = s" "UpdateEvent k d s = (Err e, t) \<Longrightarrow> t = s"
  using event_err_clean [of k d] by (auto simp: err_clean_def)

lemma RegisterEvent_keeps:
  assumes ok: "csr_ok (eth k) s" and run: "RegisterEvent k d s = (Ok u, t)"
  shows "csr_ok (eth k) t \<and> kext t = kext s \<and> pspace (kown t) = pspace (kown s) \<and> csr_get t turnstile_key = csr_get s turnstile_key"
proof -
  obtain e :: RegisterCSREvent where e: "csr_get s (contract_key (AddressHex (eth k) (reg_SmartContract e))) = None"
    "csr_get s (csr_key (big_Uint64 (reg_TokenId e))) = None"
    "CSR_Validate (eth k) (NewCSR [AddressHex (eth k) (reg_SmartContract e)] (big_Uint64 (reg_TokenId e))) = Ok ()"
    and set: "SetCSR (NewCSR [AddressHex (eth k) (reg_SmartContract e)] (big_Uint64 (reg_TokenId e))) s = (Ok u, t)"
    using run unfolding RegisterEvent_Ok_iff by blast
  have "csr_ok (eth k) t" by (rule SetCSR_keeps [OF ok set e(3)]) (use e in \<open>auto simp: NewCSR_def\<close>)
  then show ?thesis using SetCSR_Ok [OF set, of turnstile_key] by auto
qed

lemma UpdateEvent_keeps:
  assumes ok: "csr_ok (eth k) s" and run: "UpdateEvent k d s = (Ok u, t)"
  shows "csr_ok (eth k) t \<and> kext t = kext s \<and> pspace (kown t) = pspace (kown s) \<and> csr_get t turnstile_key = csr_get s turnstile_key"
proof -
  obtain e :: UpdateCSREvent and c where e: "csr_get s (contract_key (AddressHex (eth k) (upd_SmartContract e))) = None"
    "csr_get s (csr_key (big_Uint64 (upd_TokenId e))) = Some (CsrVal c)"
    "CSR_Validate (eth k) (c\<lparr>Contracts := Contracts c @ [AddressHex (eth k) (upd_SmartContract e)]\<rparr>) = Ok ()"
    and set: "SetCSR (c\<lparr>Contracts := Contracts c @ [AddressHex (eth k) (upd_SmartContract e)]\<rparr>) s = (Ok u, t)"
    using run unfolding UpdateEvent_Ok_iff by blast
  have c: "Id c = big_Uint64 (upd_TokenId e)" "\<And>a. a \<in> set (Contracts c) \<Longrightarrow> csr_get s (contract_key a) = Some (NftVal (UInt64ToBytes (Id c)))"
    by (rule csr_ok_nft [OF ok e(2)], simp)+
  have "csr_ok (eth k) t"
  proof (rule SetCSR_keeps [OF ok set e(3)], goal_cases)
    case (1 a)
    then show ?case using c(2) [of a] e(1) by auto
  next
    case (2 c')
    then show ?case using e(2) c(1) by auto
  qed
  then show ?thesis using SetCSR_Ok [OF set, of turnstile_key] by auto
qed

lemma process_logs_keeps:
  assumes "process_logs k a logs s = (Ok u, t)" and "csr_ok (eth k) s"
  shows "csr_ok (eth k) t \<and> kext t = kext s \<and> pspace (kown t) = pspace (kown s) \<and> csr_get t turnstile_key = csr_get s turnstile_key"
  using assms
proof (induction logs arbitrary: s)
  case (Cons log logs)
  show ?case
  proof (cases "Topics log = [] \<or> LogAddress log \<noteq> a")
    case True
    then have "process_logs k a logs s = (Ok u, t)" using Cons.prems(1) by (auto split: list.splits)
    then show ?thesis using Cons.IH Cons.prems(2) by blast
  next
    case False
    then obtain x xs where topics: "Topics log = x # xs" "LogAddress log = a" by (auto simp: neq_Nil_conv)
    show ?thesis
    proof (cases "EventByID (turnstileABI k) x")
      case None
      then show ?thesis using Cons.prems topics by simp
    next
      case (Some name)
      let ?m = "if name = TurnstileEventRegister then RegisterEvent k (LogData log)
                else if name = TurnstileEventUpdate then UpdateEvent k (LogData log) else ret ()"
      obtain r v where r: "attempt ?m s = (Ok r, v)"
        and rest: "(case r of Inl e \<Rightarrow> ret () | Inr _ \<Rightarrow> process_logs k a logs) v = (Ok u, t)"
        using Cons.prems(1) topics Some by auto
      have v: "csr_ok (eth k) v \<and> kext v = kext s \<and> pspace (kown v) = pspace (kown s) \<and> csr_get v turnstile_key = csr_get s turnstile_key"
      proof -
        from r consider w where "r = Inr w" "?m s = (Ok w, v)" | e where "?m s = (Err e, v)" unfolding attempt_Ok_iff by blast
        then show ?thesis
        proof cases
          case 1
          then show ?thesis
            using RegisterEvent_keeps [OF Cons.prems(2), of "LogData log" w v]
              UpdateEvent_keeps [OF Cons.prems(2), of "LogData log" w v] Cons.prems(2) by (simp split: if_splits)
        next
          case (2 e)
          then have "v = s" using event_Err [of k "LogData log" s e v] by (simp add: ret_def split: if_splits)
          then show ?thesis using Cons.prems(2) by simp
        qed
      qed
      show ?thesis
        using v rest Cons.IH [of v] by (cases r) auto
    qed
  qed
qed simp

section \<open>The hook\<close>

lemma processEvents_keeps:
  assumes "processEvents k logs s = (Ok u, t)" and "csr_ok (eth k) s"
  shows "csr_ok (eth k) t \<and> kext t = kext s \<and> pspace (kown t) = pspace (kown s) \<and> csr_get t turnstile_key = csr_get s turnstile_key"
proof -
  obtain a v where "GetTurnstile k s = (Ok (Some a), v)" "process_logs k a logs v = (Ok u, t)"
    using assms(1) by (auto simp: processEvents_def split: option.splits)
  moreover from this(1) have "v = s" by (auto simp: GetTurnstile_def split: option.splits csr_value.splits)
  ultimately show ?thesis using process_logs_keeps assms(2) by blast
qed

lemma CallMethod_own: "CallMethod k m A f c n args s = (Ok r, t) \<Longrightarrow> kown t = kown s"
proof -
  have "keeps kown (CallEVM k f c n d b)" for d b
    unfolding CallEVM_def Let_def by (intro keeps_intros)
  then have "keeps kown (CallMethod k m A f c n args)"
    unfolding CallMethod_def by (intro keeps_intros)
  then show "CallMethod k m A f c n args s = (Ok r, t) \<Longrightarrow> kown t = kown s" using keepsD by metis
qed

text \<open>The steps of a distribution that succeeds.\<close>

lemma distribute_Ok:
  assumes "distribute L k params d fee n s = (Ok u, t)"
  obtains c share rest revenue a r v w where "csr_get s (csr_key n) = Some (CsrVal c)"
    "rbind (DecMul L (LegacyNewDecFromInt fee) (CsrShares params)) (DecTruncateInt L) = Ok share"
    "IntSub L fee share = Ok rest" "GetTurnstile k s = (Ok (Some a), s)"
    "CallMethod k ''distributeFees'' (turnstileABI k) (ModuleAddress k) (Some a) share [BigVal (uint n)] s = (Ok r, v)"
    "on_ext (BurnCoins (bankKeeper k) ModuleName [\<lparr>Denom = d, Amount = rest\<rparr>]) v = (Ok (), w)"
    "IntAdd L (Revenue c) share = Ok revenue" "SetCSR (c\<lparr>Txs := Txs c + 1, Revenue := revenue\<rparr>) w = (Ok u, t)"
proof -
  have turnstile: "GetTurnstile k s = (Ok x, y) \<Longrightarrow> y = s" for x y
    by (auto simp: GetTurnstile_def split: option.splits csr_value.splits)
  obtain c where c: "csr_get s (csr_key n) = Some (CsrVal c)"
    and "bnd (lift (rbind (DecMul L (LegacyNewDecFromInt fee) (CsrShares params)) (DecTruncateInt L))) (\<lambda>csrFee.
         bnd (lift (IntSub L fee csrFee)) (\<lambda>remainingFee.
         bnd (GetTurnstile k) (\<lambda>turnstile.
         case turnstile of None \<Rightarrow> raise ErrContractDeployments
         | Some turnstileAddress \<Rightarrow>
             bnd (wrapped ErrFeeDistribution (CallMethod k ''distributeFees'' (turnstileABI k) (ModuleAddress k)
                    (Some turnstileAddress) csrFee [BigVal (uint n)])) (\<lambda>_.
             bnd (wrapped ErrFeeDistribution (on_ext (BurnCoins (bankKeeper k) ModuleName [\<lparr>Denom = d, Amount = remainingFee\<rparr>]))) (\<lambda>_.
             bnd (lift (IntAdd L (Revenue c) csrFee)) (\<lambda>revenue.
             SetCSR (c\<lparr>Txs := Txs c + 1, Revenue := revenue\<rparr>))))))) s = (Ok u, t)"
    using assms unfolding distribute_def GetCSR_bnd_Ok Let_def by auto
  then obtain share rest x y where sr: "rbind (DecMul L (LegacyNewDecFromInt fee) (CsrShares params)) (DecTruncateInt L) = Ok share"
    "IntSub L fee share = Ok rest" and x: "GetTurnstile k s = (Ok x, y)"
    and run: "(case x of None \<Rightarrow> raise ErrContractDeployments
         | Some turnstileAddress \<Rightarrow>
             bnd (wrapped ErrFeeDistribution (CallMethod k ''distributeFees'' (turnstileABI k) (ModuleAddress k)
                    (Some turnstileAddress) share [BigVal (uint n)])) (\<lambda>_.
             bnd (wrapped ErrFeeDistribution (on_ext (BurnCoins (bankKeeper k) ModuleName [\<lparr>Denom = d, Amount = rest\<rparr>]))) (\<lambda>_.
             bnd (lift (IntAdd L (Revenue c) share)) (\<lambda>revenue.
             SetCSR (c\<lparr>Txs := Txs c + 1, Revenue := revenue\<rparr>))))) y = (Ok u, t)"
    unfolding bnd_Ok_iff [of "lift (rbind _ _)"] bnd_Ok_iff [of "lift (IntSub _ _ _)"] bnd_Ok_iff [of "GetTurnstile _"] lift_Ok_iff
    by blast
  have y: "y = s" using turnstile x by blast
  from run obtain a where "x = Some a" by (cases x) auto
  with run y x show thesis
    using that [OF c sr, of a] unfolding bnd_Ok_iff wrapped_Ok_iff lift_Ok_iff by auto
qed

lemma PostTx_Ok:
  assumes run: "PostTxProcessing L k tx s = (Ok (), t)" and p: "pspace (kown s) = Some params" "EnableCsr params"
  obtains (free) "GasUsed tx = 0" "processEvents k (Logs tx) s = (Ok (), t)"
  | (paid) fee v w where "GasUsed tx \<noteq> 0" "processEvents k (Logs tx) s = (Ok (), v)"
      "rbind (NewIntFromBigInt L (GasPrice tx)) (IntMul L (uint (GasUsed tx))) = Ok fee"
      "on_ext (SendCoinsFromModuleToModule (bankKeeper k) (FeeCollectorName k) ModuleName
         [\<lparr>Denom = EvmDenom k (kext v), Amount = fee\<rparr>]) v = (Ok (), w)"
      "(\<exists>c n. txTo tx = Some c \<and> GetNFTByContract (AddressHex (eth k) c) w = (Ok (Some n), w) \<and>
          distribute L k params (EvmDenom k (kext v)) fee n w = (Ok (), t)) \<or>
       (txTo tx = None \<or> (\<exists>c. txTo tx = Some c \<and> GetNFTByContract (AddressHex (eth k) c) w = (Ok None, w))) \<and>
          on_ext (BurnCoins (bankKeeper k) ModuleName [\<lparr>Denom = EvmDenom k (kext v), Amount = fee\<rparr>]) w = (Ok (), t)"
proof -
  obtain v where ev: "processEvents k (Logs tx) s = (Ok (), v)"
    and rest: "(if GasUsed tx = 0 then ret ()
       else
         bnd (lift (rbind (NewIntFromBigInt L (GasPrice tx)) (IntMul L (uint (GasUsed tx))))) (\<lambda>fee.
         bnd (gets (\<lambda>s. EvmDenom k (kext s))) (\<lambda>evmDenom.
         bnd (wrapped ErrFeeDistribution
               (on_ext (SendCoinsFromModuleToModule (bankKeeper k) (FeeCollectorName k) ModuleName [\<lparr>Denom = evmDenom, Amount = fee\<rparr>]))) (\<lambda>_.
         case txTo tx of None \<Rightarrow> wrapped ErrFeeDistribution (on_ext (BurnCoins (bankKeeper k) ModuleName [\<lparr>Denom = evmDenom, Amount = fee\<rparr>]))
         | Some contract \<Rightarrow>
             bnd (GetNFTByContract (AddressHex (eth k) contract)) (\<lambda>foundNFT.
             case foundNFT of None \<Rightarrow> wrapped ErrFeeDistribution (on_ext (BurnCoins (bankKeeper k) ModuleName [\<lparr>Denom = evmDenom, Amount = fee\<rparr>]))
             | Some nftID \<Rightarrow> distribute L k params evmDenom fee nftID))))) v = (Ok (), t)"
    using run p unfolding PostTxProcessing_def GetParams_def Let_def bnd_Ok_iff [of param_get] param_get_Ok_iff
      if_act_Ok_iff [of "\<not> EnableCsr _"] ret_Ok_iff bnd_Ok_iff [of "processEvents _ _"] by auto
  show thesis
  proof (cases "GasUsed tx = 0")
    case True
    then show ?thesis using free ev rest by simp
  next
    case False
    then obtain fee w where fw: "rbind (NewIntFromBigInt L (GasPrice tx)) (IntMul L (uint (GasUsed tx))) = Ok fee"
      "on_ext (SendCoinsFromModuleToModule (bankKeeper k) (FeeCollectorName k) ModuleName
         [\<lparr>Denom = EvmDenom k (kext v), Amount = fee\<rparr>]) v = (Ok (), w)"
      and last: "(case txTo tx of None \<Rightarrow> wrapped ErrFeeDistribution (on_ext (BurnCoins (bankKeeper k) ModuleName [\<lparr>Denom = EvmDenom k (kext v), Amount = fee\<rparr>]))
         | Some contract \<Rightarrow>
             bnd (GetNFTByContract (AddressHex (eth k) contract)) (\<lambda>foundNFT.
             case foundNFT of None \<Rightarrow> wrapped ErrFeeDistribution (on_ext (BurnCoins (bankKeeper k) ModuleName [\<lparr>Denom = EvmDenom k (kext v), Amount = fee\<rparr>]))
             | Some nftID \<Rightarrow> distribute L k params (EvmDenom k (kext v)) fee nftID)) w = (Ok (), t)"
      using rest unfolding bnd_Ok_iff [of "lift _"] bnd_Ok_iff [of "gets _"] bnd_Ok_iff [of "wrapped _ _"] wrapped_Ok_iff
        lift_Ok_iff gets_Ok_iff by auto
    show ?thesis
    proof (rule paid [OF False ev fw], cases "txTo tx")
      case (Some c)
      then obtain r where "GetNFTByContract (AddressHex (eth k) c) w = (Ok r, w)"
        "(case r of None \<Rightarrow> wrapped ErrFeeDistribution (on_ext (BurnCoins (bankKeeper k) ModuleName [\<lparr>Denom = EvmDenom k (kext v), Amount = fee\<rparr>]))
             | Some nftID \<Rightarrow> distribute L k params (EvmDenom k (kext v)) fee nftID) w = (Ok (), t)"
        using last unfolding bnd_Ok_iff [of "GetNFTByContract _"] by (auto simp: GetNFT_Ok_iff)
      then show "(\<exists>c n. txTo tx = Some c \<and> GetNFTByContract (AddressHex (eth k) c) w = (Ok (Some n), w) \<and>
          distribute L k params (EvmDenom k (kext v)) fee n w = (Ok (), t)) \<or>
       (txTo tx = None \<or> (\<exists>c. txTo tx = Some c \<and> GetNFTByContract (AddressHex (eth k) c) w = (Ok None, w))) \<and>
          on_ext (BurnCoins (bankKeeper k) ModuleName [\<lparr>Denom = EvmDenom k (kext v), Amount = fee\<rparr>]) w = (Ok (), t)"
        using Some by (cases r) auto
    qed (use last in simp)
  qed
qed

lemma distribute_keeps:
  assumes ok: "csr_ok (eth k) s" and run: "distribute L k params d fee n s = (Ok u, t)"
  shows "csr_ok (eth k) t"
proof (rule distribute_Ok [OF run])
  fix c share rest revenue a r v w
  assume c: "csr_get s (csr_key n) = Some (CsrVal c)"
    and call: "CallMethod k ''distributeFees'' (turnstileABI k) (ModuleAddress k) (Some a) share [BigVal (uint n)] s = (Ok r, v)"
    and burn: "on_ext (BurnCoins (bankKeeper k) ModuleName [\<lparr>Denom = d, Amount = rest\<rparr>]) v = (Ok (), w)"
    and set: "SetCSR (c\<lparr>Txs := Txs c + 1, Revenue := revenue\<rparr>) w = (Ok u, t)"
  obtain c' where c': "CsrVal c = CsrVal c'" "Id c' = n" "CSR_Validate (eth k) c' = Ok ()"
    "\<And>a. a \<in> set (Contracts c') \<Longrightarrow> csr_get s (contract_key a) = Some (NftVal (UInt64ToBytes n))"
    by (rule csr_ok_nft [OF ok c]) blast
  have w: "kown w = kown s" using burn CallMethod_own [OF call] by (auto simp: on_ext_Ok_iff)
  then have "csr_ok (eth k) w" using ok csr_ok_cong [of w s] by simp
  then show ?thesis
  proof (rule SetCSR_keeps [OF _ set], goal_cases)
    case 1
    then show ?case using c' by (simp add: CSR_Validate_def)
  next
    case (2 a)
    then show ?case using c' w by simp
  next
    case (3 b)
    then show ?case using c c' w by simp
  qed
qed

lemma PostTx_keeps:
  assumes ok: "csr_ok (eth k) s" and run: "PostTxProcessing L k tx s = (Ok (), t)"
  shows "csr_ok (eth k) t"
proof -
  obtain params where p: "pspace (kown s) = Some params"
    using run unfolding PostTxProcessing_def GetParams_def bnd_Ok_iff [of param_get] param_get_Ok_iff by blast
  show ?thesis
  proof (cases "EnableCsr params")
    case True
    show ?thesis
    proof (rule PostTx_Ok [OF run p True], goal_cases)
      case 1
      then show ?case using processEvents_keeps ok by blast
    next
      case (2 fee v w)
      have v: "csr_ok (eth k) v" using processEvents_keeps [OF 2(2) ok] by blast
      have "kown w = kown v" using 2(4) by (auto simp: on_ext_Ok_iff)
      then have w: "csr_ok (eth k) w" using v csr_ok_cong [of w v] by simp
      from 2(5) show ?case
      proof (elim disjE exE conjE)
        assume "on_ext (BurnCoins (bankKeeper k) ModuleName [\<lparr>Denom = EvmDenom k (kext v), Amount = fee\<rparr>]) w = (Ok (), t)"
        then have "kown t = kown w" by (auto simp: on_ext_Ok_iff)
        then show ?thesis using w csr_ok_cong [of t w] by simp
      qed (auto intro: distribute_keeps [OF w] csr_ok_cong [THEN iffD2, OF _ w] simp: on_ext_Ok_iff)
    qed
  next
    case False
    then show ?thesis using run p ok by (simp add: PostTxProcessing_def GetParams_def)
  qed
qed

text \<open>The operations of the module and the invariant over any of them.\<close>

datatype csr_op = OpHook evm_tx | OpBeginBlock | OpUpdateParams string Params

fun csr_run :: "sdk_lib \<Rightarrow> 'x Keeper \<Rightarrow> csr_op \<Rightarrow> ('x csr_state, unit) act" where
  "csr_run L k (OpHook tx) = PostTxProcessing L k tx"
| "csr_run L k OpBeginBlock = BeginBlock k"
| "csr_run L k (OpUpdateParams auth params) = msg_UpdateParams k auth params"

lemma keeps_DeployTurnstile: "keeps kown (DeployTurnstile k)"
  unfolding DeployTurnstile_def DeployContract_def CallEVM_def Let_def by (intro keeps_intros)

lemma SetTurnstile_keeps:
  assumes "csr_ok E s" and "SetTurnstile a s = (Ok u, t)"
  shows "csr_ok E t"
proof -
  have t: "kvstore (kown t) = kv_set turnstile_key (AddrVal a) (kvstore (kown s))"
    using assms(2) by (auto simp: SetTurnstile_def)
  have "csr_get t (csr_key n) = csr_get s (csr_key n)" "csr_get t (contract_key b) = csr_get s (contract_key b)" for n b
    by (simp_all add: t kv_get_set)
  moreover have "kv_ok (kvstore (kown t))" using assms(1) by (simp add: csr_ok_def t kv_ok_set)
  ultimately show ?thesis using assms(1) by (simp add: csr_ok_def)
qed

lemma csr_run_keeps:
  assumes ok: "csr_ok (eth k) s" and run: "csr_run L k op s = (Ok (), t)"
  shows "csr_ok (eth k) t"
proof (cases op)
  case (OpHook tx)
  then show ?thesis using run PostTx_keeps [OF ok] by simp
next
  case OpBeginBlock
  have "t = s \<or> (\<exists>a u. DeployTurnstile k s = (Ok a, u) \<and> SetTurnstile a u = (Ok (), t))"
    using run OpBeginBlock
    by (auto simp: BeginBlock_def GetTurnstile_def GetParams_def attempt_Ok_iff split: option.splits csr_value.splits if_splits)
  then show ?thesis
    using ok SetTurnstile_keeps csr_ok_cong keepsD [OF keeps_DeployTurnstile] by metis
next
  case (OpUpdateParams auth params)
  then have "kvstore (kown t) = kvstore (kown s)"
    using run by (auto simp: msg_UpdateParams_def SetParams_def split: if_splits)
  then show ?thesis using ok csr_ok_cong [of t s] by simp
qed

end
