(* ===== verification/Turnstile.thy ===== *)
theory Turnstile
  imports Kvstore Gotime
begin

text \<open>
  contracts/turnstile.sol: the contract that mints an NFT for every registered smart
  contract and keeps the fees each NFT has earned. The inherited ERC721 and Ownable
  contracts and the counter are library code, a record of functions over a state of
  their own; \<open>inherited_call\<close> is a call of one of their public functions (transfers and
  approvals of NFTs, transfer of ownership), given the caller and the call data. A call that reverts leaves no trace.
\<close>

section \<open>State\<close>

type_synonym u256 = "256 word"

record NftData =
  tokenId :: u256
  nftRegistered :: bool

datatype ts_event =
  Register bytes bytes u256
| Assign bytes u256
| Withdraw u256 bytes u256
| DistributeFees u256 u256

text \<open>\<open>ether\<close> is the balance of the contract's account, \<open>emitted\<close> its events so far.\<close>

record 'n turnstile =
  tokenIdTracker :: u256
  feeRecipient :: "(bytes, NftData) kv"
  fee_balances :: "(u256, u256) kv"
  base :: 'n
  ether :: int
  emitted :: "ts_event list"

record 'n inherited =
  nft_mint :: "bytes \<Rightarrow> u256 \<Rightarrow> ('n, unit) act"
  nft_exists :: "u256 \<Rightarrow> 'n \<Rightarrow> bool"
  ownerOf :: "u256 \<Rightarrow> 'n \<Rightarrow> bytes res"
  contract_owner :: "'n \<Rightarrow> bytes"
  counter_increment :: "u256 \<Rightarrow> u256"
  inherited_call :: "bytes \<Rightarrow> bytes \<Rightarrow> ('n, unit) act"

locale inherited_laws =
  fixes B :: "'n inherited"
  assumes mint_exists: "nft_mint B r i n = (Ok (), n') \<Longrightarrow> nft_exists B j n' \<longleftrightarrow> j = i \<or> nft_exists B j n"
    and mint_fresh: "nft_mint B r i n = (Ok (), n') \<Longrightarrow> \<not> nft_exists B i n"
    and increment: "counter_increment B c = c + 1"
    and call_exists: "inherited_call B a d n = (Ok (), n') \<Longrightarrow> nft_exists B j n' \<longleftrightarrow> nft_exists B j n"

definition zero_address :: bytes where
  "zero_address = replicate 20 (char_of (0 :: int))"

definition nft_data :: "'n turnstile \<Rightarrow> bytes \<Rightarrow> NftData" where
  "nft_data s c = (case kv_get (feeRecipient s) c of None \<Rightarrow> \<lparr>tokenId = 0, nftRegistered = False\<rparr> | Some d \<Rightarrow> d)"

definition fee_balance :: "'n turnstile \<Rightarrow> u256 \<Rightarrow> u256" where
  "fee_balance s i = (case kv_get (fee_balances s) i of None \<Rightarrow> 0 | Some n \<Rightarrow> n)"

definition emit :: "ts_event \<Rightarrow> ('n turnstile, unit) act" where
  "emit e = modify (\<lambda>s. s\<lparr>emitted := emitted s @ [e]\<rparr>)"

section \<open>Functions\<close>

definition currentCounterId :: "('n turnstile, u256) act" where
  "currentCounterId = gets tokenIdTracker"

definition isRegistered :: "bytes \<Rightarrow> 'n turnstile \<Rightarrow> bool" where
  "isRegistered smartContract s = nftRegistered (nft_data s smartContract)"

definition getTokenId :: "bytes \<Rightarrow> ('n turnstile, u256) act" where
  "getTokenId smartContract =
     bnd (gets (isRegistered smartContract)) (\<lambda>registered.
     if \<not> registered then raise (PlainErr ''Unregistered'') else gets (\<lambda>s. tokenId (nft_data s smartContract)))"

definition set_recipient :: "bytes \<Rightarrow> u256 \<Rightarrow> ('n turnstile, unit) act" where
  "set_recipient smartContract i =
     modify (\<lambda>s. s\<lparr>feeRecipient := kv_set smartContract \<lparr>tokenId = i, nftRegistered = True\<rparr> (feeRecipient s)\<rparr>)"

definition on_base :: "('n, 'a) act \<Rightarrow> ('n turnstile, 'a) act" where
  "on_base m s = (case m (base s) of (r, n) \<Rightarrow> (r, s\<lparr>base := n\<rparr>))"

text \<open>The modifier onlyUnregistered.\<close>

definition onlyUnregistered :: "bytes \<Rightarrow> ('n turnstile, 'a) act \<Rightarrow> ('n turnstile, 'a) act" where
  "onlyUnregistered sender body =
     bnd (gets (isRegistered sender)) (\<lambda>registered.
     if registered then raise (PlainErr ''AlreadyRegistered'') else body)"

definition register :: "'n inherited \<Rightarrow> bytes \<Rightarrow> bytes \<Rightarrow> ('n turnstile, u256) act" where
  "register B sender recipient = cached (onlyUnregistered sender (
     if recipient = zero_address then raise (PlainErr ''InvalidRecipient'')
     else
       bnd (gets tokenIdTracker) (\<lambda>i.
       bnd (on_base (nft_mint B recipient i)) (\<lambda>_.
       bnd (modify (\<lambda>s. s\<lparr>tokenIdTracker := counter_increment B (tokenIdTracker s)\<rparr>)) (\<lambda>_.
       bnd (emit (Register sender recipient i)) (\<lambda>_.
       bnd (set_recipient sender i) (\<lambda>_.
       ret i)))))))"

definition assign :: "'n inherited \<Rightarrow> bytes \<Rightarrow> u256 \<Rightarrow> ('n turnstile, u256) act" where
  "assign B sender i = cached (onlyUnregistered sender (
     bnd (gets (\<lambda>s. nft_exists B i (base s))) (\<lambda>exists.
     if \<not> exists then raise (PlainErr ''InvalidTokenId'')
     else
       bnd (emit (Assign sender i)) (\<lambda>_.
       bnd (set_recipient sender i) (\<lambda>_.
       ret i)))))"

text \<open>
  A withdrawal up to the payment. The recipient of the payment runs code of its own and
  may call the contract again, so sendValue is an action on the whole state.
\<close>

definition withdraw_debit :: "'n inherited \<Rightarrow> bytes \<Rightarrow> u256 \<Rightarrow> bytes \<Rightarrow> u256 \<Rightarrow> ('n turnstile, u256) act" where
  "withdraw_debit B sender i recipient amount =
     bnd (gets (\<lambda>s. ownerOf B i (base s))) (\<lambda>r.
     bnd (lift r) (\<lambda>nft_owner.
     if nft_owner \<noteq> sender then raise (PlainErr ''NotAnOwner'')
     else
       bnd (gets (\<lambda>s. fee_balance s i)) (\<lambda>earnedFees.
       if earnedFees = 0 \<or> amount = 0 then raise (PlainErr ''NothingToWithdraw'')
       else
         let n = (if earnedFees < amount then earnedFees else amount) in
         bnd (modify (\<lambda>s. s\<lparr>fee_balances := kv_set i (earnedFees - n) (fee_balances s)\<rparr>)) (\<lambda>_.
         bnd (emit (Withdraw i recipient n)) (\<lambda>_.
         ret n)))))"

definition withdraw :: "'n inherited \<Rightarrow> (bytes \<Rightarrow> u256 \<Rightarrow> ('n turnstile, unit) act) \<Rightarrow>
    bytes \<Rightarrow> u256 \<Rightarrow> bytes \<Rightarrow> u256 \<Rightarrow> ('n turnstile, u256) act" where
  "withdraw B sendValue sender i recipient amount = cached (
     bnd (withdraw_debit B sender i recipient amount) (\<lambda>n.
     bnd (sendValue recipient n) (\<lambda>_.
     ret n)))"

text \<open>The value of a payable call is credited before the body runs; addition is checked.\<close>

definition distributeFees :: "'n inherited \<Rightarrow> bytes \<Rightarrow> u256 \<Rightarrow> u256 \<Rightarrow> ('n turnstile, unit) act" where
  "distributeFees B sender msg_value i = cached (
     bnd (modify (\<lambda>s. s\<lparr>ether := ether s + uint msg_value\<rparr>)) (\<lambda>_.
     bnd (gets (\<lambda>s. contract_owner B (base s))) (\<lambda>c_owner.
     if c_owner \<noteq> sender then raise (PlainErr ''Ownable: caller is not the owner'')
     else if msg_value = 0 then raise (PlainErr ''NothingToDistribute'')
     else
       bnd (gets (\<lambda>s. fee_balance s i)) (\<lambda>b.
       if b + msg_value < b then raise (PlainErr ''Panic(0x11)'')
       else
         bnd (modify (\<lambda>s. s\<lparr>fee_balances := kv_set i (b + msg_value) (fee_balances s)\<rparr>)) (\<lambda>_.
         emit (DistributeFees i msg_value))))))"

section \<open>Executions\<close>

text \<open>
  What calls can do to the contract, one after another, those of inherited functions
  included. A withdrawal takes its amount out of the account, and before it returns the
  recipient may make any further calls.
\<close>

inductive runs :: "'n inherited \<Rightarrow> 'n turnstile \<Rightarrow> 'n turnstile \<Rightarrow> bool" for B where
  start: "runs B s s"
| register: "runs B s t \<Longrightarrow> Turnstile.register B a r t = (Ok i, u) \<Longrightarrow> runs B s u"
| assign: "runs B s t \<Longrightarrow> Turnstile.assign B a i t = (Ok j, u) \<Longrightarrow> runs B s u"
| distribute: "runs B s t \<Longrightarrow> distributeFees B a v i t = (Ok (), u) \<Longrightarrow> runs B s u"
| inherited: "runs B s t \<Longrightarrow> on_base (inherited_call B a d) t = (Ok (), u) \<Longrightarrow> runs B s u"
| received: "runs B s t \<Longrightarrow> 0 \<le> v \<Longrightarrow> runs B s (t\<lparr>ether := ether t + v\<rparr>)"
| withdraw: "runs B s t \<Longrightarrow> withdraw_debit B a i r m t = (Ok n, u) \<Longrightarrow> uint n \<le> ether u \<Longrightarrow>
    runs B (u\<lparr>ether := ether u - uint n\<rparr>) v \<Longrightarrow> runs B s v"

inductive_cases runsE: "runs B s t"

lemma on_base_Ok: "on_base m s = (Ok v, t) \<longleftrightarrow> (\<exists>n. m (base s) = (Ok v, n) \<and> t = s\<lparr>base := n\<rparr>)"
  by (auto simp: on_base_def split: prod.splits)

section \<open>What a call does\<close>

lemma register_Ok:
  assumes "Turnstile.register B a r s = (Ok i, t)"
  obtains n where "\<not> isRegistered a s" "r \<noteq> zero_address" "i = tokenIdTracker s" "nft_mint B r i (base s) = (Ok (), n)"
    "t = s\<lparr>tokenIdTracker := counter_increment B i, base := n, emitted := emitted s @ [Register a r i],
       feeRecipient := kv_set a \<lparr>tokenId = i, nftRegistered = True\<rparr> (feeRecipient s)\<rparr>"
  using assms
  by (auto simp: Turnstile.register_def onlyUnregistered_def on_base_def emit_def set_recipient_def split: prod.splits if_splits)

lemma assign_Ok:
  assumes "Turnstile.assign B a i s = (Ok j, t)"
  shows "\<not> isRegistered a s \<and> nft_exists B i (base s) \<and>
    t = s\<lparr>emitted := emitted s @ [Assign a i],
       feeRecipient := kv_set a \<lparr>tokenId = i, nftRegistered = True\<rparr> (feeRecipient s)\<rparr>"
  using assms
  by (auto simp: Turnstile.assign_def onlyUnregistered_def emit_def set_recipient_def split: if_splits)

lemma distributeFees_Ok:
  assumes "distributeFees B a v i s = (Ok u, t)"
  shows "contract_owner B (base s) = a \<and> v \<noteq> 0 \<and> uint (fee_balance s i) + uint v < 2 ^ 256 \<and>
    t = s\<lparr>ether := ether s + uint v, fee_balances := kv_set i (fee_balance s i + v) (fee_balances s),
       emitted := emitted s @ [DistributeFees i v]\<rparr>"
proof -
  have "contract_owner B (base s) = a \<and> v \<noteq> 0 \<and> \<not> fee_balance s i + v < fee_balance s i \<and>
    t = s\<lparr>ether := ether s + uint v, fee_balances := kv_set i (fee_balance s i + v) (fee_balances s),
       emitted := emitted s @ [DistributeFees i v]\<rparr>"
    using assms by (auto simp: distributeFees_def emit_def fee_balance_def split: if_splits)
  moreover have "uint (fee_balance s i) + uint v < 2 ^ 256" if "\<not> fee_balance s i + v < fee_balance s i"
    using that no_olen_add [of "fee_balance s i" v] by (simp add: not_less)
  ultimately show ?thesis by blast
qed

lemma withdraw_debit_Ok:
  assumes "withdraw_debit B a i r m s = (Ok n, t)"
  shows "ownerOf B i (base s) = Ok a \<and> 0 < n \<and> n \<le> fee_balance s i \<and>
    t = s\<lparr>fee_balances := kv_set i (fee_balance s i - n) (fee_balances s), emitted := emitted s @ [Withdraw i r n]\<rparr>"
  using assms
  by (auto simp: withdraw_debit_def emit_def Let_def word_neq_0_conv split: if_splits)

section \<open>Solvency\<close>

definition owed :: "'n turnstile \<Rightarrow> int" where
  "owed s = sum_list (map (\<lambda>(i, b). uint b) (fee_balances s))"

lemma owed_set:
  "kv_ok m \<Longrightarrow> sum_list (map (\<lambda>(i, b). uint b) (kv_set k v m)) =
     sum_list (map (\<lambda>(i, b). uint b) m) - (case kv_get m k of None \<Rightarrow> 0 | Some b \<Rightarrow> uint b) + uint v"
  for m :: "(u256, u256) kv"
proof (induction m)
  case (Cons e m)
  obtain j b where e: "e = (j, b)" by (cases e)
  have "kv_get m k = None" if "k < j" using that Cons.prems by (auto simp: e kv_ok_Cons kv_get_None)
  then show ?case using Cons by (auto simp: e kv_ok_Cons kv_get_def)
qed (simp add: kv_get_def)

definition solvent :: "'n turnstile \<Rightarrow> bool" where
  "solvent s \<longleftrightarrow> kv_ok (fee_balances s) \<and> owed s \<le> ether s"

lemma owed_update: "kv_ok (fee_balances s) \<Longrightarrow>
    owed (s\<lparr>fee_balances := kv_set i v (fee_balances s)\<rparr>) = owed s - uint (fee_balance s i) + uint v"
  by (simp add: owed_def owed_set fee_balance_def split: option.split)

lemma distribute_solvent: "distributeFees B a v i s = (Ok u, t) \<Longrightarrow> solvent s \<Longrightarrow> solvent t"
  using distributeFees_Ok [of B a v i s u t] owed_update [of s i "fee_balance s i + v"]
  by (auto simp: solvent_def kv_ok_set uint_plus_if_size owed_def word_size)

lemma debit_owed:
  assumes "withdraw_debit B a i r m s = (Ok n, t)" and "kv_ok (fee_balances s)"
  shows "kv_ok (fee_balances t) \<and> owed t = owed s - uint n \<and> ether t = ether s"
proof -
  have n: "n \<le> fee_balance s i"
    "t = s\<lparr>fee_balances := kv_set i (fee_balance s i - n) (fee_balances s), emitted := emitted s @ [Withdraw i r n]\<rparr>"
    using withdraw_debit_Ok [OF assms(1)] by auto
  have "uint (fee_balance s i - n) = uint (fee_balance s i) - uint n" using n(1) uint_sub_lem [of n "fee_balance s i"] by (simp add: word_le_def)
  then show ?thesis using owed_update [OF assms(2), of i "fee_balance s i - n"] assms(2) n(2) by (simp add: kv_ok_set owed_def)
qed

lemma runs_solvent: "runs B s t \<Longrightarrow> solvent s \<Longrightarrow> solvent t"
proof (induction rule: runs.induct)
  case (register s t a r i u)
  then show ?case by (auto elim!: register_Ok simp: solvent_def owed_def)
next
  case (assign s t a i j u)
  then show ?case using assign_Ok [OF assign.hyps(2)] by (auto simp: solvent_def owed_def)
next
  case (distribute s t a v i u)
  then show ?case using distribute_solvent by blast
next
  case (inherited s t a d u)
  then show ?case by (auto simp: on_base_Ok solvent_def owed_def)
next
  case (received s t v)
  then show ?case by (simp add: solvent_def owed_def)
next
  case (withdraw s t a i r m n u v)
  then have "solvent t" by blast
  then have "solvent (u\<lparr>ether := ether u - uint n\<rparr>)"
    using debit_owed [OF withdraw.hyps(2)] by (simp add: solvent_def owed_def)
  then show ?case using withdraw.IH by blast
qed

section \<open>Events tell the truth\<close>

text \<open>What a past event says still holds: a registration is never taken back or moved.\<close>

fun justified :: "'n inherited \<Rightarrow> 'n turnstile \<Rightarrow> ts_event \<Rightarrow> bool" where
  "justified B s (Register a r i) \<longleftrightarrow> isRegistered a s \<and> tokenId (nft_data s a) = i \<and> nft_exists B i (base s)"
| "justified B s (Assign a i) \<longleftrightarrow> isRegistered a s \<and> tokenId (nft_data s a) = i \<and> nft_exists B i (base s)"
| "justified B s _ \<longleftrightarrow> True"

definition truthful :: "'n inherited \<Rightarrow> 'n turnstile \<Rightarrow> bool" where
  "truthful B s \<longleftrightarrow> list_all (justified B s) (emitted s)"

lemma justified_mono:
  assumes "justified B s e" and "\<And>j. nft_exists B j (base s) \<Longrightarrow> nft_exists B j (base t)"
    and "\<And>a. isRegistered a s \<Longrightarrow> nft_data t a = nft_data s a"
  shows "justified B t e"
  using assms by (cases e) (auto simp: isRegistered_def)

lemma nft_data_set: "nft_data (s\<lparr>feeRecipient := kv_set a d (feeRecipient s)\<rparr>) b = (if b = a then d else nft_data s b)"
  by (simp add: nft_data_def kv_get_set)

context inherited_laws
begin

lemma runs_truthful: "runs B s t \<Longrightarrow> truthful B s \<Longrightarrow> truthful B t"
proof (induction rule: runs.induct)
  case (register s t a r i u)
  show ?case
  proof (rule register_Ok [OF register.hyps(2)], goal_cases)
    case (1 n)
    have d: "nft_data u b = (if b = a then \<lparr>tokenId = i, nftRegistered = True\<rparr> else nft_data t b)" for b
      using 1(5) by (simp add: nft_data_def kv_get_set)
    have ex: "nft_exists B j (base u) \<longleftrightarrow> j = i \<or> nft_exists B j (base t)" for j
      using mint_exists [OF 1(4)] 1(5) by simp
    have "justified B u e" if "justified B t e" for e
      using that 1(1) by (elim justified_mono) (auto simp: d ex isRegistered_def)
    moreover have "justified B u (Register a r i)" by (simp add: d ex isRegistered_def)
    ultimately show ?case using register 1(5) by (auto simp: truthful_def list_all_iff)
  qed
next
  case (assign s t a i j u)
  have u: "\<not> isRegistered a t" "nft_exists B i (base t)" "u = t\<lparr>emitted := emitted t @ [Assign a i],
       feeRecipient := kv_set a \<lparr>tokenId = i, nftRegistered = True\<rparr> (feeRecipient t)\<rparr>"
    using assign_Ok [OF assign.hyps(2)] by auto
  have d: "nft_data u b = (if b = a then \<lparr>tokenId = i, nftRegistered = True\<rparr> else nft_data t b)" for b
    by (simp add: u(3) nft_data_def kv_get_set)
  have base: "base u = base t" by (simp add: u(3))
  have "justified B u e" if "justified B t e" for e
    using that u(1) by (elim justified_mono) (auto simp: d isRegistered_def base)
  moreover have "justified B u (Assign a i)" using u(2) by (simp add: d base isRegistered_def)
  ultimately show ?case using assign u(3) by (auto simp: truthful_def list_all_iff)
next
  case (distribute s t a v i u)
  have "justified B u e" if "justified B t e" for e
    using that distributeFees_Ok [OF distribute.hyps(2)] by (elim justified_mono) (auto simp: nft_data_def)
  then show ?case using distribute distributeFees_Ok [OF distribute.hyps(2)] by (auto simp: truthful_def list_all_iff)
next
  case (inherited s t a d u)
  then obtain n where n: "inherited_call B a d (base t) = (Ok (), n)" "u = t\<lparr>base := n\<rparr>" by (auto simp: on_base_Ok)
  have "justified B u e" if "justified B t e" for e
    using that call_exists [OF n(1)] by (elim justified_mono) (auto simp: n(2) nft_data_def)
  then show ?case using inherited n(2) by (auto simp: truthful_def list_all_iff)
next
  case (received s t v)
  have "justified B (t\<lparr>ether := ether t + v\<rparr>) e" if "justified B t e" for e
    using that by (elim justified_mono) (auto simp: nft_data_def)
  then show ?case using received by (auto simp: truthful_def list_all_iff)
next
  case (withdraw s t a i r m n u v)
  have "justified B (u\<lparr>ether := ether u - uint n\<rparr>) e" if "justified B t e" for e
    using that withdraw_debit_Ok [OF withdraw.hyps(2)] by (elim justified_mono) (auto simp: nft_data_def)
  then have "truthful B (u\<lparr>ether := ether u - uint n\<rparr>)"
    using withdraw withdraw_debit_Ok [OF withdraw.hyps(2)] by (auto simp: truthful_def list_all_iff)
  then show ?case using withdraw.IH by blast
qed simp

end

end
