(* ===== verification/Csr_Props.thy ===== *)
theory Csr_Props
  imports Csr_Registry Turnstile Evm_Ref
begin

text \<open>
  The properties of x/csr and of the Turnstile contract: the register stays consistent,
  the fee of a transaction is split without loss, events of the contract keep the
  module's register a true view of the contract's, and the contract can always pay.
\<close>

section \<open>The fee of a transaction\<close>

text \<open>The NFT that earns the fees of a transaction, if any.\<close>

definition payee :: "'x Keeper \<Rightarrow> 'x csr_state \<Rightarrow> evm_tx \<Rightarrow> u64 option" where
  "payee k s tx =
     (case txTo tx of None \<Rightarrow> None
      | Some c \<Rightarrow> (case fst (GetNFTByContract (AddressHex (eth k) c) s) of Ok r \<Rightarrow> r | _ \<Rightarrow> None))"

text \<open>A call with value from the module to the Turnstile moves that value.\<close>

locale csr_env = bank_laws L "bankKeeper k" "accountKeeper k" binv + eth_laws "eth k"
  for L :: sdk_lib and k :: "'x Keeper" and binv :: "'x \<Rightarrow> bool" +
  fixes turnstile :: bytes and evm_denom :: string
  assumes denom: "EvmDenom k x = evm_denom"
    and turnstile_pays: "binv x \<Longrightarrow> ApplyMessage (evmKeeper k) msg True x = (Ok r, x') \<Longrightarrow> \<not> Failed r \<Longrightarrow>
      msgFrom msg = ModuleAddress k \<Longrightarrow> msgTo msg = Some turnstile \<Longrightarrow>
      binv x' \<and> moves (bankKeeper k) x (GetModuleAddress (accountKeeper k) ModuleName) turnstile
        [\<lparr>Denom = evm_denom, Amount = msgValue msg\<rparr>] x'"
begin

lemma CallMethod_pays:
  assumes "CallMethod k m A (ModuleAddress k) (Some turnstile) n args s = (Ok r, t)" and "binv (kext s)"
  shows "binv (kext t) \<and> moves (bankKeeper k) (kext s) (GetModuleAddress (accountKeeper k) ModuleName) turnstile
    [\<lparr>Denom = evm_denom, Amount = n\<rparr>] (kext t)"
proof -
  obtain msg x where "ApplyMessage (evmKeeper k) msg True (kext s) = (Ok r, x)" "\<not> Failed r" "t = s\<lparr>kext := x\<rparr>"
    "msgFrom msg = ModuleAddress k" "msgTo msg = Some turnstile" "msgValue msg = n"
    using assms(1) by (auto simp: CallMethod_def CallEVM_def Let_def on_ext_Ok_iff split: if_splits)
  then show ?thesis using turnstile_pays [OF assms(2)] by auto
qed

lemma share_exact:
  assumes "rbind (DecMul L (LegacyNewDecFromInt fee) p) (DecTruncateInt L) = Ok share"
    and "0 \<le> fee" and "0 \<le> p" and "p \<le> dec_one"
  shows "share = fee * p div dec_one" and "0 \<le> share" and "share \<le> fee"
proof -
  obtain x where x: "DecMul L (LegacyNewDecFromInt fee) p = Ok x" "DecTruncateInt L x = Ok share" using assms(1) by auto
  have xe: "x = fee * p" using DecMul_integral [OF x(1)] .
  have nn: "0 \<le> fee * p" using assms by simp
  then show s: "share = fee * p div dec_one" using DecTruncateInt_ok [OF x(2)] by (simp add: xe sdiv_nonneg)
  show "0 \<le> share" using nn by (simp add: s div_int_pos_iff)
  have "fee * p \<le> fee * dec_one" using assms by (intro mult_left_mono) auto
  then show "share \<le> fee" unfolding s using zdiv_mono1 [of "fee * p" "fee * dec_one" dec_one] by simp
qed

lemma distribute_effect:
  assumes run: "distribute L k params evm_denom fee n s = (Ok (), t)" and ok: "csr_ok (eth k) s" and bk: "binv (kext s)"
    and p: "0 \<le> CsrShares params" "CsrShares params \<le> dec_one" and fee: "0 \<le> fee"
    and ts: "csr_get s turnstile_key = Some (AddrVal b)" "BytesToAddress (eth k) b = turnstile"
  obtains share c where "share = fee * CsrShares params div dec_one" "0 \<le> share" "share \<le> fee"
    "csr_get s (csr_key n) = Some (CsrVal c)"
    "csr_get t (csr_key n) = Some (CsrVal (c\<lparr>Txs := Txs c + 1, Revenue := Revenue c + share\<rparr>))"
    "\<And>x. x \<noteq> csr_key n \<Longrightarrow> csr_get t x = csr_get s x"
    "\<And>a d. bal (bankKeeper k) (kext t) a d = bal (bankKeeper k) (kext s) a d
       + (if a = turnstile \<and> d = evm_denom then share else 0)
       - (if a = GetModuleAddress (accountKeeper k) ModuleName \<and> d = evm_denom then fee else 0)"
    "\<And>d. sup (bankKeeper k) (kext t) d = sup (bankKeeper k) (kext s) d - (if d = evm_denom then fee - share else 0)"
proof (rule distribute_Ok [OF run], goal_cases)
  case (1 c share rest revenue a r v w)
  note share = share_exact [OF 1(3) fee p]
  have a: "a = turnstile" using 1(5) ts by (auto simp: GetTurnstile_def split: if_splits)
  have vals: "rest = fee - share" "revenue = Revenue c + share" using 1(4,8) by (auto simp: IntSub_iff IntAdd_iff)
  note call = CallMethod_pays [OF 1(6) [unfolded a] bk]
  have burn: "burns (bankKeeper k) (kext v) (GetModuleAddress (accountKeeper k) ModuleName) [\<lparr>Denom = evm_denom, Amount = rest\<rparr>] (kext w)"
    "kown w = kown s"
    using 1(7) burn call CallMethod_own [OF 1(6)] by (auto simp: on_ext_Ok_iff)
  have c: "Id c = n" "a \<in> set (Contracts c) \<Longrightarrow> csr_get s (contract_key a) = Some (NftVal (UInt64ToBytes n))" for a
    by (rule csr_ok_nft [OF ok 1(2)], simp)+
  note stored = 1(2) and set = SetCSR_Ok [OF 1(9)]
  show thesis
  proof (rule 1(1) [OF share, of c], goal_cases)
    case 1
    show ?case by (rule stored)
  next
    case 2
    then show ?case using set [of "csr_key n"] c(1) vals(2) by simp
  next
    case (3 x)
    then show ?case using set [of x] c burn(2) by auto
  next
    case (4 b d)
    then show ?case using set [of x] call burn(1) vals(1) by (auto simp: moves_bal burns_bal)
  next
    case (5 d)
    then show ?case using set [of x] call burn(1) vals(1) by (auto simp: moves_sup burns_sup)
  qed
qed

text \<open>What a successful hook has done once the fee is in the module's account.\<close>

lemma hook_cases:
  assumes run: "PostTxProcessing L k tx s = (Ok (), t)" and ok: "csr_ok (eth k) s" and bk: "binv (kext s)"
    and ps: "pspace (kown s) = Some params" "EnableCsr params" and gas: "GasUsed tx \<noteq> 0"
  obtains fee u w where "processEvents k (Logs tx) s = (Ok (), u)" "fee = uint (GasUsed tx) * GasPrice tx"
    "csr_ok (eth k) w" "csr_get w turnstile_key = csr_get s turnstile_key" "kown w = kown u" "binv (kext w)"
    "moves (bankKeeper k) (kext s) (GetModuleAddress (accountKeeper k) (FeeCollectorName k))
       (GetModuleAddress (accountKeeper k) ModuleName) [\<lparr>Denom = evm_denom, Amount = fee\<rparr>] (kext w)"
    "case payee k u tx of Some n \<Rightarrow> distribute L k params evm_denom fee n w = (Ok (), t)
     | None \<Rightarrow> on_ext (BurnCoins (bankKeeper k) ModuleName [\<lparr>Denom = evm_denom, Amount = fee\<rparr>]) w = (Ok (), t)"
proof (rule PostTx_Ok [OF run ps], goal_cases)
  case 1
  then show ?case using gas by simp
next
  case (2 fee u w)
  have fee: "fee = uint (GasUsed tx) * GasPrice tx" using 2(4) by (auto simp: NewIntFromBigInt_iff IntMul_iff)
  have u: "csr_ok (eth k) u" "kext u = kext s" "csr_get u turnstile_key = csr_get s turnstile_key"
    using processEvents_keeps [OF 2(3) ok] by auto
  have w: "binv (kext w)" "moves (bankKeeper k) (kext s) (GetModuleAddress (accountKeeper k) (FeeCollectorName k))
       (GetModuleAddress (accountKeeper k) ModuleName) [\<lparr>Denom = evm_denom, Amount = fee\<rparr>] (kext w)" "kown w = kown u"
    using 2(5) send_modules bk u(2) by (auto simp: on_ext_Ok_iff denom)
  have pay: "payee k w tx = payee k u tx"
    using w(3) by (simp add: payee_def GetNFTByContract_def bnd_def store_get_def gets_def lift_def ret_def panic_def
        split: option.split csr_value.split res.split)
  have "case payee k w tx of Some n \<Rightarrow> distribute L k params evm_denom fee n w = (Ok (), t)
     | None \<Rightarrow> on_ext (BurnCoins (bankKeeper k) ModuleName [\<lparr>Denom = evm_denom, Amount = fee\<rparr>]) w = (Ok (), t)"
    using 2(6) unfolding denom by (auto simp: payee_def)
  then show thesis using u w fee csr_ok_cong [of w u] by (intro 2(1) [OF 2(3)]) (auto simp: pay)
qed

text \<open>A share that rounds to zero is a call without value.\<close>

lemma hook_zero_share:
  assumes run: "PostTxProcessing L k tx s = (Ok (), t)" and ok: "csr_ok (eth k) s" and bk: "binv (kext s)"
    and ps: "pspace (kown s) = Some params" "EnableCsr params" "Params_Validate params = Ok ()"
    and ts: "csr_get s turnstile_key = Some (AddrVal b)" "BytesToAddress (eth k) b = turnstile"
    and gas: "GasUsed tx \<noteq> 0" "0 \<le> GasPrice tx"
    and u: "processEvents k (Logs tx) s = (Ok (), u)" "payee k u tx = Some n"
    and zero: "uint (GasUsed tx) * GasPrice tx * CsrShares params < dec_one"
  obtains msg x r x' where "ApplyMessage (evmKeeper k) msg True x = (Ok r, x')" "\<not> Failed r"
    "msgTo msg = Some turnstile" "msgValue msg = 0" "msgFrom msg = ModuleAddress k"
    "Pack (turnstileABI k) ''distributeFees'' [BigVal (uint n)] = Ok (msgData msg)"
proof (rule hook_cases [OF run ok bk ps(1,2) gas(1)], goal_cases)
  case (1 fee u' w)
  have run: "distribute L k params evm_denom fee n w = (Ok (), t)" using 1(2,9) u by simp
  have shares: "0 \<le> CsrShares params" "CsrShares params \<le> dec_one"
    using ps(3) by (auto simp: Params_Validate_def ValidateShares_def split: if_splits)
  show thesis
  proof (rule distribute_Ok [OF run], goal_cases)
    case d: (1 c share rest revenue a r v y)
    have "0 \<le> fee" "fee * CsrShares params < dec_one" using gas(2) zero by (simp_all add: 1(3))
    then have "share = 0" using share_exact(1) [OF d(2) _ shares] shares(1) by simp
    moreover have "a = turnstile" using d(4) ts 1(5) by (auto simp: GetTurnstile_def split: if_splits)
    ultimately obtain msg x where "ApplyMessage (evmKeeper k) msg True (kext w) = (Ok r, x)" "\<not> Failed r"
      "msgTo msg = Some turnstile" "msgValue msg = 0" "msgFrom msg = ModuleAddress k"
      "Pack (turnstileABI k) ''distributeFees'' [BigVal (uint n)] = Ok (msgData msg)"
      using d(5) by (auto simp: CallMethod_def CallEVM_def Let_def on_ext_Ok_iff split: if_splits)
    then show ?case by (rule that)
  qed
qed

lemma hook_effect:
  assumes run: "PostTxProcessing L k tx s = (Ok (), t)" and ok: "csr_ok (eth k) s" and bk: "binv (kext s)"
    and ps: "pspace (kown s) = Some params" "EnableCsr params" "Params_Validate params = Ok ()"
    and ts: "csr_get s turnstile_key = Some (AddrVal b)" "BytesToAddress (eth k) b = turnstile"
    and gas: "GasUsed tx \<noteq> 0" "0 \<le> GasPrice tx"
  obtains u fee share where "processEvents k (Logs tx) s = (Ok (), u)" "fee = uint (GasUsed tx) * GasPrice tx"
    "share = (case payee k u tx of None \<Rightarrow> 0 | Some n \<Rightarrow> fee * CsrShares params div dec_one)" "0 \<le> share" "share \<le> fee"
    "\<And>a d. bal (bankKeeper k) (kext t) a d = bal (bankKeeper k) (kext s) a d
       + (if a = turnstile \<and> d = evm_denom then share else 0)
       - (if a = GetModuleAddress (accountKeeper k) (FeeCollectorName k) \<and> d = evm_denom then fee else 0)"
    "\<And>d. sup (bankKeeper k) (kext t) d = sup (bankKeeper k) (kext s) d - (if d = evm_denom then fee - share else 0)"
    "case payee k u tx of None \<Rightarrow> kown t = kown u
     | Some n \<Rightarrow> \<exists>c. csr_get u (csr_key n) = Some (CsrVal c) \<and>
         csr_get t (csr_key n) = Some (CsrVal (c\<lparr>Txs := Txs c + 1, Revenue := Revenue c + share\<rparr>)) \<and>
         (\<forall>x. x \<noteq> csr_key n \<longrightarrow> csr_get t x = csr_get u x)"
proof (rule hook_cases [OF run ok bk ps(1,2) gas(1)], goal_cases)
  case (1 fee u w)
  let ?M = "GetModuleAddress (accountKeeper k) ModuleName" and ?F = "GetModuleAddress (accountKeeper k) (FeeCollectorName k)"
  note ran = 1(2) and fee = 1(3) and w = 1(7,8,6)
  have shares: "0 \<le> CsrShares params" "CsrShares params \<le> dec_one"
    using ps(3) by (auto simp: Params_Validate_def ValidateShares_def split: if_splits)
  have nn: "0 \<le> fee" using gas(2) by (simp add: fee)
  note fin = 1(1) [OF ran fee]
  from 1(9) consider (share) n where "payee k u tx = Some n" "distribute L k params evm_denom fee n w = (Ok (), t)"
    | (burnt) "payee k u tx = None" "on_ext (BurnCoins (bankKeeper k) ModuleName [\<lparr>Denom = evm_denom, Amount = fee\<rparr>]) w = (Ok (), t)"
    by (auto split: option.splits)
  then show thesis
  proof cases
    case share
    have tsw: "csr_get w turnstile_key = Some (AddrVal b)" using 1(5) ts(1) by simp
    show ?thesis
    proof (rule distribute_effect [OF share(2) 1(4) w(1) shares nn tsw ts(2)], goal_cases)
      case d: (1 p c)
      have "\<And>a d. bal (bankKeeper k) (kext t) a d = bal (bankKeeper k) (kext s) a d
       + (if a = turnstile \<and> d = evm_denom then p else 0) - (if a = ?F \<and> d = evm_denom then fee else 0)"
        using d(7) moves_bal [OF w(2)] by auto
      then show ?case using d share(1) w(3) moves_sup [OF w(2)] by (intro fin [of p]) auto
    qed
  next
    case burnt
    have b: "burns (bankKeeper k) (kext w) ?M [\<lparr>Denom = evm_denom, Amount = fee\<rparr>] (kext t)" "kown t = kown w"
      using burnt(2) burn [OF w(1)] by (auto simp: on_ext_Ok_iff)
    then show ?thesis
      using burnt(1) w(3) nn moves_bal [OF w(2)] moves_sup [OF w(2)]
      by (intro fin [of 0]) (auto simp: burns_bal burns_sup)
  qed
qed

end

section \<open>The module's view of the contract\<close>

text \<open>Everything the module has registered is registered in the contract, with the same NFT.\<close>

definition module_sees :: "'n inherited \<Rightarrow> 'x Keeper \<Rightarrow> 'n turnstile \<Rightarrow> 'x csr_state \<Rightarrow> bool" where
  "module_sees B k ts s \<longleftrightarrow>
     (\<forall>c n. length c = 20 \<longrightarrow> csr_get s (contract_key (AddressHex (eth k) c)) = Some (NftVal (UInt64ToBytes n)) \<longrightarrow>
        isRegistered c ts \<and> tokenId (nft_data ts c) = ucast n) \<and>
     (\<forall>n v. csr_get s (csr_key n) = Some v \<longrightarrow> nft_exists B (ucast n) (base ts))"

text \<open>A log that carries an event of the contract.\<close>

definition event_log :: "'x Keeper \<Rightarrow> ts_event \<Rightarrow> evm_log \<Rightarrow> bool" where
  "event_log k e log \<longleftrightarrow> (\<exists>x xs. Topics log = x # xs \<and>
     (case e of
        Register c r i \<Rightarrow> length c = 20 \<and> EventByID (turnstileABI k) x = Some TurnstileEventRegister \<and>
          Unpack (turnstileABI k) TurnstileEventRegister (LogData log) = Ok [AddressVal c, AddressVal r, BigVal (uint i)]
      | Assign c i \<Rightarrow> length c = 20 \<and> EventByID (turnstileABI k) x = Some TurnstileEventUpdate \<and>
          Unpack (turnstileABI k) TurnstileEventUpdate (LogData log) = Ok [AddressVal c, BigVal (uint i)]
      | Withdraw i r n \<Rightarrow> EventByID (turnstileABI k) x = Some ''Withdraw''
      | DistributeFees i n \<Rightarrow> EventByID (turnstileABI k) x = Some ''DistributeFees''))"

definition small_ids :: "'n inherited \<Rightarrow> 'n turnstile \<Rightarrow> bool" where
  "small_ids B ts \<longleftrightarrow> (\<forall>i. nft_exists B i (base ts) \<longrightarrow> uint i < 2 ^ 64)"

lemma ucast_small: "uint i < 2 ^ 64 \<Longrightarrow> ucast (big_Uint64 (uint i)) = (i :: u256)"
proof -
  assume i: "uint i < 2 ^ 64"
  have "uint (big_Uint64 (uint i)) = uint i mod 2 ^ 64" unfolding big_Uint64_def uint_word_of_int by simp
  also have "\<dots> = uint i" using i by simp
  finally have "uint (big_Uint64 (uint i)) = uint i" .
  moreover have "(ucast w :: u256) = word_of_int (uint w)" for w :: u64 by simp
  ultimately show ?thesis by (metis word_of_int_uint)
qed

lemma hex_inj: "eth_laws E \<Longrightarrow> length a = 20 \<Longrightarrow> length b = 20 \<Longrightarrow> AddressHex E a = AddressHex E b \<Longrightarrow> a = b"
  by (metis eth_laws.hex_roundtrip)

text \<open>Storing an NFT with one more contract of which the contract says the same.\<close>

lemma store_sees:
  assumes sees: "module_sees B k ts s" and set: "SetCSR c s = (Ok u, t)" and E: "eth_laws (eth k)"
    and new: "length a = 20" "isRegistered a ts" "tokenId (nft_data ts a) = ucast (Id c)" "nft_exists B (ucast (Id c)) (base ts)"
    and cs: "\<And>x. x \<in> set (Contracts c) \<Longrightarrow> x = AddressHex (eth k) a \<or>
      csr_get s (contract_key x) = Some (NftVal (UInt64ToBytes (Id c)))"
  shows "module_sees B k ts t"
proof -
  note get = SetCSR_Ok [OF set]
  have "isRegistered b ts \<and> tokenId (nft_data ts b) = ucast n"
    if b: "length b = 20" "csr_get t (contract_key (AddressHex (eth k) b)) = Some (NftVal (UInt64ToBytes n))" for b n
  proof (cases "b = a")
    case True
    have "csr_get s (contract_key (AddressHex (eth k) a)) = Some (NftVal (UInt64ToBytes n)) \<or> n = Id c"
      using b(2) True get [of "contract_key (AddressHex (eth k) b)"] by (auto split: if_splits)
    then show ?thesis using new(1-3) sees True unfolding module_sees_def by blast
  next
    case False
    then have "AddressHex (eth k) b \<noteq> AddressHex (eth k) a" using hex_inj [OF E b(1) new(1)] by blast
    then have "csr_get s (contract_key (AddressHex (eth k) b)) = Some (NftVal (UInt64ToBytes n))"
      using b(2) get [of "contract_key (AddressHex (eth k) b)"] cs [of "AddressHex (eth k) b"] by (auto split: if_splits)
    then show ?thesis using b(1) sees unfolding module_sees_def by blast
  qed
  moreover have "nft_exists B (ucast n) (base ts)" if "csr_get t (csr_key n) = Some v" for n v
    using that get [of "csr_key n"] sees new(4) unfolding module_sees_def by (auto split: if_splits)
  ultimately show ?thesis unfolding module_sees_def by blast
qed

lemma event_sees:
  assumes sees: "module_sees B k ts s" and ok: "csr_ok (eth k) s" and E: "eth_laws (eth k)" and small: "small_ids B ts"
    and e: "justified B ts e" "event_log k e log" and x: "Topics log = x # xs" "EventByID (turnstileABI k) x = Some name"
    and run: "(if name = TurnstileEventRegister then RegisterEvent k (LogData log)
       else if name = TurnstileEventUpdate then UpdateEvent k (LogData log) else ret ()) s = (Ok u, t)"
  shows "module_sees B k ts t"
proof (cases e)
  case (Register c r i)
  then have i: "name = TurnstileEventRegister" "length c = 20" "isRegistered c ts" "tokenId (nft_data ts c) = i" "nft_exists B i (base ts)"
    "unpack_register (turnstileABI k) (LogData log) = Ok \<lparr>reg_SmartContract = c, reg_Recipient = r, reg_TokenId = uint i\<rparr>"
    using e x by (auto simp: event_log_def unpack_register_def)
  then have uc: "ucast (big_Uint64 (uint i)) = i" using small ucast_small by (auto simp: small_ids_def)
  have "SetCSR (NewCSR [AddressHex (eth k) c] (big_Uint64 (uint i))) s = (Ok u, t)"
    using run i(1,6) by (simp add: RegisterEvent_Ok_iff)
  then show ?thesis
    by (rule store_sees [OF sees _ E i(2,3)]) (simp_all add: NewCSR_def uc i(4,5))
next
  case (Assign c i)
  then have i: "name = TurnstileEventUpdate" "length c = 20" "isRegistered c ts" "tokenId (nft_data ts c) = i" "nft_exists B i (base ts)"
    "unpack_update (turnstileABI k) (LogData log) = Ok \<lparr>upd_SmartContract = c, upd_TokenId = uint i\<rparr>"
    using e x by (auto simp: event_log_def unpack_update_def)
  then have uc: "ucast (big_Uint64 (uint i)) = i" using small ucast_small by (auto simp: small_ids_def)
  have ne: "TurnstileEventUpdate \<noteq> TurnstileEventRegister" by (simp add: TurnstileEventUpdate_def TurnstileEventRegister_def)
  then obtain d where d: "csr_get s (csr_key (big_Uint64 (uint i))) = Some (CsrVal d)"
    and set: "SetCSR (d\<lparr>Contracts := Contracts d @ [AddressHex (eth k) c]\<rparr>) s = (Ok u, t)"
    using run i(1,6) by (auto simp: UpdateEvent_Ok_iff)
  have id: "Id d = big_Uint64 (uint i)" "\<And>a. a \<in> set (Contracts d) \<Longrightarrow> csr_get s (contract_key a) = Some (NftVal (UInt64ToBytes (Id d)))"
    by (rule csr_ok_nft [OF ok d], simp)+
  show ?thesis
    by (rule store_sees [OF sees set E i(2,3)]) (use id uc i(4,5) in auto)
next
  case (Withdraw i r n)
  then show ?thesis
    using run e x sees by (auto simp: event_log_def TurnstileEventRegister_def TurnstileEventUpdate_def)
next
  case (DistributeFees i n)
  then show ?thesis
    using run e x sees by (auto simp: event_log_def TurnstileEventRegister_def TurnstileEventUpdate_def)
qed

lemma process_logs_sees:
  assumes "process_logs k a logs s = (Ok u, t)" and "module_sees B k ts s" and "csr_ok (eth k) s" and E: "eth_laws (eth k)"
    and small: "small_ids B ts" and logs: "\<forall>log \<in> set logs. LogAddress log = a \<longrightarrow> (\<exists>e. justified B ts e \<and> event_log k e log)"
  shows "module_sees B k ts t"
  using assms(1-3) logs
proof (induction logs arbitrary: s)
  case (Cons log logs)
  show ?case
  proof (cases "Topics log = [] \<or> LogAddress log \<noteq> a")
    case True
    then have "process_logs k a logs s = (Ok u, t)" using Cons.prems(1) by (auto split: list.splits)
    then show ?thesis using Cons.IH Cons.prems(2-4) by simp
  next
    case False
    then obtain x xs where topics: "Topics log = x # xs" "LogAddress log = a" by (auto simp: neq_Nil_conv)
    obtain e where e: "justified B ts e" "event_log k e log" using Cons.prems(4) topics by auto
    show ?thesis
    proof (cases "EventByID (turnstileABI k) x")
      case None
      then show ?thesis using Cons.prems topics by simp
    next
      case (Some name)
      let ?m = "if name = TurnstileEventRegister then RegisterEvent k (LogData log)
                else if name = TurnstileEventUpdate then UpdateEvent k (LogData log) else ret ()"
      obtain r v where r: "attempt ?m s = (Ok r, v)"
        and rest: "(case r of Inl e \<Rightarrow> ret () | Inr _ \<Rightarrow> process_logs k a logs) v = (Ok u, t)"
        using Cons.prems(1) topics Some by auto
      from r consider (accepted) w where "r = Inr w" "?m s = (Ok w, v)" | (refused) f where "r = Inl f" "?m s = (Err f, v)"
        unfolding attempt_Ok_iff by blast
      then show ?thesis
      proof cases
        case accepted
        have "module_sees B k ts v" by (rule event_sees [OF Cons.prems(2,3) E small e topics(1) Some accepted(2)])
        moreover have "csr_ok (eth k) v"
          using accepted(2) RegisterEvent_keeps [OF Cons.prems(3), of "LogData log" w v]
            UpdateEvent_keeps [OF Cons.prems(3), of "LogData log" w v] Cons.prems(3) by (simp split: if_splits)
        ultimately show ?thesis using Cons.IH rest accepted(1) Cons.prems(4) by simp
      next
        case refused
        then have "v = s" using event_Err [of k "LogData log" s f v] by (simp add: ret_def split: if_splits)
        then show ?thesis using rest refused(1) Cons.prems(2) by simp
      qed
    qed
  qed
qed simp

section \<open>A concrete chain\<close>

definition ts_address :: bytes where
  "ts_address = pad20 ''turnstile''"

definition first_contract :: bytes where
  "first_contract = pad20 ''first''"

definition second_contract :: bytes where
  "second_contract = pad20 ''second''"

text \<open>An EVM in which the Turnstile takes the value sent to it and reverts when there is none.\<close>

definition csr_evm :: "world evm_keeper" where
  "csr_evm = ref_evm\<lparr>ApplyMessage := \<lambda>msg commit w.
     (if msgTo msg = Some ts_address \<and> msgFrom msg = pad20 (mod_addr ''csr'') then
        case on_led (ledger_send (mod_addr ''csr'') ts_address [\<lparr>Denom = ''acanto'', Amount = msgValue msg\<rparr>]) w of
          (Ok _, w') \<Rightarrow> (Ok \<lparr>Ret = [], VmError = [], LogTopics = []\<rparr>, if commit then w' else w)
        | _ \<Rightarrow> (Ok \<lparr>Ret = [], VmError = ''execution reverted'', LogTopics = []\<rparr>, w)
      else (Ok \<lparr>Ret = [], VmError = [], LogTopics = []\<rparr>, w))\<rparr>"

definition csr_abi :: abi where
  "csr_abi = ref_abi\<lparr>
     Unpack := \<lambda>name b.
       (if name = ''Register'' then Ok [AddressVal (take 20 b), AddressVal (take 20 (drop 20 b)), BigVal (of_char (b ! 40))]
        else if name = ''Assign'' then Ok [AddressVal (take 20 b), BigVal (of_char (b ! 20))]
        else Err (PlainErr ''abi'')),
     EventByID := \<lambda>x. if x = ''R'' then Some ''Register'' else if x = ''A'' then Some ''Assign'' else None\<rparr>"

definition csr_keeper :: "world Keeper" where
  "csr_keeper = \<lparr>accountKeeper = world_accounts, bankKeeper = world_bank, evmKeeper = csr_evm, eth = ref_eth,
     turnstileABI = csr_abi, turnstileBin = ''bin'', EvmAccount = \<lambda>a w. Some (a \<in> {first_contract, second_contract}),
     EvmDenom = \<lambda>w. ''acanto'', GetModuleAccount = \<lambda>m. ret True, FeeCollectorName = ''fee_collector'', authority = ''gov''\<rparr>"

lemma csr_keeper_sel: "eth csr_keeper = ref_eth" "bankKeeper csr_keeper = world_bank" "accountKeeper csr_keeper = world_accounts"
  "evmKeeper csr_keeper = csr_evm" "EvmDenom csr_keeper w = ''acanto''" "ModuleAddress csr_keeper = pad20 (mod_addr ''csr'')"
  by (simp_all add: csr_keeper_def ModuleAddress_def world_accounts_def ledger_accounts_def ref_eth_def ModuleName_def)

interpretation cenv: csr_env ref_lib csr_keeper world_ok ts_address "''acanto''"
proof -
  have "bank_laws ref_lib (bankKeeper csr_keeper) (accountKeeper csr_keeper) world_ok"
    by (simp add: csr_keeper_sel wbank.bank_laws_axioms)
  moreover have "eth_laws (eth csr_keeper)" by (simp add: csr_keeper_sel reth.eth_laws_axioms)
  moreover have "world_ok x' \<and> moves world_bank x (mod_addr ''csr'') ts_address [\<lparr>Denom = ''acanto'', Amount = msgValue msg\<rparr>] x'"
    if "world_ok x" "ApplyMessage csr_evm msg True x = (Ok r, x')" "\<not> Failed r" "msgFrom msg = pad20 (mod_addr ''csr'')"
      "msgTo msg = Some ts_address" for x x' r and msg :: eth_message
  proof -
    have "on_led (ledger_send (mod_addr ''csr'') ts_address [\<lparr>Denom = ''acanto'', Amount = msgValue msg\<rparr>]) x = (Ok (), x')"
      using that(2-5) by (auto simp: csr_evm_def Failed_def split: prod.splits res.splits)
    then show ?thesis
      using ledger_send_keeps that(1) by (fastforce simp: on_led_Ok world_ok_def world_effects)
  qed
  ultimately show "csr_env ref_lib csr_keeper world_ok ts_address ''acanto''"
    unfolding csr_env_def csr_env_axioms_def
    by (auto simp: csr_keeper_sel world_accounts_def ledger_accounts_def ModuleName_def)
qed

definition first_csr :: CSR where
  "first_csr = NewCSR [''0x'' @ first_contract] 0"

definition csr_start :: "int \<Rightarrow> world csr_state" where
  "csr_start shares = \<lparr>kown = \<lparr>pspace = Some \<lparr>EnableCsr = True, CsrShares = shares\<rparr>, kvstore = [(turnstile_key, AddrVal ts_address)]\<rparr>,
     kext = \<lparr>led = \<lparr>accts = [(mod_addr ''fee_collector'', [(''acanto'', 1000)])], totals = [(''acanto'', 1000)]\<rparr>,
       tokens = [], seqs = []\<rparr>\<rparr>"

definition csr_chain :: "int \<Rightarrow> world csr_state" where
  "csr_chain shares = snd (SetCSR first_csr (csr_start shares))"

text \<open>A transaction that registers a second contract and calls the first one.\<close>

definition register_log :: evm_log where
  "register_log = \<lparr>LogAddress = ts_address, Topics = [''R''], LogData = second_contract @ pad20 ''bob'' @ [char_of (1 :: int)]\<rparr>"

definition demo_tx :: evm_tx where
  "demo_tx = \<lparr>txTo = Some first_contract, GasPrice = 5, GasUsed = 100, Logs = [register_log]\<rparr>"

definition csr_after :: "int \<Rightarrow> world csr_state" where
  "csr_after shares = snd (PostTxProcessing ref_lib csr_keeper demo_tx (csr_chain shares))"

abbreviation fifth :: int where
  "fifth \<equiv> 200000000000000000"

lemma csr_chain_run: "SetCSR first_csr (csr_start p) = (Ok (), csr_chain p)"
proof -
  have "[] \<notin> set (Contracts first_csr)" by (simp add: first_csr_def NewCSR_def)
  then show ?thesis unfolding csr_chain_def using SetCSR_total by (metis snd_conv)
qed

lemma csr_chain_ok: "csr_ok ref_eth (csr_chain p)"
proof (rule SetCSR_keeps [OF _ csr_chain_run])
  show "csr_ok ref_eth (csr_start p)"
    by (auto simp: csr_ok_def csr_start_def kv_ok_def kv_get_def)
  show "CSR_Validate ref_eth first_csr = Ok ()" by code_simp
qed (auto simp: csr_start_def kv_get_def)

lemma csr_chain_sel: "kext (csr_chain p) = kext (csr_start p)" "pspace (kown (csr_chain p)) = Some \<lparr>EnableCsr = True, CsrShares = p\<rparr>"
  "csr_get (csr_chain p) turnstile_key = Some (AddrVal ts_address)"
  using SetCSR_Ok [OF csr_chain_run, of p turnstile_key] by (auto simp: csr_start_def kv_get_def)

lemma csr_world_ok: "world_ok (kext (csr_chain p))"
  unfolding world_ok_def csr_chain_sel by (rule ledger_checkD) (simp add: csr_start_def, code_simp)

lemma csr_after_run: "PostTxProcessing ref_lib csr_keeper demo_tx (csr_chain fifth) = (Ok (), csr_after fifth)"
  unfolding csr_after_def csr_chain_def by (rule pair_Ok_snd) code_simp

text \<open>NFTs as a map from identifiers to owners, the first of which can be given away; the module owns the contract.\<close>

definition ref_nfts :: "((u256, bytes) kv) inherited" where
  "ref_nfts = \<lparr>
     nft_mint = \<lambda>r i n. if kv_has n i then (Err (PlainErr ''token already minted''), n) else (Ok (), kv_set i r n),
     nft_exists = \<lambda>i n. kv_has n i,
     ownerOf = \<lambda>i n. (case kv_get n i of None \<Rightarrow> Err (PlainErr ''invalid token ID'') | Some a \<Rightarrow> Ok a),
     contract_owner = \<lambda>n. pad20 (mod_addr ''csr''),
     counter_increment = \<lambda>c. c + 1,
     inherited_call = \<lambda>a d n. if kv_get n 0 = Some a then (Ok (), kv_set 0 d n) else (Err (PlainErr ''not token owner''), n)\<rparr>"

interpretation rnft: inherited_laws ref_nfts
  by unfold_locales (auto simp: ref_nfts_def kv_has_def kv_get_set split: if_splits)

definition ts_start :: "((u256, bytes) kv) turnstile" where
  "ts_start = \<lparr>tokenIdTracker = 0, feeRecipient = [], fee_balances = [], base = [], ether = 0, emitted = []\<rparr>"

definition ts_one :: "((u256, bytes) kv) turnstile" where
  "ts_one = snd (Turnstile.register ref_nfts first_contract (pad20 ''bob'') ts_start)"

definition ts_two :: "((u256, bytes) kv) turnstile" where
  "ts_two = snd (Turnstile.register ref_nfts second_contract (pad20 ''bob'') ts_one)"

lemma ts_runs: "Turnstile.register ref_nfts first_contract (pad20 ''bob'') ts_start = (Ok 0, ts_one)"
  "Turnstile.register ref_nfts second_contract (pad20 ''bob'') ts_one = (Ok 1, ts_two)"
  unfolding ts_two_def ts_one_def by (rule pair_Ok_snd, code_simp)+

lemma ts_two_runs: "runs ref_nfts ts_start ts_two"
  by (rule runs.register [OF runs.register [OF runs.start ts_runs(1)] ts_runs(2)])

lemma ts_start_inv: "truthful ref_nfts ts_start" "solvent ts_start"
  by (simp_all add: truthful_def solvent_def owed_def ts_start_def kv_ok_def)

lemma ts_two_base: "base ts_two = [(0, pad20 ''bob''), (1, pad20 ''bob'')]"
  unfolding ts_two_def ts_one_def by code_simp

lemma ts_two_small: "small_ids ref_nfts ts_two"
  by (auto simp: small_ids_def ts_two_base ref_nfts_def kv_has_def kv_get_def split: if_splits)

lemma csr_chain_get: "csr_get (csr_chain p) x = (if x = contract_key (''0x'' @ first_contract) then Some (NftVal (UInt64ToBytes 0))
    else if x = csr_key 0 then Some (CsrVal first_csr) else if x = turnstile_key then Some (AddrVal ts_address) else None)"
  using SetCSR_Ok [OF csr_chain_run, of p x] by (simp add: first_csr_def NewCSR_def csr_start_def kv_get_def)

lemma csr_chain_sees: "module_sees ref_nfts csr_keeper ts_two (csr_chain p)"
proof -
  have "isRegistered first_contract ts_two" "tokenId (nft_data ts_two first_contract) = 0"
    unfolding ts_two_def ts_one_def by code_simp+
  moreover have "a = first_contract" if "''0x'' @ a = ''0x'' @ first_contract" for a :: bytes using that by simp
  moreover have "nft_exists ref_nfts 0 (base ts_two)" by (simp add: ts_two_base ref_nfts_def kv_has_def kv_get_def)
  ultimately show ?thesis
    by (auto simp: module_sees_def csr_chain_get csr_keeper_sel ref_eth_def split: if_splits)
qed

lemma register_log_event: "event_log csr_keeper (Register second_contract (pad20 ''bob'') 1) register_log"
proof -
  have "Unpack csr_abi TurnstileEventRegister (LogData register_log) =
      Ok [AddressVal second_contract, AddressVal (pad20 ''bob''), BigVal 1]"
    by code_simp
  then show ?thesis
    by (simp add: event_log_def csr_keeper_def register_log_def csr_abi_def TurnstileEventRegister_def second_contract_def)
qed

definition csr_tracked :: "world csr_state" where
  "csr_tracked = snd (process_logs csr_keeper ts_address [register_log] (csr_chain fifth))"

lemma csr_tracked_run: "process_logs csr_keeper ts_address [register_log] (csr_chain fifth) = (Ok (), csr_tracked)"
  unfolding csr_tracked_def csr_chain_def by (rule pair_Ok_snd) code_simp

section \<open>Properties\<close>

text \<open>C13. The register of x/csr stays consistent: after the EVM hook, the begin blocker and a change of
parameters, every NFT is stored under its identifier with at least one valid contract and
no contract twice, each of its contracts is indexed to it, and no index entry points
anywhere else, so that no contract earns for two NFTs.\<close>
theorem csr_register_consistent:
  assumes "csr_ok (eth k) s" and "csr_run L k op s = (Ok (), t)"
  shows "csr_ok (eth k) t"
  using assms by (rule csr_run_keeps)

theorem csr_register_consistent_witness:
  "csr_ok (eth csr_keeper) (csr_after fifth) \<and>
    fst (GetNFTByContract (''0x'' @ second_contract) (csr_after fifth)) = Ok (Some 1)"
proof
  have "csr_run ref_lib csr_keeper (OpHook demo_tx) (csr_chain fifth) = (Ok (), csr_after fifth)" using csr_after_run by simp
  then show "csr_ok (eth csr_keeper) (csr_after fifth)"
    by (rule csr_register_consistent [rotated]) (simp add: csr_keeper_sel csr_chain_ok)
  show "fst (GetNFTByContract (''0x'' @ second_contract) (csr_after fifth)) = Ok (Some 1)"
    unfolding csr_after_def csr_chain_def by code_simp
qed

text \<open>C11. The fee of a transaction is split without loss. When the hook succeeds, the fee collector has paid gas
used times gas price; the NFT of the called contract got its share, rounded down and never
more than the fee, into the Turnstile, and everything else was destroyed; without an NFT
the whole fee was. No other balance or supply changed, and of the register only the
NFT's count of transactions and its revenue.\<close>
theorem csr_fee_split:
  assumes "csr_env L k binv turnstile d" and "csr_ok (eth k) s" and "binv (kext s)"
    and "pspace (kown s) = Some params" and "EnableCsr params" and "Params_Validate params = Ok ()"
    and "csr_get s turnstile_key = Some (AddrVal b)" and "BytesToAddress (eth k) b = turnstile"
    and "GasUsed tx \<noteq> 0" and "0 \<le> GasPrice tx" and "PostTxProcessing L k tx s = (Ok (), t)"
  shows "\<exists>u fee share. processEvents k (Logs tx) s = (Ok (), u) \<and> fee = uint (GasUsed tx) * GasPrice tx \<and>
    share = (case payee k u tx of None \<Rightarrow> 0 | Some n \<Rightarrow> fee * CsrShares params div dec_one) \<and> 0 \<le> share \<and> share \<le> fee \<and>
    (\<forall>a e. bal (bankKeeper k) (kext t) a e = bal (bankKeeper k) (kext s) a e
       + (if a = turnstile \<and> e = d then share else 0)
       - (if a = GetModuleAddress (accountKeeper k) (FeeCollectorName k) \<and> e = d then fee else 0)) \<and>
    (\<forall>e. sup (bankKeeper k) (kext t) e = sup (bankKeeper k) (kext s) e - (if e = d then fee - share else 0)) \<and>
    (case payee k u tx of None \<Rightarrow> kown t = kown u
     | Some n \<Rightarrow> \<exists>c. csr_get u (csr_key n) = Some (CsrVal c) \<and>
         csr_get t (csr_key n) = Some (CsrVal (c\<lparr>Txs := Txs c + 1, Revenue := Revenue c + share\<rparr>)) \<and>
         (\<forall>x. x \<noteq> csr_key n \<longrightarrow> csr_get t x = csr_get u x))"
proof (rule csr_env.hook_effect [OF assms(1,11,2-10)], goal_cases)
  case (1 u fee share)
  then show ?case by (intro exI [of _ u] exI [of _ fee] exI [of _ share]) blast
qed

theorem csr_fee_split_witness:
  "\<exists>fee share :: int. fee = 500 \<and> 0 \<le> share \<and> share \<le> fee \<and> bal world_bank (kext (csr_after fifth)) ts_address ''acanto'' = 100 \<and>
    sup world_bank (kext (csr_after fifth)) ''acanto'' = 600"
proof -
  have "Params_Validate \<lparr>EnableCsr = True, CsrShares = fifth\<rparr> = Ok ()" by code_simp
  moreover have "csr_ok (eth csr_keeper) (csr_chain fifth)" by (simp add: csr_keeper_sel csr_chain_ok)
  moreover have "BytesToAddress (eth csr_keeper) ts_address = ts_address" by (simp add: csr_keeper_sel ref_eth_def ts_address_def pad20_id)
  moreover have "GasUsed demo_tx \<noteq> 0" "0 \<le> GasPrice demo_tx" "uint (GasUsed demo_tx) * GasPrice demo_tx = 500"
    by (simp_all add: demo_tx_def)
  ultimately have "\<exists>fee share. fee = uint (GasUsed demo_tx) * GasPrice demo_tx \<and> 0 \<le> share \<and> share \<le> fee"
    using csr_fee_split [OF cenv.csr_env_axioms _ csr_world_ok csr_chain_sel(2) _ _ csr_chain_sel(3) _ _ _ csr_after_run] by auto
  moreover have "bal world_bank (kext (csr_after fifth)) ts_address ''acanto'' = 100"
    "sup world_bank (kext (csr_after fifth)) ''acanto'' = 600"
    unfolding csr_after_def csr_chain_def by code_simp+
  ultimately show ?thesis using \<open>uint (GasUsed demo_tx) * GasPrice demo_tx = 500\<close> by auto
qed

text \<open>C29. What is stored is found: after SetCSR the NFT is returned for its identifier and the identifier for each
of its contracts, through the eight bytes both are stored under, and every other lookup
answers what it did before.\<close>
theorem csr_stored_is_found:
  assumes "SetCSR c s = (Ok (), t)"
  shows "GetCSR (Id c) t = (Ok (Some c), t) \<and> (\<forall>a \<in> set (Contracts c). GetNFTByContract a t = (Ok (Some (Id c)), t)) \<and>
    (\<forall>n. n \<noteq> Id c \<longrightarrow> fst (GetCSR n t) = fst (GetCSR n s)) \<and>
    (\<forall>a. a \<notin> set (Contracts c) \<longrightarrow> fst (GetNFTByContract a t) = fst (GetNFTByContract a s))"
proof -
  have get: "csr_get t (csr_key n) = (if n = Id c then Some (CsrVal c) else csr_get s (csr_key n))"
    "csr_get t (contract_key a) = (if a \<in> set (Contracts c) then Some (NftVal (UInt64ToBytes (Id c))) else csr_get s (contract_key a))"
    for n a
    using SetCSR_Ok [OF assms, of "csr_key n"] SetCSR_Ok [OF assms, of "contract_key a"] by auto
  have "fst (GetCSR n t) = fst (GetCSR n s)" if "n \<noteq> Id c" for n
    using that get(1) [of n] by (auto simp: GetCSR_def bnd_def store_get_def gets_def ret_def panic_def
        split: option.split csr_value.split)
  moreover have "fst (GetNFTByContract a t) = fst (GetNFTByContract a s)" if "a \<notin> set (Contracts c)" for a
    using that get(2) [of a] by (auto simp: GetNFTByContract_def bnd_def store_get_def gets_def ret_def panic_def lift_def
        split: option.split csr_value.split res.split)
  moreover have "GetCSR (Id c) t = (Ok (Some c), t)" by (simp add: GetCSR_Ok_iff get)
  moreover have "GetNFTByContract a t = (Ok (Some (Id c)), t)" if "a \<in> set (Contracts c)" for a
    using that by (simp add: GetNFT_Ok_iff get)
  ultimately show ?thesis by blast
qed

theorem csr_stored_is_found_witness: "GetCSR 0 (csr_chain fifth) = (Ok (Some first_csr), csr_chain fifth)"
  using csr_stored_is_found [OF csr_chain_run [of fifth]] by (simp add: first_csr_def NewCSR_def)

text \<open>C12. The module's register is a true view of the Turnstile contract: take any execution of the contract,
reentrant withdrawals included, and logs that carry events it emitted. If everything the
module has registered is registered in the contract with the same NFT, then this is
still so after the module has processed the logs, also when it refused some.\<close>
theorem module_tracks_turnstile:
  assumes "inherited_laws B" and "eth_laws (eth k)" and "runs B ts0 ts" and "truthful B ts0"
    and "\<forall>log \<in> set logs. LogAddress log = a \<longrightarrow> (\<exists>e \<in> set (emitted ts). event_log k e log)"
    and "small_ids B ts" and "module_sees B k ts s" and "csr_ok (eth k) s" and "process_logs k a logs s = (Ok (), t)"
  shows "module_sees B k ts t"
proof -
  have "truthful B ts" by (rule inherited_laws.runs_truthful [OF assms(1,3,4)])
  then have "\<forall>log \<in> set logs. LogAddress log = a \<longrightarrow> (\<exists>e. justified B ts e \<and> event_log k e log)"
    using assms(5) unfolding truthful_def list_all_iff by blast
  then show ?thesis by (rule process_logs_sees [OF assms(9,7,8,2,6)])
qed

theorem module_tracks_turnstile_witness:
  "module_sees ref_nfts csr_keeper ts_two csr_tracked \<and>
    csr_get csr_tracked (contract_key (''0x'' @ second_contract)) = Some (NftVal (UInt64ToBytes 1))"
proof
  have "Register second_contract (pad20 ''bob'') 1 \<in> set (emitted ts_two)"
    unfolding ts_two_def ts_one_def by code_simp
  then have "\<forall>log \<in> set [register_log]. LogAddress log = ts_address \<longrightarrow> (\<exists>e \<in> set (emitted ts_two). event_log csr_keeper e log)"
    using register_log_event by auto
  then show "module_sees ref_nfts csr_keeper ts_two csr_tracked"
    using module_tracks_turnstile [OF rnft.inherited_laws_axioms _ ts_two_runs ts_start_inv(1) _ ts_two_small csr_chain_sees _ csr_tracked_run]
      reth.eth_laws_axioms csr_chain_ok by (simp add: csr_keeper_sel)
  show "csr_get csr_tracked (contract_key (''0x'' @ second_contract)) = Some (NftVal (UInt64ToBytes 1))"
    unfolding csr_tracked_def csr_chain_def by code_simp
qed

text \<open>C26. The Turnstile can always pay: whatever calls are made, also by the recipient of a payment while it is being
paid, the account of the contract holds at least the sum of the fees owed, and so it
covers every withdrawal that passes the checks.\<close>
theorem turnstile_solvent:
  assumes "runs B s t" and "solvent s"
  shows "owed t \<le> ether t \<and> (\<forall>a i r m n u. withdraw_debit B a i r m t = (Ok n, u) \<longrightarrow> uint n \<le> ether u)"
proof -
  have t: "solvent t" by (rule runs_solvent [OF assms])
  have "uint n \<le> ether u" if w: "withdraw_debit B a i r m t = (Ok n, u)" for a i r m n u
  proof -
    have "0 \<le> owed u" unfolding owed_def by (rule sum_list_nonneg) auto
    then show ?thesis using debit_owed [OF w] t by (simp add: solvent_def)
  qed
  then show ?thesis using t by (auto simp: solvent_def)
qed

text \<open>The first NFT earns fees, is given away, and its new owner withdraws some of them.\<close>

definition ts_fees :: "((u256, bytes) kv) turnstile" where
  "ts_fees = snd (distributeFees ref_nfts (pad20 (mod_addr ''csr'')) 100 0 ts_two)"

definition ts_given :: "((u256, bytes) kv) turnstile" where
  "ts_given = snd (on_base (inherited_call ref_nfts (pad20 ''bob'') (pad20 ''carol'')) ts_fees)"

definition ts_debited :: "((u256, bytes) kv) turnstile" where
  "ts_debited = snd (withdraw_debit ref_nfts (pad20 ''carol'') 0 (pad20 ''carol'') 30 ts_given)"

lemma ts_more_runs: "distributeFees ref_nfts (pad20 (mod_addr ''csr'')) 100 0 ts_two = (Ok (), ts_fees)"
  "on_base (inherited_call ref_nfts (pad20 ''bob'') (pad20 ''carol'')) ts_fees = (Ok (), ts_given)"
  "withdraw_debit ref_nfts (pad20 ''carol'') 0 (pad20 ''carol'') 30 ts_given = (Ok 30, ts_debited)"
  unfolding ts_debited_def ts_given_def ts_fees_def ts_two_def ts_one_def by (rule pair_Ok_snd, code_simp)+

lemma ts_debited_sums: "ether ts_debited = 100" "owed ts_debited = 70"
  unfolding ts_debited_def ts_given_def ts_fees_def ts_two_def ts_one_def by code_simp+

theorem turnstile_solvent_witness:
  "runs ref_nfts ts_start (ts_debited\<lparr>ether := 70\<rparr>) \<and> owed (ts_debited\<lparr>ether := 70\<rparr>) = 70 \<and>
    owed (ts_debited\<lparr>ether := 70\<rparr>) \<le> ether (ts_debited\<lparr>ether := 70\<rparr>) \<and> uint (30 :: u256) \<le> ether ts_debited"
proof (intro conjI)
  have given: "runs ref_nfts ts_start ts_given"
    by (rule runs.inherited [OF runs.distribute [OF ts_two_runs ts_more_runs(1)] ts_more_runs(2)])
  then show run: "runs ref_nfts ts_start (ts_debited\<lparr>ether := 70\<rparr>)"
    using runs.withdraw [OF given ts_more_runs(3), of "ts_debited\<lparr>ether := 70\<rparr>"] by (simp add: ts_debited_sums runs.start)
  show "owed (ts_debited\<lparr>ether := 70\<rparr>) = 70" using ts_debited_sums(2) by (simp add: owed_def)
  show "owed (ts_debited\<lparr>ether := 70\<rparr>) \<le> ether (ts_debited\<lparr>ether := 70\<rparr>)"
    using turnstile_solvent [OF run ts_start_inv(2)] by blast
  show "uint (30 :: u256) \<le> ether ts_debited" using turnstile_solvent [OF given ts_start_inv(2)] ts_more_runs(3) by blast
qed

text \<open>C31. A share of nothing fails the transaction: the Turnstile refuses a distribution without value, so when the
called contract has an NFT and its share of the fee rounds to zero, as it always does with
the shares parameter at its smallest valid value, the hook does not succeed.\<close>
theorem zero_share_fails:
  assumes "csr_env L k binv turnstile d" and "csr_ok (eth k) s" and "binv (kext s)"
    and "pspace (kown s) = Some params" and "EnableCsr params" and "Params_Validate params = Ok ()"
    and "csr_get s turnstile_key = Some (AddrVal b)" and "BytesToAddress (eth k) b = turnstile"
    and "GasUsed tx \<noteq> 0" and "0 \<le> GasPrice tx"
    and "processEvents k (Logs tx) s = (Ok (), u)" and "payee k u tx = Some n"
    and "uint (GasUsed tx) * GasPrice tx * CsrShares params < dec_one"
    and refused: "\<And>msg x r x'. ApplyMessage (evmKeeper k) msg True x = (Ok r, x') \<Longrightarrow> msgTo msg = Some turnstile \<Longrightarrow>
      msgFrom msg = ModuleAddress k \<Longrightarrow> Pack (turnstileABI k) ''distributeFees'' [BigVal (uint n)] = Ok (msgData msg) \<Longrightarrow>
      msgValue msg = 0 \<Longrightarrow> Failed r"
  shows "PostTxProcessing L k tx s \<noteq> (Ok (), t) \<and> distributeFees B c 0 i ts \<noteq> (Ok (), ts')"
proof
  show "PostTxProcessing L k tx s \<noteq> (Ok (), t)"
  proof
    assume "PostTxProcessing L k tx s = (Ok (), t)"
    then show False
    proof (rule csr_env.hook_zero_share [OF assms(1) _ assms(2-13)], goal_cases)
      case (1 msg x r x')
      then show ?case using refused [OF 1(1)] by simp
    qed
  qed
  show "distributeFees B c 0 i ts \<noteq> (Ok (), ts')" using distributeFees_Ok [of B c 0 i ts] by blast
qed

theorem zero_share_fails_witness:
  "PostTxProcessing ref_lib csr_keeper demo_tx (csr_chain 0) \<noteq> (Ok (), csr_chain 0) \<and> distributeFees ref_nfts [] 0 0 ts_two \<noteq> (Ok (), ts_two)"
proof (rule zero_share_fails [OF cenv.csr_env_axioms _ csr_world_ok csr_chain_sel(2) _ _ csr_chain_sel(3)])
  show "csr_ok (eth csr_keeper) (csr_chain 0)" by (simp add: csr_keeper_sel csr_chain_ok)
  show "BytesToAddress (eth csr_keeper) ts_address = ts_address" by (simp add: csr_keeper_sel ref_eth_def ts_address_def pad20_id)
  show "Params_Validate \<lparr>EnableCsr = True, CsrShares = 0\<rparr> = Ok ()" by code_simp
  show "processEvents csr_keeper (Logs demo_tx) (csr_chain 0) = (Ok (), snd (processEvents csr_keeper (Logs demo_tx) (csr_chain 0)))"
    unfolding csr_chain_def by (rule pair_Ok_snd) code_simp
  show "payee csr_keeper (snd (processEvents csr_keeper (Logs demo_tx) (csr_chain 0))) demo_tx = Some 0"
    unfolding csr_chain_def by code_simp
  show "Failed r" if "ApplyMessage (evmKeeper csr_keeper) msg True x = (Ok r, x')" "msgTo msg = Some ts_address"
      "msgFrom msg = ModuleAddress csr_keeper" "msgValue msg = 0" for msg x r x'
    using that by (auto simp: csr_keeper_sel csr_evm_def on_led_def ledger_send_def coins_ok_def Failed_def)
qed (simp_all add: demo_tx_def)

end
