(* ===== verification/Ibc.thy ===== *)
theory Ibc
  imports Sdk
begin

text \<open>
  What the chain reads from an ICS-20 transfer: the addresses of a packet
  (types/utils.go, ibc/utils.go) and the coin as it is known here. The packet codec, the
  denomination traces of ibc-go and the bech32 codec are a record of functions.
\<close>

section \<open>Packets\<close>

record packet =
  SourcePort :: string
  SourceChannel :: string
  DestinationPort :: string
  DestinationChannel :: string
  PacketData :: bytes

record FungibleTokenPacketData =
  data_Denom :: string
  data_Amount :: string
  data_Sender :: string
  data_Receiver :: string

record ibc_lib =
  UnmarshalJSON :: "bytes \<Rightarrow> FungibleTokenPacketData res"
  GetFromBech32 :: "string \<Rightarrow> string \<Rightarrow> bytes res"
  VerifyAddressFormat :: "bytes \<Rightarrow> unit res"
  NewIntFromString :: "string \<Rightarrow> int option"
  ReceiverChainIsSource :: "string \<Rightarrow> string \<Rightarrow> string \<Rightarrow> bool"
  GetDenomPrefix :: "string \<Rightarrow> string \<Rightarrow> string"
  TracePath :: "string \<Rightarrow> string"
  TraceIBCDenom :: "string \<Rightarrow> string"

definition ErrInvalidAddress :: err where "ErrInvalidAddress = SdkErr ''sdkerrors.ErrInvalidAddress''"
definition ErrUnknownRequest :: err where "ErrUnknownRequest = SdkErr ''sdkerrors.ErrUnknownRequest''"
definition ErrInvalidCoins :: err where "ErrInvalidCoins = SdkErr ''sdkerrors.ErrInvalidCoins''"

text \<open>An error that is replaced by another one.\<close>

definition orelse_err :: "err \<Rightarrow> 'a res \<Rightarrow> 'a res" where
  "orelse_err e r = (case r of Err _ \<Rightarrow> Err e | _ \<Rightarrow> r)"

lemma orelse_err_Ok [simp]: "orelse_err e r = Ok x \<longleftrightarrow> r = Ok x"
  by (cases r) (auto simp: orelse_err_def)

section \<open>types/utils.go\<close>

definition MainnetChainID :: string where
  "MainnetChainID = ''tuc_9001''"

definition TestnetChainID :: string where
  "TestnetChainID = ''tuc_9000''"

definition IsMainnet :: "string \<Rightarrow> bool" where
  "IsMainnet chainID = HasPrefix chainID MainnetChainID"

definition IsTestnet :: "string \<Rightarrow> bool" where
  "IsTestnet chainID = HasPrefix chainID TestnetChainID"

definition GetcantoAddressFromBech32 :: "ibc_lib \<Rightarrow> string \<Rightarrow> bytes res" where
  "GetcantoAddressFromBech32 I address =
     (let bech32Prefix = hd (SplitN2 (CHR ''1'') address) in
      if bech32Prefix = address then Err ErrInvalidAddress
      else
        rbind (orelse_err ErrInvalidAddress (GetFromBech32 I address bech32Prefix)) (\<lambda>addressBz.
        rbind (VerifyAddressFormat I addressBz) (\<lambda>_.
        Ok addressBz)))"

section \<open>ibc/utils.go\<close>

definition GetTransferSenderRecipient :: "ibc_lib \<Rightarrow> packet \<Rightarrow> (bytes \<times> bytes \<times> string \<times> string) res" where
  "GetTransferSenderRecipient I packet =
     rbind (orelse_err ErrUnknownRequest (UnmarshalJSON I (PacketData packet))) (\<lambda>data.
     rbind (GetcantoAddressFromBech32 I (data_Sender data)) (\<lambda>sender.
     rbind (GetcantoAddressFromBech32 I (data_Receiver data)) (\<lambda>recipient.
     Ok (sender, recipient, data_Sender data, data_Receiver data))))"

definition GetTransferAmount :: "ibc_lib \<Rightarrow> packet \<Rightarrow> string res" where
  "GetTransferAmount I packet =
     rbind (orelse_err ErrUnknownRequest (UnmarshalJSON I (PacketData packet))) (\<lambda>data.
     if data_Amount data = '''' then Err ErrInvalidCoins
     else if NewIntFromString I (data_Amount data) = None then Err ErrInvalidCoins
     else Ok (data_Amount data))"

text \<open>
  The coin as it arrives. The source drops the flag that tells whether the amount could
  be read; when it could not, the amount is a nil integer, on which the first operation
  panics.
\<close>

record received =
  rc_Denom :: string
  rc_Amount :: "int option"

definition GetReceivedCoin :: "ibc_lib \<Rightarrow> string \<Rightarrow> string \<Rightarrow> string \<Rightarrow> string \<Rightarrow> string \<Rightarrow> string \<Rightarrow> received res" where
  "GetReceivedCoin I srcPort srcChannel dstPort dstChannel rawDenom rawAmt =
     (let amount = NewIntFromString I rawAmt in
      if ReceiverChainIsSource I srcPort srcChannel rawDenom then
        let voucherPrefix = GetDenomPrefix I srcPort srcChannel in
        if length rawDenom < length voucherPrefix then Panic ''slice bounds out of range''
        else
          let unprefixedDenom = drop (length voucherPrefix) rawDenom;
              denom = (if TracePath I unprefixedDenom \<noteq> '''' then TraceIBCDenom I unprefixedDenom else unprefixedDenom)
          in Ok \<lparr>rc_Denom = denom, rc_Amount = amount\<rparr>
      else
        let sourcePrefix = GetDenomPrefix I dstPort dstChannel;
            prefixedDenom = sourcePrefix @ rawDenom
        in Ok \<lparr>rc_Denom = TraceIBCDenom I prefixedDenom, rc_Amount = amount\<rparr>)"

text \<open>A coin whose amount could be read.\<close>

definition known :: "coin \<Rightarrow> received" where
  "known c = \<lparr>rc_Denom = Denom c, rc_Amount = Some (Amount c)\<rparr>"

lemma known_sel [simp]: "rc_Denom (known c) = Denom c" "rc_Amount (known c) = Some (Amount c)"
  by (simp_all add: known_def)

lemma IsMainnet_not_IsTestnet: "\<not> (IsMainnet c \<and> IsTestnet c)"
  by (auto simp: IsMainnet_def IsTestnet_def HasPrefix_iff MainnetChainID_def TestnetChainID_def)

text \<open>An accepted address has a prefix and a separator, and its bytes passed the format check.\<close>

lemma GetcantoAddress_Ok:
  assumes "GetcantoAddressFromBech32 I address = Ok b"
  shows "VerifyAddressFormat I b = Ok () \<and> (\<exists>p. p \<noteq> address \<and> GetFromBech32 I address p = Ok b)"
  using assms by (auto simp: GetcantoAddressFromBech32_def Let_def split: if_splits)

end
