(* ===== verification/Onboarding.thy ===== *)
theory Onboarding
  imports Coinswap_Keeper Erc20_Convert Ibc
begin

text \<open>
  x/onboarding: after an ICS-20 transfer through a whitelisted channel, a recipient
  with little of the standard coin buys some from the pool of the received coin
  (x/coinswap), and what is left of the received coin is converted to tokens (x/erc20).
\<close>

section \<open>Types\<close>

definition ModuleName :: string where
  "ModuleName = ''onboarding''"

definition ErrInvalidType :: err where "ErrInvalidType = RegErr ModuleName 3"

definition ErrInvalidSigner :: err where "ErrInvalidSigner = SdkErr ''govtypes.ErrInvalidSigner''"

record Params =
  EnableOnboarding :: bool
  AutoSwapThreshold :: int
  WhitelistedChannels :: "string list"

definition NewParams :: "bool \<Rightarrow> int \<Rightarrow> string list \<Rightarrow> Params" where
  "NewParams enableOnboarding autoSwapThreshold whitelistedChannels =
     \<lparr>EnableOnboarding = enableOnboarding, AutoSwapThreshold = autoSwapThreshold, WhitelistedChannels = whitelistedChannels\<rparr>"

definition DefaultParams :: Params where
  "DefaultParams = \<lparr>EnableOnboarding = True, AutoSwapThreshold = NewIntWithDecimal 4 18, WhitelistedChannels = [''channel-0'']\<rparr>"

definition validateAutoSwapThreshold :: "int \<Rightarrow> unit res" where
  "validateAutoSwapThreshold v = (if v < 0 then Err (PlainErr ''auto swap threshold must be positive'') else Ok ())"

definition Params_Validate :: "Params \<Rightarrow> unit res" where
  "Params_Validate p = validateAutoSwapThreshold (AutoSwapThreshold p)"

record GenesisState =
  gen_Params :: Params

definition NewGenesisState :: "Params \<Rightarrow> GenesisState" where
  "NewGenesisState params = \<lparr>gen_Params = params\<rparr>"

definition DefaultGenesisState :: GenesisState where
  "DefaultGenesisState = \<lparr>gen_Params = DefaultParams\<rparr>"

definition GenesisState_Validate :: "GenesisState \<Rightarrow> unit res" where
  "GenesisState_Validate gs = Params_Validate (gen_Params gs)"

section \<open>The keeper and the state of the modules it calls\<close>

text \<open>Next to its own parameters the handler works on the stores of coinswap and erc20 and on what both share.\<close>

record 'x chain =
  coinswap_store :: "(Coinswap_Types.Params, cs_value) mstore"
  erc20_store :: "(Erc20_Types.Params, erc_value) mstore"
  shared :: 'x

type_synonym 'x on_state = "(Params, unit, 'x chain) mstate"

record 'x Keeper =
  coinswapKeeper :: "'x Coinswap_Pool.Keeper"
  erc20Keeper :: "'x Erc20.Keeper"
  SpendableCoins :: "bytes \<Rightarrow> 'x \<Rightarrow> coin list"
  IsModuleAccount :: "bytes \<Rightarrow> 'x \<Rightarrow> bool"
  authority :: string

definition coinswap_part :: "'x chain \<Rightarrow> 'x cs_state" where
  "coinswap_part c = \<lparr>kown = coinswap_store c, kext = shared c\<rparr>"

definition erc20_part :: "'x chain \<Rightarrow> 'x erc_state" where
  "erc20_part c = \<lparr>kown = erc20_store c, kext = shared c\<rparr>"

definition on_coinswap :: "('x cs_state, 'a) act \<Rightarrow> ('x on_state, 'a) act" where
  "on_coinswap m = on_ext (zoom coinswap_part (\<lambda>s c. c\<lparr>coinswap_store := kown s, shared := kext s\<rparr>) m)"

definition on_erc20 :: "('x erc_state, 'a) act \<Rightarrow> ('x on_state, 'a) act" where
  "on_erc20 m = on_ext (zoom erc20_part (\<lambda>s c. c\<lparr>erc20_store := kown s, shared := kext s\<rparr>) m)"

definition GetAuthority :: "'x Keeper \<Rightarrow> string" where
  "GetAuthority k = authority k"

definition GetParams :: "('x on_state, Params) act" where
  "GetParams = param_get"

text \<open>SetParamSet panics when a parameter does not pass its own check.\<close>

definition SetParams :: "Params \<Rightarrow> ('x on_state, unit) act" where
  "SetParams params = (if Params_Validate params = Ok () then param_set params else panic ''invalid parameter'')"

section \<open>ibc_callbacks.go\<close>

text \<open>Whether the loop over the whitelist finds the channel.\<close>

fun channel_found :: "string \<Rightarrow> string list \<Rightarrow> bool \<Rightarrow> bool" where
  "channel_found channel [] found = found"
| "channel_found channel (s # ss) found = channel_found channel ss (if s = channel then True else found)"

text \<open>
  The swap: its failure is logged and counts as nothing swapped. With a nil amount the
  trade panics where it compares the price with it, unless it has failed before.
\<close>

definition auto_swap :: "sdk_lib \<Rightarrow> 'x Keeper \<Rightarrow> bytes \<Rightarrow> received \<Rightarrow> coin \<Rightarrow> ('x on_state, int) act" where
  "auto_swap L k recipient transferredCoin boughtCoin =
     (case rc_Amount transferredCoin of
        None \<Rightarrow>
          bnd (attempt (on_coinswap (calculateWithExactOutput L (coinswapKeeper k) boughtCoin (rc_Denom transferredCoin)))) (\<lambda>r.
          case r of Inl e \<Rightarrow> ret 0 | Inr soldTokenAmt \<Rightarrow> panic ''nil pointer'')
      | Some amount \<Rightarrow>
          bnd (attempt (on_coinswap (TradeInputForExactOutput L (coinswapKeeper k)
                 \<lparr>Address = AddrString L recipient, Coin = \<lparr>Denom = rc_Denom transferredCoin, Amount = amount\<rparr>\<rparr>
                 \<lparr>Address = AddrString L recipient, Coin = boughtCoin\<rparr>))) (\<lambda>r.
          case r of Inl e \<Rightarrow> ret 0 | Inr swappedAmount \<Rightarrow> ret swappedAmount))"

text \<open>The conversion runs on a cached context; its failure is logged.\<close>

definition auto_convert :: "sdk_lib \<Rightarrow> 'x Keeper \<Rightarrow> bytes \<Rightarrow> received \<Rightarrow> int \<Rightarrow> ('x on_state, unit) act" where
  "auto_convert L k recipient transferredCoin swappedAmount =
     bnd (on_erc20 (GetTokenPairID (erc20Keeper k) (rc_Denom transferredCoin))) (\<lambda>pairID.
     if no_id pairID then ret ()
     else
       bnd (on_erc20 (GetTokenPair pairID)) (\<lambda>pair.
       case pair of None \<Rightarrow> ret ()
       | Some p \<Rightarrow>
           if \<not> Enabled p then ret ()
           else
             bnd (lift (must ''nil pointer'' (rc_Amount transferredCoin))) (\<lambda>amount.
             bnd (lift (IntSub L amount swappedAmount)) (\<lambda>rest.
             bnd (lift (NewCoin L (rc_Denom transferredCoin) rest)) (\<lambda>convertCoin.
             let convertMsg = NewMsgConvertCoin L (eth (erc20Keeper k)) convertCoin
                   (BytesToAddress (eth (erc20Keeper k)) recipient) recipient in
             bnd (attempt (cached (on_erc20 (ConvertCoin L (erc20Keeper k) convertMsg)))) (\<lambda>_.
             ret ()))))))"

text \<open>An acknowledgement is whatever the application below returned, or one made from an error.\<close>

definition OnRecvPacket :: "sdk_lib \<Rightarrow> ibc_lib \<Rightarrow> (err \<Rightarrow> 'a) \<Rightarrow> 'x Keeper \<Rightarrow> packet \<Rightarrow> 'a \<Rightarrow> ('x on_state, 'a) act" where
  "OnRecvPacket L I NewErrorAcknowledgement k packet ack =
     bnd GetParams (\<lambda>params.
     if \<not> EnableOnboarding params then ret ack
     else if \<not> channel_found (DestinationChannel packet) (WhitelistedChannels params) False then ret ack
     else
       bnd (attempt (lift (GetTransferSenderRecipient I packet))) (\<lambda>r.
       case r of Inl e \<Rightarrow> ret (NewErrorAcknowledgement e)
       | Inr (sender, recipient, senderBech32, recipientBech32) \<Rightarrow>
         bnd (gets (\<lambda>s. IsModuleAccount k recipient (shared (kext s)))) (\<lambda>isModuleAccount.
         if isModuleAccount then ret ack
         else
           bnd (attempt (on_coinswap GetStandardDenom)) (\<lambda>r.
           case r of Inl e \<Rightarrow> ret ack
           | Inr standardDenom \<Rightarrow>
             bnd (attempt (lift (UnmarshalJSON I (PacketData packet)))) (\<lambda>r.
             case r of Inl e \<Rightarrow> ret (NewErrorAcknowledgement ErrInvalidType)
             | Inr data \<Rightarrow>
               bnd (lift (GetReceivedCoin I (SourcePort packet) (SourceChannel packet)
                      (DestinationPort packet) (DestinationChannel packet) (data_Denom data) (data_Amount data))) (\<lambda>transferredCoin.
               bnd GetParams (\<lambda>params1.
               let autoSwapThreshold = AutoSwapThreshold params1 in
               bnd (lift (NewCoin L standardDenom autoSwapThreshold)) (\<lambda>swapCoins.
               bnd (gets (\<lambda>s. SpendableCoins k recipient (shared (kext s)))) (\<lambda>spendable.
               bnd (lift (AmountOf L spendable standardDenom)) (\<lambda>standardCoinBalance.
               bnd (if standardCoinBalance < autoSwapThreshold then auto_swap L k recipient transferredCoin swapCoins
                    else ret 0) (\<lambda>swappedAmount.
               bnd (auto_convert L k recipient transferredCoin swappedAmount) (\<lambda>_.
               ret ack))))))))))))"

section \<open>ibc_middleware.go\<close>

text \<open>The application below the middleware answers first.\<close>

definition middleware_OnRecvPacket :: "sdk_lib \<Rightarrow> ibc_lib \<Rightarrow> (err \<Rightarrow> 'a) \<Rightarrow> ('a \<Rightarrow> bool) \<Rightarrow>
    (packet \<Rightarrow> ('x on_state, 'a) act) \<Rightarrow> 'x Keeper \<Rightarrow> packet \<Rightarrow> ('x on_state, 'a) act" where
  "middleware_OnRecvPacket L I NewErrorAcknowledgement Success app k packet =
     bnd (app packet) (\<lambda>ack.
     if \<not> Success ack then ret ack else OnRecvPacket L I NewErrorAcknowledgement k packet ack)"

section \<open>Message server, queries, genesis\<close>

definition msg_UpdateParams :: "'x Keeper \<Rightarrow> string \<Rightarrow> Params \<Rightarrow> ('x on_state, unit) act" where
  "msg_UpdateParams k auth params =
     (if GetAuthority k \<noteq> auth then raise ErrInvalidSigner
      else bnd (lift (Params_Validate params)) (\<lambda>_. SetParams params))"

definition Params_query :: "('x on_state, Params) act" where
  "Params_query = GetParams"

definition InitGenesis :: "GenesisState \<Rightarrow> ('x on_state, unit) act" where
  "InitGenesis data = SetParams (gen_Params data)"

definition ExportGenesis :: "('x on_state, GenesisState) act" where
  "ExportGenesis = bnd GetParams (\<lambda>params. ret \<lparr>gen_Params = params\<rparr>)"

end
