(* ===== verification/Onboarding_Props.thy ===== *)
theory Onboarding_Props
  imports Onboarding Erc20_Props
begin

text \<open>
  What x/onboarding does to a recipient: the swap fills or leaves no trace, the
  conversion takes what is left, and together they never take more than was transferred.
\<close>

section \<open>Failures without a trace\<close>

text \<open>An action that leaves the state as it was when it returns an error.\<close>

definition clean :: "('s, 'a) act \<Rightarrow> 's \<Rightarrow> bool" where
  "clean m s \<longleftrightarrow> (\<forall>e t. m s = (Err e, t) \<longrightarrow> t = s)"

lemma cleanD: "clean m s \<Longrightarrow> m s = (Err e, t) \<Longrightarrow> t = s"
  by (simp add: clean_def)

lemma clean_keeps: "keeps (\<lambda>s. s) m \<Longrightarrow> clean m s"
  unfolding clean_def using keepsD by fast

lemma clean_read: "keeps (\<lambda>s. s) m \<Longrightarrow> (\<And>x. m s = (Ok x, s) \<Longrightarrow> clean (f x) s) \<Longrightarrow> clean (bnd m f) s"
  unfolding clean_def bnd_Err_iff using keepsD [of "\<lambda>s. s" m s] by metis

lemma clean_write: "clean m s \<Longrightarrow> (\<And>x u e t. m s = (Ok x, u) \<Longrightarrow> f x u \<noteq> (Err e, t)) \<Longrightarrow> clean (bnd m f) s"
  unfolding clean_def bnd_Err_iff by blast

lemma clean_if: "(b \<Longrightarrow> clean m s) \<Longrightarrow> (\<not> b \<Longrightarrow> clean n s) \<Longrightarrow> clean (if b then m else n) s"
  by simp

lemma on_ext_Err_iff: "on_ext m s = (Err e, t) \<longleftrightarrow> (\<exists>x. m (kext s) = (Err e, x) \<and> t = s\<lparr>kext := x\<rparr>)"
  by (auto simp: on_ext_def split: prod.splits)

lemma keeps_case_option: "keeps f m \<Longrightarrow> (\<And>y. keeps f (g y)) \<Longrightarrow> keeps f (case x of None \<Rightarrow> m | Some y \<Rightarrow> g y)"
  by (cases x) auto

lemma store_get_keeps: "keeps (\<lambda>s. s) (store_get key)" "keeps (\<lambda>s. s) param_get"
  unfolding store_get_def param_get_def by (intro keeps_intros)+

lemma GetStandardDenom_keeps: "keeps (\<lambda>s. s) GetStandardDenom"
  by (auto simp: keeps_def GetStandardDenom_def unmarshal_fail_def store_get_def bnd_def gets_def ret_def panic_def
      split: option.split cs_value.split)

lemma GetLptDenomFromDenoms_keeps: "keeps (\<lambda>s. s) (GetLptDenomFromDenoms d e)"
proof -
  have "keeps (\<lambda>s. s) (GetPool i)" for i
    by (auto simp: keeps_def GetPool_def unmarshal_fail_def store_get_def bnd_def gets_def ret_def panic_def
        split: option.split cs_value.split)
  then show ?thesis unfolding GetLptDenomFromDenoms_def Let_def
    by (intro keeps_intros keeps_case_option GetStandardDenom_keeps)
qed

lemma GetMaximumSwapAmount_keeps: "keeps (\<lambda>s. s) (GetMaximumSwapAmount d)"
  unfolding GetMaximumSwapAmount_def Coinswap_Pool.GetParams_def by (intro keeps_intros store_get_keeps)

lemma calculateWithExactOutput_keeps: "keeps (\<lambda>s. s) (calculateWithExactOutput L k c d)"
proof -
  have "keeps (\<lambda>s. s) (GetPoolBalances L k a)" for a
    unfolding GetPoolBalances_def account_balances_def by (intro keeps_intros keeps_case_option)
  then show ?thesis unfolding calculateWithExactOutput_def Coinswap_Pool.GetParams_def
    by (intro keeps_intros store_get_keeps GetLptDenomFromDenoms_keeps)
qed

section \<open>Steps in the other modules\<close>

lemma on_erc20_Ok_iff: "on_erc20 m s = (Ok x, v) \<longleftrightarrow>
    (\<exists>u. m (erc20_part (kext s)) = (Ok x, u) \<and> v = s\<lparr>kext := (kext s)\<lparr>erc20_store := kown u, shared := kext u\<rparr>\<rparr>)"
  by (auto simp: on_erc20_def zoom_Ok_iff)

lemma on_erc20_read:
  assumes "on_erc20 m s = (Ok x, v)" and "\<And>u. m (erc20_part (kext s)) = (Ok x, u) \<Longrightarrow> u = erc20_part (kext s)"
  shows "v = s \<and> m (erc20_part (kext s)) = (Ok x, erc20_part (kext s))"
  using assms by (auto simp: on_erc20_Ok_iff) (simp add: erc20_part_def)

lemma pair_reads: "GetTokenPairID k d s = (Ok x, u) \<Longrightarrow> u = s" "GetTokenPair i s = (Ok y, u) \<Longrightarrow> u = s"
  by (simp add: GetTokenPairID_Ok) (auto simp: GetTokenPair_def split: option.splits erc_value.splits)

lemma bnd_must: "bnd (lift (must p (Some x))) f = f x"
  by (simp add: fun_eq_iff bnd_def lift_def must_def)

lemma auto_convert_cases:
  assumes "auto_convert L k r (known c) n s = (Ok (), t)"
  shows "t = s \<or> (\<exists>rest coin v u. IntSub L (Amount c) n = Ok rest \<and> NewCoin L (Denom c) rest = Ok coin \<and>
    ConvertCoin L (erc20Keeper k) (NewMsgConvertCoin L (eth (erc20Keeper k)) coin (BytesToAddress (eth (erc20Keeper k)) r) r)
      (erc20_part (kext s)) = (Ok v, u) \<and> t = s\<lparr>kext := (kext s)\<lparr>erc20_store := kown u, shared := kext u\<rparr>\<rparr>)"
proof -
  let ?k = "erc20Keeper k"
  have conv: "attempt (cached (on_erc20 m)) s = (Ok x, v) \<Longrightarrow> v = s \<or> (\<exists>y. on_erc20 m s = (Ok y, v))"
    for m :: "('a erc_state, unit option) act" and x v
    by (auto simp: attempt_def cached_def split: prod.splits res.splits)
  obtain i v where i: "on_erc20 (GetTokenPairID ?k (Denom c)) s = (Ok i, v)"
    and rest: "(if no_id i then ret () else bnd (on_erc20 (GetTokenPair i)) (\<lambda>pair. case pair of None \<Rightarrow> ret ()
       | Some p \<Rightarrow> if \<not> Enabled p then ret () else
             bnd (lift (IntSub L (Amount c) n)) (\<lambda>rest. bnd (lift (NewCoin L (Denom c) rest)) (\<lambda>coin.
             bnd (attempt (cached (on_erc20 (ConvertCoin L ?k (NewMsgConvertCoin L (eth ?k) coin (BytesToAddress (eth ?k) r) r)))))
               (\<lambda>_. ret ()))))) v = (Ok (), t)"
    using assms unfolding auto_convert_def Let_def known_sel bnd_must bnd_Ok_iff [of "on_erc20 (GetTokenPairID _ _)"] by blast
  have v: "v = s" using on_erc20_read [OF i] pair_reads(1) by blast
  show ?thesis
  proof (cases "no_id i")
    case False
    then obtain pair w where pair: "on_erc20 (GetTokenPair i) s = (Ok pair, w)"
      and rest2: "(case pair of None \<Rightarrow> ret ()
       | Some p \<Rightarrow> if \<not> Enabled p then ret () else
             bnd (lift (IntSub L (Amount c) n)) (\<lambda>rest. bnd (lift (NewCoin L (Denom c) rest)) (\<lambda>coin.
             bnd (attempt (cached (on_erc20 (ConvertCoin L ?k (NewMsgConvertCoin L (eth ?k) coin (BytesToAddress (eth ?k) r) r)))))
               (\<lambda>_. ret ())))) w = (Ok (), t)"
      using rest v by auto
    have "w = s" using on_erc20_read [OF pair] pair_reads(2) by blast
    then show ?thesis using rest2 conv by (fastforce simp: on_erc20_Ok_iff split: option.splits if_splits)
  qed (use rest v in simp)
qed

section \<open>The environment\<close>

text \<open>
  Both modules are given the same bank. Of a failed transfer of at most one coin the
  bank leaves no trace, and the account of a pool has no locked coins: a transfer that
  its balance covers succeeds.
\<close>

locale onboarding_env = cs: coinswap_env L "coinswapKeeper k" binv + ex: erc20_env L "erc20Keeper k" binv evm_denom
  for L :: sdk_lib and k :: "'x Onboarding.Keeper" and binv :: "'x \<Rightarrow> bool" and evm_denom :: string +
  assumes one_bank: "bk (coinswapKeeper k) = bankKeeper (erc20Keeper k)"
    and send_refused: "binv x \<Longrightarrow> length coins \<le> 1 \<Longrightarrow> SendCoins (bk (coinswapKeeper k)) a b coins x = (Err e, x') \<Longrightarrow> x' = x"
    and pool_pays: "binv x \<Longrightarrow> length coins \<le> 1 \<Longrightarrow> valid_coins L coins \<Longrightarrow>
      (\<And>d. coins_amt coins d \<le> bal (bk (coinswapKeeper k)) x (GetReservePoolAddr L lpt) d) \<Longrightarrow>
      \<exists>x'. SendCoins (bk (coinswapKeeper k)) (GetReservePoolAddr L lpt) b coins x = (Ok (), x')"
begin

lemma single_coins:
  assumes "0 \<le> Amount c" and "ValidateDenom L (Denom c) = Ok ()"
  obtains ds where "NewCoins L [c] = Ok ds" "length ds \<le> 1" "valid_coins L ds" "\<And>d. coins_amt ds d = coins_amt [c] d"
proof -
  define ds where "ds = (if Amount c = 0 then [] else [c])"
  have v: "valid_coins L ds" using assms by (auto simp: ds_def valid_coins_def)
  then have "NewCoins L [c] = Ok ds" by (simp add: cs.NewCoins_iff ds_def)
  then show thesis using that v by (auto simp: ds_def split: if_splits)
qed

text \<open>A swap that fails after its checks has not moved anything.\<close>

lemma swapCoins_clean:
  assumes inv: "binv (kext s)" and ok: "0 \<le> Amount bought" "ValidateDenom L (Denom bought) = Ok ()"
    and res: "\<And>lpt. GetLptDenomFromDenoms (Denom sold) (Denom bought) s = (Ok lpt, s) \<Longrightarrow>
      Amount bought < bal (bk (coinswapKeeper k)) (kext s) (GetReservePoolAddr L lpt) (Denom bought)"
    and sold: "0 \<le> Amount sold" "ValidateDenom L (Denom sold) = Ok ()"
  shows "clean (swapCoins L (coinswapKeeper k) a b sold bought) s"
proof -
  let ?B = "bk (coinswapKeeper k)"
  obtain sc where sc: "NewCoins L [sold] = Ok sc" "length sc \<le> 1" "\<And>d. coins_amt sc d = coins_amt [sold] d"
    using single_coins [OF sold] by metis
  obtain bc where bc: "NewCoins L [bought] = Ok bc" "length bc \<le> 1" "valid_coins L bc" "\<And>d. coins_amt bc d = coins_amt [bought] d"
    using single_coins [OF ok] by metis
  have paid: "bnd (lift (NewCoins L [bought])) (\<lambda>bought. on_ext (SendCoins ?B (GetReservePoolAddr L lpt) (if b = [] then a else b) bought)) u
      \<noteq> (Err e, t)"
    if lpt: "GetLptDenomFromDenoms (Denom sold) (Denom bought) s = (Ok lpt, s)"
      and send: "on_ext (SendCoins ?B a (GetReservePoolAddr L lpt) sc) s = (Ok x, u)" for lpt x u e t
  proof -
    have moved: "binv (kext u)" "moves ?B (kext s) a (GetReservePoolAddr L lpt) sc (kext u)"
      using cs.send [OF inv] send by (auto simp: on_ext_Ok_iff)
    have "Denom sold \<noteq> Denom bought" using lpt by (simp add: GetLptDenomFromDenoms_Ok_iff)
    then have "coins_amt bc d \<le> bal ?B (kext u) (GetReservePoolAddr L lpt) d" for d
      using res [OF lpt] cs.bal_nonneg [OF moved(1)] moves_bal [OF moved(2), of "GetReservePoolAddr L lpt" "Denom bought"]
      by (auto simp: bc(4) sc(3))
    then obtain z where "SendCoins ?B (GetReservePoolAddr L lpt) (if b = [] then a else b) bc (kext u) = (Ok (), z)"
      using pool_pays [OF moved(1) bc(2,3)] by blast
    then show ?thesis by (simp add: bnd_def lift_def bc(1) on_ext_def)
  qed
  have "clean (on_ext (SendCoins ?B a p sc)) s" for p
    unfolding clean_def on_ext_Err_iff using send_refused [OF inv sc(2)] by fastforce
  then show ?thesis
    unfolding swapCoins_def Let_def
    by (intro clean_read clean_write GetLptDenomFromDenoms_keeps keeps_basic) (use sc(1) paid in auto)
qed

lemma trade_clean:
  assumes inv: "binv (kext s)" and ok: "0 \<le> Amount (Coin out)" "ValidateDenom L (Denom (Coin out)) = Ok ()"
  shows "clean (TradeInputForExactOutput L (coinswapKeeper k) input out) s"
proof -
  let ?k = "coinswapKeeper k"
  have sw: "clean (swapCoins L ?k a b w (Coin out)) s"
    if calc: "calculateWithExactOutput L ?k (Coin out) (Denom (Coin input)) s = (Ok i, s)"
      and w: "NewCoin L (Denom (Coin input)) i = Ok w" for i w a b
  proof (rule swapCoins_clean [OF inv ok])
    have w': "w = \<lparr>Denom = Denom (Coin input), Amount = i\<rparr>" "0 \<le> i" "ValidateDenom L (Denom (Coin input)) = Ok ()"
      using w by (simp_all add: cs.NewCoin_iff)
    then show "0 \<le> Amount w" "ValidateDenom L (Denom w) = Ok ()" by simp_all
    fix lpt assume lpt: "GetLptDenomFromDenoms (Denom w) (Denom (Coin out)) s = (Ok lpt, s)"
    show "Amount (Coin out) < bal (bk ?k) (kext s) (GetReservePoolAddr L lpt) (Denom (Coin out))"
    proof (rule cs.calculateWithExactOutput_Ok [OF inv calc], goal_cases)
      case (1 lpt' p)
      have "lpt' = lpt" using lpt_det [OF lpt_commute [OF 1(2)]] lpt w'(1) by simp
      then show ?case using 1(5) by simp
    qed
  qed
  show ?thesis unfolding TradeInputForExactOutput_def Let_def
    by (rule clean_read [OF calculateWithExactOutput_keeps], rule clean_if, rule clean_keeps [OF keeps_basic(2)],
        (rule clean_read [OF keeps_basic(4)])+, rule clean_read [OF GetStandardDenom_keeps],
        rule clean_read [OF GetMaximumSwapAmount_keeps], rule clean_if, rule clean_keeps [OF keeps_basic(2)],
        rule clean_write [OF sw]) (auto simp: ret_def)
qed

text \<open>The swap of the handler: nothing, or a fill of at most the coin that was transferred.\<close>

lemma auto_swap_Ok:
  assumes run: "auto_swap L k r (known c) bought s = (Ok n, t)" and inv: "binv (shared (kext s))"
    and bought: "NewCoin L (Denom bought) (Amount bought) = Ok bought"
    and p: "pspace (coinswap_store (kext s)) = Some p" "0 \<le> Fee p" "Fee p < dec_one"
    and r: "r \<noteq> []" "length r \<le> 255"
  shows "n = 0 \<and> t = s \<or>
    (\<exists>lpt y. 0 \<le> n \<and> n \<le> Amount c \<and> t = s\<lparr>kext := (kext s)\<lparr>shared := y\<rparr>\<rparr> \<and> binv y \<and>
      GetLptDenomFromDenoms (Denom c) (Denom bought) (coinswap_part (kext s)) = (Ok lpt, coinswap_part (kext s)) \<and>
      swapped (bankKeeper (erc20Keeper k)) (shared (kext s)) r (GetReservePoolAddr L lpt) r \<lparr>Denom = Denom c, Amount = n\<rparr> bought y)"
proof -
  let ?in = "\<lparr>Address = AddrString L r, Coin = c\<rparr>" and ?out = "\<lparr>Address = AddrString L r, Coin = bought\<rparr>"
    and ?s = "coinswap_part (kext s)"
  have b: "0 \<le> Amount bought" "ValidateDenom L (Denom bought) = Ok ()" using bought by (simp_all add: cs.NewCoin_iff)
  have inv': "binv (kext ?s)" using inv by (simp add: coinswap_part_def)
  have eta: "s\<lparr>kext := (kext s)\<lparr>coinswap_store := kown ?s, shared := kext ?s\<rparr>\<rparr> = s" by (simp add: coinswap_part_def)
  from run consider (failed) e u where "n = 0" "TradeInputForExactOutput L (coinswapKeeper k) ?in ?out ?s = (Err e, u)"
      "t = s\<lparr>kext := (kext s)\<lparr>coinswap_store := kown u, shared := kext u\<rparr>\<rparr>"
    | (filled) u where "TradeInputForExactOutput L (coinswapKeeper k) ?in ?out ?s = (Ok n, u)"
      "t = s\<lparr>kext := (kext s)\<lparr>coinswap_store := kown u, shared := kext u\<rparr>\<rparr>"
    by (auto simp: auto_swap_def attempt_Ok_iff on_coinswap_def on_ext_Err_iff zoom_def split: prod.splits)
  then show ?thesis
  proof cases
    case failed
    then have "u = ?s" using cleanD [OF trade_clean [OF inv'] failed(2)] b by simp
    then show ?thesis using failed eta by simp
  next
    case filled
    define msg where "msg = \<lparr>Input = ?in, Output = ?out, swapDeadline = 0, IsBuyOrder = True\<rparr>"
    have nn: "0 \<le> n" using filled(1) unfolding TradeInputForExactOutput_def Let_def
      by (auto simp: cs.NewCoin_iff if_act_Ok_iff)
    have run': "TradeInputForExactOutput L (coinswapKeeper k) (Input msg) (Output msg) ?s = (Ok n, u)"
      using filled(1) by (simp add: msg_def)
    show ?thesis
    proof (rule cs.trade_exact_output [OF inv' _ p(2,3) _ _ run'], goal_cases)
      case 1
      then show ?case using p(1) by (simp add: coinswap_part_def)
    next
      case 2
      then show ?case using b by (simp add: msg_def)
    next
      case 3
      then show ?case by (simp add: msg_def)
    next
      case (4 lpt m)
      have "n \<le> Amount c" "swapped (bk (coinswapKeeper k)) (kext ?s) r (GetReservePoolAddr L lpt) r \<lparr>Denom = Denom c, Amount = n\<rparr> bought (kext u)"
        using 4(4) cs.Bech32_roundtrip [OF r] by (auto simp: fills_def Let_def msg_def)
      moreover have "t = s\<lparr>kext := (kext s)\<lparr>shared := kext u\<rparr>\<rparr>" using filled(2) 4(2) by (simp add: coinswap_part_def)
      moreover have "kext ?s = shared (kext s)" by (simp add: coinswap_part_def)
      moreover have "GetLptDenomFromDenoms (Denom c) (Denom bought) ?s = (Ok lpt, ?s)" using 4(1) by (simp add: msg_def)
      ultimately show ?case using nn 4(3) by (intro disjI2 exI [of _ lpt] exI [of _ "kext u"]) (simp add: one_bank)
    qed
  qed
qed

text \<open>The conversion of the handler: nothing that touches a balance, or what was left of the coin.\<close>

lemma auto_convert_Ok:
  assumes run: "auto_convert L k r (known c) n s = (Ok (), t)" and ok: "pairs_ok (eth (erc20Keeper k)) (erc20_part (kext s))"
    and inv: "binv (shared (kext s))" and r: "r \<noteq> []" "length r \<le> 255"
  shows "kown t = kown s \<and> coinswap_store (kext t) = coinswap_store (kext s) \<and>
    (shared (kext t) = shared (kext s) \<or>
     (\<exists>p. pair_for (erc20Keeper k) (erc20_part (kext s)) (Denom c) p \<and> Enabled p \<and> n < Amount c \<and>
       IsNativeCoin p \<noteq> IsNativeERC20 p \<and> erc20_store (kext t) = erc20_store (kext s) \<and>
       shifts (bankKeeper (erc20Keeper k)) evm_denom (shared (kext s))
         (\<lambda>a d. (if IsNativeCoin p then paid (GetModuleAddress (accountKeeper (erc20Keeper k)) Erc20_Types.ModuleName)
                   [\<lparr>Denom = Denom c, Amount = Amount c - n\<rparr>] a d else 0) - paid r [\<lparr>Denom = Denom c, Amount = Amount c - n\<rparr>] a d)
         (\<lambda>d. if IsNativeERC20 p then - coins_amt [\<lparr>Denom = Denom c, Amount = Amount c - n\<rparr>] d else 0) (shared (kext t))))"
proof -
  let ?k = "erc20Keeper k" and ?c = "\<lparr>Denom = Denom c, Amount = Amount c - n\<rparr>" and ?s = "erc20_part (kext s)"
  let ?msg = "NewMsgConvertCoin L (eth ?k) ?c (BytesToAddress (eth ?k) r) r"
  have sel: "kext ?s = shared (kext s)" "kown ?s = erc20_store (kext s)" by (simp_all add: erc20_part_def)
  from auto_convert_cases [OF run] consider (none) "t = s" | (conv) v u where "ConvertCoin L ?k ?msg ?s = (Ok v, u)"
      "t = s\<lparr>kext := (kext s)\<lparr>erc20_store := kown u, shared := kext u\<rparr>\<rparr>"
    by (auto simp: cs.NewCoin_iff cs.IntSub_iff)
  then show ?thesis
  proof cases
    case conv
    have t: "kown t = kown s" "coinswap_store (kext t) = coinswap_store (kext s)" "shared (kext t) = kext u"
      "erc20_store (kext t) = kown u"
      using conv(2) by simp_all
    have coin: "cc_Coin ?msg = ?c" "cc_Sender ?msg = AddrString L r" by (simp_all add: NewMsgConvertCoin_def)
    show ?thesis
    proof (cases v)
      case None
      show ?thesis
      proof (rule ConvertCoin_Ok [OF conv(1) ok], goal_cases)
        case (1 sender p)
        then have "kext u = kext ?s" using DeleteTokenPair_Ok None by blast
        then show ?case using t sel by simp
      qed
    next
      case (Some z)
      have run': "ConvertCoin L ?k ?msg ?s = (Ok (Some ()), u)" using conv(1) Some by simp
      have inv': "binv (kext ?s)" using inv sel by simp
      show ?thesis
      proof (rule ex.ConvertCoin_effect [OF run' ok inv'], goal_cases)
        case (1 sender p)
        have "sender = r" using 1(1) cs.Bech32_roundtrip [OF r] by (simp add: coin)
        note shift = 1(8) [unfolded coin sel this]
        have "pair_for ?k ?s (Denom c) p" "n < Amount c" "erc20_store (kext t) = erc20_store (kext s)"
          using 1(2,3,5) t(4) sel by (simp_all add: coin)
        then show ?case using 1(4,7) shift t(1,2) unfolding t(3) by blast
      qed
    qed
  qed simp
qed

end

section \<open>The handler\<close>

lemma channel_found_iff: "channel_found c ss b \<longleftrightarrow> b \<or> c \<in> set ss"
  by (induction ss arbitrary: b) auto

lemma on_coinswap_std:
  assumes "attempt (on_coinswap GetStandardDenom) s = (Ok x, v)"
  shows "v = s \<and> (\<exists>std. x = Inr std \<and> GetStandardDenom (coinswap_part (kext s)) = (Ok std, coinswap_part (kext s)))"
proof -
  have part: "s\<lparr>kext := (kext s)\<lparr>coinswap_store := kown (coinswap_part (kext s)), shared := kext (coinswap_part (kext s))\<rparr>\<rparr> = s"
    by (simp add: coinswap_part_def)
  have "GetStandardDenom u \<noteq> (Err e, w)" for u :: "'a cs_state" and e w
    by (simp add: GetStandardDenom_def bnd_def store_get_def gets_def ret_def panic_def unmarshal_fail_def
        split: option.split cs_value.split)
  then show ?thesis
    using assms part pure_reads(1) [of "coinswap_part (kext s)"]
    by (auto simp: attempt_Ok_iff on_coinswap_def on_ext_def zoom_def split: prod.splits)
qed

text \<open>Past the guards the handler runs the swap and the conversion and returns the acknowledgement it was given.\<close>

lemma OnRecvPacket_Ok:
  assumes run: "OnRecvPacket L I E k packet ack s = (Ok ack', t)" and ps: "pspace (kown s) = Some params" "EnableOnboarding params"
    and chan: "DestinationChannel packet \<in> set (WhitelistedChannels params)"
    and rcp: "GetTransferSenderRecipient I packet = Ok (from, r, sb, rb)" "\<not> IsModuleAccount k r (shared (kext s))"
    and coin: "UnmarshalJSON I (PacketData packet) = Ok data"
      "GetReceivedCoin I (SourcePort packet) (SourceChannel packet) (DestinationPort packet) (DestinationChannel packet)
         (data_Denom data) (data_Amount data) = Ok (known c)"
  obtains std bought n u where "ack' = ack" "GetStandardDenom (coinswap_part (kext s)) = (Ok std, coinswap_part (kext s))"
    "NewCoin L std (AutoSwapThreshold params) = Ok bought"
    "n = 0 \<and> u = s \<or> auto_swap L k r (known c) bought s = (Ok n, u)" "auto_convert L k r (known c) n u = (Ok (), t)"
proof -
  have pg: "Onboarding.GetParams s = (Ok params, s)" using ps(1) by (simp add: Onboarding.GetParams_def)
  let ?swap = "\<lambda>std. bnd (lift (NewCoin L std (AutoSwapThreshold params))) (\<lambda>swapCoins.
               bnd (gets (\<lambda>s. SpendableCoins k r (shared (kext s)))) (\<lambda>spendable.
               bnd (lift (AmountOf L spendable std)) (\<lambda>standardCoinBalance.
               bnd (if standardCoinBalance < AutoSwapThreshold params then auto_swap L k r (known c) swapCoins
                    else ret 0) (\<lambda>swappedAmount.
               bnd (auto_convert L k r (known c) swappedAmount) (\<lambda>_. ret ack)))))"
  obtain x v where x: "attempt (on_coinswap GetStandardDenom) s = (Ok x, v)"
    and rest: "(case x of Inl e \<Rightarrow> ret ack | Inr std \<Rightarrow> bnd Onboarding.GetParams (\<lambda>params1.
       let thr = AutoSwapThreshold params1 in bnd (lift (NewCoin L std thr)) (\<lambda>swapCoins.
               bnd (gets (\<lambda>s. SpendableCoins k r (shared (kext s)))) (\<lambda>spendable.
               bnd (lift (AmountOf L spendable std)) (\<lambda>standardCoinBalance.
               bnd (if standardCoinBalance < thr then auto_swap L k r (known c) swapCoins else ret 0) (\<lambda>swappedAmount.
               bnd (auto_convert L k r (known c) swappedAmount) (\<lambda>_. ret ack))))))) v = (Ok ack', t)"
    using run ps(2) chan rcp coin unfolding OnRecvPacket_def bnd_Ok_iff [of Onboarding.GetParams] pg
    by (auto simp: channel_found_iff attempt_def lift_def bnd_def gets_def split: prod.splits res.splits sum.splits)
  from on_coinswap_std [OF x] obtain std where std: "v = s" "x = Inr std"
    "GetStandardDenom (coinswap_part (kext s)) = (Ok std, coinswap_part (kext s))" by blast
  have "?swap std s = (Ok ack', t)" using rest std pg by (simp add: bnd_Ok_iff [of Onboarding.GetParams] Let_def)
  then show thesis using that std(3) by (fastforce simp: if_act_Ok_iff)
qed

section \<open>Properties\<close>

text \<open>C18. Onboarding never takes more than was transferred. For a packet through a whitelisted channel whose
recipient is no module, pool or escrow account, the handler returns the acknowledgement it
was given; the swap either buys exactly the threshold of the standard coin for some of
the transferred coin or leaves no trace; the conversion takes all that is left of it or
nothing, and only through a registered and enabled pair; and in every coin outside the
EVM's own the recipient has lost nothing else.\<close>
theorem onboarding_takes_at_most_the_transfer:
  assumes env: "onboarding_env L k binv d" and run: "OnRecvPacket L I E k packet ack s = (Ok ack', t)"
    and ps: "pspace (kown s) = Some params" "EnableOnboarding params" "DestinationChannel packet \<in> set (WhitelistedChannels params)"
    and rcp: "GetTransferSenderRecipient I packet = Ok (from, r, sb, rb)" "\<not> IsModuleAccount k r (shared (kext s))"
      "r \<noteq> []" "length r \<le> 255"
      "\<forall>e lpt. GetLptDenomFromDenoms (Denom c) e (coinswap_part (kext s)) = (Ok lpt, coinswap_part (kext s)) \<longrightarrow>
        r \<noteq> GetReservePoolAddr L lpt"
      "r \<noteq> GetModuleAddress (accountKeeper (erc20Keeper k)) Erc20_Types.ModuleName"
    and coin: "UnmarshalJSON I (PacketData packet) = Ok data"
      "GetReceivedCoin I (SourcePort packet) (SourceChannel packet) (DestinationPort packet) (DestinationChannel packet)
         (data_Denom data) (data_Amount data) = Ok (known c)" "0 \<le> Amount c"
    and cs: "pspace (coinswap_store (kext s)) = Some p" "0 \<le> Fee p" "Fee p < dec_one"
    and inv: "pairs_ok (eth (erc20Keeper k)) (erc20_part (kext s))" "binv (shared (kext s))"
  shows "ack' = ack \<and> (\<exists>std sold bought converted y. GetStandardDenom (coinswap_part (kext s)) = (Ok std, coinswap_part (kext s)) \<and>
    0 \<le> sold \<and> 0 \<le> converted \<and> sold + converted \<le> Amount c \<and>
    (sold = 0 \<and> bought = 0 \<and> y = shared (kext s) \<or> bought = AutoSwapThreshold params) \<and>
    (\<forall>e. bal (bankKeeper (erc20Keeper k)) y r e = bal (bankKeeper (erc20Keeper k)) (shared (kext s)) r e
       - (if e = Denom c then sold else 0) + (if e = std then bought else 0)) \<and>
    (shared (kext t) = y \<and> converted = 0 \<or> converted = Amount c - sold \<and>
       (\<exists>q. pair_for (erc20Keeper k) (erc20_part (kext t)) (Denom c) q \<and> Enabled q)) \<and>
    (\<forall>e. e \<noteq> d \<longrightarrow> bal (bankKeeper (erc20Keeper k)) (shared (kext t)) r e =
       bal (bankKeeper (erc20Keeper k)) y r e - (if e = Denom c then converted else 0)))"
proof (rule OnRecvPacket_Ok [OF run ps rcp(1,2) coin(1,2)], goal_cases)
  case (1 std bought n u)
  let ?B = "bankKeeper (erc20Keeper k)" and ?x = "shared (kext s)"
  have laws: "sdk_laws L" using env by (simp add: onboarding_env_def coinswap_env_def bank_laws_def)
  have b: "bought = \<lparr>Denom = std, Amount = AutoSwapThreshold params\<rparr>" "NewCoin L (Denom bought) (Amount bought) = Ok bought"
    using 1(3) by (simp_all add: sdk_laws.NewCoin_iff [OF laws])
  have swap: "n = 0 \<and> u = s \<or> (\<exists>lpt y. 0 \<le> n \<and> n \<le> Amount c \<and> u = s\<lparr>kext := (kext s)\<lparr>shared := y\<rparr>\<rparr> \<and> binv y \<and>
      GetLptDenomFromDenoms (Denom c) (Denom bought) (coinswap_part (kext s)) = (Ok lpt, coinswap_part (kext s)) \<and>
      swapped ?B ?x r (GetReservePoolAddr L lpt) r \<lparr>Denom = Denom c, Amount = n\<rparr> bought y)"
    using 1(4) onboarding_env.auto_swap_Ok [OF env _ inv(2) b(2) cs rcp(3,4)] by blast
  define y where "y = shared (kext u)"
  obtain got where got: "n = 0 \<and> got = 0 \<and> y = ?x \<or> got = AutoSwapThreshold params" and nn: "0 \<le> n" "n \<le> Amount c"
    and y: "binv y" "erc20_store (kext u) = erc20_store (kext s)"
      "\<And>e. bal ?B y r e = bal ?B ?x r e - (if e = Denom c then n else 0) + (if e = std then got else 0)"
  proof (cases "n = 0 \<and> u = s")
    case True
    then show thesis using that [of 0] coin(3) inv(2) by (simp add: y_def)
  next
    case False
    with swap obtain lpt where "0 \<le> n" "n \<le> Amount c" "erc20_store (kext u) = erc20_store (kext s)" "binv y"
      "GetLptDenomFromDenoms (Denom c) (Denom bought) (coinswap_part (kext s)) = (Ok lpt, coinswap_part (kext s))"
      "swapped ?B ?x r (GetReservePoolAddr L lpt) r \<lparr>Denom = Denom c, Amount = n\<rparr> bought y" by (auto simp: y_def)
    then show thesis using that [of "AutoSwapThreshold params"] rcp(5) by (auto simp: swapped_def b(1))
  qed
  have "pairs_ok (eth (erc20Keeper k)) (erc20_part (kext u))"
    using inv(1) pairs_ok_cong [of "erc20_part (kext u)" "erc20_part (kext s)"] y(2) by (simp add: erc20_part_def)
  from onboarding_env.auto_convert_Ok [OF env 1(5) this _ rcp(3,4)] y(1)
  have conv: "shared (kext t) = y \<or> (\<exists>q. pair_for (erc20Keeper k) (erc20_part (kext t)) (Denom c) q \<and> Enabled q \<and>
      (\<forall>e. e \<noteq> d \<longrightarrow> bal ?B (shared (kext t)) r e = bal ?B y r e - (if e = Denom c then Amount c - n else 0)))"
    using rcp(6) by (auto simp: y_def shifts_def pair_for_def registered_def erc20_part_def)
  show ?case
  proof (cases "shared (kext t) = y")
    case True
    then show ?thesis using 1(1,2) got nn y(3)
      by (intro conjI exI [of _ std] exI [of _ n] exI [of _ got] exI [of _ 0] exI [of _ y]) simp_all
  next
    case False
    with conv obtain q where "pair_for (erc20Keeper k) (erc20_part (kext t)) (Denom c) q" "Enabled q"
      "\<forall>e. e \<noteq> d \<longrightarrow> bal ?B (shared (kext t)) r e = bal ?B y r e - (if e = Denom c then Amount c - n else 0)" by blast
    then show ?thesis using 1(1,2) got nn y(3)
      by (intro conjI exI [of _ std] exI [of _ n] exI [of _ got] exI [of _ "Amount c - n"] exI [of _ y]) auto
  qed
qed

text \<open>A chain with a pool and a token pair for the coin that arrives.\<close>

definition on_keeper :: "world Onboarding.Keeper" where
  "on_keeper = \<lparr>coinswapKeeper = \<lparr>bk = world_bank, ak = world_accounts, feeCollectorName = ''fee_collector'', blockedAddrs = [],
       authority = ''gov''\<rparr>,
     erc20Keeper = erc_keeper, SpendableCoins = GetAllBalances world_bank, IsModuleAccount = \<lambda>a w. False, authority = ''gov''\<rparr>"

lemma on_keeper_sel: "bk (coinswapKeeper on_keeper) = world_bank" "ak (coinswapKeeper on_keeper) = world_accounts"
  "erc20Keeper on_keeper = erc_keeper" "IsModuleAccount on_keeper a w = False"
  by (simp_all add: on_keeper_def)

interpretation onb: onboarding_env ref_lib on_keeper world_ok "''acanto''"
proof -
  have "coinswap_env ref_lib (coinswapKeeper on_keeper) world_ok"
    unfolding coinswap_env_def on_keeper_sel by (rule wbank.bank_laws_axioms)
  moreover have "erc20_env ref_lib (erc20Keeper on_keeper) world_ok ''acanto''"
    unfolding on_keeper_sel by (rule eenv.erc20_env_axioms)
  moreover have "onboarding_env_axioms ref_lib on_keeper world_ok"
  proof (unfold_locales, goal_cases)
    case 1
    then show ?case by (simp add: on_keeper_sel erc_keeper_def)
  next
    case (2 x coins a b e x')
    then show ?case by (auto simp: on_keeper_sel world_bank_sel on_led_def ledger_bank_def ledger_send_def split: if_splits)
  next
    case (3 x coins lpt b)
    then consider "coins = []" | c where "coins = [c]" by (cases coins) (auto simp: Suc_le_eq)
    then have "covers (acct (led x) (GetReservePoolAddr ref_lib lpt)) coins"
    proof cases
      case (2 c)
      then show ?thesis using 3(4) [of "Denom c"] by (simp add: covers_def on_keeper_sel world_bal)
    qed (simp add: covers_def)
    then show ?case using 3(3) by (simp add: on_keeper_sel world_bank_sel on_led_def ledger_bank_def ledger_send_def coins_ok_iff)
  qed
  ultimately show "onboarding_env ref_lib on_keeper world_ok ''acanto''" by (rule onboarding_env.intro)
qed

definition on_params :: Onboarding.Params where
  "on_params = NewParams True 10 [''channel-0'']"

definition ucoin_pool :: Pool where
  "ucoin_pool = \<lparr>Id = ''pool-ucoin'', StandardDenom = ''acanto'', CounterpartyDenom = ''ucoin'',
     EscrowAddress = ''canto1lpt-1000000000000000'', LptDenom = ''lpt-1''\<rparr>"

definition pool_params :: Coinswap_Types.Params where
  "pool_params = \<lparr>Fee = 0, PoolCreationFee = \<lparr>Denom = ''acanto'', Amount = 100\<rparr>, TaxRate = 4 * 10 ^ 17,
     MaxStandardCoinPerPool = 10 ^ 22, MaxSwapAmount = [\<lparr>Denom = ''ucoin'', Amount = 10 ^ 6\<rparr>]\<rparr>"

definition on_chain :: "world on_state" where
  "on_chain = \<lparr>kown = \<lparr>pspace = Some on_params, kvstore = []\<rparr>,
     kext = \<lparr>coinswap_store = \<lparr>pspace = Some pool_params,
         kvstore = [(KeyStandardDenom, StringVal ''acanto''), (GetPoolKey ''pool-ucoin'', PoolVal ucoin_pool)]\<rparr>,
       erc20_store = kown (erc_chain True),
       shared = (kext (erc_chain True))\<lparr>led :=
         \<lparr>accts = [(alice, [(''ucoin'', 100)]), (''lpt-1000000000000000'', [(''acanto'', 1000), (''ucoin'', 1000)])],
          totals = [(''acanto'', 1000), (''ucoin'', 1100)]\<rparr>\<rparr>\<rparr>\<rparr>"

definition on_lib :: ibc_lib where
  "on_lib = \<lparr>UnmarshalJSON = \<lambda>b. Ok \<lparr>data_Denom = ''uatom'', data_Amount = ''100'', data_Sender = ''cosmos1bob'', data_Receiver = ''canto1alice''\<rparr>,
     GetFromBech32 = \<lambda>a p. Ok alice, VerifyAddressFormat = \<lambda>b. Ok (), NewIntFromString = \<lambda>s. Some 100,
     ReceiverChainIsSource = \<lambda>p c d. False, GetDenomPrefix = \<lambda>p c. p @ ''/'' @ c @ ''/'', TracePath = \<lambda>d. [],
     TraceIBCDenom = \<lambda>d. ''ucoin''\<rparr>"

definition on_packet :: packet where
  "on_packet = \<lparr>SourcePort = ''transfer'', SourceChannel = ''channel-7'', DestinationPort = ''transfer'',
     DestinationChannel = ''channel-0'', PacketData = []\<rparr>"

definition on_swapped :: "world on_state" where
  "on_swapped = snd (auto_swap ref_lib on_keeper alice (known \<lparr>Denom = ''ucoin'', Amount = 100\<rparr>) \<lparr>Denom = ''acanto'', Amount = 10\<rparr> on_chain)"

definition on_done :: "world on_state" where
  "on_done = snd (auto_convert ref_lib on_keeper alice (known \<lparr>Denom = ''ucoin'', Amount = 100\<rparr>) 11 on_swapped)"

lemma on_swapped_run:
  "auto_swap ref_lib on_keeper alice (known \<lparr>Denom = ''ucoin'', Amount = 100\<rparr>) \<lparr>Denom = ''acanto'', Amount = 10\<rparr> on_chain = (Ok 11, on_swapped)"
  unfolding on_swapped_def by (rule pair_Ok_snd) code_simp

lemma on_done_run: "auto_convert ref_lib on_keeper alice (known \<lparr>Denom = ''ucoin'', Amount = 100\<rparr>) 11 on_swapped = (Ok (), on_done)"
  unfolding on_done_def on_swapped_def by (rule pair_Ok_snd) code_simp

lemma on_run: "OnRecvPacket ref_lib on_lib Some on_keeper on_packet None on_chain = (Ok None, on_done)"
proof -
  have p: "Onboarding.GetParams on_chain = (Ok on_params, on_chain)"
    by (simp add: Onboarding.GetParams_def on_chain_def)
  have "EnableOnboarding on_params" "channel_found (DestinationChannel on_packet) (WhitelistedChannels on_params) False"
    "AutoSwapThreshold on_params = 10" "GetTransferSenderRecipient on_lib on_packet = Ok (alice, alice, ''cosmos1bob'', ''canto1alice'')"
    "GetReceivedCoin on_lib (SourcePort on_packet) (SourceChannel on_packet) (DestinationPort on_packet)
       (DestinationChannel on_packet) ''uatom'' ''100'' = Ok (known \<lparr>Denom = ''ucoin'', Amount = 100\<rparr>)"
    "NewCoin ref_lib ''acanto'' 10 = Ok \<lparr>Denom = ''acanto'', Amount = 10\<rparr>"
    "AmountOf ref_lib (SpendableCoins on_keeper alice (shared (kext on_chain))) ''acanto'' = Ok 0"
    by code_simp+
  moreover have "attempt (on_coinswap GetStandardDenom) on_chain = (Ok (Inr ''acanto''), on_chain)"
    unfolding on_chain_def by code_simp
  ultimately show ?thesis
    using p on_swapped_run on_done_run
    by (simp add: OnRecvPacket_def bnd_def ret_def gets_def lift_def attempt_def Let_def on_keeper_sel)
      (simp add: on_lib_def)
qed

theorem onboarding_takes_at_most_the_transfer_witness:
  "(\<exists>sold converted y. 0 \<le> sold \<and> 0 \<le> converted \<and> sold + converted \<le> 100 \<and>
      bal world_bank (shared (kext on_done)) alice ''ucoin'' = bal world_bank y alice ''ucoin'' - converted) \<and>
    bal world_bank (shared (kext on_done)) alice ''acanto'' = 10 \<and> bal world_bank (shared (kext on_done)) alice ''ucoin'' = 0"
proof (intro conjI)
  let ?c = "\<lparr>Denom = ''ucoin'', Amount = 100\<rparr>" and ?data = "\<lparr>data_Denom = ''uatom'', data_Amount = ''100'',
    data_Sender = ''cosmos1bob'', data_Receiver = ''canto1alice''\<rparr>"
  have pairs: "pairs_ok (eth (erc20Keeper on_keeper)) (erc20_part (kext on_chain))"
    using erc_chain_ok [of True] pairs_ok_cong [of "erc20_part (kext on_chain)" "erc_chain True" ref_eth]
    by (simp add: erc20_part_def on_chain_def on_keeper_sel erc_keeper_def)
  have ok: "world_ok (shared (kext on_chain))"
    unfolding world_ok_def by (rule ledger_checkD) (simp add: on_chain_def, code_simp)
  have "alice \<noteq> GetReservePoolAddr ref_lib lpt"
    if "GetLptDenomFromDenoms (Denom ?c) e (coinswap_part (kext on_chain)) = (Ok lpt, coinswap_part (kext on_chain))" for e lpt
  proof -
    have "lpt = ''lpt-1''" using that
      by (auto simp: GetLptDenomFromDenoms_Ok_iff GetStandardDenom_Ok_iff coinswap_part_def on_chain_def kv_get_def ucoin_pool_def
          split: if_splits)
    moreover have "alice \<noteq> GetReservePoolAddr ref_lib ''lpt-1''" by code_simp
    ultimately show ?thesis by simp
  qed
  then have pool: "\<forall>e lpt. GetLptDenomFromDenoms (Denom ?c) e (coinswap_part (kext on_chain)) = (Ok lpt, coinswap_part (kext on_chain)) \<longrightarrow>
    alice \<noteq> GetReservePoolAddr ref_lib lpt" by blast
  have facts: "EnableOnboarding on_params" "DestinationChannel on_packet \<in> set (WhitelistedChannels on_params)"
    "GetTransferSenderRecipient on_lib on_packet = Ok (alice, alice, ''cosmos1bob'', ''canto1alice'')"
    "alice \<noteq> []" "length alice \<le> 255"
    "alice \<noteq> GetModuleAddress (accountKeeper (erc20Keeper on_keeper)) Erc20_Types.ModuleName"
    "UnmarshalJSON on_lib (PacketData on_packet) = Ok ?data"
    "GetReceivedCoin on_lib (SourcePort on_packet) (SourceChannel on_packet) (DestinationPort on_packet) (DestinationChannel on_packet)
       (data_Denom ?data) (data_Amount ?data) = Ok (known ?c)" "0 \<le> Amount ?c" "0 \<le> Fee pool_params" "Fee pool_params < dec_one"
    by code_simp+
  have sel: "pspace (kown on_chain) = Some on_params" "pspace (coinswap_store (kext on_chain)) = Some pool_params"
    "\<not> IsModuleAccount on_keeper alice (shared (kext on_chain))"
    by (simp_all add: on_chain_def on_keeper_sel)
  have bank: "bankKeeper (erc20Keeper on_keeper) = world_bank" by (simp add: on_keeper_sel erc_keeper_def)
  note took = onboarding_takes_at_most_the_transfer
    [OF onb.onboarding_env_axioms on_run sel(1) facts(1-3) sel(3) facts(4,5) pool facts(6-9) sel(2) facts(10,11) pairs ok, unfolded bank]
  from took obtain sold converted y where "0 \<le> sold" "0 \<le> converted" "sold + converted \<le> Amount ?c"
    "\<forall>e. e \<noteq> ''acanto'' \<longrightarrow> bal world_bank (shared (kext on_done)) alice e =
       bal world_bank y alice e - (if e = Denom ?c then converted else 0)"
    by (elim conjE exE) (rule that)
  then show "\<exists>sold converted y. 0 \<le> sold \<and> 0 \<le> converted \<and> sold + converted \<le> 100 \<and>
      bal world_bank (shared (kext on_done)) alice ''ucoin'' = bal world_bank y alice ''ucoin'' - converted"
    by (intro exI [of _ sold] exI [of _ converted] exI [of _ y]) simp
  show "bal world_bank (shared (kext on_done)) alice ''acanto'' = 10" "bal world_bank (shared (kext on_done)) alice ''ucoin'' = 0"
    unfolding on_done_def on_swapped_def by code_simp+
qed

end
