(* ===== verification/Port.thy ===== *)
theory Port
  imports Kvstore
begin

text \<open>
  contracts/Port.sol: the ProposalStore contract, which keeps the proposals that passed
  on the chain for contracts to read. The storage is a map from identifiers, where an
  identifier that was never written reads as the empty proposal.
\<close>

type_synonym uint256 = "256 word"

record Proposal =
  prop_id :: uint256
  prop_title :: string
  prop_desc :: string
  targets :: "bytes list"
  prop_values :: "uint256 list"
  signatures :: "string list"
  calldatas :: "bytes list"

record port =
  govshuttleModAcct :: bytes
  proposals :: "(uint256, Proposal) kv"

definition empty_proposal :: Proposal where
  "empty_proposal = \<lparr>prop_id = 0, prop_title = [], prop_desc = [], targets = [], prop_values = [], signatures = [], calldatas = []\<rparr>"

definition proposal_at :: "port \<Rightarrow> uint256 \<Rightarrow> Proposal" where
  "proposal_at s i = (case kv_get (proposals s) i of None \<Rightarrow> empty_proposal | Some p \<Rightarrow> p)"

text \<open>The proposal a call carries, from the values of its arguments.\<close>

definition NewProposal :: "uint256 \<Rightarrow> string \<Rightarrow> string \<Rightarrow> bytes list \<Rightarrow> uint256 list \<Rightarrow> string list \<Rightarrow> bytes list \<Rightarrow> Proposal" where
  "NewProposal i title desc ts vs sigs datas =
     \<lparr>prop_id = i, prop_title = title, prop_desc = desc, targets = ts, prop_values = vs, signatures = sigs, calldatas = datas\<rparr>"

definition ProposalStore :: "bytes \<Rightarrow> Proposal \<Rightarrow> port" where
  "ProposalStore sender prop = \<lparr>govshuttleModAcct = sender, proposals = kv_set (prop_id prop) prop []\<rparr>"

definition AddProposal :: "bytes \<Rightarrow> Proposal \<Rightarrow> (port, unit) act" where
  "AddProposal sender newProp =
     bnd (gets govshuttleModAcct) (\<lambda>acct.
     if sender \<noteq> acct then raise (PlainErr ''execution reverted'')
     else modify (\<lambda>s. s\<lparr>proposals := kv_set (prop_id newProp) newProp (proposals s)\<rparr>))"

definition QueryProp :: "uint256 \<Rightarrow> port \<Rightarrow> Proposal" where
  "QueryProp propId s =
     (if prop_id (proposal_at s propId) = propId then proposal_at s propId else empty_proposal)"

section \<open>Lemmas\<close>

text \<open>Proposals lie under their own identifier.\<close>

definition port_ok :: "port \<Rightarrow> bool" where
  "port_ok s \<longleftrightarrow> kv_ok (proposals s) \<and> (\<forall>i p. kv_get (proposals s) i = Some p \<longrightarrow> prop_id p = i)"

lemma QueryProp_ok: "port_ok s \<Longrightarrow> QueryProp i s = proposal_at s i"
  by (auto simp: QueryProp_def port_ok_def proposal_at_def empty_proposal_def split: option.splits)

lemma kv_ok_empty: "kv_ok []"
  by (simp add: kv_ok_def)

lemma ProposalStore_ok: "port_ok (ProposalStore a p)"
  using kv_ok_set [OF kv_ok_empty, of "prop_id p" p]
  by (auto simp: port_ok_def ProposalStore_def kv_get_def split: if_splits)

lemma proposal_at_store: "proposal_at (ProposalStore a p) i = (if i = prop_id p then p else empty_proposal)"
  by (simp add: proposal_at_def ProposalStore_def kv_get_def)

lemma AddProposal_Ok:
  assumes "AddProposal a p s = (Ok u, t)" and "port_ok s"
  shows "port_ok t \<and> govshuttleModAcct t = govshuttleModAcct s \<and> govshuttleModAcct s = a \<and>
    (\<forall>i. proposal_at t i = (if i = prop_id p then p else proposal_at s i))"
proof -
  have t: "t = s\<lparr>proposals := kv_set (prop_id p) p (proposals s)\<rparr>" "govshuttleModAcct s = a"
    using assms(1) by (auto simp: AddProposal_def split: if_splits)
  have "kv_get (kv_set (prop_id p) p (proposals s)) i = (if i = prop_id p then Some p else kv_get (proposals s) i)" for i
    using assms(2) by (simp add: port_ok_def kv_get_set)
  then show ?thesis using assms(2) t kv_ok_set by (auto simp: port_ok_def proposal_at_def split: if_splits)
qed

end
