(* ===== verification/Govshuttle.thy ===== *)
theory Govshuttle
  imports Erc20_Convert Port
begin

text \<open>
  x/govshuttle: proposals that passed governance are written into the ProposalStore
  contract, which the module deploys with the first of them. The module calls the EVM
  through the keeper of x/erc20, so its state contains the state of that module.
\<close>

section \<open>Types\<close>

definition ModuleName :: string where
  "ModuleName = ''govshuttle''"

definition PortKey :: bytes where
  "PortKey = ''Port''"

definition ErrInvalidSigner :: err where "ErrInvalidSigner = SdkErr ''govtypes.ErrInvalidSigner''"
definition ErrInvalidProposalContent :: err where "ErrInvalidProposalContent = SdkErr ''govtypes.ErrInvalidProposalContent''"

record LendingMarketMetadata =
  Account :: "string list"
  PropId :: u64
  Values :: "u64 list"
  Calldatas :: "string list"
  Signatures :: "string list"

record TreasuryProposalMetadata =
  tm_PropID :: u64
  tm_Recipient :: string
  tm_Amount :: u64
  tm_Denom :: string

text \<open>The metadata of a message is a pointer, which may be nil; its getters read a nil pointer as zero values.\<close>

record MsgLendingMarketProposal =
  lm_Authority :: string
  lm_Title :: string
  lm_Description :: string
  lm_Metadata :: "LendingMarketMetadata option"

record MsgTreasuryProposal =
  tp_Authority :: string
  tp_Title :: string
  tp_Description :: string
  tp_Metadata :: "TreasuryProposalMetadata option"

definition GetCalldatas :: "LendingMarketMetadata option \<Rightarrow> string list" where
  "GetCalldatas m = (case m of None \<Rightarrow> [] | Some d \<Rightarrow> Calldatas d)"

definition GetValues :: "LendingMarketMetadata option \<Rightarrow> u64 list" where
  "GetValues m = (case m of None \<Rightarrow> [] | Some d \<Rightarrow> Values d)"

definition GetSignatures :: "LendingMarketMetadata option \<Rightarrow> string list" where
  "GetSignatures m = (case m of None \<Rightarrow> [] | Some d \<Rightarrow> Signatures d)"

definition GetDenom :: "TreasuryProposalMetadata option \<Rightarrow> string" where
  "GetDenom m = (case m of None \<Rightarrow> [] | Some d \<Rightarrow> tm_Denom d)"

text \<open>strings.ToLower as far as the comparisons below can tell: no other letter becomes one of theirs.\<close>

definition lower_char :: "char \<Rightarrow> char" where
  "lower_char c = (if (of_char c :: nat) \<in> {65..90} then char_of ((of_char c :: nat) + 32) else c)"

definition ToLower :: "string \<Rightarrow> string" where
  "ToLower s = map lower_char s"

definition equal_lengths :: "LendingMarketMetadata option \<Rightarrow> unit res" where
  "equal_lengths m =
     (let cd = length (GetCalldatas m); vals = length (GetValues m); sigs = length (GetSignatures m) in
      if cd \<noteq> vals then Err ErrInvalidProposalContent
      else if vals \<noteq> sigs then Err ErrInvalidProposalContent
      else Ok ())"

definition treasury_denom :: "TreasuryProposalMetadata option \<Rightarrow> unit res" where
  "treasury_denom m =
     (let s = ToLower (GetDenom m) in
      if s \<noteq> ''canto'' \<and> s \<noteq> ''note'' then Err ErrInvalidProposalContent else Ok ())"

text \<open>The check of title and description is the governance module's.\<close>

definition LendingMarket_ValidateBasic :: "(string \<Rightarrow> string \<Rightarrow> unit res) \<Rightarrow> string \<Rightarrow> string \<Rightarrow> LendingMarketMetadata option \<Rightarrow> unit res" where
  "LendingMarket_ValidateBasic ValidateAbstract title description m =
     rbind (ValidateAbstract title description) (\<lambda>_. equal_lengths m)"

definition Treasury_ValidateBasic :: "(string \<Rightarrow> string \<Rightarrow> unit res) \<Rightarrow> string \<Rightarrow> string \<Rightarrow> TreasuryProposalMetadata option \<Rightarrow> unit res" where
  "Treasury_ValidateBasic ValidateAbstract title description m =
     rbind (ValidateAbstract title description) (\<lambda>_. treasury_denom m)"

definition FromTreasuryToLendingMarket :: "MsgTreasuryProposal \<Rightarrow> MsgLendingMarketProposal" where
  "FromTreasuryToLendingMarket tp =
     (let m = (case tp_Metadata tp of None \<Rightarrow> \<lparr>tm_PropID = 0, tm_Recipient = [], tm_Amount = 0, tm_Denom = []\<rparr> | Some d \<Rightarrow> d);
          lm = \<lparr>Account = [tm_Recipient m], PropId = tm_PropID m, Values = [tm_Amount m], Calldatas = [], Signatures = [tm_Denom m]\<rparr>
      in \<lparr>lm_Authority = tp_Authority tp, lm_Title = tp_Title tp, lm_Description = tp_Description tp, lm_Metadata = Some lm\<rparr>)"

record GenesisState =
  PortContractAddr :: string

definition DefaultGenesis :: GenesisState where
  "DefaultGenesis = \<lparr>PortContractAddr = []\<rparr>"

section \<open>The keeper and its state\<close>

text \<open>Peek reads the next identifier of the governance module without taking it.\<close>

record 'x Keeper =
  erc20Keeper :: "'x Erc20.Keeper"
  PeekProposalID :: "'x \<Rightarrow> u64 res"
  portABI :: abi
  portBin :: bytes
  Hex2Bytes :: "string \<Rightarrow> bytes"
  authority :: string

type_synonym 'x gov_state = "(unit, bytes, 'x erc_state) mstate"

definition ModuleAddress :: "'x Keeper \<Rightarrow> bytes" where
  "ModuleAddress k = BytesToAddress (eth (erc20Keeper k)) (GetModuleAddress (accountKeeper (erc20Keeper k)) ModuleName)"

definition GetAuthority :: "'x Keeper \<Rightarrow> string" where
  "GetAuthority k = authority k"

definition port_key :: bytes where
  "port_key = PortKey @ PortKey"

definition GetPort :: "'x Keeper \<Rightarrow> ('x gov_state, bytes option) act" where
  "GetPort k =
     bnd (store_get port_key) (\<lambda>bz.
     case bz of None \<Rightarrow> ret None
     | Some b \<Rightarrow> if b = [] then ret None else ret (Some (BytesToAddress (eth (erc20Keeper k)) b)))"

definition SetPort :: "bytes \<Rightarrow> ('x gov_state, unit) act" where
  "SetPort portAddr = store_set port_key portAddr"

section \<open>proposals.go\<close>

definition ToAddress :: "'x Keeper \<Rightarrow> string list \<Rightarrow> bytes list" where
  "ToAddress k addrs = map (HexToAddress (eth (erc20Keeper k))) addrs"

definition ToBytes :: "'x Keeper \<Rightarrow> string list \<Rightarrow> bytes list" where
  "ToBytes k strs = map (Hex2Bytes k) strs"

definition ToBigInt :: "u64 list \<Rightarrow> int list" where
  "ToBigInt ints = map uint ints"

text \<open>The arguments of the constructor and of AddProposal are the same.\<close>

definition proposal_args :: "'x Keeper \<Rightarrow> MsgLendingMarketProposal \<Rightarrow> LendingMarketMetadata \<Rightarrow> abi_value list" where
  "proposal_args k lm m =
     [BigVal (uint (PropId m)), TextVal (lm_Title lm), TextVal (lm_Description lm),
      ListVal (map AddressVal (ToAddress k (Account m))), ListVal (map BigVal (ToBigInt (Values m))),
      ListVal (map TextVal (Signatures m)), ListVal (map BytesVal (ToBytes k (Calldatas m)))]"

definition DeployMapContract :: "'x Keeper \<Rightarrow> MsgLendingMarketProposal \<Rightarrow> LendingMarketMetadata \<Rightarrow> ('x gov_state, bytes) act" where
  "DeployMapContract k lm m =
     bnd (wrapped ErrABIPack (lift (Pack (portABI k) '''' (proposal_args k lm m)))) (\<lambda>ctorArgs.
     let data = portBin k @ ctorArgs in
     bnd (gets (\<lambda>s. GetSequence (evmKeeper (erc20Keeper k)) (ModuleAddress k) (kext (kext s)))) (\<lambda>seq.
     bnd (lift seq) (\<lambda>nonce.
     let contractAddr = CreateAddress (eth (erc20Keeper k)) (ModuleAddress k) nonce in
     bnd (on_ext (CallEVMWithData (erc20Keeper k) (ModuleAddress k) None data True)) (\<lambda>_.
     ret contractAddr))))"

text \<open>A proposal without an identifier gets the next one of the governance module.\<close>

definition AppendLendingMarketProposal :: "'x Keeper \<Rightarrow> MsgLendingMarketProposal \<Rightarrow> ('x gov_state, MsgLendingMarketProposal) act" where
  "AppendLendingMarketProposal k lm =
     (case lm_Metadata lm of None \<Rightarrow> panic ''nil pointer''
      | Some m0 \<Rightarrow>
          bnd (if PropId m0 = 0 then bnd (gets (\<lambda>s. PeekProposalID k (kext (kext s)))) lift else ret (PropId m0)) (\<lambda>propId.
          let m = m0\<lparr>PropId := propId\<rparr> in
          bnd (GetPort k) (\<lambda>found.
          bnd (case found of Some addr \<Rightarrow> ret addr
               | None \<Rightarrow> bnd (DeployMapContract k lm m) (\<lambda>addr. bnd (SetPort addr) (\<lambda>_. ret addr))) (\<lambda>addr.
          bnd (on_ext (CallEVM (erc20Keeper k) (portABI k) (ModuleAddress k) addr True ''AddProposal'' (proposal_args k lm m))) (\<lambda>_.
          ret (lm\<lparr>lm_Metadata := Some m\<rparr>))))))"

section \<open>msg_server.go, genesis.go, queries\<close>

definition msg_LendingMarketProposal :: "'x Keeper \<Rightarrow> MsgLendingMarketProposal \<Rightarrow> ('x gov_state, unit) act" where
  "msg_LendingMarketProposal k req =
     (if GetAuthority k \<noteq> lm_Authority req then raise ErrInvalidSigner
      else
        bnd (lift (equal_lengths (lm_Metadata req))) (\<lambda>_.
        bnd (AppendLendingMarketProposal k req) (\<lambda>_.
        ret ())))"

definition msg_TreasuryProposal :: "'x Keeper \<Rightarrow> MsgTreasuryProposal \<Rightarrow> ('x gov_state, unit) act" where
  "msg_TreasuryProposal k req =
     (if GetAuthority k \<noteq> tp_Authority req then raise ErrInvalidSigner
      else
        bnd (lift (treasury_denom (tp_Metadata req))) (\<lambda>_.
        bnd (AppendLendingMarketProposal k (FromTreasuryToLendingMarket req)) (\<lambda>_.
        ret ())))"

definition InitGenesis :: "'x Keeper \<Rightarrow> GenesisState \<Rightarrow> ('x gov_state, unit) act" where
  "InitGenesis k genState =
     bnd (param_set ()) (\<lambda>_.
     bnd (if PortContractAddr genState \<noteq> '''' then SetPort (HexToAddress (eth (erc20Keeper k)) (PortContractAddr genState))
          else ret ()) (\<lambda>_.
     bnd (on_ext (on_ext (GetModuleAccount (erc20Keeper k) ModuleName))) (\<lambda>acc.
     if \<not> acc then panic ''the govshuttle module account has not been set'' else ret ())))"

definition ExportGenesis :: "'x Keeper \<Rightarrow> ('x gov_state, GenesisState) act" where
  "ExportGenesis k =
     bnd (GetPort k) (\<lambda>found.
     case found of None \<Rightarrow> ret DefaultGenesis
     | Some portAddr \<Rightarrow> ret (DefaultGenesis\<lparr>PortContractAddr := AddressHex (eth (erc20Keeper k)) portAddr\<rparr>))"

section \<open>The contract behind the address\<close>

text \<open>What the ABI decodes the arguments to.\<close>

fun decode_bytes :: "abi_value \<Rightarrow> bytes" where
  "decode_bytes (AddressVal a) = a"
| "decode_bytes (TextVal s) = s"
| "decode_bytes (BytesVal b) = b"
| "decode_bytes v = []"

fun decode_uint :: "abi_value \<Rightarrow> uint256" where
  "decode_uint (BigVal n) = word_of_int n"
| "decode_uint v = 0"

fun decode_proposal :: "abi_value list \<Rightarrow> Proposal option" where
  "decode_proposal [i, title, desc, ListVal ts, ListVal vs, ListVal sigs, ListVal datas] =
     Some (NewProposal (decode_uint i) (decode_bytes title) (decode_bytes desc) (map decode_bytes ts) (map decode_uint vs)
       (map decode_bytes sigs) (map decode_bytes datas))"
| "decode_proposal vs = None"

definition proposal_of :: "'x Keeper \<Rightarrow> MsgLendingMarketProposal \<Rightarrow> LendingMarketMetadata \<Rightarrow> Proposal" where
  "proposal_of k lm m =
     NewProposal (ucast (PropId m)) (lm_Title lm) (lm_Description lm) (ToAddress k (Account m)) (map ucast (Values m))
       (Signatures m) (ToBytes k (Calldatas m))"

lemma decode_proposal_args: "decode_proposal (proposal_args k lm m) = Some (proposal_of k lm m)"
  by (simp add: proposal_args_def proposal_of_def ToBigInt_def comp_def)

end
