(* ===== verification/Govshuttle_Props.thy ===== *)
theory Govshuttle_Props
  imports Govshuttle Evm_Ref
begin

text \<open>
  Every proposal the module forwards can be read back from the contract, and all of
  them are well-formed.
\<close>

section \<open>Well-formed proposals\<close>

definition proposal_wf :: "Proposal \<Rightarrow> bool" where
  "proposal_wf p \<longleftrightarrow> uint (prop_id p) < 2 ^ 64 \<and> list_all (\<lambda>a. length a = 20) (targets p) \<and>
     list_all (\<lambda>v. uint v < 2 ^ 64) (prop_values p) \<and> length (signatures p) = length (prop_values p) \<and>
     (calldatas p = [] \<or> length (calldatas p) = length (prop_values p))"

definition port_wf :: "bytes \<Rightarrow> port \<Rightarrow> bool" where
  "port_wf owner s \<longleftrightarrow> port_ok s \<and> govshuttleModAcct s = owner \<and> (\<forall>i. proposal_wf (proposal_at s i))"

lemma proposal_wf_empty: "proposal_wf empty_proposal"
  by (simp add: proposal_wf_def empty_proposal_def)

lemma uint_ucast_256: "uint (ucast (n :: u64) :: uint256) < 2 ^ 64"
proof -
  have "uint (ucast n :: uint256) = uint n" by (simp add: uint_up_ucast is_up)
  then show ?thesis using uint_lt2p [of n] by simp
qed

lemma proposal_of_wf:
  assumes "eth_laws (eth (erc20Keeper k))" and "length (Signatures m) = length (Values m)"
    and "Calldatas m = [] \<or> length (Calldatas m) = length (Values m)"
  shows "proposal_wf (proposal_of k lm m)"
  using assms eth_laws.hex_length [OF assms(1)]
  by (auto simp: proposal_wf_def proposal_of_def NewProposal_def ToAddress_def ToBytes_def list_all_iff
      intro: uint_ucast_256 [simplified])

section \<open>The contract in the EVM\<close>

lemma kstate_updates:
  fixes s :: "('a, 'b) kstate"
  shows "kown (s\<lparr>kext := x\<rparr>) = kown s" and "kext (s\<lparr>kown := y\<rparr>) = kext s"
  by simp_all

text \<open>The port the module knows, if any, is a well-formed contract of its own.\<close>

definition gov_inv :: "'x Govshuttle.Keeper \<Rightarrow> ('x \<Rightarrow> bytes \<Rightarrow> port option) \<Rightarrow> 'x gov_state \<Rightarrow> bool" where
  "gov_inv k port_at s \<longleftrightarrow> kv_ok (kvstore (kown s)) \<and> (\<forall>a. kv_get (kvstore (kown s)) port_key = Some a \<longrightarrow>
     length a = 20 \<and> (\<exists>st. port_at (kext (kext s)) a = Some st \<and> port_wf (Govshuttle.ModuleAddress k) st))"

text \<open>The proposal a reader of the known contract gets for an identifier.\<close>

definition forwarded :: "('x \<Rightarrow> bytes \<Rightarrow> port option) \<Rightarrow> 'x gov_state \<Rightarrow> uint256 \<Rightarrow> Proposal" where
  "forwarded port_at s i =
     (case kv_get (kvstore (kown s)) port_key of None \<Rightarrow> empty_proposal
      | Some a \<Rightarrow> (case port_at (kext (kext s)) a of None \<Rightarrow> empty_proposal | Some st \<Rightarrow> QueryProp i st))"

datatype gov_msg = LendingMarketMsg MsgLendingMarketProposal | TreasuryMsg MsgTreasuryProposal

fun gov_run :: "'x Govshuttle.Keeper \<Rightarrow> gov_msg \<Rightarrow> ('x gov_state, unit) act" where
  "gov_run k (LendingMarketMsg req) = msg_LendingMarketProposal k req"
| "gov_run k (TreasuryMsg req) = msg_TreasuryProposal k req"

fun as_lending :: "gov_msg \<Rightarrow> MsgLendingMarketProposal" where
  "as_lending (LendingMarketMsg req) = req"
| "as_lending (TreasuryMsg req) = FromTreasuryToLendingMarket req"

text \<open>A committed call that succeeds is one message applied, sent with the caller's next nonce.\<close>

lemma CallEVMWithData_message:
  assumes "CallEVMWithData e f c d True s = (Ok r, t)"
  obtains msg n where "GetSequence (evmKeeper e) f (kext s) = Ok n"
    "ApplyMessage (evmKeeper e) msg True (kext s) = (Ok r, kext t)" "\<not> Failed r"
    "msgTo msg = c" "msgFrom msg = f" "msgData msg = d" "msgNonce msg = n" "kown t = kown s"
  using assms by (auto simp: CallEVMWithData_def Let_def split: if_splits)

text \<open>
  The contracts of the EVM, seen through \<open>port_at\<close>: a committed message that creates the
  contract leaves it with what its constructor did, and a committed call of AddProposal
  that succeeds did to it what that function does.
\<close>

locale port_env = eth_laws "eth (erc20Keeper k)" for k :: "'x Govshuttle.Keeper" +
  fixes port_at :: "'x \<Rightarrow> bytes \<Rightarrow> port option"
  assumes deployed: "ApplyMessage (evmKeeper (erc20Keeper k)) msg True x = (Ok r, x') \<Longrightarrow> \<not> Failed r \<Longrightarrow> msgTo msg = None \<Longrightarrow>
      Pack (portABI k) '''' args = Ok ctor \<Longrightarrow> msgData msg = portBin k @ ctor \<Longrightarrow> decode_proposal args = Some p \<Longrightarrow>
      port_at x' (CreateAddress (eth (erc20Keeper k)) (msgFrom msg) (msgNonce msg)) = Some (ProposalStore (msgFrom msg) p)"
    and called: "ApplyMessage (evmKeeper (erc20Keeper k)) msg True x = (Ok r, x') \<Longrightarrow> \<not> Failed r \<Longrightarrow> msgTo msg = Some c \<Longrightarrow>
      port_at x c = Some s \<Longrightarrow> Pack (portABI k) ''AddProposal'' args = Ok (msgData msg) \<Longrightarrow> decode_proposal args = Some p \<Longrightarrow>
      \<exists>s'. AddProposal (msgFrom msg) p s = (Ok (), s') \<and> port_at x' c = Some s'"
begin

lemma DeployMapContract_Ok:
  assumes "DeployMapContract k lm m s = (Ok a, t)"
  shows "kown t = kown s \<and> length a = 20 \<and>
    port_at (kext (kext t)) a = Some (ProposalStore (Govshuttle.ModuleAddress k) (proposal_of k lm m))"
proof -
  obtain ctor n u r where ctor: "Pack (portABI k) '''' (proposal_args k lm m) = Ok ctor"
    and n: "GetSequence (evmKeeper (erc20Keeper k)) (Govshuttle.ModuleAddress k) (kext (kext s)) = Ok n"
    and a: "a = CreateAddress (eth (erc20Keeper k)) (Govshuttle.ModuleAddress k) n"
    and call: "CallEVMWithData (erc20Keeper k) (Govshuttle.ModuleAddress k) None (portBin k @ ctor) True (kext s) = (Ok r, u)"
    and t: "t = s\<lparr>kext := u\<rparr>"
    using assms by (auto simp: DeployMapContract_def Let_def)
  obtain msg where msg: "ApplyMessage (evmKeeper (erc20Keeper k)) msg True (kext (kext s)) = (Ok r, kext u)" "\<not> Failed r"
    "msgTo msg = None" "msgFrom msg = Govshuttle.ModuleAddress k" "msgData msg = portBin k @ ctor" "msgNonce msg = n"
    using call by (rule CallEVMWithData_message) (use n in simp)
  have "port_at (kext u) a = Some (ProposalStore (Govshuttle.ModuleAddress k) (proposal_of k lm m))"
    using deployed [OF msg(1-3) ctor msg(5) decode_proposal_args] by (simp add: msg(4,6) a)
  then show ?thesis by (auto simp: t a create_length kstate_updates)
qed

lemma AddProposal_call:
  assumes "on_ext (CallEVM (erc20Keeper k) (portABI k) (Govshuttle.ModuleAddress k) a True ''AddProposal'' (proposal_args k lm m)) s = (Ok r, t)"
    and "port_at (kext (kext s)) a = Some st"
  shows "kown t = kown s \<and> (\<exists>st'. AddProposal (Govshuttle.ModuleAddress k) (proposal_of k lm m) st = (Ok (), st') \<and>
    port_at (kext (kext t)) a = Some st')"
proof -
  obtain data u where data: "Pack (portABI k) ''AddProposal'' (proposal_args k lm m) = Ok data"
    and call: "CallEVMWithData (erc20Keeper k) (Govshuttle.ModuleAddress k) (Some a) data True (kext s) = (Ok r, u)"
    and t: "t = s\<lparr>kext := u\<rparr>"
    using assms(1) by (auto simp: CallEVM_def split: res.splits)
  obtain msg where msg: "ApplyMessage (evmKeeper (erc20Keeper k)) msg True (kext (kext s)) = (Ok r, kext u)" "\<not> Failed r"
    "msgTo msg = Some a" "msgFrom msg = Govshuttle.ModuleAddress k" "msgData msg = data"
    using call by (rule CallEVMWithData_message)
  show ?thesis
    using called [OF msg(1-3) assms(2) _ decode_proposal_args, of k lm m] data by (auto simp: msg(4,5) t kstate_updates)
qed

text \<open>The store behind GetPort and SetPort.\<close>

lemma GetPort_Ok:
  assumes "GetPort k s = (Ok found, t)" and "gov_inv k port_at s"
  shows "t = s \<and> found = kv_get (kvstore (kown s)) port_key"
  using assms bytes_address by (auto simp: GetPort_def gov_inv_def split: option.splits if_splits)

text \<open>Where the proposal goes: the known contract, or a new one that holds it already.\<close>

lemma port_for_proposal:
  assumes "(case found of Some addr \<Rightarrow> ret addr
      | None \<Rightarrow> bnd (DeployMapContract k lm m) (\<lambda>addr. bnd (SetPort addr) (\<lambda>_. ret addr))) s = (Ok a, u)"
    and "found = kv_get (kvstore (kown s)) port_key" and "gov_inv k port_at s" and "proposal_wf (proposal_of k lm m)"
  obtains st where "kv_get (kvstore (kown u)) port_key = Some a" "length a = 20" "port_at (kext (kext u)) a = Some st"
    "port_wf (Govshuttle.ModuleAddress k) st" "kv_ok (kvstore (kown u))"
    "\<And>i. i \<noteq> prop_id (proposal_of k lm m) \<Longrightarrow> proposal_at st i = forwarded port_at s i"
proof (cases found)
  case (Some c)
  then show thesis using assms that by (auto simp: gov_inv_def forwarded_def port_wf_def QueryProp_ok)
next
  case None
  then obtain v where v: "DeployMapContract k lm m s = (Ok a, v)" and u: "SetPort a v = (Ok (), u)"
    using assms(1) by auto
  let ?st = "ProposalStore (Govshuttle.ModuleAddress k) (proposal_of k lm m)"
  note d = DeployMapContract_Ok [OF v]
  have "kv_get (kvstore (kown u)) port_key = Some a" "kv_ok (kvstore (kown u))" "kext u = kext v"
    using u d assms(3) kv_ok_set by (auto simp: gov_inv_def SetPort_def kv_get_set kstate_updates)
  moreover have "port_wf (Govshuttle.ModuleAddress k) ?st"
    using assms(4) ProposalStore_ok proposal_wf_empty by (simp add: port_wf_def proposal_at_store) (simp add: ProposalStore_def)
  ultimately show thesis using that [of ?st] d None assms(2) by (simp add: proposal_at_store forwarded_def)
qed

lemma AppendLendingMarketProposal_Ok:
  assumes "AppendLendingMarketProposal k lm s = (Ok lm', t)" and "gov_inv k port_at s" and "lm_Metadata lm = Some m0"
    and "length (Signatures m0) = length (Values m0)" and "Calldatas m0 = [] \<or> length (Calldatas m0) = length (Values m0)"
  shows "gov_inv k port_at t \<and> (\<exists>n. (if PropId m0 = 0 then PeekProposalID k (kext (kext s)) = Ok n else n = PropId m0) \<and>
    (\<forall>i. forwarded port_at t i = (if i = ucast n then proposal_of k lm (m0\<lparr>PropId := n\<rparr>) else forwarded port_at s i)))"
proof -
  obtain n found a u r where n: "if PropId m0 = 0 then PeekProposalID k (kext (kext s)) = Ok n else n = PropId m0"
    and found: "GetPort k s = (Ok found, s)"
    and port: "(case found of Some addr \<Rightarrow> ret addr
      | None \<Rightarrow> bnd (DeployMapContract k lm (m0\<lparr>PropId := n\<rparr>)) (\<lambda>addr. bnd (SetPort addr) (\<lambda>_. ret addr))) s = (Ok a, u)"
    and call: "on_ext (CallEVM (erc20Keeper k) (portABI k) (Govshuttle.ModuleAddress k) a True ''AddProposal''
      (proposal_args k lm (m0\<lparr>PropId := n\<rparr>))) u = (Ok r, t)"
    using assms(1,3) GetPort_Ok [OF _ assms(2)]
    by (fastforce simp: AppendLendingMarketProposal_def Let_def simp del: on_ext_Ok_iff split: if_splits)
  let ?p = "proposal_of k lm (m0\<lparr>PropId := n\<rparr>)"
  have p: "proposal_wf ?p" "prop_id ?p = ucast n"
    by (rule proposal_of_wf [OF eth_laws_axioms]) (use assms(4,5) in \<open>simp_all add: proposal_of_def NewProposal_def\<close>)
  obtain st where st: "kv_get (kvstore (kown u)) port_key = Some a" "length a = 20" "port_at (kext (kext u)) a = Some st"
    "port_wf (Govshuttle.ModuleAddress k) st" "kv_ok (kvstore (kown u))"
    "\<And>i. i \<noteq> prop_id ?p \<Longrightarrow> proposal_at st i = forwarded port_at s i"
    using port_for_proposal [OF port _ assms(2) p(1)] GetPort_Ok [OF found assms(2)] by blast
  obtain st' where st': "AddProposal (Govshuttle.ModuleAddress k) ?p st = (Ok (), st')" "port_at (kext (kext t)) a = Some st'"
    and t: "kown t = kown u"
    using AddProposal_call [OF call st(3)] by blast
  have st_ok: "port_ok st" using st(4) by (simp add: port_wf_def)
  note added = AddProposal_Ok [OF st'(1) st_ok]
  have "gov_inv k port_at t"
    using st(1-5) st' added p by (auto simp: gov_inv_def port_wf_def t)
  moreover have "forwarded port_at t i = (if i = ucast n then ?p else forwarded port_at s i)" for i
    using st(1,6) st' added p(2) by (auto simp: forwarded_def t QueryProp_ok)
  ultimately show ?thesis using n by blast
qed

lemma gov_run_Ok:
  assumes "gov_run k req s = (Ok (), t)" and "gov_inv k port_at s"
  shows "gov_inv k port_at t \<and> (\<exists>m0 n. lm_Metadata (as_lending req) = Some m0 \<and>
    (if PropId m0 = 0 then PeekProposalID k (kext (kext s)) = Ok n else n = PropId m0) \<and>
    (\<forall>i. forwarded port_at t i =
       (if i = ucast n then proposal_of k (as_lending req) (m0\<lparr>PropId := n\<rparr>) else forwarded port_at s i)))"
proof -
  obtain lm' where run: "AppendLendingMarketProposal k (as_lending req) s = (Ok lm', t)"
    using assms(1) by (cases req) (auto simp: msg_LendingMarketProposal_def msg_TreasuryProposal_def split: if_splits)
  obtain m0 where m0: "lm_Metadata (as_lending req) = Some m0"
    using run by (cases "lm_Metadata (as_lending req)") (auto simp: AppendLendingMarketProposal_def)
  have "length (Signatures m0) = length (Values m0)" "Calldatas m0 = [] \<or> length (Calldatas m0) = length (Values m0)"
    using assms(1) m0 by (cases req; auto simp: msg_LendingMarketProposal_def equal_lengths_def GetCalldatas_def GetValues_def
      GetSignatures_def FromTreasuryToLendingMarket_def Let_def split: if_splits)+
  from AppendLendingMarketProposal_Ok [OF run assms(2) m0 this] m0 show ?thesis by blast
qed

end

section \<open>Properties\<close>

text \<open>C20. Given an EVM that runs the proposal contract as its source says, every
  lending-market or treasury proposal the module accepts is stored so that QueryProp of
  its identifier returns exactly the message's fields (title, description, target
  addresses, values, signatures, call data; the identifier is the message's, or the
  governance module's next one when the message has zero), every other identifier reads
  as before, and the contract stays well typed: owned by the module account, each
  proposal under its own 64-bit identifier, targets of twenty bytes, 64-bit values, as
  many signatures as values, and as many call data as values or none.
\<close>

theorem forwarded_proposals_are_well_typed:
  fixes k :: "'x Govshuttle.Keeper"
  assumes "port_env k port_at"
    and "gov_run k req s = (Ok (), t)"
    and "gov_inv k port_at s"
  shows "gov_inv k port_at t \<and> (\<exists>m0 n. lm_Metadata (as_lending req) = Some m0 \<and>
    (if PropId m0 = 0 then PeekProposalID k (kext (kext s)) = Ok n else n = PropId m0) \<and>
    (\<forall>i. forwarded port_at t i =
       (if i = ucast n then proposal_of k (as_lending req) (m0\<lparr>PropId := n\<rparr>) else forwarded port_at s i)))"
  by (rule port_env.gov_run_Ok [OF assms])

section \<open>A chain that runs the contract\<close>

text \<open>A small EVM whose contracts are proposal stores, and whose codec knows the arguments of one proposal.\<close>

record port_world =
  ports :: "bytes \<Rightarrow> port option"
  next_nonce :: u64

definition demo_treasury :: MsgTreasuryProposal where
  "demo_treasury = \<lparr>tp_Authority = ''gov'', tp_Title = ''Grant'', tp_Description = ''Pay'',
     tp_Metadata = Some \<lparr>tm_PropID = 0, tm_Recipient = ''0xalice'', tm_Amount = 7, tm_Denom = ''Canto''\<rparr>\<rparr>"

definition demo_proposal :: Proposal where
  "demo_proposal = NewProposal 5 ''Grant'' ''Pay'' [pad20 ''alice''] [7] [''Canto''] []"

definition demo_args :: "abi_value list" where
  "demo_args = [BigVal 5, TextVal ''Grant'', TextVal ''Pay'', ListVal [AddressVal (pad20 ''alice'')], ListVal [BigVal 7],
     ListVal [TextVal ''Canto''], ListVal []]"

definition port_abi :: abi where
  "port_abi = ref_abi\<lparr>Pack := \<lambda>method args. if args = demo_args then Ok (method @ ''!'') else Err (PlainErr ''abi'')\<rparr>"

definition port_response :: "string \<Rightarrow> evm_response" where
  "port_response e = \<lparr>Ret = [], VmError = e, LogTopics = []\<rparr>"

definition port_apply :: "eth_message \<Rightarrow> bool \<Rightarrow> (port_world, evm_response) act" where
  "port_apply msg commit w =
     (case msgTo msg of
        None \<Rightarrow>
          if msgData msg \<noteq> ''port!'' then (Ok (port_response ''execution reverted''), w)
          else (Ok (port_response []), w\<lparr>ports := (ports w)(CreateAddress ref_eth (msgFrom msg) (msgNonce msg) \<mapsto>
                  ProposalStore (msgFrom msg) demo_proposal), next_nonce := next_nonce w + 1\<rparr>)
      | Some c \<Rightarrow> (case ports w c of
            None \<Rightarrow> (Ok (port_response []), w)
          | Some st \<Rightarrow>
              if msgData msg \<noteq> ''AddProposal!'' then (Ok (port_response ''execution reverted''), w)
              else (case AddProposal (msgFrom msg) demo_proposal st of
                  (Ok _, st') \<Rightarrow> (Ok (port_response []), w\<lparr>ports := (ports w)(c \<mapsto> st'), next_nonce := next_nonce w + 1\<rparr>)
                | (_, _) \<Rightarrow> (Ok (port_response ''execution reverted''), w))))"

definition port_evm :: "port_world evm_keeper" where
  "port_evm = \<lparr>GetAccountWithoutBalance = \<lambda>a w. Some (ports w a \<noteq> None), GetSequence = \<lambda>a w. Ok (next_nonce w),
     EstimateGas = \<lambda>a c d cap w. Ok cap, ApplyMessage = port_apply, DefaultGasCap = 25000000\<rparr>"

text \<open>Its bank has no coins.\<close>

definition no_bank :: "port_world bank_keeper" where
  "no_bank = (let no = raise (PlainErr ''insufficient funds'') in
     \<lparr>SendCoins = \<lambda>a b cs. no, SendCoinsFromModuleToAccount = \<lambda>m a cs. no, SendCoinsFromAccountToModule = \<lambda>a m cs. no,
      SendCoinsFromModuleToModule = \<lambda>m n cs. no, MintCoins = \<lambda>m cs. no, BurnCoins = \<lambda>m cs. no, GetAllBalances = \<lambda>a w. [],
      GetBalance = \<lambda>a d w. \<lparr>Denom = d, Amount = 0\<rparr>, GetSupply = \<lambda>d w. \<lparr>Denom = d, Amount = 0\<rparr>\<rparr>)"

definition port_erc_keeper :: "port_world Erc20.Keeper" where
  "port_erc_keeper = \<lparr>accountKeeper = \<lparr>GetAccount = \<lambda>a w. Some a, GetModuleAddress = pad20\<rparr>, bankKeeper = no_bank, evmKeeper = port_evm,
     eth = ref_eth, erc20ABI = ref_abi, erc20Bin = ''bin'', BlockedAddr = \<lambda>a. False, IsSendEnabledCoin = \<lambda>d w. True,
     GetDenomMetaData = \<lambda>d w. None, SetDenomMetaData = \<lambda>m w. w, HasSupply = \<lambda>d w. True,
     Metadata_Validate = \<lambda>m. Ok (), GetModuleAccount = \<lambda>m. ret True, Erc20.Keeper.authority = ''gov''\<rparr>"

definition gov_keeper :: "port_world Govshuttle.Keeper" where
  "gov_keeper = \<lparr>erc20Keeper = port_erc_keeper, PeekProposalID = \<lambda>w. Ok 5, portABI = port_abi, portBin = ''port'',
     Hex2Bytes = \<lambda>s. s, Govshuttle.Keeper.authority = ''gov''\<rparr>"

lemma demo_args_only: "Pack port_abi m args = Ok b \<longleftrightarrow> args = demo_args \<and> b = m @ ''!''"
  by (auto simp: port_abi_def)

lemma demo_args_decode: "decode_proposal demo_args = Some demo_proposal"
  by (simp add: demo_args_def demo_proposal_def)

lemma port_create:
  "port_apply msg True w = (Ok r, w') \<Longrightarrow> \<not> Failed r \<Longrightarrow> msgTo msg = None \<Longrightarrow>
    ports w' (CreateAddress ref_eth (msgFrom msg) (msgNonce msg)) = Some (ProposalStore (msgFrom msg) demo_proposal)"
  by (auto simp: port_apply_def port_response_def Failed_def split: if_splits)

lemma port_add:
  "port_apply msg True w = (Ok r, w') \<Longrightarrow> \<not> Failed r \<Longrightarrow> msgTo msg = Some c \<Longrightarrow> ports w c = Some st \<Longrightarrow>
    \<exists>st'. AddProposal (msgFrom msg) demo_proposal st = (Ok (), st') \<and> ports w' c = Some st'"
  by (auto simp: port_apply_def port_response_def Failed_def split: if_splits prod.splits res.splits)

interpretation demo_port: port_env gov_keeper ports
proof (unfold_locales, goal_cases)
  case (8 msg x r x' args ctor p)
  then show ?case using port_create [of msg x r x'] demo_args_decode
    by (simp add: gov_keeper_def port_erc_keeper_def port_evm_def demo_args_only)
next
  case (9 msg x r x' c s args p)
  then show ?case using port_add [of msg x r x' c s] demo_args_decode
    by (simp add: gov_keeper_def port_erc_keeper_def port_evm_def demo_args_only)
qed (simp_all add: gov_keeper_def port_erc_keeper_def reth.hex_roundtrip reth.hex_is_hex reth.hex_length
    reth.create_length reth.bytes_length reth.bytes_address reth.hash_nonempty)

definition gov_chain :: "port_world gov_state" where
  "gov_chain = \<lparr>kown = \<lparr>pspace = Some (), kvstore = []\<rparr>,
     kext = \<lparr>kown = \<lparr>pspace = None, kvstore = []\<rparr>, kext = \<lparr>ports = \<lambda>_. None, next_nonce = 3\<rparr>\<rparr>\<rparr>"

definition gov_done :: "port_world gov_state" where
  "gov_done = snd (gov_run gov_keeper (TreasuryMsg demo_treasury) gov_chain)"

theorem forwarded_proposals_are_well_typed_witness:
  "gov_inv gov_keeper ports gov_done \<and> forwarded ports gov_done 5 = demo_proposal \<and> forwarded ports gov_done 6 = empty_proposal"
proof -
  have run: "gov_run gov_keeper (TreasuryMsg demo_treasury) gov_chain = (Ok (), gov_done)"
    unfolding gov_done_def by (rule pair_Ok_snd) code_simp
  have inv: "gov_inv gov_keeper ports gov_chain"
    by (simp add: gov_inv_def gov_chain_def kv_ok_def kv_get_def)
  note fwd = forwarded_proposals_are_well_typed [OF demo_port.port_env_axioms run inv]
  have "forwarded ports gov_chain i = empty_proposal" for i
    by (simp add: forwarded_def gov_chain_def kv_get_def)
  moreover have "proposal_of gov_keeper (as_lending (TreasuryMsg demo_treasury))
      \<lparr>Account = [''0xalice''], PropId = 5, Values = [7], Calldatas = [], Signatures = [''Canto'']\<rparr> = demo_proposal"
    by code_simp
  moreover have "lm_Metadata (as_lending (TreasuryMsg demo_treasury)) =
      Some \<lparr>Account = [''0xalice''], PropId = 0, Values = [7], Calldatas = [], Signatures = [''Canto'']\<rparr>"
    by (simp add: FromTreasuryToLendingMarket_def demo_treasury_def)
  moreover have "PeekProposalID gov_keeper w = Ok 5" for w by (simp add: gov_keeper_def)
  ultimately show ?thesis using fwd by (auto simp del: as_lending.simps)
qed

end
