(* ===== verification/Ante.thy ===== *)
theory Ante
  imports Gostrings
begin

text \<open>
  What runs before a transaction: the decorator that keeps certain messages out of authz
  (app/ante/cosmos/authz.go), the routing of a transaction to a chain of decorators
  (app/ante/ante.go and handler_options.go), the gas of signature verification
  (app/sigverify.go) and the kinds of public keys (types/utils.go).
\<close>

section \<open>authz.go\<close>

text \<open>
  What the decorator asks of a message: a MsgExec for the messages it unpacks to, a
  MsgGrant for the type of its authorization, any other for its own type. Unpacking is
  code of the SDK; nothing is assumed about the size of what it returns.
\<close>

datatype 'm msg_view = MsgExec "'m list res" | MsgGrant "string res" | OtherMsg string

record AuthzLimiterDecorator =
  disabledMsgTypes :: "string list"

definition NewAuthzLimiterDecorator :: "string list \<Rightarrow> AuthzLimiterDecorator" where
  "NewAuthzLimiterDecorator types = \<lparr>disabledMsgTypes = types\<rparr>"

definition maxNestedMsgs :: int where
  "maxNestedMsgs = 7"

fun is_disabled :: "string list \<Rightarrow> string \<Rightarrow> bool" where
  "is_disabled [] url = False"
| "is_disabled (disabledType # types) url = (if url = disabledType then True else is_disabled types url)"

definition isDisabledMsg :: "AuthzLimiterDecorator \<Rightarrow> string \<Rightarrow> bool" where
  "isDisabledMsg ald msgTypeURL = is_disabled (disabledMsgTypes ald) msgTypeURL"

definition found_disabled :: "string \<Rightarrow> err" where
  "found_disabled url = PlainErr (''found disabled msg type: '' @ url)"

definition ErrUnauthorized :: err where "ErrUnauthorized = SdkErr ''sdkerrors.ErrUnauthorized''"

lemma rbind_cong [fundef_cong]:
  "r = r' \<Longrightarrow> (\<And>x. r' = Ok x \<Longrightarrow> f x = f' x) \<Longrightarrow> rbind r f = rbind r' f'"
  by (cases r') auto

text \<open>
  The check and its loop. The loop raises the level for every MsgExec and keeps it for
  the messages that follow; each call is one level below the MsgExec that caused it, so
  the limit ends the recursion whatever the messages unpack to.
\<close>

function checkDisabledMsgs :: "('m \<Rightarrow> 'm msg_view) \<Rightarrow> AuthzLimiterDecorator \<Rightarrow> 'm list \<Rightarrow> bool \<Rightarrow> int \<Rightarrow> unit res"
  and check_loop :: "('m \<Rightarrow> 'm msg_view) \<Rightarrow> AuthzLimiterDecorator \<Rightarrow> 'm list \<Rightarrow> bool \<Rightarrow> int \<Rightarrow> unit res" where
  "checkDisabledMsgs V ald msgs isAuthzInnerMsg nestedLvl =
     (if maxNestedMsgs \<le> nestedLvl then Err (PlainErr ''found more nested msgs than permited'')
      else check_loop V ald msgs isAuthzInnerMsg nestedLvl)"
| "check_loop V ald [] isAuthzInnerMsg nestedLvl = Ok ()"
| "check_loop V ald (msg # msgs) isAuthzInnerMsg nestedLvl =
     (case V msg of
        MsgExec unpacked \<Rightarrow>
          rbind unpacked (\<lambda>innerMsgs.
          rbind (checkDisabledMsgs V ald innerMsgs True (nestedLvl + 1)) (\<lambda>_.
          check_loop V ald msgs isAuthzInnerMsg (nestedLvl + 1)))
      | MsgGrant authorization \<Rightarrow>
          rbind authorization (\<lambda>url.
          if isDisabledMsg ald url then Err (found_disabled url)
          else check_loop V ald msgs isAuthzInnerMsg nestedLvl)
      | OtherMsg url \<Rightarrow>
          if isAuthzInnerMsg \<and> isDisabledMsg ald url then Err (found_disabled url)
          else check_loop V ald msgs isAuthzInnerMsg nestedLvl)"
  by pat_completeness auto
termination
  by (relation "measures
      [\<lambda>c. case c of Inl (V, ald, msgs, b, l) \<Rightarrow> nat (maxNestedMsgs - l) | Inr (V, ald, msgs, b, l) \<Rightarrow> nat (maxNestedMsgs - l),
       \<lambda>c. case c of Inl (V, ald, msgs, b, l) \<Rightarrow> if maxNestedMsgs \<le> l then 0 else Suc (length msgs) | Inr (V, ald, msgs, b, l) \<Rightarrow> length msgs]")
    (auto simp: maxNestedMsgs_def)

definition AnteHandle :: "('m \<Rightarrow> 'm msg_view) \<Rightarrow> AuthzLimiterDecorator \<Rightarrow> 'm list \<Rightarrow> ('s, unit) act \<Rightarrow> ('s, unit) act" where
  "AnteHandle V ald msgs next_handler =
     bnd (wrapped ErrUnauthorized (lift (checkDisabledMsgs V ald msgs False 1))) (\<lambda>_. next_handler)"

section \<open>What the check lets through\<close>

text \<open>A message inside others, below so many MsgExec.\<close>

inductive within :: "('m \<Rightarrow> 'm msg_view) \<Rightarrow> 'm list \<Rightarrow> 'm \<Rightarrow> nat \<Rightarrow> bool" for V where
  within_top: "m \<in> set msgs \<Longrightarrow> within V msgs m 0"
| within_exec: "x \<in> set msgs \<Longrightarrow> V x = MsgExec (Ok inner) \<Longrightarrow> within V inner m n \<Longrightarrow> within V msgs m (Suc n)"

text \<open>How many MsgExec there are in all.\<close>

inductive execs :: "('m \<Rightarrow> 'm msg_view) \<Rightarrow> 'm list \<Rightarrow> nat \<Rightarrow> bool" for V where
  execs_Nil: "execs V [] 0"
| execs_exec: "V m = MsgExec (Ok inner) \<Longrightarrow> execs V inner a \<Longrightarrow> execs V msgs b \<Longrightarrow> execs V (m # msgs) (Suc (a + b))"
| execs_other: "(\<And>r. V m \<noteq> MsgExec r) \<Longrightarrow> execs V msgs n \<Longrightarrow> execs V (m # msgs) n"

text \<open>
  The level the check reaches: every MsgExec takes one more than those before it in its
  list, and what it contains starts from there.
\<close>

inductive levels :: "('m \<Rightarrow> 'm msg_view) \<Rightarrow> 'm list \<Rightarrow> nat \<Rightarrow> bool" for V where
  levels_Nil: "levels V [] 0"
| levels_exec: "V m = MsgExec (Ok inner) \<Longrightarrow> levels V inner a \<Longrightarrow> levels V msgs b \<Longrightarrow> levels V (m # msgs) (Suc (max a b))"
| levels_other: "(\<And>r. V m \<noteq> MsgExec r) \<Longrightarrow> levels V msgs n \<Longrightarrow> levels V (m # msgs) n"

definition is_exec :: "('m \<Rightarrow> 'm msg_view) \<Rightarrow> 'm \<Rightarrow> bool" where
  "is_exec V m \<longleftrightarrow> (\<exists>r. V m = MsgExec r)"

text \<open>A message the decorator has no objection to; at the top any type may be used directly.\<close>

definition harmless :: "('m \<Rightarrow> 'm msg_view) \<Rightarrow> AuthzLimiterDecorator \<Rightarrow> 'm \<Rightarrow> bool \<Rightarrow> bool" where
  "harmless V ald m inner \<longleftrightarrow>
     (case V m of
        MsgExec r \<Rightarrow> (\<exists>ms. r = Ok ms)
      | MsgGrant r \<Rightarrow> (\<exists>url. r = Ok url \<and> url \<notin> set (disabledMsgTypes ald))
      | OtherMsg url \<Rightarrow> inner \<longrightarrow> url \<notin> set (disabledMsgTypes ald))"

lemma isDisabledMsg_iff [simp]: "isDisabledMsg ald url \<longleftrightarrow> url \<in> set (disabledMsgTypes ald)"
proof -
  have "is_disabled types url \<longleftrightarrow> url \<in> set types" for types by (induction types) auto
  then show ?thesis by (simp add: isDisabledMsg_def)
qed

inductive_cases within_NilE: "within V [] m n"
inductive_cases within_ConsE: "within V (x # msgs) m n"

lemma within_Cons_iff: "within V (x # msgs) m n \<longleftrightarrow> (m = x \<and> n = 0) \<or>
    (\<exists>inner k. V x = MsgExec (Ok inner) \<and> n = Suc k \<and> within V inner m k) \<or> within V msgs m n"
proof -
  have "within V (x # msgs) m n" if "within V msgs m n"
    using that by (cases rule: within.cases) (auto intro: within.intros)
  then show ?thesis by (auto elim!: within_ConsE intro: within.intros)
qed

lemma check_sound:
  fixes msgs :: "'m list"
  shows "checkDisabledMsgs V ald msgs b l = Ok () \<Longrightarrow> within V msgs m n \<Longrightarrow>
      l + int n < maxNestedMsgs \<and> harmless V ald m (b \<or> 0 < n)"
    and "check_loop V ald msgs b l = Ok () \<Longrightarrow> l < maxNestedMsgs \<Longrightarrow> within V msgs m n \<Longrightarrow>
      l + int n < maxNestedMsgs \<and> harmless V ald m (b \<or> 0 < n)"
proof (induction V ald msgs b l and V ald msgs b l arbitrary: m n and m n rule: checkDisabledMsgs_check_loop.induct)
  case (1 V ald msgs b l)
  then show ?case by (auto split: if_splits)
next
  case (2 V ald b l)
  then show ?case by (auto elim: within_NilE)
next
  case (3 V ald x msgs b l)
  show ?case
  proof (cases "V x")
    case (MsgExec r)
    then obtain inner where r: "r = Ok inner" and c: "checkDisabledMsgs V ald inner True (l + 1) = Ok ()"
      "check_loop V ald msgs b (l + 1) = Ok ()" using 3(5) by auto
    have lvl: "l + 1 < maxNestedMsgs" using c(1) by (auto split: if_splits)
    from 3(7) consider (here) "m = x" "n = 0" | (below) k where "n = Suc k" "within V inner m k" | (later) "within V msgs m n"
      using MsgExec r by (auto simp: within_Cons_iff)
    then show ?thesis
    proof cases
      case here
      then show ?thesis using 3(6) MsgExec r by (simp add: harmless_def)
    next
      case below
      then show ?thesis using 3(1) [OF MsgExec r c(1) below(2)] by (auto simp: harmless_def split: msg_view.splits)
    next
      case later
      then show ?thesis using 3(2) [OF MsgExec r c(1,2) lvl later] by auto
    qed
  next
    case (MsgGrant r)
    then show ?thesis using 3(3) [OF MsgGrant] 3(5-7) by (auto simp: within_Cons_iff harmless_def split: if_splits)
  next
    case (OtherMsg url)
    then show ?thesis using 3(4) [OF OtherMsg] 3(5-7) by (auto simp: within_Cons_iff harmless_def split: if_splits)
  qed
qed

text \<open>The level is at most the number of MsgExec, and bounds both their depth and how many stand side by side.\<close>

lemma execs_levels: "execs V msgs c \<Longrightarrow> \<exists>d\<le>c. levels V msgs d"
proof (induction rule: execs.induct)
  case (execs_exec m inner a msgs b)
  then obtain a' b' where "a' \<le> a" "levels V inner a'" "b' \<le> b" "levels V msgs b'" by blast
  with execs_exec.hyps(1) show ?case by (intro exI [of _ "Suc (max a' b')"] conjI levels_exec) auto
qed (blast intro: levels.intros)+

lemma levels_depth: "levels V msgs c \<Longrightarrow> within V msgs m n \<Longrightarrow> n \<le> c"
proof (induction arbitrary: m n rule: levels.induct)
  case (levels_exec x inner a msgs b)
  then show ?case by (fastforce simp: within_Cons_iff)
qed (auto simp: within_Cons_iff elim: within_NilE)

lemma levels_beside: "levels V msgs c \<Longrightarrow> length (filter (is_exec V) msgs) \<le> c"
  by (induction rule: levels.induct) (auto simp: is_exec_def)

lemma check_levels:
  fixes msgs :: "'m list"
  shows "checkDisabledMsgs V ald msgs b l = Ok () \<Longrightarrow> \<exists>c. levels V msgs c \<and> l + int c < maxNestedMsgs"
    and "check_loop V ald msgs b l = Ok () \<Longrightarrow> l < maxNestedMsgs \<Longrightarrow> \<exists>c. levels V msgs c \<and> l + int c < maxNestedMsgs"
proof (induction V ald msgs b l and V ald msgs b l rule: checkDisabledMsgs_check_loop.induct)
  case (1 V ald msgs b l)
  then show ?case by (auto split: if_splits)
next
  case (2 V ald b l)
  then show ?case using levels_Nil [of V] by (intro exI [of _ 0]) simp
next
  case (3 V ald x msgs b l)
  show ?case
  proof (cases "V x")
    case (MsgExec r)
    then obtain inner where r: "r = Ok inner" and c: "checkDisabledMsgs V ald inner True (l + 1) = Ok ()"
      "check_loop V ald msgs b (l + 1) = Ok ()" using 3(5) by auto
    have lvl: "l + 1 < maxNestedMsgs" using c(1) by (auto split: if_splits)
    obtain c1 where c1: "levels V inner c1" "l + 1 + int c1 < maxNestedMsgs" using 3(1) [OF MsgExec r c(1)] by blast
    obtain c2 where c2: "levels V msgs c2" "l + 1 + int c2 < maxNestedMsgs" using 3(2) [OF MsgExec r c(1,2) lvl] by blast
    have "levels V (x # msgs) (Suc (max c1 c2))" using MsgExec r c1(1) c2(1) by (intro levels_exec) auto
    then show ?thesis using c1(2) c2(2) by (intro exI [of _ "Suc (max c1 c2)"]) (simp add: max_def)
  next
    case (MsgGrant r)
    then have "\<exists>c. levels V msgs c \<and> l + int c < maxNestedMsgs" using 3(3) [OF MsgGrant] 3(5,6) by (auto split: if_splits)
    then show ?thesis using MsgGrant levels_other [of V x msgs] by auto
  next
    case (OtherMsg url)
    then have "\<exists>c. levels V msgs c \<and> l + int c < maxNestedMsgs" using 3(4) [OF OtherMsg] 3(5,6) by (auto split: if_splits)
    then show ?thesis using OtherMsg levels_other [of V x msgs] by auto
  qed
qed

lemma check_complete:
  assumes "levels V msgs c" and "l + int c < maxNestedMsgs" and "\<And>m n. within V msgs m n \<Longrightarrow> harmless V ald m (b \<or> 0 < n)"
  shows "check_loop V ald msgs b l = Ok ()"
  using assms
proof (induction arbitrary: b l rule: levels.induct)
  case levels_Nil
  then show ?case by simp
next
  case (levels_exec m inner c1 msgs c2)
  have "harmless V ald m' (True \<or> 0 < n)" if "within V inner m' n" for m' n
    using levels_exec.prems(2) [of m' "Suc n"] that levels_exec.hyps(1) by (auto simp: within_Cons_iff)
  then have "check_loop V ald inner True (l + 1) = Ok ()" using levels_exec.IH(1) levels_exec.prems(1) by auto
  moreover have "check_loop V ald msgs b (l + 1) = Ok ()"
    using levels_exec.IH(2) levels_exec.prems by (auto simp: within_Cons_iff)
  moreover have "l + 1 < maxNestedMsgs" using levels_exec.prems(1) by simp
  ultimately show ?case using levels_exec.hyps(1) by simp
next
  case (levels_other m msgs n)
  have "harmless V ald m b" using levels_other.prems(2) [of m 0] by (simp add: within_Cons_iff)
  moreover have "check_loop V ald msgs b l = Ok ()"
    using levels_other.IH levels_other.prems by (auto simp: within_Cons_iff)
  ultimately show ?case using levels_other.hyps(1) by (auto simp: harmless_def split: msg_view.splits)
qed

lemma check_iff: "checkDisabledMsgs V ald msgs False 1 = Ok () \<longleftrightarrow>
    (\<exists>c\<le>5. levels V msgs c) \<and> (\<forall>m n. within V msgs m n \<longrightarrow> harmless V ald m (0 < n))"
proof
  assume ok: "checkDisabledMsgs V ald msgs False 1 = Ok ()"
  obtain c where "levels V msgs c" "c \<le> 5" using check_levels(1) [OF ok] by (auto simp: maxNestedMsgs_def)
  then show "(\<exists>c\<le>5. levels V msgs c) \<and> (\<forall>m n. within V msgs m n \<longrightarrow> harmless V ald m (0 < n))"
    using check_sound(1) [OF ok] by auto
next
  assume "(\<exists>c\<le>5. levels V msgs c) \<and> (\<forall>m n. within V msgs m n \<longrightarrow> harmless V ald m (0 < n))"
  then show "checkDisabledMsgs V ald msgs False 1 = Ok ()"
    using check_complete [of V msgs _ 1 ald False] by (auto simp: maxNestedMsgs_def)
qed

lemma AnteHandle_passes: "checkDisabledMsgs V ald msgs False 1 = Ok () \<Longrightarrow> AnteHandle V ald msgs next_handler s = next_handler s"
  by (simp add: AnteHandle_def bnd_def wrapped_def lift_def)

lemma AnteHandle_stops: "checkDisabledMsgs V ald msgs False 1 \<noteq> Ok () \<Longrightarrow> refuses (AnteHandle V ald msgs next_handler) s"
  by (cases "checkDisabledMsgs V ald msgs False 1") (auto simp: refuses_def AnteHandle_def bnd_def wrapped_def lift_def)

section \<open>sigverify.go and types/utils.go\<close>

text \<open>
  Public keys by the types the code switches on. A signature of a multisig key has a bit
  for each key, set when the key signed, and the signatures of those keys in order.
\<close>

datatype pubkey = EthSecp256k1 | Ed25519 | Multisig "pubkey list" | OtherPubKey

datatype sig_data = SingleSignatureData | MultiSignatureData "bool list" "sig_data list"

definition secp256k1VerifyCost :: u64 where
  "secp256k1VerifyCost = 21000"

definition ErrInvalidPubKey :: err where "ErrInvalidPubKey = SdkErr ''sdkerrors.ErrInvalidPubKey''"

lemma size_list_tl: "size_list f (tl xs) \<le> size_list f xs"
  by (cases xs) auto

text \<open>The gas meter is a parameter: consuming gas may panic when there is none left.\<close>

function SigVerificationGasConsumer :: "(u64 \<Rightarrow> ('g, unit) act) \<Rightarrow> u64 \<Rightarrow> pubkey \<Rightarrow> sig_data \<Rightarrow> ('g, unit) act"
  and ConsumeMultisignatureVerificationGas ::
    "(u64 \<Rightarrow> ('g, unit) act) \<Rightarrow> u64 \<Rightarrow> bool list \<Rightarrow> pubkey list \<Rightarrow> sig_data list \<Rightarrow> ('g, unit) act" where
  "SigVerificationGasConsumer ConsumeGas costED25519 EthSecp256k1 d = bnd (ConsumeGas secp256k1VerifyCost) (\<lambda>_. ret ())"
| "SigVerificationGasConsumer ConsumeGas costED25519 Ed25519 d = bnd (ConsumeGas costED25519) (\<lambda>_. raise ErrInvalidPubKey)"
| "SigVerificationGasConsumer ConsumeGas costED25519 (Multisig keys) d =
     (case d of SingleSignatureData \<Rightarrow> raise (PlainErr ''expected MultiSignatureData'')
      | MultiSignatureData bits sigs \<Rightarrow> ConsumeMultisignatureVerificationGas ConsumeGas costED25519 bits keys sigs)"
| "SigVerificationGasConsumer ConsumeGas costED25519 OtherPubKey d = raise ErrInvalidPubKey"
| "ConsumeMultisignatureVerificationGas ConsumeGas costED25519 [] keys sigs = ret ()"
| "ConsumeMultisignatureVerificationGas ConsumeGas costED25519 (has_signed # bits) keys sigs =
     (if \<not> has_signed then ConsumeMultisignatureVerificationGas ConsumeGas costED25519 bits (tl keys) sigs
      else
        case keys of [] \<Rightarrow> panic ''index out of range''
        | key # keys1 \<Rightarrow>
            (case sigs of [] \<Rightarrow> panic ''index out of range''
             | s # sigs1 \<Rightarrow>
                 bnd (SigVerificationGasConsumer ConsumeGas costED25519 key s) (\<lambda>_.
                 ConsumeMultisignatureVerificationGas ConsumeGas costED25519 bits keys1 sigs1)))"
  by pat_completeness auto
termination
  by (relation "measures
      [\<lambda>c. case c of Inl (C, e, key, d) \<Rightarrow> size key | Inr (C, e, bits, keys, sigs) \<Rightarrow> size_list size keys,
       \<lambda>c. case c of Inl (C, e, key, d) \<Rightarrow> 0 | Inr (C, e, bits, keys, sigs) \<Rightarrow> length bits]")
    (auto simp: size_list_tl le_eq_less_or_eq [symmetric])

definition single_key :: "pubkey \<Rightarrow> bool" where
  "single_key pk = (case pk of EthSecp256k1 \<Rightarrow> True | Ed25519 \<Rightarrow> True | _ \<Rightarrow> False)"

definition IsSupportedKey :: "pubkey \<Rightarrow> bool" where
  "IsSupportedKey pk =
     (case pk of
        EthSecp256k1 \<Rightarrow> True
      | Ed25519 \<Rightarrow> True
      | Multisig keys \<Rightarrow> (if keys = [] then False else list_all single_key keys)
      | OtherPubKey \<Rightarrow> False)"

text \<open>The keys of a signature that sign by themselves.\<close>

function signers :: "pubkey \<Rightarrow> sig_data \<Rightarrow> pubkey list"
  and multi_signers :: "bool list \<Rightarrow> pubkey list \<Rightarrow> sig_data list \<Rightarrow> pubkey list" where
  "signers (Multisig keys) (MultiSignatureData bits sigs) = multi_signers bits keys sigs"
| "signers (Multisig keys) SingleSignatureData = []"
| "signers EthSecp256k1 d = [EthSecp256k1]"
| "signers Ed25519 d = [Ed25519]"
| "signers OtherPubKey d = [OtherPubKey]"
| "multi_signers [] keys sigs = []"
| "multi_signers (False # bits) keys sigs = multi_signers bits (tl keys) sigs"
| "multi_signers (True # bits) [] sigs = []"
| "multi_signers (True # bits) (key # keys) [] = []"
| "multi_signers (True # bits) (key # keys) (s # sigs) = signers key s @ multi_signers bits keys sigs"
  by pat_completeness auto
termination
  by (relation "measures
      [\<lambda>c. case c of Inl (key, d) \<Rightarrow> size key | Inr (bits, keys, sigs) \<Rightarrow> size_list size keys,
       \<lambda>c. case c of Inl (key, d) \<Rightarrow> 0 | Inr (bits, keys, sigs) \<Rightarrow> length bits]")
    (auto simp: size_list_tl le_eq_less_or_eq [symmetric])

lemma gas_of_signers:
  "SigVerificationGasConsumer C e key d s = (Ok (), t) \<Longrightarrow>
    for_each (\<lambda>_. C secp256k1VerifyCost) (signers key d) s = (Ok (), t) \<and> set (signers key d) \<subseteq> {EthSecp256k1}"
  "ConsumeMultisignatureVerificationGas C e bits keys sigs s = (Ok (), t) \<Longrightarrow>
    for_each (\<lambda>_. C secp256k1VerifyCost) (multi_signers bits keys sigs) s = (Ok (), t) \<and>
    set (multi_signers bits keys sigs) \<subseteq> {EthSecp256k1}"
proof (induction C e key d and C e bits keys sigs arbitrary: s t and s t
    rule: SigVerificationGasConsumer_ConsumeMultisignatureVerificationGas.induct)
  case (3 C e keys d)
  then show ?case by (cases d) auto
next
  case (6 C e has_signed bits keys sigs)
  show ?case
  proof (cases has_signed)
    case True
    then obtain key keys1 x sigs1 where "keys = key # keys1" "sigs = x # sigs1"
      using 6(4) by (auto split: list.splits)
    then show ?thesis using True 6(2,3) 6(4) by (fastforce simp: for_each_append)
  qed (use 6 in auto)
qed auto

section \<open>ante.go and handler_options.go\<close>

text \<open>The decorators of the SDK, of ethermint and of ibc-go that the chains are made of.\<close>

datatype decorator =
    EthSetUpContext | EthMempoolFee | EthMinGasPrice | EthValidateBasic | EthSigVerification | EthAccountVerification
  | CanTransfer | EthGasConsume | EthIncrementSenderSequence | GasWanted | EthEmitEvent
  | RejectMessages | AuthzLimiter "string list" | SetUpContext | ExtensionOptions | ValidateBasicTx | MinGasPrice
  | TxTimeoutHeight | ValidateMemo | ConsumeGasForTxSize | DeductFee | SetPubKey | ValidateSigCount | SigGasConsume
  | SigVerification | LegacyEip712SigVerification | IncrementSequence | RedundantRelay

text \<open>Of the keepers the options only matter by whether they are given.\<close>

record HandlerOptions =
  opt_AccountKeeper :: bool
  opt_BankKeeper :: bool
  opt_FeeMarketKeeper :: bool
  opt_EvmKeeper :: bool
  opt_SignModeHandler :: bool
  opt_Simulation :: bool
  opt_DisabledAuthzMsgs :: "string list"

definition ErrLogic :: err where "ErrLogic = SdkErr ''sdkerrors.ErrLogic''"
definition ErrUnknownExtensionOptions :: err where "ErrUnknownExtensionOptions = SdkErr ''sdkerrors.ErrUnknownExtensionOptions''"
definition ErrUnknownRequest :: err where "ErrUnknownRequest = SdkErr ''sdkerrors.ErrUnknownRequest''"

definition HandlerOptions_Validate :: "HandlerOptions \<Rightarrow> unit res" where
  "HandlerOptions_Validate options =
     (if \<not> opt_AccountKeeper options then Err ErrLogic
      else if \<not> opt_BankKeeper options then Err ErrLogic
      else if \<not> opt_SignModeHandler options then Err ErrLogic
      else if \<not> opt_FeeMarketKeeper options then Err ErrLogic
      else if \<not> opt_EvmKeeper options then Err ErrLogic
      else Ok ())"

definition newEthAnteHandler :: "HandlerOptions \<Rightarrow> decorator list" where
  "newEthAnteHandler options =
     [EthSetUpContext, EthMempoolFee, EthMinGasPrice, EthValidateBasic, EthSigVerification, EthAccountVerification,
      CanTransfer, EthGasConsume, EthIncrementSenderSequence, GasWanted, EthEmitEvent]"

definition newCosmosAnteHandler :: "HandlerOptions \<Rightarrow> decorator list" where
  "newCosmosAnteHandler options =
     [RejectMessages, AuthzLimiter (opt_DisabledAuthzMsgs options), SetUpContext, ExtensionOptions, ValidateBasicTx,
      MinGasPrice, TxTimeoutHeight, ValidateMemo, ConsumeGasForTxSize, DeductFee, SetPubKey, ValidateSigCount,
      SigGasConsume, SigVerification, IncrementSequence, RedundantRelay, GasWanted]"

definition newCosmosSimulationAnteHandler :: "HandlerOptions \<Rightarrow> decorator list" where
  "newCosmosSimulationAnteHandler options =
     [RejectMessages, AuthzLimiter (opt_DisabledAuthzMsgs options), SetUpContext, ExtensionOptions, ValidateBasicTx,
      MinGasPrice, TxTimeoutHeight, ValidateMemo, ConsumeGasForTxSize, DeductFee, ValidateSigCount,
      IncrementSequence, RedundantRelay, GasWanted]"

definition newCosmosAnteHandlerEip712 :: "HandlerOptions \<Rightarrow> decorator list" where
  "newCosmosAnteHandlerEip712 options =
     [RejectMessages, AuthzLimiter (opt_DisabledAuthzMsgs options), SetUpContext, ValidateBasicTx,
      MinGasPrice, TxTimeoutHeight, ValidateMemo, ConsumeGasForTxSize, DeductFee, SetPubKey, ValidateSigCount,
      SigGasConsume, LegacyEip712SigVerification, IncrementSequence, RedundantRelay, GasWanted]"

text \<open>
  The chain a transaction is sent through. A transaction is known by the type URLs of its
  extension options, when it has that method at all; no value is the nil transaction.
\<close>

definition route :: "HandlerOptions \<Rightarrow> string list option option \<Rightarrow> decorator list res" where
  "route options tx =
     (case tx of
        Some (Some (typeURL # opts)) \<Rightarrow>
          if typeURL = ''/ethermint.evm.v1.ExtensionOptionsEthereumTx'' then Ok (newEthAnteHandler options)
          else if typeURL = ''/ethermint.types.v1.ExtensionOptionsWeb3Tx'' then Ok (newCosmosAnteHandlerEip712 options)
          else Err ErrUnknownExtensionOptions
      | Some _ \<Rightarrow>
          if opt_Simulation options then Ok (newCosmosSimulationAnteHandler options) else Ok (newCosmosAnteHandler options)
      | None \<Rightarrow> Err ErrUnknownRequest)"

text \<open>Running a chain, and the error a recovered panic becomes, are parameters.\<close>

definition NewAnteHandler :: "(decorator list \<Rightarrow> ('s, unit) act) \<Rightarrow> (string \<Rightarrow> err) \<Rightarrow> HandlerOptions \<Rightarrow>
    (string list option option \<Rightarrow> ('s, unit) act) res" where
  "NewAnteHandler chain recovered options =
     rbind (HandlerOptions_Validate options) (\<lambda>_.
     Ok (\<lambda>tx s.
       (case bnd (lift (route options tx)) chain s of (r, t) \<Rightarrow>
          ((case r of Panic p \<Rightarrow> Err (recovered p) | _ \<Rightarrow> r), t))))"

lemma NewAnteHandler_never_panics:
  "NewAnteHandler chain recovered options = Ok h \<Longrightarrow> fst (h tx s) \<noteq> Panic p"
  by (auto simp: NewAnteHandler_def split: prod.splits res.splits)

text \<open>Every chain but that of Ethereum messages rejects those and limits authz before anything else.\<close>

lemma route_limits:
  "route options tx = Ok ds \<Longrightarrow> ds \<noteq> newEthAnteHandler options \<Longrightarrow>
    take 2 ds = [RejectMessages, AuthzLimiter (opt_DisabledAuthzMsgs options)]"
  by (auto simp: route_def newCosmosAnteHandler_def newCosmosSimulationAnteHandler_def newCosmosAnteHandlerEip712_def
      split: option.splits list.splits if_splits)

section \<open>Properties\<close>

text \<open>C19. The authz decorator stops what it means to stop and nothing else. When a transaction passes, no message
in it lies below more than five MsgExec, every MsgExec and MsgGrant in it could be
unpacked, and neither a grant nor a message inside a MsgExec is of a disabled type.
Conversely a transaction with at most five MsgExec in all and without such messages is
handed on.\<close>
theorem authz_limits_messages:
  assumes "AnteHandle V ald msgs next_handler s = (Ok (), t)"
  shows "next_handler s = (Ok (), t) \<and> (\<forall>m n. within V msgs m n \<longrightarrow> n \<le> 5 \<and> harmless V ald m (0 < n)) \<and>
    (\<forall>others c. execs V others c \<longrightarrow> c \<le> 5 \<longrightarrow> (\<forall>m n. within V others m n \<longrightarrow> harmless V ald m (0 < n)) \<longrightarrow>
      AnteHandle V ald others next_handler s = next_handler s)"
proof (intro conjI allI impI)
  have ok: "checkDisabledMsgs V ald msgs False 1 = Ok ()" and run: "next_handler s = (Ok (), t)"
    using assms by (auto simp: AnteHandle_def)
  show "next_handler s = (Ok (), t)" by (rule run)
  show "n \<le> 5" "harmless V ald m (0 < n)" if "within V msgs m n" for m n
    using check_sound(1) [OF ok that] by (simp_all add: maxNestedMsgs_def)
  show "AnteHandle V ald others next_handler s = next_handler s"
    if "execs V others c" "c \<le> 5" "\<forall>m n. within V others m n \<longrightarrow> harmless V ald m (0 < n)" for others c
    using execs_levels [OF that(1)] that(2,3) by (intro AnteHandle_passes check_iff [THEN iffD2]) (meson order_trans)
qed

definition demo_view :: "nat \<Rightarrow> nat msg_view" where
  "demo_view m = (if m = 0 then OtherMsg ''/send'' else if m = 1 then OtherMsg ''/ethereum''
     else if m = 2 then MsgExec (Ok [0]) else MsgExec (Ok [3]))"

definition demo_limiter :: AuthzLimiterDecorator where
  "demo_limiter = NewAuthzLimiterDecorator [''/ethereum'']"

lemma demo_passes: "AnteHandle demo_view demo_limiter [1, 2] (ret ()) () = (Ok (), ())"
  by (simp add: AnteHandle_def demo_view_def demo_limiter_def NewAuthzLimiterDecorator_def maxNestedMsgs_def wrapped_def lift_def)

theorem authz_limits_messages_witness:
  "harmless demo_view demo_limiter 0 True \<and> \<not> harmless demo_view demo_limiter 1 True \<and>
    AnteHandle demo_view demo_limiter [2] (ret ()) () = ret () ()"
proof (intro conjI)
  note t = authz_limits_messages [OF demo_passes]
  have "within demo_view [1, 2] 0 (Suc 0)"
    by (rule within_exec [of 2 _ _ "[0]"]) (auto simp: demo_view_def intro: within_top)
  then show "harmless demo_view demo_limiter 0 True" using t by fastforce
  show "\<not> harmless demo_view demo_limiter 1 True"
    by (simp add: harmless_def demo_view_def demo_limiter_def NewAuthzLimiterDecorator_def)
  have e: "execs demo_view [2] (Suc (0 + 0))"
    by (rule execs_exec [of _ _ "[0]"]) (auto simp: demo_view_def intro!: execs_Nil execs_other)
  have "harmless demo_view demo_limiter m (0 < n)" if "within demo_view [2] m n" for m n
    using that by (auto simp: within_Cons_iff demo_view_def harmless_def demo_limiter_def NewAuthzLimiterDecorator_def
        elim: within_NilE)
  then show "AnteHandle demo_view demo_limiter [2] (ret ()) () = ret () ()" using t e by fastforce
qed

text \<open>C27. The authz decorator's limit, exactly. A transaction goes on to the next handler if and only if no message in it
is objectionable and the level of its MsgExec is at most five, where a MsgExec counts one more than those before it in
its list and its contents start from there; otherwise it is refused. So six MsgExec side by side are refused although
none is nested in another, and messages that nest without end, such as one that contains itself, are refused too.\<close>
theorem nesting_limit_is_exact:
  shows "(if (\<exists>c\<le>5. levels V msgs c) \<and> (\<forall>m n. within V msgs m n \<longrightarrow> harmless V ald m (0 < n))
      then AnteHandle V ald msgs next_handler s = next_handler s else refuses (AnteHandle V ald msgs next_handler) s) \<and>
    (6 \<le> length (filter (is_exec V) msgs) \<longrightarrow> refuses (AnteHandle V ald msgs next_handler) s) \<and>
    ((\<forall>n. \<exists>m. within V msgs m n) \<longrightarrow> refuses (AnteHandle V ald msgs next_handler) s)"
proof (intro conjI impI)
  show "if (\<exists>c\<le>5. levels V msgs c) \<and> (\<forall>m n. within V msgs m n \<longrightarrow> harmless V ald m (0 < n))
      then AnteHandle V ald msgs next_handler s = next_handler s else refuses (AnteHandle V ald msgs next_handler) s"
    unfolding check_iff [symmetric] by (simp add: AnteHandle_passes AnteHandle_stops)
  show "refuses (AnteHandle V ald msgs next_handler) s" if "6 \<le> length (filter (is_exec V) msgs)"
  proof (rule AnteHandle_stops, unfold check_iff)
    show "\<not> ((\<exists>c\<le>5. levels V msgs c) \<and> (\<forall>m n. within V msgs m n \<longrightarrow> harmless V ald m (0 < n)))"
      using that levels_beside [of V msgs] by fastforce
  qed
  show "refuses (AnteHandle V ald msgs next_handler) s" if endless: "\<forall>n. \<exists>m. within V msgs m n"
  proof (rule AnteHandle_stops, unfold check_iff)
    obtain m where "within V msgs m 6" using endless by blast
    then show "\<not> ((\<exists>c\<le>5. levels V msgs c) \<and> (\<forall>m n. within V msgs m n \<longrightarrow> harmless V ald m (0 < n)))"
      using levels_depth [of V msgs _ m 6] by fastforce
  qed
qed

theorem nesting_limit_is_exact_witness:
  "AnteHandle demo_view demo_limiter [2, 2, 2, 2, 2] (ret ()) () = (Ok (), ()) \<and>
    refuses (AnteHandle demo_view demo_limiter [2, 2, 2, 2, 2, 2] (ret ())) () \<and>
    refuses (AnteHandle demo_view demo_limiter [3] (ret ())) ()"
proof (intro conjI)
  note limit = nesting_limit_is_exact [of demo_view _ demo_limiter "ret ()" "()"]
  have one: "levels demo_view [0] 0" by (auto simp: demo_view_def intro!: levels_other levels_Nil)
  have "levels demo_view (replicate k 2) k" for k
    using levels_Nil [of demo_view] levels_exec [of demo_view 2 "[0]" 0] one
    by (induction k) (auto simp: demo_view_def dest: spec)
  from this [of 5] have "\<exists>c\<le>5. levels demo_view [2, 2, 2, 2, 2] c" by (auto simp: numeral_eq_Suc)
  moreover have "\<forall>m n. within demo_view [2, 2, 2, 2, 2] m n \<longrightarrow> harmless demo_view demo_limiter m (0 < n)"
    by (auto simp: within_Cons_iff demo_view_def harmless_def demo_limiter_def NewAuthzLimiterDecorator_def elim: within_NilE)
  ultimately show "AnteHandle demo_view demo_limiter [2, 2, 2, 2, 2] (ret ()) () = (Ok (), ())"
    using limit [of "[2, 2, 2, 2, 2]"] by (simp add: ret_def)
  have "6 \<le> length (filter (is_exec demo_view) [2, 2, 2, 2, 2, 2])" by (simp add: is_exec_def demo_view_def)
  then show "refuses (AnteHandle demo_view demo_limiter [2, 2, 2, 2, 2, 2] (ret ())) ()" using limit by blast
  have "\<exists>m. within demo_view [3] m n" for n
  proof (induction n)
    case 0
    show ?case by (rule exI [of _ 3]) (simp add: within_top)
  next
    case (Suc n)
    then obtain m where "within demo_view [3] m n" ..
    then have "within demo_view [3] m (Suc n)" by (intro within_exec [of 3 _ _ "[3]"]) (simp_all add: demo_view_def)
    then show ?case ..
  qed
  then show "refuses (AnteHandle demo_view demo_limiter [3] (ret ())) ()" using limit by blast
qed

text \<open>C32. Verifying a signature costs a fixed price for every key that signs: when the gas consumer succeeds, all
keys that signed, however deep in multisig keys, are Ethereum keys, and what it consumed is
the price of one of them as many times.\<close>
theorem signature_gas_per_key:
  assumes "SigVerificationGasConsumer ConsumeGas costED25519 key d s = (Ok (), t)"
  shows "for_each (\<lambda>_. ConsumeGas secp256k1VerifyCost) (signers key d) s = (Ok (), t) \<and>
    (\<forall>signer \<in> set (signers key d). signer = EthSecp256k1)"
  using gas_of_signers(1) [OF assms] by blast

definition demo_meter :: "u64 \<Rightarrow> (int, unit) act" where
  "demo_meter gas = modify (\<lambda>used. used + uint gas)"

definition demo_multisig :: pubkey where
  "demo_multisig = Multisig [EthSecp256k1, Ed25519, Multisig [EthSecp256k1]]"

definition demo_signature :: sig_data where
  "demo_signature = MultiSignatureData [True, False, True] [SingleSignatureData, MultiSignatureData [True] [SingleSignatureData]]"

theorem signature_gas_per_key_witness:
  "for_each (\<lambda>_. demo_meter secp256k1VerifyCost) (signers demo_multisig demo_signature) 0 = (Ok (), 42000)"
proof -
  have "SigVerificationGasConsumer demo_meter 590 demo_multisig demo_signature 0 = (Ok (), 42000)" by code_simp
  from signature_gas_per_key [OF this] show ?thesis by (rule conjunct1)
qed

end
