(* ===== verification/Potv.thy ===== *)
theory Potv
  imports Prelude
begin

text \<open>
  potv/contracts: the lending contracts. Collateral is supplied through Lend, kept by
  Pool, and counted as a stake with a validator by ChainContract; against it a user
  borrows TUCUSD, and Reward pays the suppliers. Config holds the collateral tokens and
  the ratios, PriceFeed the prices.

  Every contract has its storage in a record, an external function takes msg.sender, and
  a value of type uint256 is a natural number below \<open>2 ^ 256\<close>: arithmetic that
  leaves that range reverts, as it does in Solidity 0.8. Events are left out.
\<close>

type_synonym address = bytes

section \<open>Checked arithmetic\<close>

definition revert :: "string \<Rightarrow> 'a res" where
  "revert msg = Err (PlainErr msg)"

definition add_u :: "nat \<Rightarrow> nat \<Rightarrow> nat res" where
  "add_u a b = (if a + b < 2 ^ 256 then Ok (a + b) else revert ''overflow'')"

definition sub_u :: "nat \<Rightarrow> nat \<Rightarrow> nat res" where
  "sub_u a b = (if b \<le> a then Ok (a - b) else revert ''underflow'')"

definition mul_u :: "nat \<Rightarrow> nat \<Rightarrow> nat res" where
  "mul_u a b = (if a * b < 2 ^ 256 then Ok (a * b) else revert ''overflow'')"

definition div_u :: "nat \<Rightarrow> nat \<Rightarrow> nat res" where
  "div_u a b = (if b \<noteq> 0 then Ok (a div b) else revert ''division by zero'')"

definition pow10 :: "nat \<Rightarrow> nat res" where
  "pow10 n = (if 10 ^ n < (2 :: nat) ^ 256 then Ok (10 ^ n) else revert ''overflow'')"

definition max_uint :: nat where
  "max_uint = 2 ^ 256 - 1"

section \<open>What the contracts are deployed with\<close>

text \<open>
  The addresses of the deployment, and code of other repositories: the EnumerableSet of
  OpenZeppelin (its members in the order of \<open>at\<close>), the ERC20 tokens, whose state is
  \<open>'x\<close>, the ERC20 base contract of TUCUSD, and Ownable, whose functions turn an owner
  into the next one. A transfer names the token, the account that calls it, and for
  \<open>safeTransferFrom\<close> the account that is debited; \<open>erc20_call\<close> is any other call an
  account makes to a token. \<open>other_mint\<close> and \<open>other_burn\<close> are TUCUSD contracts other than
  the one of the deployment.
\<close>

datatype owner_call = TransferOwnership address | RenounceOwnership

record 'x env =
  lend_at :: address
  pool_at :: address
  reward_at :: address
  usd_at :: address
  config_at :: address
  chain_at :: address
  feed_at :: address
  set_add :: "address \<Rightarrow> address list \<Rightarrow> address list"
  set_remove :: "address \<Rightarrow> address list \<Rightarrow> address list"
  safeTransferFrom :: "address \<Rightarrow> address \<Rightarrow> address \<Rightarrow> address \<Rightarrow> nat \<Rightarrow> ('x, unit) act"
  safeTransfer :: "address \<Rightarrow> address \<Rightarrow> address \<Rightarrow> nat \<Rightarrow> ('x, unit) act"
  token_decimals :: "address \<Rightarrow> 'x \<Rightarrow> nat res"
  usd_mint :: "address \<Rightarrow> nat \<Rightarrow> ('x, unit) act"
  usd_burn :: "address \<Rightarrow> nat \<Rightarrow> ('x, unit) act"
  usd_decimals :: nat
  other_mint :: "address \<Rightarrow> address \<Rightarrow> nat \<Rightarrow> ('x, unit) act"
  other_burn :: "address \<Rightarrow> address \<Rightarrow> nat \<Rightarrow> ('x, unit) act"
  erc20_call :: "address \<Rightarrow> address \<Rightarrow> bytes \<Rightarrow> ('x, unit) act"
  own_call :: "owner_call \<Rightarrow> address \<Rightarrow> address \<Rightarrow> address res"

section \<open>Storage\<close>

text \<open>The inherited Ownable and Initializable contracts keep an owner and a flag.\<close>

record config_store =
  cfg_owner :: address
  cfg_initialized :: bool
  collateralTokens :: "address list"
  mcr :: nat
  liquidationRate :: nat

record feed_store =
  feed_owner :: address
  feed_initialized :: bool
  answers :: "address \<Rightarrow> nat"
  lastUpdated :: "address \<Rightarrow> nat"

record usd_store =
  usd_owner :: address
  usd_initialized :: bool
  usd_pool :: address

record pool_store =
  pool_owner :: address
  pool_initialized :: bool
  pool_config :: address
  usdToken :: address
  pool_lend :: address
  userBorrow :: "address \<Rightarrow> nat"
  totalBorrow :: nat
  userSupply :: "address \<Rightarrow> address \<Rightarrow> nat"
  totalSupply :: "address \<Rightarrow> nat"

record chain_store =
  chain_owner :: address
  chain_initialized :: bool
  chain_config :: address
  chain_lend :: address
  validators :: "address list"
  userStakes :: "address \<Rightarrow> address \<Rightarrow> address \<Rightarrow> nat"
  validatorStakes :: "address \<Rightarrow> address \<Rightarrow> nat"
  validatorStakedUsers :: "address \<Rightarrow> address list"

record reward_store =
  reward_owner :: address
  reward_initialized :: bool
  lendAddress :: address
  rewardTokens :: "address list"
  rewardPerTokenStored :: "address \<Rightarrow> address \<Rightarrow> nat"
  userRewardPerTokenPaid :: "address \<Rightarrow> address \<Rightarrow> address \<Rightarrow> nat"
  rewards :: "address \<Rightarrow> address \<Rightarrow> nat"
  reward_config :: address
  reward_pool :: address

record lend_store =
  lend_owner :: address
  lend_initialized :: bool
  lend_paused :: bool
  lend_chain :: address
  lend_pool :: address
  lend_config :: address
  lend_reward :: address
  lend_priceFeed :: address
  lend_usd :: address
  plugin :: "address \<Rightarrow> bool"

record 'x potv =
  config :: config_store
  feed :: feed_store
  usd :: usd_store
  pool :: pool_store
  chain :: chain_store
  reward :: reward_store
  lend :: lend_store
  ext :: 'x

definition require :: "bool \<Rightarrow> string \<Rightarrow> ('s, unit) act" where
  "require b msg = (if b then ret () else raise (PlainErr msg))"

definition view :: "('s \<Rightarrow> 'a res) \<Rightarrow> ('s, 'a) act" where
  "view f s = (f s, s)"

definition on_tokens :: "('x, 'a) act \<Rightarrow> ('x potv, 'a) act" where
  "on_tokens m = zoom ext (\<lambda>x s. s\<lparr>ext := x\<rparr>) m"

text \<open>
  A call to another contract goes to the address stored for it. An address at which the
  deployment has no such contract is taken to have no code, where a call reverts. A
  function that calls a contract more than once checks the stored address the first time.
\<close>

definition call :: "('x potv \<Rightarrow> address) \<Rightarrow> address \<Rightarrow> ('x potv, 'a) act \<Rightarrow> ('x potv, 'a) act" where
  "call slot target m =
     bnd (gets slot) (\<lambda>a. bnd (require (a = target) ''call to an account without code'') (\<lambda>_. m))"

definition static_call :: "address \<Rightarrow> address \<Rightarrow> 'a res \<Rightarrow> 'a res" where
  "static_call a target r = (if a = target then r else revert ''call to an account without code'')"

definition with_config :: "(config_store \<Rightarrow> config_store) \<Rightarrow> ('x potv, unit) act" where
  "with_config f = modify (\<lambda>s. s\<lparr>config := f (config s)\<rparr>)"

definition with_feed :: "(feed_store \<Rightarrow> feed_store) \<Rightarrow> ('x potv, unit) act" where
  "with_feed f = modify (\<lambda>s. s\<lparr>feed := f (feed s)\<rparr>)"

definition with_usd :: "(usd_store \<Rightarrow> usd_store) \<Rightarrow> ('x potv, unit) act" where
  "with_usd f = modify (\<lambda>s. s\<lparr>usd := f (usd s)\<rparr>)"

definition with_pool :: "(pool_store \<Rightarrow> pool_store) \<Rightarrow> ('x potv, unit) act" where
  "with_pool f = modify (\<lambda>s. s\<lparr>pool := f (pool s)\<rparr>)"

definition with_chain :: "(chain_store \<Rightarrow> chain_store) \<Rightarrow> ('x potv, unit) act" where
  "with_chain f = modify (\<lambda>s. s\<lparr>chain := f (chain s)\<rparr>)"

definition with_reward :: "(reward_store \<Rightarrow> reward_store) \<Rightarrow> ('x potv, unit) act" where
  "with_reward f = modify (\<lambda>s. s\<lparr>reward := f (reward s)\<rparr>)"

definition with_lend :: "(lend_store \<Rightarrow> lend_store) \<Rightarrow> ('x potv, unit) act" where
  "with_lend f = modify (\<lambda>s. s\<lparr>lend := f (lend s)\<rparr>)"

section \<open>Config.sol\<close>

definition PRECISION_DECIMALS :: nat where
  "PRECISION_DECIMALS = 6"

definition Config_initialize :: "address \<Rightarrow> nat \<Rightarrow> nat \<Rightarrow> ('x potv, unit) act" where
  "Config_initialize sender mcr0 rate =
     bnd (gets (\<lambda>s. cfg_initialized (config s))) (\<lambda>initialized.
     bnd (require (\<not> initialized) ''Initializable: contract is already initialized'') (\<lambda>_.
     with_config (\<lambda>c. c\<lparr>cfg_initialized := True, cfg_owner := sender, mcr := mcr0, liquidationRate := rate\<rparr>)))"

definition cfg_onlyOwner :: "address \<Rightarrow> ('x potv, unit) act" where
  "cfg_onlyOwner sender = bnd (gets (\<lambda>s. cfg_owner (config s))) (\<lambda>a. require (sender = a) ''Ownable: caller is not the owner'')"

definition isWhitelistToken :: "'x potv \<Rightarrow> address \<Rightarrow> bool" where
  "isWhitelistToken s tokenType = (tokenType \<in> set (collateralTokens (config s)))"

definition getAllWhitelistTokens :: "'x potv \<Rightarrow> address list" where
  "getAllWhitelistTokens s = collateralTokens (config s)"

definition addCollateral :: "'x env \<Rightarrow> address \<Rightarrow> address \<Rightarrow> ('x potv, unit) act" where
  "addCollateral E sender tokenType =
     bnd (cfg_onlyOwner sender) (\<lambda>_.
     bnd (gets (\<lambda>s. isWhitelistToken s tokenType)) (\<lambda>found.
     bnd (require (\<not> found) ''Config: Collateral already exist'') (\<lambda>_.
     with_config (\<lambda>c. c\<lparr>collateralTokens := set_add E tokenType (collateralTokens c)\<rparr>))))"

definition disableCollateral :: "'x env \<Rightarrow> address \<Rightarrow> address \<Rightarrow> ('x potv, unit) act" where
  "disableCollateral E sender tokenType =
     bnd (cfg_onlyOwner sender) (\<lambda>_.
     bnd (gets (\<lambda>s. isWhitelistToken s tokenType)) (\<lambda>found.
     bnd (require found ''Config: Not collateral'') (\<lambda>_.
     with_config (\<lambda>c. c\<lparr>collateralTokens := set_remove E tokenType (collateralTokens c)\<rparr>))))"

definition setMCR :: "address \<Rightarrow> nat \<Rightarrow> ('x potv, unit) act" where
  "setMCR sender v = bnd (cfg_onlyOwner sender) (\<lambda>_. with_config (\<lambda>c. c\<lparr>mcr := v\<rparr>))"

definition setLiquidationRate :: "address \<Rightarrow> nat \<Rightarrow> ('x potv, unit) act" where
  "setLiquidationRate sender v = bnd (cfg_onlyOwner sender) (\<lambda>_. with_config (\<lambda>c. c\<lparr>liquidationRate := v\<rparr>))"

definition getTokenDecimals :: "'x env \<Rightarrow> 'x potv \<Rightarrow> address \<Rightarrow> nat res" where
  "getTokenDecimals E s tokenAddress = token_decimals E tokenAddress (ext s)"

definition getMCR :: "'x potv \<Rightarrow> nat" where
  "getMCR s = mcr (config s)"

definition getPrecision :: nat where
  "getPrecision = PRECISION_DECIMALS"

section \<open>PriceFeed.sol\<close>

definition zero_addr :: address where
  "zero_addr = replicate 20 (CHR 0x00)"

definition PRICE_DECIMALS :: nat where
  "PRICE_DECIMALS = 6"

definition PriceFeed_initialize :: "address \<Rightarrow> ('x potv, unit) act" where
  "PriceFeed_initialize sender =
     bnd (gets (\<lambda>s. feed_initialized (feed s))) (\<lambda>initialized.
     bnd (require (\<not> initialized) ''Initializable: contract is already initialized'') (\<lambda>_.
     with_feed (\<lambda>f. f\<lparr>feed_initialized := True, feed_owner := sender\<rparr>)))"

definition set_price :: "nat \<Rightarrow> address \<times> nat \<Rightarrow> ('x potv, unit) act" where
  "set_price timestamp = (\<lambda>(token, price).
     bnd (require (token \<noteq> zero_addr) ''PriceFeed: Invalid token address'') (\<lambda>_.
     bnd (require (0 < price) ''PriceFeed: Price must be positive'') (\<lambda>_.
     with_feed (\<lambda>f. f\<lparr>answers := (answers f)(token := price), lastUpdated := (lastUpdated f)(token := timestamp)\<rparr>))))"

definition setTokenPrices :: "nat \<Rightarrow> address \<Rightarrow> address list \<Rightarrow> nat list \<Rightarrow> ('x potv, unit) act" where
  "setTokenPrices timestamp sender tokens prices =
     bnd (gets (\<lambda>s. feed_owner (feed s))) (\<lambda>a.
     bnd (require (sender = a) ''Ownable: caller is not the owner'') (\<lambda>_.
     bnd (require (length tokens = length prices) ''PriceFeed: Input arrays must have the same length'') (\<lambda>_.
     for_each (set_price timestamp) (zip tokens prices))))"

definition latestAnswer :: "'x potv \<Rightarrow> address \<Rightarrow> nat res" where
  "latestAnswer s token =
     (if 0 < lastUpdated (feed s) token then Ok (answers (feed s) token) else revert ''PriceFeed: Price not set for this token'')"

definition getPriceDecimals :: nat where
  "getPriceDecimals = PRICE_DECIMALS"

definition latestUpdateTime :: "'x potv \<Rightarrow> address \<Rightarrow> nat" where
  "latestUpdateTime s token = lastUpdated (feed s) token"

section \<open>TUCUSD.sol\<close>

definition TUCUSD_initialize :: "address \<Rightarrow> address \<Rightarrow> ('x potv, unit) act" where
  "TUCUSD_initialize sender poolAddress =
     bnd (gets (\<lambda>s. usd_initialized (usd s))) (\<lambda>initialized.
     bnd (require (\<not> initialized) ''Initializable: contract is already initialized'') (\<lambda>_.
     with_usd (\<lambda>u. u\<lparr>usd_initialized := True, usd_owner := sender, usd_pool := poolAddress\<rparr>)))"

definition TUCUSD_setPool :: "address \<Rightarrow> address \<Rightarrow> ('x potv, unit) act" where
  "TUCUSD_setPool sender poolAddress =
     bnd (gets (\<lambda>s. usd_owner (usd s))) (\<lambda>a.
     bnd (require (sender = a) ''Ownable: caller is not the owner'') (\<lambda>_.
     with_usd (\<lambda>u. u\<lparr>usd_pool := poolAddress\<rparr>)))"

definition TUCUSD_mint :: "'x env \<Rightarrow> address \<Rightarrow> address \<Rightarrow> nat \<Rightarrow> ('x potv, unit) act" where
  "TUCUSD_mint E sender dest amount =
     bnd (gets (\<lambda>s. usd_pool (usd s))) (\<lambda>p.
     bnd (require (sender = p) ''Only pool can mint'') (\<lambda>_.
     on_tokens (usd_mint E dest amount)))"

definition TUCUSD_burn :: "'x env \<Rightarrow> address \<Rightarrow> address \<Rightarrow> nat \<Rightarrow> ('x potv, unit) act" where
  "TUCUSD_burn E sender src amount =
     bnd (gets (\<lambda>s. usd_pool (usd s))) (\<lambda>p.
     bnd (require (sender = p) ''Only pool can burn'') (\<lambda>_.
     on_tokens (usd_burn E src amount)))"

section \<open>Pool.sol\<close>

definition Pool_initialize :: "address \<Rightarrow> address \<Rightarrow> ('x potv, unit) act" where
  "Pool_initialize sender configAddress =
     bnd (gets (\<lambda>s. pool_initialized (pool s))) (\<lambda>initialized.
     bnd (require (\<not> initialized) ''Initializable: contract is already initialized'') (\<lambda>_.
     with_pool (\<lambda>p. p\<lparr>pool_initialized := True, pool_owner := sender, pool_config := configAddress\<rparr>)))"

definition pool_onlyOwner :: "address \<Rightarrow> ('x potv, unit) act" where
  "pool_onlyOwner sender = bnd (gets (\<lambda>s. pool_owner (pool s))) (\<lambda>a. require (sender = a) ''Ownable: caller is not the owner'')"

definition pool_onlyLend :: "address \<Rightarrow> ('x potv, unit) act" where
  "pool_onlyLend sender =
     bnd (gets (\<lambda>s. pool_lend (pool s))) (\<lambda>a. require (sender = a) ''Pool: Only Lend contract can call this function'')"

definition setUsdAddress :: "address \<Rightarrow> address \<Rightarrow> ('x potv, unit) act" where
  "setUsdAddress sender a = bnd (pool_onlyOwner sender) (\<lambda>_. with_pool (\<lambda>p. p\<lparr>usdToken := a\<rparr>))"

definition Pool_setLendContract :: "address \<Rightarrow> address \<Rightarrow> ('x potv, unit) act" where
  "Pool_setLendContract sender a = bnd (pool_onlyOwner sender) (\<lambda>_. with_pool (\<lambda>p. p\<lparr>pool_lend := a\<rparr>))"

definition increasePoolToken :: "'x env \<Rightarrow> address \<Rightarrow> address \<Rightarrow> address \<Rightarrow> nat \<Rightarrow> ('x potv, unit) act" where
  "increasePoolToken E sender user token amount =
     bnd (pool_onlyLend sender) (\<lambda>_.
     bnd (call (\<lambda>s. pool_config (pool s)) (config_at E) (gets (\<lambda>s. isWhitelistToken s token))) (\<lambda>found.
     bnd (require found ''Pool: Not a whitelisted token'') (\<lambda>_.
     bnd (view (\<lambda>s. add_u (userSupply (pool s) token user) amount)) (\<lambda>n.
     bnd (with_pool (\<lambda>p. p\<lparr>userSupply := (userSupply p)(token := (userSupply p token)(user := n))\<rparr>)) (\<lambda>_.
     bnd (view (\<lambda>s. add_u (totalSupply (pool s) token) amount)) (\<lambda>m.
     with_pool (\<lambda>p. p\<lparr>totalSupply := (totalSupply p)(token := m)\<rparr>)))))))"

definition decreasePoolToken :: "'x env \<Rightarrow> address \<Rightarrow> address \<Rightarrow> address \<Rightarrow> address \<Rightarrow> nat \<Rightarrow> ('x potv, unit) act" where
  "decreasePoolToken E sender user receiver token amount =
     bnd (pool_onlyLend sender) (\<lambda>_.
     bnd (gets (\<lambda>s. userSupply (pool s) token user)) (\<lambda>balance.
     bnd (require (amount \<le> balance) ''Pool: Insufficient balance'') (\<lambda>_.
     bnd (lift (sub_u balance amount)) (\<lambda>n.
     bnd (with_pool (\<lambda>p. p\<lparr>userSupply := (userSupply p)(token := (userSupply p token)(user := n))\<rparr>)) (\<lambda>_.
     bnd (view (\<lambda>s. sub_u (totalSupply (pool s) token) amount)) (\<lambda>m.
     bnd (with_pool (\<lambda>p. p\<lparr>totalSupply := (totalSupply p)(token := m)\<rparr>)) (\<lambda>_.
     on_tokens (safeTransfer E token (pool_at E) receiver amount))))))))"

definition liquidate_token :: "address \<Rightarrow> address \<Rightarrow> address \<Rightarrow> ('x potv, unit) act" where
  "liquidate_token src dest token =
     bnd (gets (\<lambda>s. userSupply (pool s) token src)) (\<lambda>srcBalance.
     if 0 < srcBalance then
       bnd (with_pool (\<lambda>p. p\<lparr>userSupply := (userSupply p)(token := (userSupply p token)(src := 0))\<rparr>)) (\<lambda>_.
       bnd (view (\<lambda>s. add_u (userSupply (pool s) token dest) srcBalance)) (\<lambda>n.
       with_pool (\<lambda>p. p\<lparr>userSupply := (userSupply p)(token := (userSupply p token)(dest := n))\<rparr>)))
     else ret ())"

definition liquidateTokens :: "'x env \<Rightarrow> address \<Rightarrow> address \<Rightarrow> address \<Rightarrow> ('x potv, unit) act" where
  "liquidateTokens E sender src dest =
     bnd (pool_onlyLend sender) (\<lambda>_.
     bnd (call (\<lambda>s. pool_config (pool s)) (config_at E) (gets getAllWhitelistTokens)) (\<lambda>whitelistTokens.
     for_each (liquidate_token src dest) whitelistTokens))"

definition mint_at :: "'x env \<Rightarrow> address \<Rightarrow> address \<Rightarrow> nat \<Rightarrow> ('x potv, unit) act" where
  "mint_at E token user amount =
     (if token = usd_at E then TUCUSD_mint E (pool_at E) user amount else on_tokens (other_mint E token user amount))"

definition burn_at :: "'x env \<Rightarrow> address \<Rightarrow> address \<Rightarrow> nat \<Rightarrow> ('x potv, unit) act" where
  "burn_at E token user amount =
     (if token = usd_at E then TUCUSD_burn E (pool_at E) user amount else on_tokens (other_burn E token user amount))"

definition borrowUSD :: "'x env \<Rightarrow> address \<Rightarrow> address \<Rightarrow> nat \<Rightarrow> ('x potv, unit) act" where
  "borrowUSD E sender user amount =
     bnd (pool_onlyLend sender) (\<lambda>_.
     bnd (view (\<lambda>s. add_u (userBorrow (pool s) user) amount)) (\<lambda>n.
     bnd (with_pool (\<lambda>p. p\<lparr>userBorrow := (userBorrow p)(user := n)\<rparr>)) (\<lambda>_.
     bnd (view (\<lambda>s. add_u (totalBorrow (pool s)) amount)) (\<lambda>m.
     bnd (with_pool (\<lambda>p. p\<lparr>totalBorrow := m\<rparr>)) (\<lambda>_.
     bnd (gets (\<lambda>s. usdToken (pool s))) (\<lambda>token.
     mint_at E token user amount))))))"

definition repayUSD :: "'x env \<Rightarrow> address \<Rightarrow> address \<Rightarrow> address \<Rightarrow> nat \<Rightarrow> ('x potv, unit) act" where
  "repayUSD E sender repayer repaidUser amount =
     bnd (pool_onlyLend sender) (\<lambda>_.
     bnd (gets (\<lambda>s. userBorrow (pool s) repaidUser)) (\<lambda>debt.
     bnd (require (amount \<le> debt) ''Pool: Exceed borrow amount'') (\<lambda>_.
     bnd (lift (sub_u debt amount)) (\<lambda>n.
     bnd (with_pool (\<lambda>p. p\<lparr>userBorrow := (userBorrow p)(repaidUser := n)\<rparr>)) (\<lambda>_.
     bnd (view (\<lambda>s. sub_u (totalBorrow (pool s)) amount)) (\<lambda>m.
     bnd (with_pool (\<lambda>p. p\<lparr>totalBorrow := m\<rparr>)) (\<lambda>_.
     bnd (gets (\<lambda>s. usdToken (pool s))) (\<lambda>token.
     burn_at E token repayer amount))))))))"

definition getUserTokenSupply :: "'x potv \<Rightarrow> address \<Rightarrow> address \<Rightarrow> nat" where
  "getUserTokenSupply s user tokenType = userSupply (pool s) tokenType user"

definition getUserTotalBorrow :: "'x potv \<Rightarrow> address \<Rightarrow> nat" where
  "getUserTotalBorrow s user = userBorrow (pool s) user"

definition getSystemTokenTotalSupply :: "'x potv \<Rightarrow> address \<Rightarrow> nat" where
  "getSystemTokenTotalSupply s tokenType = totalSupply (pool s) tokenType"

definition getSystemTotalBorrowed :: "'x potv \<Rightarrow> nat" where
  "getSystemTotalBorrowed s = totalBorrow (pool s)"

section \<open>ChainContract.sol\<close>

definition MIGRATE_STAKE_LIMIT :: nat where
  "MIGRATE_STAKE_LIMIT = 500"

definition Chain_initialize :: "address \<Rightarrow> address \<Rightarrow> ('x potv, unit) act" where
  "Chain_initialize sender configAddress =
     bnd (gets (\<lambda>s. chain_initialized (chain s))) (\<lambda>initialized.
     bnd (require (\<not> initialized) ''Initializable: contract is already initialized'') (\<lambda>_.
     with_chain (\<lambda>c. c\<lparr>chain_initialized := True, chain_owner := sender, chain_config := configAddress\<rparr>)))"

definition chain_onlyOwner :: "address \<Rightarrow> ('x potv, unit) act" where
  "chain_onlyOwner sender = bnd (gets (\<lambda>s. chain_owner (chain s))) (\<lambda>a. require (sender = a) ''Ownable: caller is not the owner'')"

definition chain_onlyLend :: "address \<Rightarrow> ('x potv, unit) act" where
  "chain_onlyLend sender =
     bnd (gets (\<lambda>s. chain_lend (chain s))) (\<lambda>a. require (sender = a) ''ChainContract: Only Lend contract can call this function'')"

definition Chain_setLendContract :: "address \<Rightarrow> address \<Rightarrow> ('x potv, unit) act" where
  "Chain_setLendContract sender a = bnd (chain_onlyOwner sender) (\<lambda>_. with_chain (\<lambda>c. c\<lparr>chain_lend := a\<rparr>))"

text \<open>
  The first loop of setValidators removes the validator at \<open>i\<close> while \<open>i\<close> is below the
  current length. No iteration makes the set larger, so as many steps as there are
  validators are enough.
\<close>

fun remove_loop :: "'x env \<Rightarrow> nat \<Rightarrow> nat \<Rightarrow> address list \<Rightarrow> address list res" where
  "remove_loop E fuel i vs =
     (if length vs \<le> i then Ok vs
      else case fuel of 0 \<Rightarrow> Panic ''out of fuel'' | Suc n \<Rightarrow> remove_loop E n (i + 1) (set_remove E (vs ! i) vs))"

definition setValidators :: "'x env \<Rightarrow> address \<Rightarrow> address list \<Rightarrow> ('x potv, unit) act" where
  "setValidators E sender newValidators =
     bnd (chain_onlyOwner sender) (\<lambda>_.
     bnd (view (\<lambda>s. remove_loop E (length (validators (chain s))) 0 (validators (chain s)))) (\<lambda>vs.
     bnd (with_chain (\<lambda>c. c\<lparr>validators := vs\<rparr>)) (\<lambda>_.
     for_each (\<lambda>v. with_chain (\<lambda>c. c\<lparr>validators := set_add E v (validators c)\<rparr>)) newValidators)))"

definition stake_add :: "address \<Rightarrow> address \<Rightarrow> address \<Rightarrow> nat \<Rightarrow> ('x potv, unit) act" where
  "stake_add user validator tokenType amount =
     bnd (view (\<lambda>s. add_u (userStakes (chain s) user validator tokenType) amount)) (\<lambda>n.
     bnd (with_chain (\<lambda>c. c\<lparr>userStakes := (userStakes c)(user := (userStakes c user)(validator :=
            (userStakes c user validator)(tokenType := n)))\<rparr>)) (\<lambda>_.
     bnd (view (\<lambda>s. add_u (validatorStakes (chain s) validator tokenType) amount)) (\<lambda>m.
     with_chain (\<lambda>c. c\<lparr>validatorStakes := (validatorStakes c)(validator := (validatorStakes c validator)(tokenType := m))\<rparr>))))"

definition stake_sub :: "address \<Rightarrow> address \<Rightarrow> address \<Rightarrow> nat \<Rightarrow> ('x potv, unit) act" where
  "stake_sub user validator tokenType amount =
     bnd (view (\<lambda>s. sub_u (userStakes (chain s) user validator tokenType) amount)) (\<lambda>n.
     bnd (with_chain (\<lambda>c. c\<lparr>userStakes := (userStakes c)(user := (userStakes c user)(validator :=
            (userStakes c user validator)(tokenType := n)))\<rparr>)) (\<lambda>_.
     bnd (view (\<lambda>s. sub_u (validatorStakes (chain s) validator tokenType) amount)) (\<lambda>m.
     with_chain (\<lambda>c. c\<lparr>validatorStakes := (validatorStakes c)(validator := (validatorStakes c validator)(tokenType := m))\<rparr>))))"

definition add_staked_user :: "'x env \<Rightarrow> address \<Rightarrow> address \<Rightarrow> ('x potv, unit) act" where
  "add_staked_user E validator user =
     with_chain (\<lambda>c. c\<lparr>validatorStakedUsers := (validatorStakedUsers c)(validator := set_add E user (validatorStakedUsers c validator))\<rparr>)"

definition remove_staked_user :: "'x env \<Rightarrow> address \<Rightarrow> address \<Rightarrow> ('x potv, unit) act" where
  "remove_staked_user E validator user =
     with_chain (\<lambda>c. c\<lparr>validatorStakedUsers := (validatorStakedUsers c)(validator := set_remove E user (validatorStakedUsers c validator))\<rparr>)"

definition stakeToken :: "'x env \<Rightarrow> address \<Rightarrow> address \<Rightarrow> address \<Rightarrow> address \<Rightarrow> nat \<Rightarrow> ('x potv, unit) act" where
  "stakeToken E sender user validator tokenType amount =
     bnd (chain_onlyLend sender) (\<lambda>_.
     bnd (gets (\<lambda>s. validator \<in> set (validators (chain s)))) (\<lambda>found.
     bnd (require found ''ChainContract: Invalid validator'') (\<lambda>_.
     bnd (stake_add user validator tokenType amount) (\<lambda>_.
     add_staked_user E validator user))))"

definition unstakeToken :: "'x env \<Rightarrow> address \<Rightarrow> address \<Rightarrow> address \<Rightarrow> address \<Rightarrow> nat \<Rightarrow> ('x potv, unit) act" where
  "unstakeToken E sender user validator tokenType amount =
     bnd (chain_onlyLend sender) (\<lambda>_.
     bnd (gets (\<lambda>s. userStakes (chain s) user validator tokenType)) (\<lambda>stake.
     bnd (require (amount \<le> stake) ''ChainContract: Insufficient stake'') (\<lambda>_.
     bnd (stake_sub user validator tokenType amount) (\<lambda>_.
     bnd (gets (\<lambda>s. userStakes (chain s) user validator tokenType)) (\<lambda>left.
     if left = 0 then remove_staked_user E validator user else ret ())))))"

definition move_stake :: "address \<Rightarrow> address \<Rightarrow> address \<Rightarrow> address \<Rightarrow> address \<Rightarrow> ('x potv, unit) act" where
  "move_stake user validator user' validator' tokenType =
     bnd (gets (\<lambda>s. userStakes (chain s) user validator tokenType)) (\<lambda>stakeAmount.
     if 0 < stakeAmount then
       bnd (stake_sub user validator tokenType stakeAmount) (\<lambda>_.
       stake_add user' validator' tokenType stakeAmount)
     else ret ())"

definition liquidatePosition :: "'x env \<Rightarrow> address \<Rightarrow> address \<Rightarrow> address \<Rightarrow> ('x potv, unit) act" where
  "liquidatePosition E sender liquidator liquidatedParty =
     bnd (chain_onlyLend sender) (\<lambda>_.
     bnd (call (\<lambda>s. chain_config (chain s)) (config_at E) (gets getAllWhitelistTokens)) (\<lambda>whitelistTokens.
     bnd (gets (\<lambda>s. validators (chain s))) (\<lambda>vs.
     for_each (\<lambda>validator.
       for_each (\<lambda>tokenType. move_stake liquidatedParty validator liquidator validator tokenType) whitelistTokens) vs)))"

definition migrate_user :: "'x env \<Rightarrow> address \<Rightarrow> address \<Rightarrow> address list \<Rightarrow> address \<Rightarrow> ('x potv, unit) act" where
  "migrate_user E deletedValidator newValidator whitelistTokens user =
     bnd (for_each (\<lambda>tokenType. move_stake user deletedValidator user newValidator tokenType) whitelistTokens) (\<lambda>_.
     bnd (remove_staked_user E deletedValidator user) (\<lambda>_.
     add_staked_user E newValidator user))"

definition Chain_migrateStakes :: "'x env \<Rightarrow> address \<Rightarrow> address \<Rightarrow> address \<Rightarrow> nat \<Rightarrow> ('x potv, unit) act" where
  "Chain_migrateStakes E sender deletedValidator newValidator deleteAmount =
     bnd (chain_onlyLend sender) (\<lambda>_.
     bnd (require (deleteAmount \<le> MIGRATE_STAKE_LIMIT) ''ChainContract: Exceeds migration limit'') (\<lambda>_.
     bnd (with_chain (\<lambda>c. if newValidator \<in> set (validators c) then c
            else c\<lparr>validators := set_add E newValidator (validators c)\<rparr>)) (\<lambda>_.
     if deleteAmount = 0 then with_chain (\<lambda>c. c\<lparr>validators := set_remove E deletedValidator (validators c)\<rparr>)
     else
       bnd (gets (\<lambda>s. validatorStakedUsers (chain s) deletedValidator)) (\<lambda>stakedUsers.
       bnd (call (\<lambda>s. chain_config (chain s)) (config_at E) (gets getAllWhitelistTokens)) (\<lambda>whitelistTokens.
       bnd (for_each (migrate_user E deletedValidator newValidator whitelistTokens) (take deleteAmount stakedUsers)) (\<lambda>_.
       with_chain (\<lambda>c. if length (validatorStakedUsers c deletedValidator) = 0
         then c\<lparr>validators := set_remove E deletedValidator (validators c)\<rparr> else c)))))))"

definition getValidators :: "'x potv \<Rightarrow> address list" where
  "getValidators s = validators (chain s)"

definition containsValidator :: "'x potv \<Rightarrow> address \<Rightarrow> bool" where
  "containsValidator s validator = (validator \<in> set (validators (chain s)))"

definition getValidatorStakedUsers :: "'x potv \<Rightarrow> address \<Rightarrow> address list" where
  "getValidatorStakedUsers s validator = validatorStakedUsers (chain s) validator"

definition getStakedUsers :: "'x potv \<Rightarrow> address \<Rightarrow> nat" where
  "getStakedUsers s validator = length (validatorStakedUsers (chain s) validator)"

definition getUserValidatorTokenStake :: "'x potv \<Rightarrow> address \<Rightarrow> address \<Rightarrow> address \<Rightarrow> nat" where
  "getUserValidatorTokenStake s user validator tokenType = userStakes (chain s) user validator tokenType"

definition getValidatorTokenStake :: "'x potv \<Rightarrow> address \<Rightarrow> address \<Rightarrow> nat" where
  "getValidatorTokenStake s validator tokenType = validatorStakes (chain s) validator tokenType"

definition getMigrateStakeLimit :: nat where
  "getMigrateStakeLimit = MIGRATE_STAKE_LIMIT"

section \<open>Reward.sol\<close>

definition Reward_initialize :: "address \<Rightarrow> address \<Rightarrow> address \<Rightarrow> ('x potv, unit) act" where
  "Reward_initialize sender configAddress poolAddress =
     bnd (gets (\<lambda>s. reward_initialized (reward s))) (\<lambda>initialized.
     bnd (require (\<not> initialized) ''Initializable: contract is already initialized'') (\<lambda>_.
     with_reward (\<lambda>r. r\<lparr>reward_initialized := True, reward_owner := sender, reward_config := configAddress,
       reward_pool := poolAddress\<rparr>)))"

definition reward_onlyOwner :: "address \<Rightarrow> ('x potv, unit) act" where
  "reward_onlyOwner sender = bnd (gets (\<lambda>s. reward_owner (reward s))) (\<lambda>a. require (sender = a) ''Ownable: caller is not the owner'')"

definition Reward_setLendContract :: "address \<Rightarrow> address \<Rightarrow> ('x potv, unit) act" where
  "Reward_setLendContract sender a = bnd (reward_onlyOwner sender) (\<lambda>_. with_reward (\<lambda>r. r\<lparr>lendAddress := a\<rparr>))"

definition getRewardPerTokenStored :: "'x potv \<Rightarrow> address \<Rightarrow> address \<Rightarrow> nat" where
  "getRewardPerTokenStored s rewardToken lpToken = rewardPerTokenStored (reward s) rewardToken lpToken"

definition getUserRewardPaid :: "'x potv \<Rightarrow> address \<Rightarrow> address \<Rightarrow> address \<Rightarrow> nat" where
  "getUserRewardPaid s user rewardToken lpToken = userRewardPerTokenPaid (reward s) user rewardToken lpToken"

fun earned_loop :: "'x env \<Rightarrow> 'x potv \<Rightarrow> address \<Rightarrow> address \<Rightarrow> nat \<Rightarrow> address list \<Rightarrow> nat res" where
  "earned_loop E s user rewardToken totalEarned [] = Ok totalEarned"
| "earned_loop E s user rewardToken totalEarned (lpToken # lpTokens) =
     rbind (static_call (reward_pool (reward s)) (pool_at E) (Ok (getUserTokenSupply s user lpToken))) (\<lambda>userTokenSupply.
     rbind (sub_u (getRewardPerTokenStored s rewardToken lpToken) (getUserRewardPaid s user rewardToken lpToken)) (\<lambda>diff.
     rbind (mul_u userTokenSupply diff) (\<lambda>product.
     rbind (pow10 getPrecision) (\<lambda>precision.
     rbind (div_u product precision) (\<lambda>share.
     rbind (add_u totalEarned share) (\<lambda>total.
     earned_loop E s user rewardToken total lpTokens))))))"

definition earned :: "'x env \<Rightarrow> 'x potv \<Rightarrow> address \<Rightarrow> address \<Rightarrow> nat res" where
  "earned E s user rewardToken =
     static_call (reward_config (reward s)) (config_at E) (earned_loop E s user rewardToken 0 (getAllWhitelistTokens s))"

definition updateUserRewardPerTokenPaid :: "address \<Rightarrow> address \<Rightarrow> address \<Rightarrow> ('x potv, unit) act" where
  "updateUserRewardPerTokenPaid user rewardToken lpToken =
     bnd (gets (\<lambda>s. getRewardPerTokenStored s rewardToken lpToken)) (\<lambda>stored.
     with_reward (\<lambda>r. r\<lparr>userRewardPerTokenPaid := (userRewardPerTokenPaid r)(user := (userRewardPerTokenPaid r user)(rewardToken :=
       (userRewardPerTokenPaid r user rewardToken)(lpToken := stored)))\<rparr>))"

definition set_reward :: "address \<Rightarrow> address \<Rightarrow> nat \<Rightarrow> ('x potv, unit) act" where
  "set_reward user rewardToken n =
     with_reward (\<lambda>r. r\<lparr>rewards := (rewards r)(user := (rewards r user)(rewardToken := n))\<rparr>)"

definition update_token_reward :: "'x env \<Rightarrow> address \<Rightarrow> address \<Rightarrow> ('x potv, unit) act" where
  "update_token_reward E user rewardToken =
     bnd (view (\<lambda>s. earned E s user rewardToken)) (\<lambda>earnedAmount.
     bnd (view (\<lambda>s. add_u (rewards (reward s) user rewardToken) earnedAmount)) (\<lambda>n.
     bnd (set_reward user rewardToken n) (\<lambda>_.
     bnd (gets getAllWhitelistTokens) (\<lambda>lpTokens.
     for_each (updateUserRewardPerTokenPaid user rewardToken) lpTokens))))"

definition updateReward :: "'x env \<Rightarrow> address \<Rightarrow> ('x potv, unit) act" where
  "updateReward E user =
     bnd (gets (\<lambda>s. rewardTokens (reward s))) (\<lambda>tokens.
     for_each (update_token_reward E user) tokens)"

definition claimReward :: "'x env \<Rightarrow> address \<Rightarrow> address \<Rightarrow> ('x potv, unit) act" where
  "claimReward E sender rewardToken =
     bnd (updateReward E sender) (\<lambda>_.
     bnd (gets (\<lambda>s. rewards (reward s) sender rewardToken)) (\<lambda>amount.
     if 0 < amount then
       bnd (set_reward sender rewardToken 0) (\<lambda>_.
       on_tokens (safeTransfer E rewardToken (reward_at E) sender amount))
     else ret ()))"

definition claimableReward :: "'x env \<Rightarrow> 'x potv \<Rightarrow> address \<Rightarrow> address \<Rightarrow> nat res" where
  "claimableReward E s user rewardToken = rbind (earned E s user rewardToken) (add_u (rewards (reward s) user rewardToken))"

definition updateRewardPerTokenStored :: "address \<Rightarrow> address \<Rightarrow> nat \<Rightarrow> ('x potv, unit) act" where
  "updateRewardPerTokenStored rewardToken lpToken rewardPerToken =
     bnd (view (\<lambda>s. add_u (rewardPerTokenStored (reward s) rewardToken lpToken) rewardPerToken)) (\<lambda>n.
     with_reward (\<lambda>r. r\<lparr>rewardPerTokenStored := (rewardPerTokenStored r)(rewardToken := (rewardPerTokenStored r rewardToken)(lpToken := n))\<rparr>))"

text \<open>The rows of the amounts are only as long as the caller made them; reading past one panics.\<close>

fun distribute_row :: "'x env \<Rightarrow> address \<Rightarrow> address list \<Rightarrow> nat list \<Rightarrow> nat \<Rightarrow> ('x potv, nat) act" where
  "distribute_row E rewardToken [] row acc = ret acc"
| "distribute_row E rewardToken (lpToken # lpTokens) [] acc = panic ''index out of range''"
| "distribute_row E rewardToken (lpToken # lpTokens) (rewardAmount # row) acc =
     bnd (call (\<lambda>s. reward_pool (reward s)) (pool_at E) (gets (\<lambda>s. totalSupply (pool s) lpToken))) (\<lambda>totalTokenSupply.
     if totalTokenSupply = 0 then distribute_row E rewardToken lpTokens row acc
     else
       bnd (call (\<lambda>s. reward_config (reward s)) (config_at E) (lift (rbind (pow10 getPrecision) (mul_u rewardAmount)))) (\<lambda>scaled.
       bnd (lift (div_u scaled totalTokenSupply)) (\<lambda>perTokenRewardIncrease.
       bnd (lift (add_u acc rewardAmount)) (\<lambda>totalRewardAmount.
       bnd (updateRewardPerTokenStored rewardToken lpToken perTokenRewardIncrease) (\<lambda>_.
       distribute_row E rewardToken lpTokens row totalRewardAmount)))))"

definition distribute_token :: "'x env \<Rightarrow> address \<Rightarrow> address list \<Rightarrow> address \<times> nat list \<Rightarrow> ('x potv, unit) act" where
  "distribute_token E sender lpTokens = (\<lambda>(rewardToken, row).
     bnd (distribute_row E rewardToken lpTokens row 0) (\<lambda>totalRewardAmount.
     if 0 < totalRewardAmount
     then on_tokens (safeTransferFrom E rewardToken (reward_at E) sender (reward_at E) totalRewardAmount)
     else ret ()))"

definition distributeReward :: "'x env \<Rightarrow> address \<Rightarrow> address list \<Rightarrow> address list \<Rightarrow> nat list list \<Rightarrow> ('x potv, unit) act" where
  "distributeReward E sender tokens lpTokens amounts =
     bnd (reward_onlyOwner sender) (\<lambda>_.
     bnd (require (length tokens = length amounts) ''Reward: Length mismatch'') (\<lambda>_.
     case amounts of [] \<Rightarrow> panic ''index out of range''
     | row0 # rows \<Rightarrow>
         bnd (require (length lpTokens = length row0) ''Reward: Length mismatch'') (\<lambda>_.
         for_each (distribute_token E sender lpTokens) (zip tokens amounts))))"

definition getAllRewardTokens :: "'x potv \<Rightarrow> address list" where
  "getAllRewardTokens s = rewardTokens (reward s)"

definition addRewardToken :: "'x env \<Rightarrow> address \<Rightarrow> address \<Rightarrow> ('x potv, unit) act" where
  "addRewardToken E sender rewardToken =
     bnd (reward_onlyOwner sender) (\<lambda>_. with_reward (\<lambda>r. r\<lparr>rewardTokens := set_add E rewardToken (rewardTokens r)\<rparr>))"

definition removeRewardToken :: "'x env \<Rightarrow> address \<Rightarrow> address \<Rightarrow> ('x potv, unit) act" where
  "removeRewardToken E sender rewardToken =
     bnd (reward_onlyOwner sender) (\<lambda>_. with_reward (\<lambda>r. r\<lparr>rewardTokens := set_remove E rewardToken (rewardTokens r)\<rparr>))"

section \<open>Lend.sol\<close>

definition Lend_initialize :: "address \<Rightarrow> address \<Rightarrow> address \<Rightarrow> address \<Rightarrow> address \<Rightarrow> address \<Rightarrow> address \<Rightarrow>
    ('x potv, unit) act" where
  "Lend_initialize sender chainAddress poolAddress configAddress rewardAddress priceFeedAddress usdAddress =
     bnd (gets (\<lambda>s. lend_initialized (lend s))) (\<lambda>initialized.
     bnd (require (\<not> initialized) ''Initializable: contract is already initialized'') (\<lambda>_.
     with_lend (\<lambda>l. l\<lparr>lend_initialized := True, lend_owner := sender, lend_paused := False, lend_chain := chainAddress,
       lend_pool := poolAddress, lend_config := configAddress, lend_reward := rewardAddress, lend_priceFeed := priceFeedAddress,
       lend_usd := usdAddress\<rparr>)))"

definition lend_onlyOwner :: "address \<Rightarrow> ('x potv, unit) act" where
  "lend_onlyOwner sender = bnd (gets (\<lambda>s. lend_owner (lend s))) (\<lambda>a. require (sender = a) ''Ownable: caller is not the owner'')"

definition whenNotPaused :: "('x potv, unit) act" where
  "whenNotPaused = bnd (gets (\<lambda>s. lend_paused (lend s))) (\<lambda>p. require (\<not> p) ''Pausable: paused'')"

definition onlyPlugin :: "address \<Rightarrow> ('x potv, unit) act" where
  "onlyPlugin sender = bnd (gets (\<lambda>s. plugin (lend s) sender)) (\<lambda>p. require p ''Lend: Only plugin can call this function'')"

definition setPlugin :: "address \<Rightarrow> address \<Rightarrow> bool \<Rightarrow> ('x potv, unit) act" where
  "setPlugin sender p isPlugin = bnd (lend_onlyOwner sender) (\<lambda>_. with_lend (\<lambda>l. l\<lparr>plugin := (plugin l)(p := isPlugin)\<rparr>))"

text \<open>The calls Lend makes to the other contracts.\<close>

definition to_pool :: "'x env \<Rightarrow> ('x potv, 'a) act \<Rightarrow> ('x potv, 'a) act" where
  "to_pool E = call (\<lambda>s. lend_pool (lend s)) (pool_at E)"

definition to_chain :: "'x env \<Rightarrow> ('x potv, 'a) act \<Rightarrow> ('x potv, 'a) act" where
  "to_chain E = call (\<lambda>s. lend_chain (lend s)) (chain_at E)"

definition to_reward :: "'x env \<Rightarrow> ('x potv, 'a) act \<Rightarrow> ('x potv, 'a) act" where
  "to_reward E = call (\<lambda>s. lend_reward (lend s)) (reward_at E)"

definition to_config :: "'x env \<Rightarrow> ('x potv, 'a) act \<Rightarrow> ('x potv, 'a) act" where
  "to_config E = call (\<lambda>s. lend_config (lend s)) (config_at E)"

definition getTokenPrice :: "'x env \<Rightarrow> 'x potv \<Rightarrow> address \<Rightarrow> nat res" where
  "getTokenPrice E s tokenType =
     rbind (static_call (lend_priceFeed (lend s)) (feed_at E) (latestAnswer s tokenType)) (\<lambda>price.
     let decimals = getPriceDecimals in
     rbind (static_call (lend_config (lend s)) (config_at E) (Ok getPrecision)) (\<lambda>systemDecimals.
     if decimals < systemDecimals then rbind (pow10 (systemDecimals - decimals)) (mul_u price)
     else rbind (pow10 (decimals - systemDecimals)) (div_u price)))"

fun supply_usd :: "'x env \<Rightarrow> 'x potv \<Rightarrow> address \<Rightarrow> nat \<Rightarrow> address list \<Rightarrow> nat res" where
  "supply_usd E s user usdValue [] = Ok usdValue"
| "supply_usd E s user usdValue (token # tokens) =
     rbind (static_call (lend_pool (lend s)) (pool_at E) (Ok (getUserTokenSupply s user token))) (\<lambda>userTokenSupply.
     rbind (getTokenPrice E s token) (\<lambda>price.
     rbind (getTokenDecimals E s token) (\<lambda>tokenDecimals.
     rbind (mul_u userTokenSupply price) (\<lambda>product.
     rbind (pow10 tokenDecimals) (\<lambda>unit_amount.
     rbind (div_u product unit_amount) (\<lambda>token_value.
     rbind (add_u usdValue token_value) (\<lambda>sum_value.
     supply_usd E s user sum_value tokens)))))))"

definition getUserSupplyTotalUSD :: "'x env \<Rightarrow> 'x potv \<Rightarrow> address \<Rightarrow> nat res" where
  "getUserSupplyTotalUSD E s user =
     static_call (lend_config (lend s)) (config_at E) (supply_usd E s user 0 (getAllWhitelistTokens s))"

definition getUserBorrowTotalUSD :: "'x env \<Rightarrow> 'x potv \<Rightarrow> address \<Rightarrow> nat res" where
  "getUserBorrowTotalUSD E s user =
     rbind (static_call (lend_pool (lend s)) (pool_at E) (Ok (getUserTotalBorrow s user))) (\<lambda>userTokenBorrow.
     rbind (static_call (lend_usd (lend s)) (usd_at E) (Ok (usd_decimals E))) (\<lambda>usdDecimals.
     rbind (static_call (lend_config (lend s)) (config_at E) (pow10 getPrecision)) (\<lambda>precision.
     rbind (mul_u userTokenBorrow precision) (\<lambda>scaled.
     rbind (pow10 usdDecimals) (div_u scaled)))))"

definition getUserCollateralRatio :: "'x env \<Rightarrow> 'x potv \<Rightarrow> address \<Rightarrow> nat res" where
  "getUserCollateralRatio E s user =
     rbind (static_call (lend_config (lend s)) (config_at E) (pow10 getPrecision)) (\<lambda>precision.
     rbind (getUserBorrowTotalUSD E s user) (\<lambda>borrowed.
     rbind (getUserSupplyTotalUSD E s user) (\<lambda>supplied.
     if borrowed = 0 \<and> supplied \<noteq> 0 then Ok max_uint
     else rbind (mul_u supplied precision) (\<lambda>scaled. div_u scaled borrowed))))"

definition getTokenMaxWithdrawable :: "'x env \<Rightarrow> 'x potv \<Rightarrow> address \<Rightarrow> address \<Rightarrow> nat res" where
  "getTokenMaxWithdrawable E s user tokenType =
     rbind (getUserBorrowTotalUSD E s user) (\<lambda>borrowUSD.
     rbind (pow10 getPrecision) (\<lambda>precision.
     rbind (mul_u (getMCR s) borrowUSD) (\<lambda>required.
     rbind (div_u required precision) (\<lambda>minCollateralUSDValue.
     rbind (getTokenPrice E s tokenType) (\<lambda>tokenPrice.
     rbind (getTokenDecimals E s tokenType) (\<lambda>tokenDecimals.
     rbind (pow10 tokenDecimals) (\<lambda>unit_amount.
     rbind (mul_u minCollateralUSDValue unit_amount) (\<lambda>scaled.
     rbind (div_u scaled tokenPrice) (\<lambda>minCollateralAmount.
     let userSupplyAmount = getUserTokenSupply s user tokenType in
     if userSupplyAmount < minCollateralAmount then Ok 0
     else sub_u userSupplyAmount minCollateralAmount)))))))))"

definition getUserMaxBorrowable :: "'x env \<Rightarrow> 'x potv \<Rightarrow> address \<Rightarrow> nat res" where
  "getUserMaxBorrowable E s user =
     rbind (getUserSupplyTotalUSD E s user) (\<lambda>supplyUSD.
     rbind (pow10 getPrecision) (\<lambda>precision.
     rbind (mul_u supplyUSD precision) (\<lambda>scaled.
     rbind (div_u scaled (getMCR s)) (\<lambda>maxBorrowUSDValue.
     rbind (getUserBorrowTotalUSD E s user) (\<lambda>currentBorrowUSDValue.
     if maxBorrowUSDValue \<le> currentBorrowUSDValue then Ok 0
     else
       rbind (sub_u maxBorrowUSDValue currentBorrowUSDValue) (\<lambda>left.
       rbind (pow10 (usd_decimals E)) (\<lambda>unit_amount.
       rbind (mul_u left unit_amount) (\<lambda>n.
       div_u n precision))))))))"

definition lend_supply :: "'x env \<Rightarrow> address \<Rightarrow> address \<Rightarrow> address \<Rightarrow> nat \<Rightarrow> address \<Rightarrow> ('x potv, unit) act" where
  "lend_supply E sender user tokenType amount validator =
     bnd (to_reward E (updateReward E user)) (\<lambda>_.
     bnd (to_config E (gets (\<lambda>s. isWhitelistToken s tokenType))) (\<lambda>found.
     bnd (require found ''Lend: Not whitelisted token'') (\<lambda>_.
     bnd (gets (\<lambda>s. lend_pool (lend s))) (\<lambda>poolAddress.
     bnd (on_tokens (safeTransferFrom E tokenType (lend_at E) sender poolAddress amount)) (\<lambda>_.
     bnd (to_pool E (increasePoolToken E (lend_at E) user tokenType amount)) (\<lambda>_.
     to_chain E (stakeToken E (lend_at E) user validator tokenType amount)))))))"

definition lend_withdraw :: "'x env \<Rightarrow> address \<Rightarrow> address \<Rightarrow> address \<Rightarrow> nat \<Rightarrow> address \<Rightarrow> ('x potv, unit) act" where
  "lend_withdraw E user receiver tokenType amount validator =
     bnd (to_reward E (updateReward E user)) (\<lambda>_.
     bnd (view (\<lambda>s. getTokenMaxWithdrawable E s user tokenType)) (\<lambda>maxWithdrawable.
     bnd (require (amount \<le> maxWithdrawable) ''Lend: Exceed withdraw amount'') (\<lambda>_.
     bnd (to_pool E (decreasePoolToken E (lend_at E) user receiver tokenType amount)) (\<lambda>_.
     to_chain E (unstakeToken E (lend_at E) user validator tokenType amount)))))"

definition pluginSupply :: "'x env \<Rightarrow> address \<Rightarrow> address \<Rightarrow> address \<Rightarrow> nat \<Rightarrow> address \<Rightarrow> ('x potv, unit) act" where
  "pluginSupply E sender user tokenType amount validator =
     bnd whenNotPaused (\<lambda>_. bnd (onlyPlugin sender) (\<lambda>_. lend_supply E sender user tokenType amount validator))"

definition pluginWithdraw :: "'x env \<Rightarrow> address \<Rightarrow> address \<Rightarrow> address \<Rightarrow> nat \<Rightarrow> address \<Rightarrow> ('x potv, unit) act" where
  "pluginWithdraw E sender user tokenType amount validator =
     bnd whenNotPaused (\<lambda>_. bnd (onlyPlugin sender) (\<lambda>_. lend_withdraw E user sender tokenType amount validator))"

definition Lend_supply :: "'x env \<Rightarrow> address \<Rightarrow> address \<Rightarrow> nat \<Rightarrow> address \<Rightarrow> ('x potv, unit) act" where
  "Lend_supply E sender tokenType amount validator =
     bnd whenNotPaused (\<lambda>_. lend_supply E sender sender tokenType amount validator)"

definition withdraw :: "'x env \<Rightarrow> address \<Rightarrow> address \<Rightarrow> nat \<Rightarrow> address \<Rightarrow> ('x potv, unit) act" where
  "withdraw E sender tokenType amount validator =
     bnd whenNotPaused (\<lambda>_. lend_withdraw E sender sender tokenType amount validator)"

definition borrow :: "'x env \<Rightarrow> address \<Rightarrow> nat \<Rightarrow> ('x potv, unit) act" where
  "borrow E sender amount =
     bnd whenNotPaused (\<lambda>_.
     bnd (to_pool E (borrowUSD E (lend_at E) sender amount)) (\<lambda>_.
     bnd (view (\<lambda>s. getUserCollateralRatio E s sender)) (\<lambda>userCollateralRatio.
     bnd (gets getMCR) (\<lambda>systemMCR.
     require (systemMCR < userCollateralRatio) ''Lend: Lower than MCR''))))"

definition repay :: "'x env \<Rightarrow> address \<Rightarrow> nat \<Rightarrow> ('x potv, unit) act" where
  "repay E sender amount =
     bnd whenNotPaused (\<lambda>_. to_pool E (repayUSD E (lend_at E) sender sender amount))"

definition liquidate :: "'x env \<Rightarrow> address \<Rightarrow> address \<Rightarrow> ('x potv, unit) act" where
  "liquidate E sender liquidatedUser =
     bnd whenNotPaused (\<lambda>_.
     bnd (require (sender \<noteq> liquidatedUser) ''Lend: Invalid liquidator'') (\<lambda>_.
     bnd (view (\<lambda>s. getUserCollateralRatio E s liquidatedUser)) (\<lambda>userCollateralRatio.
     bnd (gets (\<lambda>s. liquidationRate (config s))) (\<lambda>systemLiquidateRate.
     bnd (require (userCollateralRatio \<le> systemLiquidateRate) ''Lend: Larger than liquidation rate'') (\<lambda>_.
     bnd (to_reward E (updateReward E liquidatedUser)) (\<lambda>_.
     bnd (to_reward E (updateReward E sender)) (\<lambda>_.
     bnd (to_pool E (gets (\<lambda>s. getUserTotalBorrow s liquidatedUser))) (\<lambda>repayAmount.
     bnd (to_pool E (repayUSD E (lend_at E) sender liquidatedUser repayAmount)) (\<lambda>_.
     bnd (to_pool E (liquidateTokens E (lend_at E) liquidatedUser sender)) (\<lambda>_.
     to_chain E (liquidatePosition E (lend_at E) sender liquidatedUser)))))))))))"

definition migrateStakes :: "'x env \<Rightarrow> address \<Rightarrow> address \<Rightarrow> address \<Rightarrow> ('x potv, unit) act" where
  "migrateStakes E sender deletedValidator newValidator =
     bnd (lend_onlyOwner sender) (\<lambda>_.
     bnd whenNotPaused (\<lambda>_.
     bnd (to_chain E (gets (\<lambda>s. containsValidator s deletedValidator))) (\<lambda>found.
     bnd (require found ''Lend: Invalid validator'') (\<lambda>_.
     bnd (to_chain E (gets (\<lambda>s. getValidatorStakedUsers s deletedValidator))) (\<lambda>users.
     let limit = getMigrateStakeLimit;
         deleteAmount = (if length users \<le> limit then length users else limit) in
     bnd (for_each (\<lambda>user. to_reward E (updateReward E user)) (take deleteAmount users)) (\<lambda>_.
     to_chain E (Chain_migrateStakes E (lend_at E) deletedValidator newValidator deleteAmount)))))))"

section \<open>Ownership\<close>

text \<open>The functions every contract inherits from Ownable.\<close>

datatype contract = Config | PriceFeed | TUCUSD | Pool | ChainContract | Reward | Lend

definition change_owner :: "'x env \<Rightarrow> contract \<Rightarrow> owner_call \<Rightarrow> address \<Rightarrow> ('x potv, unit) act" where
  "change_owner E c m sender =
     (case c of
        Config \<Rightarrow> bnd (view (\<lambda>s. own_call E m sender (cfg_owner (config s)))) (\<lambda>a. with_config (\<lambda>c. c\<lparr>cfg_owner := a\<rparr>))
      | PriceFeed \<Rightarrow> bnd (view (\<lambda>s. own_call E m sender (feed_owner (feed s)))) (\<lambda>a. with_feed (\<lambda>f. f\<lparr>feed_owner := a\<rparr>))
      | TUCUSD \<Rightarrow> bnd (view (\<lambda>s. own_call E m sender (usd_owner (usd s)))) (\<lambda>a. with_usd (\<lambda>u. u\<lparr>usd_owner := a\<rparr>))
      | Pool \<Rightarrow> bnd (view (\<lambda>s. own_call E m sender (pool_owner (pool s)))) (\<lambda>a. with_pool (\<lambda>p. p\<lparr>pool_owner := a\<rparr>))
      | ChainContract \<Rightarrow> bnd (view (\<lambda>s. own_call E m sender (chain_owner (chain s)))) (\<lambda>a. with_chain (\<lambda>c. c\<lparr>chain_owner := a\<rparr>))
      | Reward \<Rightarrow> bnd (view (\<lambda>s. own_call E m sender (reward_owner (reward s)))) (\<lambda>a. with_reward (\<lambda>r. r\<lparr>reward_owner := a\<rparr>))
      | Lend \<Rightarrow> bnd (view (\<lambda>s. own_call E m sender (lend_owner (lend s)))) (\<lambda>a. with_lend (\<lambda>l. l\<lparr>lend_owner := a\<rparr>)))"

section \<open>Messages\<close>

text \<open>
  Every call an account can make that changes the state: to a function of one of the
  contracts, inherited ones included, and to a token, TUCUSD included. The functions of
  Pool, ChainContract and TUCUSD that only Lend or Pool may call can be called by anyone
  too, and then revert.
\<close>

datatype potv_msg =
    MSupply address nat address
  | MWithdraw address nat address
  | MBorrow nat
  | MRepay nat
  | MLiquidate address
  | MPluginSupply address address nat address
  | MPluginWithdraw address address nat address
  | MMigrateStakes address address
  | MUpdateReward address
  | MClaimReward address
  | MDistributeReward "address list" "address list" "nat list list"
  | MAddRewardToken address
  | MRemoveRewardToken address
  | MAddCollateral address
  | MDisableCollateral address
  | MSetMCR nat
  | MSetLiquidationRate nat
  | MSetTokenPrices nat "address list" "nat list"
  | MSetValidators "address list"
  | MSetPlugin address bool
  | MSetUsdAddress address
  | MUsdSetPool address
  | MPoolSetLend address
  | MChainSetLend address
  | MRewardSetLend address
  | MInitConfig nat nat
  | MInitFeed
  | MInitUsd address
  | MInitPool address
  | MInitChain address
  | MInitReward address address
  | MInitLend address address address address address address
  | MIncreasePoolToken address address nat
  | MDecreasePoolToken address address address nat
  | MLiquidateTokens address address
  | MBorrowUSD address nat
  | MRepayUSD address address nat
  | MStakeToken address address address nat
  | MUnstakeToken address address address nat
  | MLiquidatePosition address address
  | MChainMigrateStakes address address nat
  | MMint address nat
  | MBurn address nat
  | MOwner contract owner_call
  | MTokenCall address bytes

fun execute :: "'x env \<Rightarrow> address \<Rightarrow> potv_msg \<Rightarrow> ('x potv, unit) act" where
  "execute E sender (MSupply t n v) = Lend_supply E sender t n v"
| "execute E sender (MWithdraw t n v) = withdraw E sender t n v"
| "execute E sender (MBorrow n) = borrow E sender n"
| "execute E sender (MRepay n) = repay E sender n"
| "execute E sender (MLiquidate u) = liquidate E sender u"
| "execute E sender (MPluginSupply u t n v) = pluginSupply E sender u t n v"
| "execute E sender (MPluginWithdraw u t n v) = pluginWithdraw E sender u t n v"
| "execute E sender (MMigrateStakes v w) = migrateStakes E sender v w"
| "execute E sender (MUpdateReward u) = updateReward E u"
| "execute E sender (MClaimReward t) = claimReward E sender t"
| "execute E sender (MDistributeReward ts ls ns) = distributeReward E sender ts ls ns"
| "execute E sender (MAddRewardToken t) = addRewardToken E sender t"
| "execute E sender (MRemoveRewardToken t) = removeRewardToken E sender t"
| "execute E sender (MAddCollateral t) = addCollateral E sender t"
| "execute E sender (MDisableCollateral t) = disableCollateral E sender t"
| "execute E sender (MSetMCR n) = setMCR sender n"
| "execute E sender (MSetLiquidationRate n) = setLiquidationRate sender n"
| "execute E sender (MSetTokenPrices n ts ps) = setTokenPrices n sender ts ps"
| "execute E sender (MSetValidators vs) = setValidators E sender vs"
| "execute E sender (MSetPlugin p b) = setPlugin sender p b"
| "execute E sender (MSetUsdAddress a) = setUsdAddress sender a"
| "execute E sender (MUsdSetPool a) = TUCUSD_setPool sender a"
| "execute E sender (MPoolSetLend a) = Pool_setLendContract sender a"
| "execute E sender (MChainSetLend a) = Chain_setLendContract sender a"
| "execute E sender (MRewardSetLend a) = Reward_setLendContract sender a"
| "execute E sender (MInitConfig n r) = Config_initialize sender n r"
| "execute E sender MInitFeed = PriceFeed_initialize sender"
| "execute E sender (MInitUsd a) = TUCUSD_initialize sender a"
| "execute E sender (MInitPool a) = Pool_initialize sender a"
| "execute E sender (MInitChain a) = Chain_initialize sender a"
| "execute E sender (MInitReward a b) = Reward_initialize sender a b"
| "execute E sender (MInitLend a b c d f g) = Lend_initialize sender a b c d f g"
| "execute E sender (MIncreasePoolToken u t n) = increasePoolToken E sender u t n"
| "execute E sender (MDecreasePoolToken u r t n) = decreasePoolToken E sender u r t n"
| "execute E sender (MLiquidateTokens u v) = liquidateTokens E sender u v"
| "execute E sender (MBorrowUSD u n) = borrowUSD E sender u n"
| "execute E sender (MRepayUSD r u n) = repayUSD E sender r u n"
| "execute E sender (MStakeToken u v t n) = stakeToken E sender u v t n"
| "execute E sender (MUnstakeToken u v t n) = unstakeToken E sender u v t n"
| "execute E sender (MLiquidatePosition l u) = liquidatePosition E sender l u"
| "execute E sender (MChainMigrateStakes v w n) = Chain_migrateStakes E sender v w n"
| "execute E sender (MMint a n) = TUCUSD_mint E sender a n"
| "execute E sender (MBurn a n) = TUCUSD_burn E sender a n"
| "execute E sender (MOwner c m) = change_owner E c m sender"
| "execute E sender (MTokenCall tk d) = on_tokens (erc20_call E tk sender d)"

text \<open>A transaction that reverts leaves no trace.\<close>

definition transact :: "'x env \<Rightarrow> address \<Rightarrow> potv_msg \<Rightarrow> 'x potv \<Rightarrow> 'x potv" where
  "transact E sender m s = snd (cached (execute E sender m) s)"

fun transactions :: "'x env \<Rightarrow> (address \<times> potv_msg) list \<Rightarrow> 'x potv \<Rightarrow> 'x potv" where
  "transactions E [] s = s"
| "transactions E ((sender, m) # ms) s = transactions E ms (transact E sender m s)"

end
