(* ===== verification/Potv_Books.thy ===== *)
theory Potv_Books
  imports Potv
begin

text \<open>
  The books of the lending contracts: what each function of Pool, ChainContract and
  Reward does to its storage, and the invariant that the totals are the sums of the
  accounts behind them.
\<close>

section \<open>When a step succeeds\<close>

lemma arith_Ok_iff [simp]:
  "add_u a b = Ok n \<longleftrightarrow> n = a + b \<and> a + b < 2 ^ 256"
  "sub_u a b = Ok n \<longleftrightarrow> n = a - b \<and> b \<le> a"
  "mul_u a b = Ok n \<longleftrightarrow> n = a * b \<and> a * b < 2 ^ 256"
  "div_u a b = Ok n \<longleftrightarrow> n = a div b \<and> b \<noteq> 0"
  "pow10 e = Ok n \<longleftrightarrow> n = 10 ^ e \<and> 10 ^ e < (2 :: nat) ^ 256"
  by (auto simp: add_u_def sub_u_def mul_u_def div_u_def pow10_def revert_def)

lemma require_Ok_iff [simp]: "require b msg s = (Ok u, t) \<longleftrightarrow> b \<and> t = s"
  by (auto simp: require_def)

lemma view_Ok_iff [simp]: "view f s = (Ok x, t) \<longleftrightarrow> f s = Ok x \<and> t = s"
  by (auto simp: view_def)

lemma on_tokens_Ok_iff [simp]: "on_tokens m s = (Ok y, t) \<longleftrightarrow> (\<exists>x. m (ext s) = (Ok y, x) \<and> t = s\<lparr>ext := x\<rparr>)"
  by (auto simp: on_tokens_def zoom_def split: prod.splits)

lemma with_Ok_iff [simp]:
  "with_config f s = (Ok u, t) \<longleftrightarrow> t = s\<lparr>config := f (config s)\<rparr>"
  "with_feed g s = (Ok u, t) \<longleftrightarrow> t = s\<lparr>feed := g (feed s)\<rparr>"
  "with_usd h s = (Ok u, t) \<longleftrightarrow> t = s\<lparr>usd := h (usd s)\<rparr>"
  "with_pool i s = (Ok u, t) \<longleftrightarrow> t = s\<lparr>pool := i (pool s)\<rparr>"
  "with_chain j s = (Ok u, t) \<longleftrightarrow> t = s\<lparr>chain := j (chain s)\<rparr>"
  "with_reward k s = (Ok u, t) \<longleftrightarrow> t = s\<lparr>reward := k (reward s)\<rparr>"
  "with_lend l s = (Ok u, t) \<longleftrightarrow> t = s\<lparr>lend := l (lend s)\<rparr>"
  by (auto simp: with_config_def with_feed_def with_usd_def with_pool_def with_chain_def with_reward_def with_lend_def)

text \<open>A call goes through when the stored address is the one of the contract.\<close>

lemma call_Ok_iff [simp]: "call slot a m s = (Ok x, t) \<longleftrightarrow> slot s = a \<and> m s = (Ok x, t)"
  by (auto simp: call_def)

lemma static_call_Ok_iff [simp]: "static_call a b r = Ok x \<longleftrightarrow> a = b \<and> r = Ok x"
  by (auto simp: static_call_def revert_def)

lemma lend_calls_Ok_iff [simp]:
  "to_pool E m s = (Ok x, t) \<longleftrightarrow> lend_pool (lend s) = pool_at E \<and> m s = (Ok x, t)"
  "to_chain E m s = (Ok x, t) \<longleftrightarrow> lend_chain (lend s) = chain_at E \<and> m s = (Ok x, t)"
  "to_reward E m s = (Ok x, t) \<longleftrightarrow> lend_reward (lend s) = reward_at E \<and> m s = (Ok x, t)"
  "to_config E m s = (Ok x, t) \<longleftrightarrow> lend_config (lend s) = config_at E \<and> m s = (Ok x, t)"
  by (auto simp: to_pool_def to_chain_def to_reward_def to_config_def)

lemma keeps_require [keeps_intros]: "keeps R (require b msg)"
  unfolding require_def by (auto intro: keeps_intros)

lemma keeps_call [keeps_intros]: "keeps R m \<Longrightarrow> keeps R (call slot a m)"
  unfolding call_def by (auto intro!: keeps_intros)

lemma keeps_to_reward [keeps_intros]: "keeps R m \<Longrightarrow> keeps R (to_reward E m)"
  unfolding to_reward_def by (auto intro: keeps_intros)

text \<open>The checks of a caller change nothing.\<close>

lemma guard_Ok_iff [simp]:
  "cfg_onlyOwner a s = (Ok u, t) \<longleftrightarrow> a = cfg_owner (config s) \<and> t = s"
  "pool_onlyOwner a s = (Ok u, t) \<longleftrightarrow> a = pool_owner (pool s) \<and> t = s"
  "chain_onlyOwner a s = (Ok u, t) \<longleftrightarrow> a = chain_owner (chain s) \<and> t = s"
  "reward_onlyOwner a s = (Ok u, t) \<longleftrightarrow> a = reward_owner (reward s) \<and> t = s"
  "lend_onlyOwner a s = (Ok u, t) \<longleftrightarrow> a = lend_owner (lend s) \<and> t = s"
  "pool_onlyLend a s = (Ok u, t) \<longleftrightarrow> a = pool_lend (pool s) \<and> t = s"
  "chain_onlyLend a s = (Ok u, t) \<longleftrightarrow> a = chain_lend (chain s) \<and> t = s"
  "whenNotPaused s = (Ok u, t) \<longleftrightarrow> \<not> lend_paused (lend s) \<and> t = s"
  "onlyPlugin a s = (Ok u, t) \<longleftrightarrow> plugin (lend s) a \<and> t = s"
  by (auto simp: cfg_onlyOwner_def pool_onlyOwner_def chain_onlyOwner_def reward_onlyOwner_def lend_onlyOwner_def
      pool_onlyLend_def chain_onlyLend_def whenNotPaused_def onlyPlugin_def)

section \<open>Sums over accounts\<close>

definition fin :: "('a \<Rightarrow> nat) \<Rightarrow> bool" where
  "fin f \<longleftrightarrow> finite {k. f k \<noteq> 0}"

definition fsum :: "('a \<Rightarrow> nat) \<Rightarrow> nat" where
  "fsum f = (\<Sum>k | f k \<noteq> 0. f k)"

lemma fsum_over: "finite K \<Longrightarrow> {k. f k \<noteq> 0} \<subseteq> K \<Longrightarrow> fsum f = (\<Sum>k\<in>K. f k)"
  unfolding fsum_def by (rule sum.mono_neutral_left) auto

lemma fin_upd: "fin f \<Longrightarrow> fin (f(k := v))"
  unfolding fin_def by (rule finite_subset [of _ "insert k {k. f k \<noteq> 0}"]) auto

lemma fsum_upd:
  assumes "fin f"
  shows "fsum (f(k := v)) + f k = fsum f + v"
proof -
  let ?K = "insert k {k. f k \<noteq> 0}"
  have K: "finite ?K" using assms by (simp add: fin_def)
  have subs: "{j. f j \<noteq> 0} \<subseteq> ?K" "{j. (f(k := v)) j \<noteq> 0} \<subseteq> ?K" by auto
  have "fsum f = f k + (\<Sum>j\<in>?K - {k}. f j)" "fsum (f(k := v)) = v + (\<Sum>j\<in>?K - {k}. (f(k := v)) j)"
    using fsum_over [OF K subs(1)] fsum_over [OF K subs(2)] sum.remove [OF K, of k f] sum.remove [OF K, of k "f(k := v)"]
    by (simp_all add: fun_upd_def)
  moreover have "(\<Sum>j\<in>?K - {k}. (f(k := v)) j) = (\<Sum>j\<in>?K - {k}. f j)" by (rule sum.cong) auto
  ultimately show ?thesis by simp
qed

lemma fsum_ge: "fin f \<Longrightarrow> f k \<le> fsum f"
  using fsum_upd [of f k 0] by simp

lemma fsum_add: "fin f \<Longrightarrow> fsum (f(k := f k + n)) = fsum f + n"
  using fsum_upd [of f k "f k + n"] by simp

lemma fsum_sub: "fin f \<Longrightarrow> n \<le> f k \<Longrightarrow> fsum (f(k := f k - n)) = fsum f - n"
  using fsum_upd [of f k "f k - n"] fsum_ge [of f k] by simp

lemma fsum_move:
  assumes "fin f" and "a \<noteq> b"
  shows "fsum (f(a := 0, b := f b + f a)) = fsum f"
proof -
  have "fsum (f(a := 0, b := f b + f a)) + (f(a := 0)) b = fsum (f(a := 0)) + (f b + f a)"
    using fsum_upd [OF fin_upd [OF assms(1)], of a 0 b "f b + f a"] .
  then show ?thesis using fsum_upd [OF assms(1), of a 0] assms(2) by simp
qed

section \<open>The books of Pool\<close>

definition pool_books :: "pool_store \<Rightarrow> bool" where
  "pool_books p \<longleftrightarrow> fin (userBorrow p) \<and> totalBorrow p = fsum (userBorrow p) \<and>
     (\<forall>t. fin (userSupply p t) \<and> totalSupply p t = fsum (userSupply p t))"

lemma increasePoolToken_Ok:
  "increasePoolToken E a user token n s = (Ok (), t) \<longleftrightarrow> a = pool_lend (pool s) \<and> pool_config (pool s) = config_at E \<and> isWhitelistToken s token \<and>
    userSupply (pool s) token user + n < 2 ^ 256 \<and> totalSupply (pool s) token + n < 2 ^ 256 \<and>
    t = s\<lparr>pool := (pool s)\<lparr>
      userSupply := (userSupply (pool s))(token := (userSupply (pool s) token)(user := userSupply (pool s) token user + n)),
      totalSupply := (totalSupply (pool s))(token := totalSupply (pool s) token + n)\<rparr>\<rparr>"
  by (auto simp: increasePoolToken_def)

lemma decreasePoolToken_Ok:
  "decreasePoolToken E a user receiver token n s = (Ok (), t) \<longleftrightarrow> a = pool_lend (pool s) \<and>
    n \<le> userSupply (pool s) token user \<and> n \<le> totalSupply (pool s) token \<and>
    (\<exists>x. safeTransfer E token (pool_at E) receiver n (ext s) = (Ok (), x) \<and>
    t = s\<lparr>pool := (pool s)\<lparr>
      userSupply := (userSupply (pool s))(token := (userSupply (pool s) token)(user := userSupply (pool s) token user - n)),
      totalSupply := (totalSupply (pool s))(token := totalSupply (pool s) token - n)\<rparr>, ext := x\<rparr>)"
  by (auto simp: decreasePoolToken_def)

lemma borrowUSD_Ok:
  "borrowUSD E a user n s = (Ok (), t) \<longleftrightarrow> a = pool_lend (pool s) \<and>
    userBorrow (pool s) user + n < 2 ^ 256 \<and> totalBorrow (pool s) + n < 2 ^ 256 \<and>
    mint_at E (usdToken (pool s)) user n (s\<lparr>pool := (pool s)\<lparr>
      userBorrow := (userBorrow (pool s))(user := userBorrow (pool s) user + n), totalBorrow := totalBorrow (pool s) + n\<rparr>\<rparr>) = (Ok (), t)"
  by (auto simp: borrowUSD_def)

lemma repayUSD_Ok:
  "repayUSD E a payer user n s = (Ok (), t) \<longleftrightarrow> a = pool_lend (pool s) \<and>
    n \<le> userBorrow (pool s) user \<and> n \<le> totalBorrow (pool s) \<and>
    burn_at E (usdToken (pool s)) payer n (s\<lparr>pool := (pool s)\<lparr>
      userBorrow := (userBorrow (pool s))(user := userBorrow (pool s) user - n), totalBorrow := totalBorrow (pool s) - n\<rparr>\<rparr>) = (Ok (), t)"
  by (auto simp: repayUSD_def)

lemma mint_burn_at_Ok:
  "mint_at E a u n s = (Ok (), t) \<Longrightarrow> \<exists>x. t = s\<lparr>ext := x\<rparr> \<and>
     (a = usd_at E \<longrightarrow> usd_pool (usd s) = pool_at E \<and> usd_mint E u n (ext s) = (Ok (), x))"
  "burn_at E a u n s = (Ok (), t) \<Longrightarrow> \<exists>x. t = s\<lparr>ext := x\<rparr> \<and>
     (a = usd_at E \<longrightarrow> usd_pool (usd s) = pool_at E \<and> usd_burn E u n (ext s) = (Ok (), x))"
  by (auto simp: mint_at_def burn_at_def TUCUSD_mint_def TUCUSD_burn_def split: if_splits)

text \<open>One token of a liquidation moves the whole supply of the user.\<close>

lemma liquidate_token_Ok:
  assumes "liquidate_token a b token s = (Ok (), t)" and "a \<noteq> b"
  shows "t = s\<lparr>pool := (pool s)\<lparr>userSupply := (userSupply (pool s))(token :=
    (userSupply (pool s) token)(a := 0, b := userSupply (pool s) token b + userSupply (pool s) token a))\<rparr>\<rparr>"
proof (cases "userSupply (pool s) token a = 0")
  case True
  moreover from True have "(userSupply (pool s) token)(a := 0, b := userSupply (pool s) token b) = userSupply (pool s) token" by auto
  ultimately show ?thesis using assms(1) by (auto simp: liquidate_token_def)
next
  case False
  then show ?thesis using assms by (auto simp: liquidate_token_def)
qed

lemma liquidate_tokens_Ok:
  assumes "for_each (liquidate_token a b) tokens s = (Ok (), t)" and "a \<noteq> b" and "distinct tokens"
  shows "t = s\<lparr>pool := (pool s)\<lparr>userSupply := (\<lambda>token. if token \<in> set tokens
    then (userSupply (pool s) token)(a := 0, b := userSupply (pool s) token b + userSupply (pool s) token a)
    else userSupply (pool s) token)\<rparr>\<rparr>"
  using assms
proof (induction tokens arbitrary: s)
  case (Cons x xs)
  then obtain u where u: "liquidate_token a b x s = (Ok (), u)" "for_each (liquidate_token a b) xs u = (Ok (), t)"
    by auto
  show ?case
    using Cons.IH [OF u(2) Cons.prems(2)] Cons.prems(3) liquidate_token_Ok [OF u(1) Cons.prems(2)]
    by (auto intro!: ext simp: fun_eq_iff)
qed auto

lemma pool_books_increase:
  assumes "pool_books p"
  shows "pool_books (p\<lparr>userSupply := (userSupply p)(tk := (userSupply p tk)(u := userSupply p tk u + n)),
    totalSupply := (totalSupply p)(tk := totalSupply p tk + n)\<rparr>)"
  using assms by (auto simp: pool_books_def fin_upd fsum_add)

lemma pool_books_decrease:
  assumes "pool_books p" and "n \<le> userSupply p tk u"
  shows "pool_books (p\<lparr>userSupply := (userSupply p)(tk := (userSupply p tk)(u := userSupply p tk u - n)),
    totalSupply := (totalSupply p)(tk := totalSupply p tk - n)\<rparr>)"
  using assms by (auto simp: pool_books_def fin_upd fsum_sub)

lemma pool_books_borrow:
  assumes "pool_books p"
  shows "pool_books (p\<lparr>userBorrow := (userBorrow p)(u := userBorrow p u + n), totalBorrow := totalBorrow p + n\<rparr>)"
  using assms by (auto simp: pool_books_def fin_upd fsum_add)

lemma pool_books_repay:
  assumes "pool_books p" and "n \<le> userBorrow p u"
  shows "pool_books (p\<lparr>userBorrow := (userBorrow p)(u := userBorrow p u - n), totalBorrow := totalBorrow p - n\<rparr>)"
  using assms by (auto simp: pool_books_def fin_upd fsum_sub)

lemma pool_books_liquidate:
  assumes "pool_books p" and "a \<noteq> b"
  shows "pool_books (p\<lparr>userSupply := (\<lambda>tk. if tk \<in> T
    then (userSupply p tk)(a := 0, b := userSupply p tk b + userSupply p tk a) else userSupply p tk)\<rparr>)"
  using assms by (auto simp: pool_books_def fin_upd fsum_move)

section \<open>The books of ChainContract\<close>

definition chain_books :: "chain_store \<Rightarrow> bool" where
  "chain_books c \<longleftrightarrow> (\<forall>v t. fin (\<lambda>u. userStakes c u v t) \<and> validatorStakes c v t = fsum (\<lambda>u. userStakes c u v t))"

definition set_stake :: "address \<Rightarrow> address \<Rightarrow> address \<Rightarrow> nat \<Rightarrow> nat \<Rightarrow> chain_store \<Rightarrow> chain_store" where
  "set_stake u v t n m c = c\<lparr>userStakes := (userStakes c)(u := (userStakes c u)(v := (userStakes c u v)(t := n))),
     validatorStakes := (validatorStakes c)(v := (validatorStakes c v)(t := m))\<rparr>"

lemma stake_add_Ok:
  "stake_add u v tk n s = (Ok (), t) \<longleftrightarrow> userStakes (chain s) u v tk + n < 2 ^ 256 \<and> validatorStakes (chain s) v tk + n < 2 ^ 256 \<and>
    t = s\<lparr>chain := set_stake u v tk (userStakes (chain s) u v tk + n) (validatorStakes (chain s) v tk + n) (chain s)\<rparr>"
  by (auto simp: stake_add_def set_stake_def)

lemma stake_sub_Ok:
  "stake_sub u v tk n s = (Ok (), t) \<longleftrightarrow> n \<le> userStakes (chain s) u v tk \<and> n \<le> validatorStakes (chain s) v tk \<and>
    t = s\<lparr>chain := set_stake u v tk (userStakes (chain s) u v tk - n) (validatorStakes (chain s) v tk - n) (chain s)\<rparr>"
  by (auto simp: stake_sub_def set_stake_def)

lemma set_stake_column:
  "(\<lambda>u'. userStakes (set_stake u v tk n m c) u' v' tk') =
    (if v' = v \<and> tk' = tk then (\<lambda>u'. userStakes c u' v tk)(u := n) else (\<lambda>u'. userStakes c u' v' tk'))"
  by (auto simp: set_stake_def)

lemma set_stake_total:
  "validatorStakes (set_stake u v tk n m c) v' tk' = (if v' = v \<and> tk' = tk then m else validatorStakes c v' tk')"
  by (simp add: set_stake_def)

lemma chain_books_set:
  assumes "chain_books c" and "m + userStakes c u v tk = validatorStakes c v tk + n"
  shows "chain_books (set_stake u v tk n m c)"
proof -
  have f: "fin (\<lambda>u. userStakes c u v tk)" "validatorStakes c v tk = fsum (\<lambda>u. userStakes c u v tk)"
    using assms(1) by (simp_all add: chain_books_def)
  have "fsum ((\<lambda>u'. userStakes c u' v tk)(u := n)) = m"
    using fsum_upd [OF f(1), of u n] assms(2) f(2) by simp
  then show ?thesis using assms(1) fin_upd [OF f(1)] unfolding chain_books_def set_stake_column set_stake_total by simp
qed

lemma chain_books_add:
  assumes "stake_add u v tk n s = (Ok (), t)" and "chain_books (chain s)"
  shows "chain_books (chain t)"
  using assms chain_books_set by (auto simp: stake_add_Ok)

lemma chain_books_sub:
  assumes "stake_sub u v tk n s = (Ok (), t)" and "chain_books (chain s)"
  shows "chain_books (chain t)"
  using assms chain_books_set by (auto simp: stake_sub_Ok)

lemma chain_books_cong:
  "userStakes c = userStakes d \<Longrightarrow> validatorStakes c = validatorStakes d \<Longrightarrow> chain_books c \<longleftrightarrow> chain_books d"
  by (simp add: chain_books_def)

lemma chain_books_move:
  assumes "move_stake u v u' v' tk s = (Ok (), t)" and "chain_books (chain s)"
  shows "chain_books (chain t)"
  using assms chain_books_add chain_books_sub by (fastforce simp: move_stake_def split: if_splits)

lemma for_each_Ok_keeps:
  assumes "for_each f xs s = (Ok (), t)" and "P s" and "\<And>x u v. f x u = (Ok (), v) \<Longrightarrow> P u \<Longrightarrow> P v"
  shows "P t"
  using assms(1,2) by (induction xs arbitrary: s) (auto dest: assms(3))

end
