(* ===== verification/Potv_Inv.thy ===== *)
theory Potv_Inv
  imports Potv_Books
begin

text \<open>
  The invariant of the deployed lending contracts, and that every transaction keeps it:
  totals are sums, every TUCUSD in circulation is somebody's recorded debt, and Pool
  holds the collateral it has recorded.
\<close>

section \<open>Tokens and sets the contracts rely on\<close>

text \<open>
  A transfer that succeeds moves exactly its amount of its token, minting and burning
  change the balance of one account and the supply, and none of them reenters. Pool and
  Reward approve no spender, so no other call to a token takes what they hold, and the
  supply of TUCUSD changes by minting and burning only. The set library adds and removes
  one member.
\<close>

locale potv_env =
  fixes E :: "'x env" and tbal :: "'x \<Rightarrow> address \<Rightarrow> address \<Rightarrow> nat" and usd_total :: "'x \<Rightarrow> nat"
  assumes set_add_set: "set (set_add E a xs) = insert a (set xs)"
    and set_add_distinct: "distinct xs \<Longrightarrow> distinct (set_add E a xs)"
    and set_remove_set: "distinct xs \<Longrightarrow> set (set_remove E a xs) = set xs - {a}"
    and set_remove_distinct: "distinct xs \<Longrightarrow> distinct (set_remove E a xs)"
    and transfer_from: "safeTransferFrom E tk c a b n x = (Ok (), x') \<Longrightarrow> usd_total x' = usd_total x \<and> n \<le> tbal x tk a \<and>
      tbal x' = (tbal x)(tk := (let f = (tbal x tk)(a := tbal x tk a - n) in f(b := f b + n)))"
    and transfer: "safeTransfer E tk a b n x = (Ok (), x') \<Longrightarrow> usd_total x' = usd_total x \<and> n \<le> tbal x tk a \<and>
      tbal x' = (tbal x)(tk := (let f = (tbal x tk)(a := tbal x tk a - n) in f(b := f b + n)))"
    and mint: "usd_mint E a n x = (Ok (), x') \<Longrightarrow> usd_total x' = usd_total x + n \<and>
      tbal x' = (tbal x)(usd_at E := (tbal x (usd_at E))(a := tbal x (usd_at E) a + n))"
    and burn: "usd_burn E a n x = (Ok (), x') \<Longrightarrow> n \<le> usd_total x \<and> usd_total x' = usd_total x - n \<and> n \<le> tbal x (usd_at E) a \<and>
      tbal x' = (tbal x)(usd_at E := (tbal x (usd_at E))(a := tbal x (usd_at E) a - n))"
    and outsider: "erc20_call E tk c d x = (Ok (), x') \<Longrightarrow> c \<noteq> pool_at E \<Longrightarrow> c \<noteq> reward_at E \<Longrightarrow> usd_total x' = usd_total x \<and>
      (\<forall>t. tbal x t (pool_at E) \<le> tbal x' t (pool_at E) \<and> tbal x t (reward_at E) \<le> tbal x' t (reward_at E))"
    and apart: "pool_at E \<noteq> reward_at E"
begin

text \<open>What a transfer between other accounts does to a third one, and to the receiver.\<close>

lemma transfer_from_others: "safeTransferFrom E tk c a b n x = (Ok (), x') \<Longrightarrow> p \<noteq> a \<Longrightarrow> tbal x t p \<le> tbal x' t p"
  using transfer_from by (auto simp: Let_def)

lemma transfer_from_receives: "safeTransferFrom E tk c a b n x = (Ok (), x') \<Longrightarrow> b \<noteq> a \<Longrightarrow> tbal x' tk b = tbal x tk b + n"
  using transfer_from by (auto simp: Let_def)

lemma transfer_others: "safeTransfer E tk a b n x = (Ok (), x') \<Longrightarrow> p \<noteq> a \<Longrightarrow> tbal x t p \<le> tbal x' t p"
  using transfer by (auto simp: Let_def)

lemma transfer_pays: "safeTransfer E tk a b n x = (Ok (), x') \<Longrightarrow>
    tbal x t a - (if t = tk then n else 0) \<le> tbal x' t a \<and> n \<le> tbal x tk a"
  using transfer by (auto simp: Let_def)

end

section \<open>Which part of the state a step changes\<close>

definition but_reward :: "'x potv \<Rightarrow> config_store \<times> feed_store \<times> usd_store \<times> pool_store \<times> chain_store \<times> lend_store \<times> 'x" where
  "but_reward s = (config s, feed s, usd s, pool s, chain s, lend s, ext s)"

definition but_chain :: "'x potv \<Rightarrow> config_store \<times> feed_store \<times> usd_store \<times> pool_store \<times> reward_store \<times> lend_store \<times> 'x" where
  "but_chain s = (config s, feed s, usd s, pool s, reward s, lend s, ext s)"

lemma keeps_view [keeps_intros]: "keeps f (view g)"
  by (simp add: keeps_def view_def)

lemma keeps_with_reward [keeps_intros]: "keeps but_reward (with_reward f)"
  unfolding with_reward_def by (rule keeps_modify) (simp add: but_reward_def)

lemma keeps_with_chain [keeps_intros]: "keeps but_chain (with_chain f)"
  unfolding with_chain_def by (rule keeps_modify) (simp add: but_chain_def)

lemma keeps_updateReward: "keeps but_reward (updateReward E u)"
  unfolding updateReward_def update_token_reward_def set_reward_def updateUserRewardPerTokenPaid_def
  by (intro keeps_intros)

lemma updateReward_frame:
  "updateReward E u s = (Ok (), t) \<Longrightarrow> config t = config s \<and> feed t = feed s \<and> usd t = usd s \<and> pool t = pool s \<and>
    chain t = chain s \<and> lend t = lend s \<and> ext t = ext s"
  using keepsD [OF keeps_updateReward] by (fastforce simp: but_reward_def)

lemma keeps_stakes: "keeps but_chain (stake_add u v tk n)" "keeps but_chain (stake_sub u v tk n)"
  "keeps but_chain (move_stake u v u' v' tk)" "keeps but_chain (add_staked_user E v u)" "keeps but_chain (remove_staked_user E v u)"
  unfolding stake_add_def stake_sub_def move_stake_def add_staked_user_def remove_staked_user_def
  by (intro keeps_intros)+

lemma keeps_chain_ops:
  "keeps but_chain (stakeToken E a u v tk n)" "keeps but_chain (unstakeToken E a u v tk n)"
  "keeps but_chain (liquidatePosition E a l u)" "keeps but_chain (Chain_migrateStakes E a v w m)"
  "keeps but_chain (setValidators E a vs)" "keeps but_chain (Chain_setLendContract a b)" "keeps but_chain (Chain_initialize a c)"
  unfolding stakeToken_def unstakeToken_def liquidatePosition_def Chain_migrateStakes_def setValidators_def migrate_user_def
    Chain_setLendContract_def Chain_initialize_def chain_onlyLend_def chain_onlyOwner_def
  by (intro keeps_intros keeps_stakes)+

section \<open>The stakes stay in balance\<close>

lemma chain_books_move_loop:
  assumes "for_each (\<lambda>tk. move_stake (u tk) (v tk) (u' tk) (v' tk) tk) tks s = (Ok (), t)" and "chain_books (chain s)"
  shows "chain_books (chain t)"
  using assms by (rule for_each_Ok_keeps [where P = "\<lambda>s. chain_books (chain s)"]) (rule chain_books_move)

lemma staked_users_books:
  "add_staked_user E v u s = (Ok (), t) \<Longrightarrow> chain_books (chain s) \<Longrightarrow> chain_books (chain t)"
  "remove_staked_user E v u s = (Ok (), t) \<Longrightarrow> chain_books (chain s) \<Longrightarrow> chain_books (chain t)"
  by (auto simp: add_staked_user_def remove_staked_user_def chain_books_def)

lemma chain_books_stakeToken:
  assumes "stakeToken E a u v tk n s = (Ok (), t)" and "chain_books (chain s)"
  shows "chain_books (chain t)"
  using assms staked_users_books(1) chain_books_add by (fastforce simp: stakeToken_def)

lemma chain_books_unstakeToken:
  assumes "unstakeToken E a u v tk n s = (Ok (), t)" and "chain_books (chain s)"
  shows "chain_books (chain t)"
  using assms staked_users_books(2) chain_books_sub by (fastforce simp: unstakeToken_def split: if_splits)

lemma chain_books_liquidatePosition:
  assumes "liquidatePosition E a l u s = (Ok (), t)" and "chain_books (chain s)"
  shows "chain_books (chain t)"
proof -
  obtain vs tks where "for_each (\<lambda>v. for_each (\<lambda>tk. move_stake u v l v tk) tks) vs s = (Ok (), t)"
    using assms(1) by (auto simp: liquidatePosition_def)
  then show ?thesis using assms(2)
    by (rule for_each_Ok_keeps [where P = "\<lambda>s. chain_books (chain s)"]) (rule chain_books_move_loop)
qed

lemma chain_books_migrate_user:
  assumes "migrate_user E v w tks u s = (Ok (), t)" and "chain_books (chain s)"
  shows "chain_books (chain t)"
proof -
  obtain s1 s2 where s1: "for_each (\<lambda>tk. move_stake u v u w tk) tks s = (Ok (), s1)"
    and s2: "remove_staked_user E v u s1 = (Ok (), s2)" and t: "add_staked_user E w u s2 = (Ok (), t)"
    using assms(1) by (auto simp: migrate_user_def)
  show ?thesis
    using chain_books_move_loop [OF s1 assms(2)] staked_users_books(2) [OF s2] staked_users_books(1) [OF t] by blast
qed

lemma chain_books_migrateStakes:
  assumes "Chain_migrateStakes E a v w m s = (Ok (), t)" and "chain_books (chain s)"
  shows "chain_books (chain t)"
proof -
  define c where "c = (if w \<in> set (validators (chain s)) then chain s else (chain s)\<lparr>validators := set_add E w (validators (chain s))\<rparr>)"
  have c: "chain_books c" using assms(2) by (simp add: c_def chain_books_def)
  show ?thesis
  proof (cases "m = 0")
    case True
    then have "t = s\<lparr>chain := c\<lparr>validators := set_remove E v (validators c)\<rparr>\<rparr>"
      using assms(1) by (auto simp: Chain_migrateStakes_def c_def)
    then show ?thesis using c by (simp add: chain_books_def)
  next
    case False
    then obtain users tks u where loop: "for_each (migrate_user E v w tks) users (s\<lparr>chain := c\<rparr>) = (Ok (), u)"
      and t: "t = u\<lparr>chain := (if length (validatorStakedUsers (chain u) v) = 0
        then (chain u)\<lparr>validators := set_remove E v (validators (chain u))\<rparr> else chain u)\<rparr>"
      using assms(1) by (auto simp: Chain_migrateStakes_def c_def)
    have "chain_books (chain u)"
      using loop by (rule for_each_Ok_keeps [where P = "\<lambda>s. chain_books (chain s)"]) (simp add: c, rule chain_books_migrate_user)
    then show ?thesis by (simp add: t chain_books_def)
  qed
qed

lemma chain_books_setValidators:
  assumes "setValidators E a vs s = (Ok (), t)" and "chain_books (chain s)"
  shows "chain_books (chain t)"
proof -
  obtain ws where "for_each (\<lambda>v. with_chain (\<lambda>c. c\<lparr>validators := set_add E v (validators c)\<rparr>)) vs
      (s\<lparr>chain := (chain s)\<lparr>validators := ws\<rparr>\<rparr>) = (Ok (), t)"
    using assms(1) by (auto simp: setValidators_def)
  then show ?thesis
    by (rule for_each_Ok_keeps [where P = "\<lambda>s. chain_books (chain s)"]) (use assms(2) in \<open>auto simp: chain_books_def\<close>)
qed

section \<open>The invariant\<close>

text \<open>The contracts know each other as they were deployed.\<close>

definition wired :: "'x env \<Rightarrow> 'x potv \<Rightarrow> bool" where
  "wired E s \<longleftrightarrow> usdToken (pool s) = usd_at E \<and> pool_lend (pool s) = lend_at E \<and> usd_pool (usd s) = pool_at E \<and> usd_initialized (usd s)"

definition potv_inv :: "'x env \<Rightarrow> ('x \<Rightarrow> address \<Rightarrow> address \<Rightarrow> nat) \<Rightarrow> ('x \<Rightarrow> nat) \<Rightarrow> 'x potv \<Rightarrow> bool" where
  "potv_inv E tbal usd_total s \<longleftrightarrow> wired E s \<and> pool_books (pool s) \<and> chain_books (chain s) \<and> distinct (collateralTokens (config s)) \<and>
     usd_total (ext s) = totalBorrow (pool s) \<and> (\<forall>t. totalSupply (pool s) t \<le> tbal (ext s) t (pool_at E))"

text \<open>
  Transactions that leave the wiring alone, from accounts that are none of the contracts
  (whose code makes only the calls that are part of the functions above).
\<close>

definition ordinary :: "'x env \<Rightarrow> address \<times> potv_msg \<Rightarrow> bool" where
  "ordinary E = (\<lambda>(a, m). a \<noteq> lend_at E \<and> a \<noteq> pool_at E \<and> a \<noteq> reward_at E \<and>
     (case m of MSetUsdAddress _ \<Rightarrow> False | MUsdSetPool _ \<Rightarrow> False | MPoolSetLend _ \<Rightarrow> False | _ \<Rightarrow> True))"

lemma potv_inv_same:
  assumes "potv_inv E tbal usd_total s" and "pool t = pool s" and "usd t = usd s" and "ext t = ext s"
    and "chain_books (chain t)" and "distinct (collateralTokens (config t))"
  shows "potv_inv E tbal usd_total t"
  using assms by (simp add: potv_inv_def wired_def)

lemma potv_inv_chain:
  assumes "keeps but_chain m" and "m s = (Ok (), t)" and "potv_inv E tbal usd_total s" and "chain_books (chain t)"
  shows "potv_inv E tbal usd_total t"
proof -
  have "but_chain t = but_chain s" using keepsD [OF assms(1,2)] .
  then show ?thesis using potv_inv_same [OF assms(3) _ _ _ assms(4)] assms(3) by (simp add: but_chain_def potv_inv_def)
qed

lemma potv_inv_reward:
  assumes "keeps but_reward m" and "m s = (Ok (), t)" and "potv_inv E tbal usd_total s"
  shows "potv_inv E tbal usd_total t"
proof -
  have "but_reward t = but_reward s" using keepsD [OF assms(1,2)] .
  then show ?thesis using potv_inv_same [OF assms(3)] assms(3) by (simp add: but_reward_def potv_inv_def)
qed

lemma keeps_reward_ops:
  "keeps but_reward (addRewardToken E a tk)" "keeps but_reward (removeRewardToken E a tk)"
  "keeps but_reward (Reward_setLendContract a b)" "keeps but_reward (Reward_initialize a c d)"
  unfolding addRewardToken_def removeRewardToken_def Reward_setLendContract_def Reward_initialize_def reward_onlyOwner_def
  by (intro keeps_intros)+

section \<open>Every transaction keeps it\<close>

context potv_env
begin

lemma lend_supply_Ok:
  assumes "lend_supply E a u tk n v s = (Ok (), t)"
  obtains r x where "isWhitelistToken s tk" "updateReward E u s = (Ok (), s\<lparr>reward := r\<rparr>)"
    "safeTransferFrom E tk (lend_at E) a (pool_at E) n (ext s) = (Ok (), x)" "pool_lend (pool s) = lend_at E"
    "ext t = x" "config t = config s" "feed t = feed s" "usd t = usd s" "reward t = r"
    "pool t = (pool s)\<lparr>userSupply := (userSupply (pool s))(tk := (userSupply (pool s) tk)(u := userSupply (pool s) tk u + n)),
       totalSupply := (totalSupply (pool s))(tk := totalSupply (pool s) tk + n)\<rparr>"
    "chain_books (chain s) \<Longrightarrow> chain_books (chain t)"
proof -
  obtain s1 x s2 where up: "updateReward E u s = (Ok (), s1)" and white: "isWhitelistToken s1 tk"
    and x: "safeTransferFrom E tk (lend_at E) a (pool_at E) n (ext s1) = (Ok (), x)"
    and inc: "increasePoolToken E (lend_at E) u tk n (s1\<lparr>ext := x\<rparr>) = (Ok (), s2)"
    and stake: "stakeToken E (lend_at E) u v tk n s2 = (Ok (), t)"
    using assms by (auto simp: lend_supply_def)
  have s1: "s1 = s\<lparr>reward := reward s1\<rparr>" using updateReward_frame [OF up] by simp
  have t: "but_chain t = but_chain s2" using keepsD [OF keeps_chain_ops(1) stake] .
  show thesis
  proof (rule that [of "reward s1" x], goal_cases)
    case 11
    then show ?case using chain_books_stakeToken [OF stake] inc updateReward_frame [OF up] by (auto simp: increasePoolToken_Ok)
  qed (use white x inc t s1 up updateReward_frame [OF up] in \<open>auto simp: increasePoolToken_Ok but_chain_def isWhitelistToken_def\<close>)
qed

lemma lend_supply_inv:
  assumes "lend_supply E a u tk n v s = (Ok (), t)" and "potv_inv E tbal usd_total s" and "a \<noteq> pool_at E"
  shows "potv_inv E tbal usd_total t"
proof -
  obtain r x where x: "safeTransferFrom E tk (lend_at E) a (pool_at E) n (ext s) = (Ok (), x)" "ext t = x"
    "config t = config s" "usd t = usd s"
    "pool t = (pool s)\<lparr>userSupply := (userSupply (pool s))(tk := (userSupply (pool s) tk)(u := userSupply (pool s) tk u + n)),
       totalSupply := (totalSupply (pool s))(tk := totalSupply (pool s) tk + n)\<rparr>"
    "chain_books (chain s) \<Longrightarrow> chain_books (chain t)"
    using lend_supply_Ok [OF assms(1)] by metis
  have "tbal x tk (pool_at E) = tbal (ext s) tk (pool_at E) + n" "\<And>t. tbal (ext s) t (pool_at E) \<le> tbal x t (pool_at E)"
    "usd_total x = usd_total (ext s)"
    using transfer_from_receives [OF x(1)] transfer_from_others [OF x(1)] transfer_from [OF x(1)] assms(3) by auto
  then show ?thesis
    using assms(2) x(2-) pool_books_increase [of "pool s" tk n u]
    by (auto simp: potv_inv_def wired_def intro: order_trans)
qed

lemma lend_withdraw_Ok:
  assumes "lend_withdraw E u b tk n v s = (Ok (), t)"
  obtains r x k where "updateReward E u s = (Ok (), s\<lparr>reward := r\<rparr>)" "getTokenMaxWithdrawable E s u tk = Ok k" "n \<le> k"
    "safeTransfer E tk (pool_at E) b n (ext s) = (Ok (), x)" "pool_lend (pool s) = lend_at E" "n \<le> userSupply (pool s) tk u"
    "ext t = x" "config t = config s" "feed t = feed s" "usd t = usd s" "lend t = lend s" "reward t = r"
    "pool t = (pool s)\<lparr>userSupply := (userSupply (pool s))(tk := (userSupply (pool s) tk)(u := userSupply (pool s) tk u - n)),
       totalSupply := (totalSupply (pool s))(tk := totalSupply (pool s) tk - n)\<rparr>"
    "chain_books (chain s) \<Longrightarrow> chain_books (chain t)"
proof -
  obtain s1 k s2 where up: "updateReward E u s = (Ok (), s1)" and k: "getTokenMaxWithdrawable E s1 u tk = Ok k" "n \<le> k"
    and dec: "decreasePoolToken E (lend_at E) u b tk n s1 = (Ok (), s2)"
    and unstake: "unstakeToken E (lend_at E) u v tk n s2 = (Ok (), t)"
    using assms by (auto simp: lend_withdraw_def)
  note frame = updateReward_frame [OF up]
  have s1: "s1 = s\<lparr>reward := reward s1\<rparr>" using frame by simp
  have "getTokenMaxWithdrawable E s1 u tk = getTokenMaxWithdrawable E s u tk"
    using frame by (simp add: getTokenMaxWithdrawable_def getUserBorrowTotalUSD_def getUserTotalBorrow_def getMCR_def getTokenPrice_def
      latestAnswer_def getTokenDecimals_def getUserTokenSupply_def)
  moreover have t: "but_chain t = but_chain s2" using keepsD [OF keeps_chain_ops(2) unstake] .
  obtain x where x: "safeTransfer E tk (pool_at E) b n (ext s) = (Ok (), x)" "n \<le> userSupply (pool s) tk u" "pool_lend (pool s) = lend_at E"
    and s2: "s2 = s1\<lparr>pool := (pool s)\<lparr>userSupply := (userSupply (pool s))(tk := (userSupply (pool s) tk)(u := userSupply (pool s) tk u - n)),
       totalSupply := (totalSupply (pool s))(tk := totalSupply (pool s) tk - n)\<rparr>, ext := x\<rparr>"
    using dec frame by (auto simp: decreasePoolToken_Ok)
  ultimately show thesis
  proof (intro that [of "reward s1" k x], goal_cases)
    case 14
    then show ?case using chain_books_unstakeToken [OF unstake] frame by (simp add: s2)
  qed (use t s1 up k x frame in \<open>auto simp: but_chain_def s2\<close>)
qed

lemma lend_withdraw_inv:
  assumes "lend_withdraw E u b tk n v s = (Ok (), t)" and "potv_inv E tbal usd_total s"
  shows "potv_inv E tbal usd_total t"
proof -
  obtain x where x: "safeTransfer E tk (pool_at E) b n (ext s) = (Ok (), x)" "n \<le> userSupply (pool s) tk u" "ext t = x"
    "config t = config s" "usd t = usd s"
    "pool t = (pool s)\<lparr>userSupply := (userSupply (pool s))(tk := (userSupply (pool s) tk)(u := userSupply (pool s) tk u - n)),
       totalSupply := (totalSupply (pool s))(tk := totalSupply (pool s) tk - n)\<rparr>"
    "chain_books (chain s) \<Longrightarrow> chain_books (chain t)"
    using lend_withdraw_Ok [OF assms(1)] by metis
  have "totalSupply (pool t) t' \<le> tbal x t' (pool_at E)" for t'
  proof -
    have "totalSupply (pool t) t' = totalSupply (pool s) t' - (if t' = tk then n else 0)" by (simp add: x(6))
    also have "\<dots> \<le> tbal (ext s) t' (pool_at E) - (if t' = tk then n else 0)"
      by (rule diff_le_mono) (use assms(2) in \<open>simp add: potv_inv_def\<close>)
    finally show ?thesis using transfer_pays [OF x(1), of t'] by linarith
  qed
  then show ?thesis
    using assms(2) x(3-) pool_books_decrease [OF _ x(2)] transfer [OF x(1)] by (auto simp: potv_inv_def wired_def)
qed

lemma borrowUSD_inv:
  assumes "borrowUSD E a u n s = (Ok (), t)" and "potv_inv E tbal usd_total s"
  shows "potv_inv E tbal usd_total t"
proof -
  let ?s = "s\<lparr>pool := (pool s)\<lparr>userBorrow := (userBorrow (pool s))(u := userBorrow (pool s) u + n), totalBorrow := totalBorrow (pool s) + n\<rparr>\<rparr>"
  have "mint_at E (usd_at E) u n ?s = (Ok (), t)"
    using assms by (simp add: borrowUSD_Ok potv_inv_def wired_def)
  then obtain x where t: "t = ?s\<lparr>ext := x\<rparr>" and x: "usd_mint E u n (ext s) = (Ok (), x)"
    using mint_burn_at_Ok(1) by fastforce
  have "tbal (ext s) t' (pool_at E) \<le> tbal x t' (pool_at E)" for t' using mint [OF x] by simp
  then show ?thesis
    using assms(2) mint [OF x] pool_books_borrow [of "pool s"] by (auto simp: potv_inv_def wired_def t intro: order_trans)
qed

lemma repayUSD_wired:
  assumes "repayUSD E a payer u n s = (Ok (), t)" and "wired E s"
  obtains x where "usd_burn E payer n (ext s) = (Ok (), x)" "n \<le> userBorrow (pool s) u" "a = lend_at E"
    "t = s\<lparr>pool := (pool s)\<lparr>userBorrow := (userBorrow (pool s))(u := userBorrow (pool s) u - n), totalBorrow := totalBorrow (pool s) - n\<rparr>, ext := x\<rparr>"
  using assms mint_burn_at_Ok(2) by (fastforce simp: repayUSD_Ok wired_def)

lemma repayUSD_inv:
  assumes "repayUSD E a payer u n s = (Ok (), t)" and "potv_inv E tbal usd_total s" and "payer \<noteq> pool_at E"
  shows "potv_inv E tbal usd_total t"
proof -
  obtain x where x: "usd_burn E payer n (ext s) = (Ok (), x)" "n \<le> userBorrow (pool s) u"
    "t = s\<lparr>pool := (pool s)\<lparr>userBorrow := (userBorrow (pool s))(u := userBorrow (pool s) u - n), totalBorrow := totalBorrow (pool s) - n\<rparr>, ext := x\<rparr>"
    using repayUSD_wired [OF assms(1)] assms(2) by (auto simp: potv_inv_def)
  have "tbal x t' (pool_at E) = tbal (ext s) t' (pool_at E)" for t' using burn [OF x(1)] assms(3) by simp
  then show ?thesis
    using assms(2) burn [OF x(1)] pool_books_repay [OF _ x(2)] by (auto simp: potv_inv_def wired_def x(3))
qed

lemma liquidateTokens_inv:
  assumes "liquidateTokens E a u b s = (Ok (), t)" and "potv_inv E tbal usd_total s" and "u \<noteq> b"
  shows "potv_inv E tbal usd_total t"
proof -
  let ?T = "collateralTokens (config s)"
  have "t = s\<lparr>pool := (pool s)\<lparr>userSupply := (\<lambda>tk. if tk \<in> set ?T
    then (userSupply (pool s) tk)(u := 0, b := userSupply (pool s) tk b + userSupply (pool s) tk u) else userSupply (pool s) tk)\<rparr>\<rparr>"
    using assms by (intro liquidate_tokens_Ok) (auto simp: liquidateTokens_def getAllWhitelistTokens_def potv_inv_def)
  then show ?thesis using assms(2) pool_books_liquidate [OF _ assms(3), of "pool s" "set ?T"] by (auto simp: potv_inv_def wired_def)
qed

lemma liquidate_steps:
  assumes "liquidate E a u s = (Ok (), t)"
  obtains q r s1 s2 where "a \<noteq> u" "getUserCollateralRatio E s u = Ok q" "q \<le> liquidationRate (config s)"
    "bnd (updateReward E u) (\<lambda>_. updateReward E a) s = (Ok (), s\<lparr>reward := r\<rparr>)"
    "repayUSD E (lend_at E) a u (userBorrow (pool s) u) (s\<lparr>reward := r\<rparr>) = (Ok (), s1)"
    "liquidateTokens E (lend_at E) u a s1 = (Ok (), s2)" "liquidatePosition E (lend_at E) a u s2 = (Ok (), t)"
proof -
  obtain q r1 r2 s1 s2 where u: "a \<noteq> u" "getUserCollateralRatio E s u = Ok q" "q \<le> liquidationRate (config s)"
    "updateReward E u s = (Ok (), r1)" "updateReward E a r1 = (Ok (), r2)"
    "repayUSD E (lend_at E) a u (getUserTotalBorrow r2 u) r2 = (Ok (), s1)"
    "liquidateTokens E (lend_at E) u a s1 = (Ok (), s2)" "liquidatePosition E (lend_at E) a u s2 = (Ok (), t)"
    using assms unfolding liquidate_def by auto
  have r2: "r2 = s\<lparr>reward := reward r2\<rparr>" using updateReward_frame [OF u(4)] updateReward_frame [OF u(5)] by simp
  have "bnd (updateReward E u) (\<lambda>_. updateReward E a) s = (Ok (), s\<lparr>reward := reward r2\<rparr>)" using u(4,5) r2 by simp
  moreover have "getUserTotalBorrow r2 u = userBorrow (pool s) u"
    using updateReward_frame [OF u(4)] updateReward_frame [OF u(5)] by (simp add: getUserTotalBorrow_def)
  then have "repayUSD E (lend_at E) a u (userBorrow (pool s) u) (s\<lparr>reward := reward r2\<rparr>) = (Ok (), s1)"
    using u(6) r2 by metis
  ultimately show thesis using that u by blast
qed

lemma liquidate_inv:
  assumes "liquidate E a u s = (Ok (), t)" and "potv_inv E tbal usd_total s" and "a \<noteq> pool_at E"
  shows "potv_inv E tbal usd_total t"
proof -
  obtain r s1 s2 where u: "a \<noteq> u" "repayUSD E (lend_at E) a u (userBorrow (pool s) u) (s\<lparr>reward := r\<rparr>) = (Ok (), s1)"
    "liquidateTokens E (lend_at E) u a s1 = (Ok (), s2)" "liquidatePosition E (lend_at E) a u s2 = (Ok (), t)"
    using liquidate_steps [OF assms(1)] by metis
  have "potv_inv E tbal usd_total (s\<lparr>reward := r\<rparr>)" using assms(2) by (simp add: potv_inv_def wired_def)
  then have "potv_inv E tbal usd_total s2"
    using liquidateTokens_inv [OF u(3)] repayUSD_inv [OF u(2)] assms(3) u(1) by auto
  then show ?thesis
    using potv_inv_chain [OF keeps_chain_ops(3) u(4)] chain_books_liquidatePosition [OF u(4)] by (auto simp: potv_inv_def)
qed

text \<open>Steps of Reward that move reward tokens: no token leaves Pool.\<close>

definition reward_step :: "'x potv \<Rightarrow> 'x potv \<Rightarrow> bool" where
  "reward_step s t \<longleftrightarrow> config t = config s \<and> feed t = feed s \<and> usd t = usd s \<and> pool t = pool s \<and> chain t = chain s \<and> lend t = lend s \<and>
     usd_total (ext t) = usd_total (ext s) \<and> (\<forall>tk. tbal (ext s) tk (pool_at E) \<le> tbal (ext t) tk (pool_at E))"

lemma reward_step_trans: "reward_step s t \<Longrightarrow> reward_step t u \<Longrightarrow> reward_step s u"
  by (auto simp: reward_step_def intro: order_trans)

lemma reward_step_same: "but_reward t = but_reward s \<Longrightarrow> reward_step s t"
  by (auto simp: but_reward_def reward_step_def)

lemma reward_step_inv: "reward_step s t \<Longrightarrow> potv_inv E tbal usd_total s \<Longrightarrow> potv_inv E tbal usd_total t"
  by (auto simp: reward_step_def potv_inv_def wired_def intro: order_trans)

lemma claimReward_step:
  assumes "claimReward E a tk s = (Ok (), t)"
  shows "reward_step s t"
proof -
  obtain s1 where up: "updateReward E a s = (Ok (), s1)"
    and rest: "(if 0 < rewards (reward s1) a tk then bnd (set_reward a tk 0) (\<lambda>_.
      on_tokens (safeTransfer E tk (reward_at E) a (rewards (reward s1) a tk))) else ret ()) s1 = (Ok (), t)"
    using assms by (auto simp: claimReward_def)
  have "reward_step s s1" using keepsD [OF keeps_updateReward up] by (rule reward_step_same)
  moreover have "reward_step s1 t"
  proof (cases "0 < rewards (reward s1) a tk")
    case True
    then obtain r x where t: "t = s1\<lparr>reward := r, ext := x\<rparr>"
      and x: "safeTransfer E tk (reward_at E) a (rewards (reward s1) a tk) (ext s1) = (Ok (), x)"
      using rest by (auto simp: set_reward_def)
    show ?thesis using transfer [OF x] transfer_others [OF x apart] by (simp add: reward_step_def t)
  qed (use rest in \<open>simp add: reward_step_same\<close>)
  ultimately show ?thesis by (rule reward_step_trans)
qed

lemma keeps_distribute_row: "keeps but_reward (distribute_row E tk lps row acc)"
proof (induction E tk lps row acc rule: distribute_row.induct)
  case (3 E tk lp lps n row acc)
  then show ?case by (auto simp: updateRewardPerTokenStored_def intro!: keeps_intros)
qed (auto intro: keeps_intros)

lemma distribute_token_step:
  assumes "distribute_token E a lps p s = (Ok (), t)" and "a \<noteq> pool_at E"
  shows "reward_step s t"
proof -
  obtain tk row where p: "p = (tk, row)" by (cases p)
  obtain n s1 where row: "distribute_row E tk lps row 0 s = (Ok n, s1)"
    and rest: "(if 0 < n then on_tokens (safeTransferFrom E tk (reward_at E) a (reward_at E) n) else ret ()) s1 = (Ok (), t)"
    using assms(1) by (auto simp: distribute_token_def p)
  have "reward_step s s1" using keepsD [OF keeps_distribute_row row] by (rule reward_step_same)
  moreover have "reward_step s1 t"
  proof (cases "0 < n")
    case True
    then obtain x where t: "t = s1\<lparr>ext := x\<rparr>" and x: "safeTransferFrom E tk (reward_at E) a (reward_at E) n (ext s1) = (Ok (), x)"
      using rest by auto
    show ?thesis using transfer_from [OF x] transfer_from_others [OF x assms(2) [symmetric]] by (simp add: reward_step_def t)
  qed (use rest in \<open>simp add: reward_step_same\<close>)
  ultimately show ?thesis by (rule reward_step_trans)
qed

lemma distributeReward_step:
  assumes "distributeReward E a tks lps ns s = (Ok (), t)" and "a \<noteq> pool_at E"
  shows "reward_step s t"
proof -
  have "for_each (distribute_token E a lps) (zip tks ns) s = (Ok (), t)"
    using assms(1) by (auto simp: distributeReward_def split: list.splits)
  then show ?thesis
  proof (rule for_each_Ok_keeps [where P = "reward_step s"])
    show "reward_step s s" by (simp add: reward_step_same)
    show "distribute_token E a lps p u = (Ok (), v) \<Longrightarrow> reward_step s u \<Longrightarrow> reward_step s v" for p u v
      using distribute_token_step [OF _ assms(2)] reward_step_trans by blast
  qed
qed

lemma migrateStakes_inv:
  assumes "migrateStakes E a v w s = (Ok (), t)" and "potv_inv E tbal usd_total s"
  shows "potv_inv E tbal usd_total t"
proof -
  obtain us k s1 where up: "for_each (\<lambda>u. to_reward E (updateReward E u)) us s = (Ok (), s1)"
    and mig: "Chain_migrateStakes E (lend_at E) v w k s1 = (Ok (), t)"
    using assms(1) by (auto simp: migrateStakes_def Let_def)
  have "potv_inv E tbal usd_total s1"
    by (rule potv_inv_reward [where m = "for_each (\<lambda>u. to_reward E (updateReward E u)) us"])
      (use up assms(2) in \<open>auto intro: keeps_intros keeps_updateReward\<close>)
  then show ?thesis
    using potv_inv_chain [OF keeps_chain_ops(4) mig] chain_books_migrateStakes [OF mig] by (auto simp: potv_inv_def)
qed

lemma config_inv:
  assumes "potv_inv E tbal usd_total s"
  shows "potv_inv E tbal usd_total (s\<lparr>config := (config s)\<lparr>collateralTokens := set_add E tk (collateralTokens (config s))\<rparr>\<rparr>)"
    and "potv_inv E tbal usd_total (s\<lparr>config := (config s)\<lparr>collateralTokens := set_remove E tk (collateralTokens (config s))\<rparr>\<rparr>)"
  using assms set_add_distinct set_remove_distinct by (simp_all add: potv_inv_def wired_def)

lemma feed_inv:
  assumes "setTokenPrices n a tks ps s = (Ok (), t)" and "potv_inv E tbal usd_total s"
  shows "potv_inv E tbal usd_total t"
proof -
  have "for_each (set_price n) (zip tks ps) s = (Ok (), t)" using assms(1) by (auto simp: setTokenPrices_def)
  then show ?thesis using assms(2)
    by (rule for_each_Ok_keeps [where P = "potv_inv E tbal usd_total"]) (auto simp: set_price_def potv_inv_def wired_def)
qed

text \<open>The functions only Lend or Pool may call refuse everyone else.\<close>

lemma reserved_refuse:
  assumes "wired E s" and "ordinary E (a, m)" and "execute E a m s = (Ok (), t)"
  shows "m \<noteq> MIncreasePoolToken u tk n" "m \<noteq> MDecreasePoolToken u b tk n" "m \<noteq> MLiquidateTokens u b" "m \<noteq> MBorrowUSD u n"
    "m \<noteq> MRepayUSD b u n" "m \<noteq> MMint u n" "m \<noteq> MBurn u n" "m \<noteq> MInitUsd u"
  using assms by (auto simp: ordinary_def wired_def increasePoolToken_def decreasePoolToken_def liquidateTokens_def borrowUSD_def
      repayUSD_def TUCUSD_mint_def TUCUSD_burn_def TUCUSD_initialize_def)

lemma small_steps_inv:
  assumes "potv_inv E tbal usd_total s"
  shows "setMCR a n s = (Ok (), t) \<Longrightarrow> potv_inv E tbal usd_total t"
    and "setLiquidationRate a n s = (Ok (), t) \<Longrightarrow> potv_inv E tbal usd_total t"
    and "Config_initialize a n k s = (Ok (), t) \<Longrightarrow> potv_inv E tbal usd_total t"
    and "PriceFeed_initialize a s = (Ok (), t) \<Longrightarrow> potv_inv E tbal usd_total t"
    and "Pool_initialize a c s = (Ok (), t) \<Longrightarrow> potv_inv E tbal usd_total t"
    and "Lend_initialize a c d f g h k' s = (Ok (), t) \<Longrightarrow> potv_inv E tbal usd_total t"
    and "setPlugin a b on s = (Ok (), t) \<Longrightarrow> potv_inv E tbal usd_total t"
    and "addCollateral E a tk s = (Ok (), t) \<Longrightarrow> potv_inv E tbal usd_total t"
    and "disableCollateral E a tk s = (Ok (), t) \<Longrightarrow> potv_inv E tbal usd_total t"
  using assms config_inv [OF assms]
  by (auto simp: setMCR_def setLiquidationRate_def Config_initialize_def PriceFeed_initialize_def Pool_initialize_def
      Lend_initialize_def setPlugin_def addCollateral_def disableCollateral_def potv_inv_def wired_def pool_books_def)

lemma change_owner_inv:
  assumes "change_owner E c k a s = (Ok (), t)" and "potv_inv E tbal usd_total s"
  shows "potv_inv E tbal usd_total t"
  using assms by (cases c) (auto simp: change_owner_def potv_inv_def wired_def pool_books_def chain_books_def)

lemma token_call_inv:
  assumes "on_tokens (erc20_call E tk a d) s = (Ok (), t)" and "potv_inv E tbal usd_total s" and "ordinary E (a, m)"
  shows "potv_inv E tbal usd_total t"
  using assms outsider by (fastforce simp: potv_inv_def wired_def ordinary_def intro: order_trans)

lemma chain_steps_inv:
  assumes "potv_inv E tbal usd_total s"
  shows "stakeToken E a u v tk n s = (Ok (), t) \<Longrightarrow> potv_inv E tbal usd_total t"
    and "unstakeToken E a u v tk n s = (Ok (), t) \<Longrightarrow> potv_inv E tbal usd_total t"
    and "liquidatePosition E a b u s = (Ok (), t) \<Longrightarrow> potv_inv E tbal usd_total t"
    and "Chain_migrateStakes E a v w n s = (Ok (), t) \<Longrightarrow> potv_inv E tbal usd_total t"
    and "setValidators E a vs s = (Ok (), t) \<Longrightarrow> potv_inv E tbal usd_total t"
    and "Chain_setLendContract a b s = (Ok (), t) \<Longrightarrow> potv_inv E tbal usd_total t"
    and "Chain_initialize a b s = (Ok (), t) \<Longrightarrow> potv_inv E tbal usd_total t"
proof -
  have c: "chain_books (chain s)" using assms by (simp add: potv_inv_def)
  note step = potv_inv_chain [OF _ _ assms]
  show "stakeToken E a u v tk n s = (Ok (), t) \<Longrightarrow> potv_inv E tbal usd_total t"
    using step [OF keeps_chain_ops(1)] chain_books_stakeToken [OF _ c] by blast
  show "unstakeToken E a u v tk n s = (Ok (), t) \<Longrightarrow> potv_inv E tbal usd_total t"
    using step [OF keeps_chain_ops(2)] chain_books_unstakeToken [OF _ c] by blast
  show "liquidatePosition E a b u s = (Ok (), t) \<Longrightarrow> potv_inv E tbal usd_total t"
    using step [OF keeps_chain_ops(3)] chain_books_liquidatePosition [OF _ c] by blast
  show "Chain_migrateStakes E a v w n s = (Ok (), t) \<Longrightarrow> potv_inv E tbal usd_total t"
    using step [OF keeps_chain_ops(4)] chain_books_migrateStakes [OF _ c] by blast
  show "setValidators E a vs s = (Ok (), t) \<Longrightarrow> potv_inv E tbal usd_total t"
    using step [OF keeps_chain_ops(5)] chain_books_setValidators [OF _ c] by blast
  show "Chain_setLendContract a b s = (Ok (), t) \<Longrightarrow> potv_inv E tbal usd_total t"
    using step [OF keeps_chain_ops(6)] c by (fastforce simp: Chain_setLendContract_def chain_books_def)
  show "Chain_initialize a b s = (Ok (), t) \<Longrightarrow> potv_inv E tbal usd_total t"
    using step [OF keeps_chain_ops(7)] c by (fastforce simp: Chain_initialize_def chain_books_def)
qed

lemma execute_inv:
  assumes run: "execute E a m s = (Ok (), t)" and "ordinary E (a, m)" and inv: "potv_inv E tbal usd_total s"
  shows "potv_inv E tbal usd_total t"
proof -
  have a: "a \<noteq> pool_at E" "a \<noteq> lend_at E" and w: "wired E s" using assms(2) inv by (auto simp: ordinary_def potv_inv_def)
  note refuse = reserved_refuse [OF w assms(2) run]
  show ?thesis
  proof (cases m)
    case (MSupply tk n v)
    then show ?thesis using run lend_supply_inv [OF _ inv a(1)] by (auto simp: Lend_supply_def)
  next
    case (MPluginSupply u tk n v)
    then show ?thesis using run lend_supply_inv [OF _ inv a(1)] by (auto simp: pluginSupply_def)
  next
    case (MWithdraw tk n v)
    then show ?thesis using run lend_withdraw_inv [OF _ inv] by (auto simp: withdraw_def)
  next
    case (MPluginWithdraw u tk n v)
    then show ?thesis using run lend_withdraw_inv [OF _ inv] by (auto simp: pluginWithdraw_def)
  next
    case (MBorrow n)
    then show ?thesis using run borrowUSD_inv [OF _ inv] by (auto simp: borrow_def)
  next
    case (MRepay n)
    then show ?thesis using run repayUSD_inv [OF _ inv a(1)] by (auto simp: repay_def)
  next
    case (MLiquidate u)
    then show ?thesis using run liquidate_inv [OF _ inv a(1)] by simp
  next
    case (MMigrateStakes v w)
    then show ?thesis using run migrateStakes_inv [OF _ inv] by simp
  next
    case (MUpdateReward u)
    then show ?thesis using run potv_inv_reward [OF keeps_updateReward _ inv] by simp
  next
    case (MClaimReward tk)
    then show ?thesis using run reward_step_inv [OF claimReward_step inv] by simp
  next
    case (MDistributeReward tks lps ns)
    then show ?thesis using run reward_step_inv [OF distributeReward_step [OF _ a(1)] inv] by simp
  next
    case (MOwner c k)
    then show ?thesis using run change_owner_inv [OF _ inv] by simp
  next
    case (MTokenCall tk d)
    then show ?thesis using run token_call_inv [OF _ inv assms(2)] by simp
  qed (use run refuse assms(2) small_steps_inv [OF inv] chain_steps_inv [OF inv] feed_inv [OF _ inv]
      potv_inv_reward [OF keeps_reward_ops(1) _ inv] potv_inv_reward [OF keeps_reward_ops(2) _ inv]
      potv_inv_reward [OF keeps_reward_ops(3) _ inv] potv_inv_reward [OF keeps_reward_ops(4) _ inv] in \<open>simp_all add: ordinary_def\<close>)
qed

end

lemma transact_cases:
  "transact E a m s = s \<or> execute E a m s = (Ok (), transact E a m s)"
  by (auto simp: transact_def cached_def split: prod.splits res.splits)

lemma transactions_keep:
  assumes "P s" and "\<And>a m s t. execute E a m s = (Ok (), t) \<Longrightarrow> Q (a, m) \<Longrightarrow> P s \<Longrightarrow> P t" and "list_all Q ms"
  shows "P (transactions E ms s)"
  using assms(1,3)
proof (induction ms arbitrary: s)
  case (Cons x ms)
  then show ?case
    using assms(2) transact_cases [of E "fst x" "snd x" s] by (cases x) (metis fst_conv list.pred_inject(2) snd_conv transactions.simps(2))
qed auto

end
