(* ===== verification/Potv_Reward.thy ===== *)
theory Potv_Reward
  imports Potv_Inv
begin

text \<open>
  Reward can pay: what it owes to all suppliers together, in a reward token that stays
  registered, never exceeds what it holds of that token. Rounding is always against the
  supplier.
\<close>

section \<open>More on sums\<close>

lemma fsum_split:
  assumes "fin f" and "finite K"
  shows "fsum f = fsum (\<lambda>k. if k \<in> K then 0 else f k) + (\<Sum>k\<in>K. f k)"
proof -
  let ?A = "{k. f k \<noteq> 0} \<union> K"
  have A: "finite ?A" using assms by (simp add: fin_def)
  have "fsum f = (\<Sum>k\<in>?A. f k)" by (rule fsum_over [OF A]) auto
  moreover have "fsum (\<lambda>k. if k \<in> K then 0 else f k) = (\<Sum>k\<in>?A. if k \<in> K then 0 else f k)" by (rule fsum_over [OF A]) auto
  moreover have "(\<Sum>k\<in>?A. f k) = (\<Sum>k\<in>?A - K. f k) + (\<Sum>k\<in>K. f k)"
    using A by (metis Un_upper2 sum.subset_diff)
  moreover have "(\<Sum>k\<in>?A. if k \<in> K then 0 else f k) = (\<Sum>k\<in>?A - K. f k)"
    using sum.subset_diff [of K ?A "\<lambda>k. if k \<in> K then 0 else f k"] A by simp
  ultimately show ?thesis by simp
qed

lemma fin_mono: "fin g \<Longrightarrow> (\<And>k. g k = 0 \<Longrightarrow> f k = 0) \<Longrightarrow> fin f"
  unfolding fin_def by (rule finite_subset [of _ "{k. g k \<noteq> 0}"]) (rule Collect_mono, metis, assumption)

lemma fsum_mono:
  assumes "fin g" and "\<And>k. f k \<le> g k"
  shows "fsum f \<le> fsum g"
proof -
  let ?A = "{k. g k \<noteq> 0}"
  have "{k. f k \<noteq> 0} \<subseteq> ?A" using assms(2) by (metis (mono_tags, lifting) Collect_mono le_zero_eq)
  then show ?thesis
    using assms fsum_over [of ?A f] fsum_over [of ?A g] sum_mono [of ?A f g] by (simp add: fin_def)
qed

lemma fsum_plus:
  assumes "fin f" and "fin g"
  shows "fsum (\<lambda>k. f k + g k) = fsum f + fsum g"
proof -
  let ?A = "{k. f k \<noteq> 0} \<union> {k. g k \<noteq> 0}"
  have A: "finite ?A" using assms by (simp add: fin_def)
  have "fsum (\<lambda>k. f k + g k) = (\<Sum>k\<in>?A. f k + g k)" by (rule fsum_over [OF A]) auto
  moreover have "fsum f = (\<Sum>k\<in>?A. f k)" by (rule fsum_over [OF A]) auto
  moreover have "fsum g = (\<Sum>k\<in>?A. g k)" by (rule fsum_over [OF A]) auto
  ultimately show ?thesis by (simp add: sum.distrib)
qed

lemma fsum_mult: "fsum (\<lambda>k. f k * c) = fsum f * (c :: nat)"
proof (cases "c = 0")
  case False
  then have "{k. f k * c \<noteq> 0} = {k. f k \<noteq> 0}" by auto
  then show ?thesis by (simp add: fsum_def sum_distrib_right)
qed (simp add: fsum_def)

lemma fsum_row: "fsum (\<lambda>(l, u). if l = l0 then g u else 0) = fsum g"
proof -
  have "{p. (case p of (l, u) \<Rightarrow> if l = l0 then g u else 0) \<noteq> 0} = Pair l0 ` {u. g u \<noteq> 0}" by (auto split: if_splits)
  moreover have "(\<Sum>p\<in>Pair l0 ` A. case p of (l, u) \<Rightarrow> if l = l0 then g u else 0) = (\<Sum>u\<in>A. g u)" for A
    by (subst sum.reindex) (auto simp: inj_on_def)
  ultimately show ?thesis unfolding fsum_def by simp
qed

lemma fsum_part: "fin f \<Longrightarrow> finite K \<Longrightarrow> (\<Sum>k\<in>K. f k) \<le> fsum f"
  using fsum_split [of f K] by simp

section \<open>What is owed\<close>

definition unsettled :: "'x potv \<Rightarrow> address \<Rightarrow> address \<times> address \<Rightarrow> nat" where
  "unsettled s R = (\<lambda>(l, u). userSupply (pool s) l u * (rewardPerTokenStored (reward s) R l - userRewardPerTokenPaid (reward s) u R l))"

definition owed :: "'x potv \<Rightarrow> address \<Rightarrow> nat" where
  "owed s R = 10 ^ 6 * fsum (\<lambda>u. rewards (reward s) u R) + fsum (unsettled s R)"

definition reward_ok :: "address \<Rightarrow> 'x potv \<Rightarrow> bool" where
  "reward_ok R s \<longleftrightarrow> R \<in> set (rewardTokens (reward s)) \<and> distinct (rewardTokens (reward s)) \<and>
     fin (\<lambda>u. rewards (reward s) u R) \<and> fin (\<lambda>(l, u). userSupply (pool s) l u) \<and>
     (\<forall>u l. userRewardPerTokenPaid (reward s) u R l \<le> rewardPerTokenStored (reward s) R l)"

definition settled :: "address \<Rightarrow> address \<Rightarrow> 'x potv \<Rightarrow> bool" where
  "settled R u s \<longleftrightarrow> (\<forall>l\<in>set (collateralTokens (config s)). userRewardPerTokenPaid (reward s) u R l = rewardPerTokenStored (reward s) R l)"

lemma fin_unsettled: "reward_ok R s \<Longrightarrow> fin (unsettled s R)"
  unfolding reward_ok_def unsettled_def by (elim conjE, erule fin_mono) auto

lemma precision [simp]: "getPrecision = 6"
  by (simp add: getPrecision_def PRECISION_DECIMALS_def)

lemma earned_loop_bound:
  "earned_loop E s u R acc ls = Ok n \<Longrightarrow> 10 ^ 6 * n \<le> 10 ^ 6 * acc + (\<Sum>l\<leftarrow>ls. unsettled s R (l, u))"
proof (induction ls arbitrary: acc)
  case (Cons l ls)
  let ?x = "unsettled s R (l, u)"
  have "earned_loop E s u R (acc + ?x div 10 ^ 6) ls = Ok n"
    using Cons.prems by (auto simp: unsettled_def getUserTokenSupply_def getRewardPerTokenStored_def getUserRewardPaid_def)
  from Cons.IH [OF this] have "10 ^ 6 * n \<le> 10 ^ 6 * acc + 10 ^ 6 * (?x div 10 ^ 6) + (\<Sum>l\<leftarrow>ls. unsettled s R (l, u))"
    by (simp add: algebra_simps)
  moreover have "10 ^ 6 * (?x div 10 ^ 6) \<le> ?x" by simp
  ultimately show ?case by simp
qed auto

section \<open>Settling an account\<close>

lemma paid_loop_Ok:
  "for_each (updateUserRewardPerTokenPaid v R) ls s = (Ok (), t) \<Longrightarrow>
    t = s\<lparr>reward := (reward s)\<lparr>userRewardPerTokenPaid := (\<lambda>u R' l. if u = v \<and> R' = R \<and> l \<in> set ls
      then rewardPerTokenStored (reward s) R l else userRewardPerTokenPaid (reward s) u R' l)\<rparr>\<rparr>"
proof (induction ls arbitrary: s)
  case (Cons l ls)
  then obtain s1 where "updateUserRewardPerTokenPaid v R l s = (Ok (), s1)" "for_each (updateUserRewardPerTokenPaid v R) ls s1 = (Ok (), t)"
    by auto
  with Cons.IH [OF this(2)] show ?case
    by (auto simp: updateUserRewardPerTokenPaid_def getRewardPerTokenStored_def fun_eq_iff)
qed auto

lemma update_token_reward_Ok:
  assumes "update_token_reward E v R s = (Ok (), t)"
  obtains n where "earned E s v R = Ok n"
    "t = s\<lparr>reward := (reward s)\<lparr>rewards := (rewards (reward s))(v := (rewards (reward s) v)(R := rewards (reward s) v R + n)),
      userRewardPerTokenPaid := (\<lambda>u R' l. if u = v \<and> R' = R \<and> l \<in> set (collateralTokens (config s))
        then rewardPerTokenStored (reward s) R l else userRewardPerTokenPaid (reward s) u R' l)\<rparr>\<rparr>"
proof -
  obtain n s1 where n: "earned E s v R = Ok n" and s1: "set_reward v R (rewards (reward s) v R + n) s = (Ok (), s1)"
    and loop: "for_each (updateUserRewardPerTokenPaid v R) (collateralTokens (config s1)) s1 = (Ok (), t)"
    using assms by (auto simp: update_token_reward_def getAllWhitelistTokens_def)
  have s1': "s1 = s\<lparr>reward := (reward s)\<lparr>rewards := (rewards (reward s))(v := (rewards (reward s) v)(R := rewards (reward s) v R + n))\<rparr>\<rparr>"
    using s1 by (simp add: set_reward_def)
  show thesis by (rule that [OF n]) (use paid_loop_Ok [OF loop] in \<open>unfold s1', simp cong: if_cong\<close>)
qed

lemma update_same_token:
  assumes "update_token_reward E v R s = (Ok (), t)" and "reward_ok R s" and "distinct (collateralTokens (config s))"
  shows "reward_ok R t \<and> owed t R \<le> owed s R \<and> settled R v t"
proof -
  let ?W = "collateralTokens (config s)" and ?K = "(\<lambda>l. (l, v)) ` set (collateralTokens (config s))"
  obtain n where n: "earned E s v R = Ok n"
    and t: "t = s\<lparr>reward := (reward s)\<lparr>rewards := (rewards (reward s))(v := (rewards (reward s) v)(R := rewards (reward s) v R + n)),
      userRewardPerTokenPaid := (\<lambda>u R' l. if u = v \<and> R' = R \<and> l \<in> set ?W
        then rewardPerTokenStored (reward s) R l else userRewardPerTokenPaid (reward s) u R' l)\<rparr>\<rparr>"
    by (rule update_token_reward_Ok [OF assms(1)])
  have f: "fin (\<lambda>u. rewards (reward s) u R)" using assms(2) by (simp add: reward_ok_def)
  have col: "(\<lambda>u. rewards (reward t) u R) = (\<lambda>u. rewards (reward s) u R)(v := rewards (reward s) v R + n)" by (auto simp: t)
  have rew: "fsum (\<lambda>u. rewards (reward t) u R) = fsum (\<lambda>u. rewards (reward s) u R) + n"
    unfolding col using fsum_add [OF f] by simp
  have "unsettled t R = (\<lambda>k. if k \<in> ?K then 0 else unsettled s R k)" by (auto simp: unsettled_def t fun_eq_iff)
  then have "fsum (unsettled s R) = fsum (unsettled t R) + (\<Sum>k\<in>?K. unsettled s R k)"
    using fsum_split [OF fin_unsettled [OF assms(2)], of ?K] by simp
  moreover have "(\<Sum>k\<in>?K. unsettled s R k) = (\<Sum>l\<leftarrow>?W. unsettled s R (l, v))"
    using assms(3) by (simp add: sum.reindex inj_on_def sum_list_distinct_conv_sum_set)
  moreover have "10 ^ 6 * n \<le> (\<Sum>l\<leftarrow>?W. unsettled s R (l, v))"
    using earned_loop_bound [of E s v R 0 ?W n] n by (simp add: earned_def getAllWhitelistTokens_def)
  ultimately have "owed t R \<le> owed s R" by (simp add: owed_def rew)
  moreover have "fin (\<lambda>u. rewards (reward t) u R)" unfolding col by (rule fin_upd [OF f])
  ultimately show ?thesis using assms(2) by (auto simp: reward_ok_def settled_def t)
qed

lemma update_other_token:
  assumes "update_token_reward E v R' s = (Ok (), t)" and "R' \<noteq> R"
  shows "(reward_ok R t \<longleftrightarrow> reward_ok R s) \<and> owed t R = owed s R \<and> (settled R u t \<longleftrightarrow> settled R u s)"
proof -
  have "rewardTokens (reward t) = rewardTokens (reward s)" "pool t = pool s" "config t = config s"
    "rewardPerTokenStored (reward t) = rewardPerTokenStored (reward s)"
    "(\<lambda>u. rewards (reward t) u R) = (\<lambda>u. rewards (reward s) u R)"
    "\<And>u. userRewardPerTokenPaid (reward t) u R = userRewardPerTokenPaid (reward s) u R"
    by (rule update_token_reward_Ok [OF assms(1)], use assms(2) in \<open>auto simp: fun_eq_iff\<close>)+
  then show ?thesis by (simp add: reward_ok_def owed_def unsettled_def settled_def)
qed

text \<open>Settling an account pays out no more than is owed, and leaves it settled for every collateral token.\<close>

lemma update_loop:
  assumes "for_each (update_token_reward E v) Rs s = (Ok (), t)" and "reward_ok R s" and "distinct (collateralTokens (config s))"
  shows "reward_ok R t \<and> owed t R \<le> owed s R \<and> (R \<in> set Rs \<or> settled R v s \<longrightarrow> settled R v t) \<and>
    (\<forall>u. u \<noteq> v \<longrightarrow> settled R u s \<longrightarrow> settled R u t)"
  using assms
proof (induction Rs arbitrary: s)
  case (Cons R' Rs)
  then obtain s1 where s1: "update_token_reward E v R' s = (Ok (), s1)" and rest: "for_each (update_token_reward E v) Rs s1 = (Ok (), t)"
    by auto
  have c: "distinct (collateralTokens (config s1))" and others: "\<And>u. u \<noteq> v \<Longrightarrow> settled R u s \<Longrightarrow> settled R u s1"
    by (rule update_token_reward_Ok [OF s1], use Cons.prems(3) in \<open>auto simp: settled_def\<close>)+
  have step: "reward_ok R s1 \<and> owed s1 R \<le> owed s R \<and> (R' = R \<or> settled R v s \<longrightarrow> settled R v s1)"
    using update_same_token [of E v R s s1] update_other_token [OF s1, of R v] s1 Cons.prems(2,3) by (cases "R' = R") auto
  show ?case using Cons.IH [OF rest _ c] step others by auto
qed auto

lemma updateReward_settles:
  assumes "updateReward E v s = (Ok (), t)" and "reward_ok R s" and "distinct (collateralTokens (config s))"
  shows "reward_ok R t \<and> owed t R \<le> owed s R \<and> settled R v t \<and> (\<forall>u. settled R u s \<longrightarrow> settled R u t)"
proof -
  have "for_each (update_token_reward E v) (rewardTokens (reward s)) s = (Ok (), t)" using assms(1) by (simp add: updateReward_def)
  from update_loop [OF this assms(2,3)] show ?thesis using assms(2) unfolding reward_ok_def by metis
qed

section \<open>Changes of supply\<close>

lemma owed_cong:
  assumes "reward t = reward s" and "\<And>l u. userRewardPerTokenPaid (reward s) u R l \<noteq> rewardPerTokenStored (reward s) R l \<Longrightarrow>
      userSupply (pool t) l u \<le> userSupply (pool s) l u"
    and "reward_ok R s"
  shows "owed t R \<le> owed s R"
proof -
  have "unsettled t R k \<le> unsettled s R k" for k
  proof (cases k)
    case (Pair l u)
    show ?thesis
    proof (cases "userRewardPerTokenPaid (reward s) u R l = rewardPerTokenStored (reward s) R l")
      case False
      then show ?thesis using assms(2) [OF False] by (simp add: unsettled_def Pair assms(1))
    qed (simp add: unsettled_def Pair assms(1))
  qed
  then have "fsum (unsettled t R) \<le> fsum (unsettled s R)" by (rule fsum_mono [OF fin_unsettled [OF assms(3)]])
  then show ?thesis by (simp add: owed_def assms(1))
qed

lemma fin_supply_upd:
  fixes f :: "'a \<Rightarrow> 'b \<Rightarrow> nat"
  assumes "fin (\<lambda>(l, u). f l u)"
  shows "fin (\<lambda>(l, u). (f(a := (f a)(b := n))) l u)"
proof -
  have "(\<lambda>(l, u). (f(a := (f a)(b := n))) l u) = (\<lambda>(l, u). f l u)((a, b) := n)" by (auto simp: fun_eq_iff)
  then show ?thesis using fin_upd [OF assms] by simp
qed

lemma fin_supply_liquidate:
  assumes "fin (\<lambda>(l, u). f l u)"
  shows "fin (\<lambda>(l, u). if l \<in> set T then ((f l)(a := 0, b := f l b + f l a)) u else f l u)"
  unfolding fin_def
proof (rule finite_subset)
  let ?S = "{k. (case k of (l, u) \<Rightarrow> f l u) \<noteq> 0}"
  show "{k. (case k of (l, u) \<Rightarrow> if l \<in> set T then ((f l)(a := 0, b := f l b + f l a)) u else f l u) \<noteq> 0} \<subseteq> ?S \<union> (\<lambda>l. (l, b)) ` set T"
    by (auto split: if_splits)
  show "finite (?S \<union> (\<lambda>l. (l, b)) ` set T)" using assms by (simp add: fin_def)
qed

section \<open>The invariant of Reward\<close>

definition reward_inv :: "'x env \<Rightarrow> ('x \<Rightarrow> address \<Rightarrow> address \<Rightarrow> nat) \<Rightarrow> address \<Rightarrow> 'x potv \<Rightarrow> bool" where
  "reward_inv E tbal R s \<longleftrightarrow> reward_ok R s \<and> owed s R \<le> 10 ^ 6 * tbal (ext s) R (reward_at E)"

lemma reward_inv_step:
  assumes "reward_inv E tbal R s" and "reward_ok R t" and "owed t R \<le> owed s R"
    and "tbal (ext s) R (reward_at E) \<le> tbal (ext t) R (reward_at E)"
  shows "reward_inv E tbal R t"
proof -
  have "owed t R \<le> 10 ^ 6 * tbal (ext s) R (reward_at E)" using assms(1,3) by (auto simp: reward_inv_def)
  also have "\<dots> \<le> 10 ^ 6 * tbal (ext t) R (reward_at E)" using assms(4) by simp
  finally show ?thesis using assms(2) by (simp add: reward_inv_def)
qed

lemma reward_inv_same:
  assumes "reward_inv E tbal R s" and "reward t = reward s" and "userSupply (pool t) = userSupply (pool s)"
    and "tbal (ext s) R (reward_at E) \<le> tbal (ext t) R (reward_at E)"
  shows "reward_inv E tbal R t"
  using assms(1) by (rule reward_inv_step) (use assms in \<open>auto simp: reward_inv_def reward_ok_def owed_def unsettled_def\<close>)

section \<open>Distributions\<close>

lemma owed_stored:
  assumes "reward_ok R s" and "pool_books (pool s)"
    and t: "t = s\<lparr>reward := (reward s)\<lparr>rewardPerTokenStored := (rewardPerTokenStored (reward s))(R :=
      (rewardPerTokenStored (reward s) R)(l0 := rewardPerTokenStored (reward s) R l0 + inc))\<rparr>\<rparr>"
  shows "reward_ok R t \<and> owed t R = owed s R + totalSupply (pool s) l0 * inc"
proof -
  let ?g = "\<lambda>(l, u). if l = l0 then userSupply (pool s) l0 u * inc else 0"
  have le: "userRewardPerTokenPaid (reward s) u R l \<le> rewardPerTokenStored (reward s) R l" for u l
    using assms(1) by (simp add: reward_ok_def)
  have "unsettled t R = (\<lambda>k. unsettled s R k + ?g k)"
    using le by (auto simp: unsettled_def t fun_eq_iff algebra_simps simp flip: add_mult_distrib2 Nat.add_diff_assoc)
  moreover have "fin ?g" using assms(1) unfolding reward_ok_def by (elim conjE, elim fin_mono) auto
  moreover have "fsum ?g = totalSupply (pool s) l0 * inc"
    using assms(2) unfolding fsum_row fsum_mult by (simp add: pool_books_def)
  ultimately have "fsum (unsettled t R) = fsum (unsettled s R) + totalSupply (pool s) l0 * inc"
    using fsum_plus [OF fin_unsettled [OF assms(1)]] by simp
  moreover have "reward_ok R t" using assms(1) le by (auto simp: reward_ok_def t intro: le_SucI trans_le_add1)
  ultimately show ?thesis by (simp add: owed_def t)
qed

lemma stored_other:
  assumes "R' \<noteq> R" and "t = s\<lparr>reward := (reward s)\<lparr>rewardPerTokenStored := (rewardPerTokenStored (reward s))(R' := f)\<rparr>\<rparr>"
  shows "(reward_ok R t \<longleftrightarrow> reward_ok R s) \<and> owed t R = owed s R"
  using assms by (simp add: reward_ok_def owed_def unsettled_def)

lemma distribute_row_owed:
  assumes "distribute_row E R' lps row acc s = (Ok n, t)" and "reward_ok R s" and "pool_books (pool s)"
  shows "reward_ok R t \<and> pool t = pool s \<and> ext t = ext s \<and> acc \<le> n \<and> owed t R \<le> owed s R + (if R' = R then 10 ^ 6 * (n - acc) else 0)"
  using assms
proof (induction E R' lps row acc arbitrary: s rule: distribute_row.induct)
  case (3 E R' l lps k row acc)
  show ?case
  proof (cases "totalSupply (pool s) l = 0")
    case True
    then show ?thesis using 3(1) [of 0 s] 3(3-) by simp
  next
    case False
    define inc where "inc = k * 10 ^ 6 div totalSupply (pool s) l"
    define s1 where "s1 = s\<lparr>reward := (reward s)\<lparr>rewardPerTokenStored := (rewardPerTokenStored (reward s))(R' :=
      (rewardPerTokenStored (reward s) R')(l := rewardPerTokenStored (reward s) R' l + inc))\<rparr>\<rparr>"
    have rest: "distribute_row E R' lps row (acc + k) s1 = (Ok n, t)"
      using 3(3) False by (auto simp: updateRewardPerTokenStored_def s1_def inc_def)
    have inc: "totalSupply (pool s) l * inc \<le> 10 ^ 6 * k" by (simp add: inc_def mult.commute)
    have "reward_ok R s1 \<and> owed s1 R \<le> owed s R + (if R' = R then 10 ^ 6 * k else 0)"
    proof (cases "R' = R")
      case True
      then show ?thesis using owed_stored [OF 3(4,5) s1_def [unfolded True]] inc by simp
    next
      case False
      then show ?thesis using stored_other [OF False s1_def] 3(4) by simp
    qed
    then have s1: "reward_ok R s1 \<and> owed s1 R \<le> owed s R + (if R' = R then 10 ^ 6 * k else 0)" "pool s1 = pool s" "ext s1 = ext s"
      by (simp_all add: s1_def)
    have "reward_ok R t \<and> pool t = pool s1 \<and> ext t = ext s1 \<and> acc + k \<le> n \<and>
        owed t R \<le> owed s1 R + (if R' = R then 10 ^ 6 * (n - (acc + k)) else 0)"
      using False 3(2) [of "totalSupply (pool s) l"] rest s1 3(5) by (auto simp: inc_def)
    then show ?thesis using s1 by (auto simp: diff_mult_distrib2 split: if_splits)
  qed
qed auto

context potv_env
begin

lemma updateReward_inv:
  assumes "updateReward E v s = (Ok (), t)" and "reward_inv E tbal R s" and "distinct (collateralTokens (config s))"
  shows "reward_inv E tbal R t \<and> settled R v t \<and> (\<forall>u. settled R u s \<longrightarrow> settled R u t)"
proof -
  have "reward_ok R s" using assms(2) by (simp add: reward_inv_def)
  note u = updateReward_settles [OF assms(1) this assms(3)]
  then show ?thesis using reward_inv_step [OF assms(2)] updateReward_frame [OF assms(1)] by auto
qed

lemma lend_supply_reward:
  assumes "lend_supply E a u tk n v s = (Ok (), t)" and "reward_inv E tbal R s" and "distinct (collateralTokens (config s))"
    and "a \<noteq> reward_at E"
  shows "reward_inv E tbal R t"
proof -
  obtain r x where white: "isWhitelistToken s tk" and up: "updateReward E u s = (Ok (), s\<lparr>reward := r\<rparr>)"
    and x: "safeTransferFrom E tk (lend_at E) a (pool_at E) n (ext s) = (Ok (), x)" "ext t = x" "reward t = r"
    and p: "pool t = (pool s)\<lparr>userSupply := (userSupply (pool s))(tk := (userSupply (pool s) tk)(u := userSupply (pool s) tk u + n)),
       totalSupply := (totalSupply (pool s))(tk := totalSupply (pool s) tk + n)\<rparr>"
    using lend_supply_Ok [OF assms(1)] by metis
  let ?s = "s\<lparr>reward := r\<rparr>"
  have s: "reward_inv E tbal R ?s" "settled R u ?s" using updateReward_inv [OF up assms(2,3)] by auto
  then have ok: "reward_ok R ?s" by (simp add: reward_inv_def)
  have "owed t R \<le> owed ?s R"
    using s(2) white by (intro owed_cong [OF _ _ ok]) (auto simp: x p settled_def isWhitelistToken_def)
  moreover have "reward_ok R t"
    using ok fin_supply_upd [of "userSupply (pool s)" tk u "userSupply (pool s) tk u + n"] by (simp add: reward_ok_def x p)
  ultimately show ?thesis
    using reward_inv_step [OF s(1)] transfer_from_others [OF x(1) assms(4) [symmetric]] x(2) by simp
qed

lemma lend_withdraw_reward:
  assumes "lend_withdraw E u b tk n v s = (Ok (), t)" and "reward_inv E tbal R s" and "distinct (collateralTokens (config s))"
  shows "reward_inv E tbal R t"
proof -
  obtain r x where up: "updateReward E u s = (Ok (), s\<lparr>reward := r\<rparr>)"
    and x: "safeTransfer E tk (pool_at E) b n (ext s) = (Ok (), x)" "ext t = x" "reward t = r"
    and p: "pool t = (pool s)\<lparr>userSupply := (userSupply (pool s))(tk := (userSupply (pool s) tk)(u := userSupply (pool s) tk u - n)),
       totalSupply := (totalSupply (pool s))(tk := totalSupply (pool s) tk - n)\<rparr>"
    using lend_withdraw_Ok [OF assms(1)] by metis
  let ?s = "s\<lparr>reward := r\<rparr>"
  have s: "reward_inv E tbal R ?s" using updateReward_inv [OF up assms(2,3)] by auto
  then have ok: "reward_ok R ?s" by (simp add: reward_inv_def)
  have "owed t R \<le> owed ?s R" by (rule owed_cong [OF _ _ ok]) (auto simp: x p)
  moreover have "reward_ok R t"
    using ok fin_supply_upd [of "userSupply (pool s)" tk u "userSupply (pool s) tk u - n"] by (simp add: reward_ok_def x p)
  ultimately show ?thesis
    using reward_inv_step [OF s] transfer_others [OF x(1) apart [symmetric]] x(2) by simp
qed

lemma borrowUSD_reward:
  assumes "borrowUSD E a u n s = (Ok (), t)" and "wired E s" and "reward_inv E tbal R s"
  shows "reward_inv E tbal R t"
proof -
  obtain p x where t: "t = s\<lparr>pool := p, ext := x\<rparr>" "userSupply p = userSupply (pool s)" and x: "usd_mint E u n (ext s) = (Ok (), x)"
    using assms(1,2) mint_burn_at_Ok(1) [of E "usd_at E"] by (fastforce simp: borrowUSD_Ok wired_def)
  show ?thesis using reward_inv_same [OF assms(3)] mint [OF x] by (simp add: t)
qed

lemma repayUSD_reward:
  assumes "repayUSD E a payer u n s = (Ok (), t)" and "wired E s" and "reward_inv E tbal R s" and "payer \<noteq> reward_at E"
  shows "reward_inv E tbal R t"
proof -
  obtain x where x: "usd_burn E payer n (ext s) = (Ok (), x)" "t = s\<lparr>pool := (pool s)\<lparr>userBorrow :=
      (userBorrow (pool s))(u := userBorrow (pool s) u - n), totalBorrow := totalBorrow (pool s) - n\<rparr>, ext := x\<rparr>"
    by (rule repayUSD_wired [OF assms(1,2)])
  show ?thesis using reward_inv_same [OF assms(3)] burn [OF x(1)] assms(4) by (simp add: x(2))
qed

lemma liquidateTokens_reward:
  assumes "liquidateTokens E a u b s = (Ok (), t)" and "u \<noteq> b" and "distinct (collateralTokens (config s))"
    and "reward_inv E tbal R s" and "settled R u s" and "settled R b s"
  shows "reward_inv E tbal R t"
proof -
  let ?T = "collateralTokens (config s)"
  have t: "t = s\<lparr>pool := (pool s)\<lparr>userSupply := (\<lambda>tk. if tk \<in> set ?T
    then (userSupply (pool s) tk)(u := 0, b := userSupply (pool s) tk b + userSupply (pool s) tk u) else userSupply (pool s) tk)\<rparr>\<rparr>"
    using assms by (intro liquidate_tokens_Ok) (auto simp: liquidateTokens_def getAllWhitelistTokens_def)
  have ok: "reward_ok R s" using assms(4) by (simp add: reward_inv_def)
  have "owed t R \<le> owed s R" using assms(5,6) by (intro owed_cong [OF _ _ ok]) (auto simp: t settled_def)
  moreover have "reward_ok R t"
    using ok fin_supply_liquidate [of "userSupply (pool s)" ?T u b] by (simp add: reward_ok_def t if_distrib [of "\<lambda>f. f _"] cong: if_cong)
  ultimately show ?thesis using reward_inv_step [OF assms(4)] by (simp add: t)
qed

lemma liquidate_reward:
  assumes "liquidate E a u s = (Ok (), t)" and "wired E s" and "reward_inv E tbal R s" and "distinct (collateralTokens (config s))"
    and "a \<noteq> reward_at E"
  shows "reward_inv E tbal R t"
proof -
  obtain r s1 s2 where u: "a \<noteq> u" and up: "bnd (updateReward E u) (\<lambda>_. updateReward E a) s = (Ok (), s\<lparr>reward := r\<rparr>)"
    and s1: "repayUSD E (lend_at E) a u (userBorrow (pool s) u) (s\<lparr>reward := r\<rparr>) = (Ok (), s1)"
    and s2: "liquidateTokens E (lend_at E) u a s1 = (Ok (), s2)" and t: "liquidatePosition E (lend_at E) a u s2 = (Ok (), t)"
    using liquidate_steps [OF assms(1)] by metis
  obtain s0 where s0: "updateReward E u s = (Ok (), s0)" "updateReward E a s0 = (Ok (), s\<lparr>reward := r\<rparr>)" using up by auto
  have "distinct (collateralTokens (config s0))" using updateReward_frame [OF s0(1)] assms(4) by simp
  then have r: "reward_inv E tbal R (s\<lparr>reward := r\<rparr>)" "settled R u (s\<lparr>reward := r\<rparr>)" "settled R a (s\<lparr>reward := r\<rparr>)"
    using updateReward_inv [OF s0(1) assms(3,4)] updateReward_inv [OF s0(2)] by auto
  have w: "wired E (s\<lparr>reward := r\<rparr>)" using assms(2) by (simp add: wired_def)
  have "reward s1 = r" "config s1 = config s" by (rule repayUSD_wired [OF s1 w], simp)+
  then have "reward_inv E tbal R s2"
    using liquidateTokens_reward [OF s2 u [symmetric]] repayUSD_reward [OF s1 w r(1) assms(5)] r(2,3) assms(4) by (simp add: settled_def)
  moreover have "but_chain t = but_chain s2" using keepsD [OF keeps_chain_ops(3) t] .
  ultimately show ?thesis using reward_inv_same [of E tbal R s2 t] by (simp add: but_chain_def)
qed

lemma claimReward_reward:
  assumes "claimReward E a tk s = (Ok (), t)" and "reward_inv E tbal R s" and "distinct (collateralTokens (config s))" and "a \<noteq> reward_at E"
  shows "reward_inv E tbal R t"
proof -
  obtain s1 where up: "updateReward E a s = (Ok (), s1)"
    and rest: "(if 0 < rewards (reward s1) a tk then bnd (set_reward a tk 0) (\<lambda>_.
      on_tokens (safeTransfer E tk (reward_at E) a (rewards (reward s1) a tk))) else ret ()) s1 = (Ok (), t)"
    using assms(1) by (auto simp: claimReward_def)
  have inv: "reward_inv E tbal R s1" using updateReward_inv [OF up assms(2,3)] by simp
  show ?thesis
  proof (cases "0 < rewards (reward s1) a tk")
    case True
    define n where "n = rewards (reward s1) a tk"
    obtain x where t: "t = s1\<lparr>reward := (reward s1)\<lparr>rewards := (rewards (reward s1))(a := (rewards (reward s1) a)(tk := 0))\<rparr>, ext := x\<rparr>"
      and x: "safeTransfer E tk (reward_at E) a n (ext s1) = (Ok (), x)"
      using rest True by (auto simp: set_reward_def n_def)
    have f: "fin (\<lambda>u. rewards (reward s1) u R)" using inv by (simp add: reward_inv_def reward_ok_def)
    have un: "unsettled t R = unsettled s1 R" by (simp add: unsettled_def t)
    show ?thesis
    proof (cases "tk = R")
      case True
      have col: "(\<lambda>u. rewards (reward t) u R) = (\<lambda>u. rewards (reward s1) u R)(a := 0)" by (auto simp: t True)
      have "fsum (\<lambda>u. rewards (reward t) u R) + n = fsum (\<lambda>u. rewards (reward s1) u R)"
        unfolding col using fsum_upd [OF f, of a 0] by (simp add: n_def True)
      then have "owed t R + 10 ^ 6 * n = owed s1 R" by (simp add: owed_def un)
      moreover have "tbal x R (reward_at E) + n = tbal (ext s1) R (reward_at E)" using transfer [OF x] assms(4) True by (auto simp: Let_def)
      moreover have "reward_ok R t" using inv fin_upd [OF f, of a 0] unfolding reward_inv_def reward_ok_def col by (simp add: t)
      ultimately show ?thesis using inv by (auto simp: reward_inv_def t)
    next
      case False
      have col: "(\<lambda>u. rewards (reward t) u R) = (\<lambda>u. rewards (reward s1) u R)" using False by (auto simp: t)
      have "owed t R = owed s1 R" by (simp add: owed_def un col)
      moreover have "reward_ok R t" using inv unfolding reward_inv_def reward_ok_def col by (simp add: t)
      moreover have "tbal x R = tbal (ext s1) R" using transfer [OF x] False by simp
      ultimately show ?thesis using inv by (simp add: reward_inv_def t)
    qed
  qed (use rest inv in simp)
qed

lemma distribute_token_reward:
  assumes "distribute_token E a lps p s = (Ok (), t)" and "reward_inv E tbal R s" and "pool_books (pool s)" and "a \<noteq> reward_at E"
  shows "reward_inv E tbal R t \<and> pool t = pool s"
proof -
  obtain tk row where p: "p = (tk, row)" by (cases p)
  obtain n s1 where row: "distribute_row E tk lps row 0 s = (Ok n, s1)"
    and rest: "(if 0 < n then on_tokens (safeTransferFrom E tk (reward_at E) a (reward_at E) n) else ret ()) s1 = (Ok (), t)"
    using assms(1) by (auto simp: distribute_token_def p)
  have "reward_ok R s" using assms(2) by (simp add: reward_inv_def)
  note r = distribute_row_owed [OF row this assms(3)]
  show ?thesis
  proof (cases "0 < n")
    case True
    then obtain x where t: "t = s1\<lparr>ext := x\<rparr>" and x: "safeTransferFrom E tk (reward_at E) a (reward_at E) n (ext s) = (Ok (), x)"
      using rest r by auto
    have "reward_ok R t = reward_ok R s1" "owed t R = owed s1 R" by (simp_all add: t reward_ok_def owed_def unsettled_def)
    moreover have "10 ^ 6 * tbal (ext s) R (reward_at E) + (if tk = R then 10 ^ 6 * n else 0) \<le> 10 ^ 6 * tbal x R (reward_at E)"
      using transfer_from_receives [OF x assms(4) [symmetric]] transfer_from_others [OF x assms(4) [symmetric], of R] by auto
    ultimately show ?thesis using r assms(2) by (auto simp: reward_inv_def t split: if_splits)
  next
    case False
    then show ?thesis using rest r assms(2) by (auto simp: reward_inv_def split: if_splits)
  qed
qed

lemma distributeReward_reward:
  assumes "distributeReward E a tks lps ns s = (Ok (), t)" and "reward_inv E tbal R s" and "pool_books (pool s)" and "a \<noteq> reward_at E"
  shows "reward_inv E tbal R t"
proof -
  have "for_each (distribute_token E a lps) (zip tks ns) s = (Ok (), t)"
    using assms(1) by (auto simp: distributeReward_def split: list.splits)
  then have "reward_inv E tbal R t \<and> pool_books (pool t)"
    by (rule for_each_Ok_keeps [where P = "\<lambda>s. reward_inv E tbal R s \<and> pool_books (pool s)"])
      (use assms distribute_token_reward in auto)
  then show ?thesis by simp
qed

lemma migrateStakes_reward:
  assumes "migrateStakes E a v w s = (Ok (), t)" and "reward_inv E tbal R s" and "distinct (collateralTokens (config s))"
  shows "reward_inv E tbal R t"
proof -
  obtain us k s1 where up: "for_each (\<lambda>u. to_reward E (updateReward E u)) us s = (Ok (), s1)"
    and mig: "Chain_migrateStakes E (lend_at E) v w k s1 = (Ok (), t)"
    using assms(1) by (auto simp: migrateStakes_def Let_def)
  have "reward_inv E tbal R s1 \<and> distinct (collateralTokens (config s1))"
    using up by (rule for_each_Ok_keeps [where P = "\<lambda>s. reward_inv E tbal R s \<and> distinct (collateralTokens (config s))"])
      (use assms(2,3) updateReward_inv in \<open>auto dest: updateReward_frame\<close>)
  then show ?thesis using reward_inv_same [of E tbal R s1 t] keepsD [OF keeps_chain_ops(4) mig] by (simp add: but_chain_def)
qed

lemma reward_token_steps:
  assumes "reward_inv E tbal R s"
  shows "addRewardToken E a tk s = (Ok (), t) \<Longrightarrow> reward_inv E tbal R t"
    and "removeRewardToken E a tk s = (Ok (), t) \<Longrightarrow> tk \<noteq> R \<Longrightarrow> reward_inv E tbal R t"
    and "Reward_setLendContract a b s = (Ok (), t) \<Longrightarrow> reward_inv E tbal R t"
    and "Reward_initialize a c d s = (Ok (), t) \<Longrightarrow> reward_inv E tbal R t"
  using assms set_add_set set_add_distinct set_remove_set set_remove_distinct
  by (auto simp: addRewardToken_def removeRewardToken_def Reward_setLendContract_def Reward_initialize_def reward_inv_def reward_ok_def
      owed_def unsettled_def)

text \<open>Every other call leaves Reward, the supplies and the tokens as they are.\<close>

lemma quiet_steps:
  assumes "reward_inv E tbal R s"
  shows "setMCR a n s = (Ok (), t) \<Longrightarrow> reward_inv E tbal R t"
    and "setLiquidationRate a n s = (Ok (), t) \<Longrightarrow> reward_inv E tbal R t"
    and "Config_initialize a n k s = (Ok (), t) \<Longrightarrow> reward_inv E tbal R t"
    and "PriceFeed_initialize a s = (Ok (), t) \<Longrightarrow> reward_inv E tbal R t"
    and "Pool_initialize a c s = (Ok (), t) \<Longrightarrow> reward_inv E tbal R t"
    and "Lend_initialize a c d f g h k' s = (Ok (), t) \<Longrightarrow> reward_inv E tbal R t"
    and "setPlugin a b on s = (Ok (), t) \<Longrightarrow> reward_inv E tbal R t"
    and "addCollateral E a tk s = (Ok (), t) \<Longrightarrow> reward_inv E tbal R t"
    and "disableCollateral E a tk s = (Ok (), t) \<Longrightarrow> reward_inv E tbal R t"
  using assms
  by (auto intro!: reward_inv_same [OF assms] simp: setMCR_def setLiquidationRate_def Config_initialize_def PriceFeed_initialize_def
      Pool_initialize_def Lend_initialize_def setPlugin_def addCollateral_def disableCollateral_def)

lemma change_owner_reward:
  assumes "change_owner E c k a s = (Ok (), t)" and "reward_inv E tbal R s"
  shows "reward_inv E tbal R t"
  using assms by (cases c) (auto simp: change_owner_def reward_inv_def reward_ok_def owed_def unsettled_def)

lemma token_call_reward:
  assumes "on_tokens (erc20_call E tk a d) s = (Ok (), t)" and "reward_inv E tbal R s" and "ordinary E (a, m)"
  shows "reward_inv E tbal R t"
proof -
  obtain x where x: "erc20_call E tk a d (ext s) = (Ok (), x)" "t = s\<lparr>ext := x\<rparr>" using assms(1) by auto
  then have "tbal (ext s) R (reward_at E) \<le> tbal x R (reward_at E)" using outsider [OF x(1)] assms(3) by (simp add: ordinary_def)
  then have "10 ^ 6 * tbal (ext s) R (reward_at E) \<le> 10 ^ 6 * tbal x R (reward_at E)" by simp
  then show ?thesis using assms(2) unfolding x(2) by (auto simp: reward_inv_def reward_ok_def owed_def unsettled_def)
qed

lemma quiet_chain:
  assumes "keeps but_chain m" and "m s = (Ok (), t)" and "reward_inv E tbal R s"
  shows "reward_inv E tbal R t"
  using keepsD [OF assms(1,2)] by (intro reward_inv_same [OF assms(3)]) (simp_all add: but_chain_def)

lemma feed_reward:
  assumes "setTokenPrices n a tks ps s = (Ok (), t)" and "reward_inv E tbal R s"
  shows "reward_inv E tbal R t"
proof -
  have "for_each (set_price n) (zip tks ps) s = (Ok (), t)" using assms(1) by (auto simp: setTokenPrices_def)
  then show ?thesis using assms(2)
    by (rule for_each_Ok_keeps [where P = "reward_inv E tbal R"]) (auto simp: set_price_def elim!: reward_inv_same)
qed

lemma execute_reward:
  assumes run: "execute E a m s = (Ok (), t)" and "ordinary E (a, m)" and inv: "potv_inv E tbal usd_total s" and rew: "reward_inv E tbal R s"
    and "m \<noteq> MRemoveRewardToken R"
  shows "reward_inv E tbal R t"
proof -
  have a: "a \<noteq> reward_at E" and w: "wired E s" and d: "distinct (collateralTokens (config s))" and b: "pool_books (pool s)"
    using assms(2) inv by (auto simp: ordinary_def potv_inv_def)
  note refuse = reserved_refuse [OF w assms(2) run]
  show ?thesis
  proof (cases m)
    case (MSupply tk n v)
    then show ?thesis using run lend_supply_reward [OF _ rew d a] by (auto simp: Lend_supply_def)
  next
    case (MPluginSupply u tk n v)
    then show ?thesis using run lend_supply_reward [OF _ rew d a] by (auto simp: pluginSupply_def)
  next
    case (MWithdraw tk n v)
    then show ?thesis using run lend_withdraw_reward [OF _ rew d] by (auto simp: withdraw_def)
  next
    case (MPluginWithdraw u tk n v)
    then show ?thesis using run lend_withdraw_reward [OF _ rew d] by (auto simp: pluginWithdraw_def)
  next
    case (MBorrow n)
    then show ?thesis using run borrowUSD_reward [OF _ w rew] by (auto simp: borrow_def)
  next
    case (MRepay n)
    then show ?thesis using run repayUSD_reward [OF _ w rew a] by (auto simp: repay_def)
  next
    case (MLiquidate u)
    then show ?thesis using run liquidate_reward [OF _ w rew d a] by simp
  next
    case (MMigrateStakes v w)
    then show ?thesis using run migrateStakes_reward [OF _ rew d] by simp
  next
    case (MUpdateReward u)
    then show ?thesis using run updateReward_inv [OF _ rew d] by simp
  next
    case (MClaimReward tk)
    then show ?thesis using run claimReward_reward [OF _ rew d a] by simp
  next
    case (MDistributeReward tks lps ns)
    then show ?thesis using run distributeReward_reward [OF _ rew b a] by simp
  next
    case (MOwner c k)
    then show ?thesis using run change_owner_reward [OF _ rew] by simp
  next
    case (MTokenCall tk d)
    then show ?thesis using run token_call_reward [OF _ rew assms(2)] by simp
  qed (use run refuse assms(2,5) quiet_steps [OF rew] reward_token_steps [OF rew] feed_reward [OF _ rew]
      quiet_chain [OF keeps_chain_ops(1) _ rew] quiet_chain [OF keeps_chain_ops(2) _ rew] quiet_chain [OF keeps_chain_ops(3) _ rew]
      quiet_chain [OF keeps_chain_ops(4) _ rew] quiet_chain [OF keeps_chain_ops(5) _ rew] quiet_chain [OF keeps_chain_ops(6) _ rew]
      quiet_chain [OF keeps_chain_ops(7) _ rew] in \<open>simp_all add: ordinary_def\<close>)
qed

end

section \<open>What all suppliers can claim\<close>

lemma claimable_bound:
  assumes "reward_inv E tbal R s" and "distinct (collateralTokens (config s))" and "finite U"
    and "\<forall>u\<in>U. claimableReward E s u R = Ok (c u)"
  shows "(\<Sum>u\<in>U. c u) \<le> tbal (ext s) R (reward_at E)"
proof -
  let ?W = "collateralTokens (config s)"
  have ok: "reward_ok R s" using assms(1) by (simp add: reward_inv_def)
  have "10 ^ 6 * c u \<le> 10 ^ 6 * rewards (reward s) u R + (\<Sum>l\<in>set ?W. unsettled s R (l, u))" if u: "u \<in> U" for u
  proof -
    obtain n where n: "earned_loop E s u R 0 ?W = Ok n" "c u = rewards (reward s) u R + n"
      using bspec [OF assms(4) u] by (auto simp: claimableReward_def earned_def getAllWhitelistTokens_def)
    show ?thesis using earned_loop_bound [OF n(1)] n(2) assms(2) by (simp add: sum_list_distinct_conv_sum_set)
  qed
  then have "(\<Sum>u\<in>U. 10 ^ 6 * c u) \<le> (\<Sum>u\<in>U. 10 ^ 6 * rewards (reward s) u R + (\<Sum>l\<in>set ?W. unsettled s R (l, u)))" by (rule sum_mono)
  also have "\<dots> = 10 ^ 6 * (\<Sum>u\<in>U. rewards (reward s) u R) + (\<Sum>k\<in>set ?W \<times> U. unsettled s R k)"
    by (subst sum.cartesian_product' , subst sum.swap) (simp add: sum.distrib sum_distrib_left)
  also have "\<dots> \<le> owed s R"
    unfolding owed_def using fsum_part [OF fin_unsettled [OF ok], of "set ?W \<times> U"] fsum_part [of "\<lambda>u. rewards (reward s) u R" U] ok assms(3)
    by (intro add_mono mult_left_mono) (simp_all add: reward_ok_def)
  also have "\<dots> \<le> 10 ^ 6 * tbal (ext s) R (reward_at E)" using assms(1) by (simp add: reward_inv_def)
  finally show ?thesis by (simp flip: sum_distrib_left)
qed

end
