(* ===== verification/Potv_Props.thy ===== *)
theory Potv_Props
  imports Potv_Reward
begin

text \<open>
  The properties of the lending contracts, each exercised on a small deployment: one
  collateral token, one validator, two accounts.
\<close>

section \<open>Ratios\<close>

lemma ratio_covers:
  assumes "getUserCollateralRatio E s u = Ok q" and "k < q"
  shows "\<exists>S B. getUserSupplyTotalUSD E s u = Ok S \<and> getUserBorrowTotalUSD E s u = Ok B \<and> (k + 1) * B \<le> S * 10 ^ 6"
proof -
  obtain B S where B: "getUserBorrowTotalUSD E s u = Ok B" "getUserSupplyTotalUSD E s u = Ok S"
    and q: "(if B = 0 \<and> S \<noteq> 0 then Ok max_uint else rbind (mul_u S 1000000) (\<lambda>v. div_u v B)) = Ok q"
    using assms(1) by (auto simp: getUserCollateralRatio_def)
  have "(k + 1) * B \<le> S * 10 ^ 6"
  proof (cases "B = 0")
    case False
    then have "q = S * 10 ^ 6 div B" using q by simp
    then have "k + 1 \<le> S * 10 ^ 6 div B" using assms(2) by simp
    then show ?thesis by (meson div_times_less_eq_dividend le_trans mult_le_mono1)
  qed simp
  then show ?thesis using B by blast
qed

lemma max_withdrawable_covers:
  assumes "getTokenMaxWithdrawable E s u tk = Ok k" and "n \<le> k" and "0 < n"
  shows "\<exists>B m p d. getUserBorrowTotalUSD E s u = Ok B \<and> getTokenPrice E s tk = Ok p \<and> getTokenDecimals E s tk = Ok d \<and>
    getMCR s * B < (m + 1) * 10 ^ 6 \<and> m * 10 ^ d < (userSupply (pool s) tk u - n + 1) * p"
proof -
  obtain B p d where B: "getUserBorrowTotalUSD E s u = Ok B" "getTokenPrice E s tk = Ok p" "getTokenDecimals E s tk = Ok d"
    and p: "p \<noteq> 0" and k: "k = userSupply (pool s) tk u - (getMCR s * B div 10 ^ 6) * 10 ^ d div p"
    and le: "(getMCR s * B div 10 ^ 6) * 10 ^ d div p \<le> userSupply (pool s) tk u"
    using assms by (auto simp: getTokenMaxWithdrawable_def getUserTokenSupply_def Let_def split: if_splits)
  let ?m = "getMCR s * B div 10 ^ 6"
  have "?m * 10 ^ d div p < userSupply (pool s) tk u - n + 1" using k le assms(2,3) by linarith
  then have "?m * 10 ^ d < (userSupply (pool s) tk u - n + 1) * p"
    using p by (simp add: div_less_iff_less_mult)
  moreover have "getMCR s * B < (?m + 1) * 10 ^ 6" using div_less_iff_less_mult [of "10 ^ 6" "getMCR s * B" "?m + 1"] by simp
  ultimately show ?thesis using B by blast
qed

section \<open>What a liquidation moves\<close>

definition taken_over :: "address \<Rightarrow> address \<Rightarrow> address set \<Rightarrow> address set \<Rightarrow> (address \<Rightarrow> address \<Rightarrow> address \<Rightarrow> nat) \<Rightarrow>
    address \<Rightarrow> address \<Rightarrow> address \<Rightarrow> nat" where
  "taken_over u a V T f w v tk = (if v \<in> V \<and> tk \<in> T then if w = u then 0 else if w = a then f a v tk + f u v tk else f w v tk else f w v tk)"

lemma move_stake_Ok:
  assumes "move_stake u v a v tk s = (Ok (), t)" and "u \<noteq> a"
  shows "userStakes (chain t) = taken_over u a {v} {tk} (userStakes (chain s))"
  using assms by (auto simp: move_stake_def stake_add_Ok stake_sub_Ok set_stake_def taken_over_def fun_eq_iff split: if_splits)

lemma move_tokens_Ok:
  assumes "for_each (move_stake u v a v) T s = (Ok (), t)" and "u \<noteq> a" and "distinct T"
  shows "userStakes (chain t) = taken_over u a {v} (set T) (userStakes (chain s))"
  using assms
proof (induction T arbitrary: s)
  case Nil
  then show ?case by (auto simp: taken_over_def fun_eq_iff)
next
  case (Cons tk T)
  then obtain s1 where s1: "move_stake u v a v tk s = (Ok (), s1)" "for_each (move_stake u v a v) T s1 = (Ok (), t)" by auto
  show ?case using Cons.IH [OF s1(2) assms(2)] move_stake_Ok [OF s1(1) assms(2)] Cons.prems(3) assms(2)
    by (auto simp: taken_over_def fun_eq_iff)
qed

lemma move_validators_Ok:
  assumes "for_each (\<lambda>v. for_each (move_stake u v a v) T) V s = (Ok (), t)" and "u \<noteq> a" and "distinct T" and "distinct V"
  shows "userStakes (chain t) = taken_over u a (set V) (set T) (userStakes (chain s))"
  using assms
proof (induction V arbitrary: s)
  case Nil
  then show ?case by (auto simp: taken_over_def fun_eq_iff)
next
  case (Cons v V)
  then obtain s1 where s1: "for_each (move_stake u v a v) T s = (Ok (), s1)" "for_each (\<lambda>v. for_each (move_stake u v a v) T) V s1 = (Ok (), t)"
    by auto
  show ?case using Cons.IH [OF s1(2) assms(2,3)] move_tokens_Ok [OF s1(1) assms(2,3)] Cons.prems(4) assms(2)
    by (auto simp: taken_over_def fun_eq_iff)
qed

context potv_env
begin

lemma liquidate_Ok:
  assumes "liquidate E a u s = (Ok (), t)" and "wired E s" and "distinct (collateralTokens (config s))" and "distinct (validators (chain s))"
  shows "(\<exists>q. getUserCollateralRatio E s u = Ok q \<and> q \<le> liquidationRate (config s)) \<and> a \<noteq> u \<and>
    userBorrow (pool t) = (userBorrow (pool s))(u := 0) \<and> usd_total (ext t) + userBorrow (pool s) u = usd_total (ext s) \<and>
    tbal (ext t) (usd_at E) a + userBorrow (pool s) u = tbal (ext s) (usd_at E) a \<and>
    (\<forall>tk. userSupply (pool t) tk = (if isWhitelistToken s tk
       then (userSupply (pool s) tk)(u := 0, a := userSupply (pool s) tk a + userSupply (pool s) tk u) else userSupply (pool s) tk)) \<and>
    userStakes (chain t) = taken_over u a (set (validators (chain s))) (set (collateralTokens (config s))) (userStakes (chain s))"
proof -
  let ?D = "userBorrow (pool s) u" and ?T = "collateralTokens (config s)"
  obtain q r s1 s2 where au: "a \<noteq> u" and q: "getUserCollateralRatio E s u = Ok q" "q \<le> liquidationRate (config s)"
    and s1: "repayUSD E (lend_at E) a u ?D (s\<lparr>reward := r\<rparr>) = (Ok (), s1)"
    and s2: "liquidateTokens E (lend_at E) u a s1 = (Ok (), s2)" and t: "liquidatePosition E (lend_at E) a u s2 = (Ok (), t)"
    using liquidate_steps [OF assms(1)] by metis
  have w: "wired E (s\<lparr>reward := r\<rparr>)" using assms(2) by (simp add: wired_def)
  obtain x where x: "usd_burn E a ?D (ext s) = (Ok (), x)"
    and s1': "s1 = s\<lparr>reward := r, pool := (pool s)\<lparr>userBorrow := (userBorrow (pool s))(u := ?D - ?D), totalBorrow := totalBorrow (pool s) - ?D\<rparr>, ext := x\<rparr>"
    by (rule repayUSD_wired [OF s1 w]) simp
  have s2': "s2 = s1\<lparr>pool := (pool s1)\<lparr>userSupply := (\<lambda>tk. if tk \<in> set ?T
    then (userSupply (pool s1) tk)(u := 0, a := userSupply (pool s1) tk a + userSupply (pool s1) tk u) else userSupply (pool s1) tk)\<rparr>\<rparr>"
    using s2 assms(3) au by (intro liquidate_tokens_Ok) (auto simp: liquidateTokens_def getAllWhitelistTokens_def s1')
  have "for_each (\<lambda>v. for_each (move_stake u v a v) ?T) (validators (chain s)) s2 = (Ok (), t)"
    using t by (simp add: liquidatePosition_def getAllWhitelistTokens_def s2' s1')
  from move_validators_Ok [OF this au [symmetric] assms(3,4)]
  have st: "userStakes (chain t) = taken_over u a (set (validators (chain s))) (set ?T) (userStakes (chain s))" by (simp add: s2' s1')
  have frame: "pool t = pool s2" "ext t = x" using keepsD [OF keeps_chain_ops(3) t] by (simp_all add: but_chain_def s2' s1')
  show ?thesis
    using q au st burn [OF x] by (auto simp: frame s2' s1' isWhitelistToken_def)
qed

lemma set_remove_length:
  assumes "distinct xs" and "a \<in> set xs"
  shows "length (set_remove E a xs) = length xs - 1"
  using assms set_remove_set [OF assms(1), of a] set_remove_distinct [OF assms(1), of a] distinct_card
  by (metis card_Diff_singleton)

lemma remove_loop_Ok:
  assumes "distinct vs" and "i \<le> length vs" and "length vs \<le> i + fuel"
  shows "\<exists>ws. remove_loop E fuel i vs = Ok ws \<and> distinct ws \<and> set ws \<subseteq> set vs \<and> length ws = (length vs + i) div 2"
  using assms
proof (induction fuel arbitrary: i vs)
  case (Suc fuel)
  show ?case
  proof (cases "i = length vs")
    case False
    let ?v = "set_remove E (vs ! i) vs"
    have v: "distinct ?v" "set ?v \<subseteq> set vs" "length ?v = length vs - 1"
      using Suc.prems False set_remove_distinct set_remove_set set_remove_length by auto
    have step: "remove_loop E (Suc fuel) i vs = remove_loop E fuel (i + 1) ?v" using False Suc.prems(2) by simp
    show ?thesis
    proof (cases "i + 1 \<le> length ?v")
      case True
      have "length ?v \<le> i + 1 + fuel" using v(3) Suc.prems(3) by simp
      from Suc.IH [OF v(1) True this] obtain ws where ws: "remove_loop E fuel (i + 1) ?v = Ok ws" "distinct ws" "set ws \<subseteq> set ?v"
        "length ws = (length ?v + (i + 1)) div 2" by blast
      have "length ?v + (i + 1) = length vs + i" using v(3) False Suc.prems(2) by simp
      then show ?thesis using ws v(2) unfolding step by (metis order_trans)
    next
      case nle: False
      then have "length vs = i + 1" using v(3) False Suc.prems(2) by simp
      then show ?thesis unfolding step using v nle by simp
    qed
  qed (use Suc.prems in simp)
qed simp

lemma setValidators_Ok:
  assumes "distinct (validators (chain s))" and "a = chain_owner (chain s)"
  shows "\<exists>t. setValidators E a vs s = (Ok (), t) \<and> set vs \<subseteq> set (validators (chain t)) \<and>
    length (validators (chain s)) div 2 \<le> card (set (validators (chain s)) \<inter> set (validators (chain t)))"
proof -
  let ?V = "validators (chain s)"
  obtain ws where ws: "remove_loop E (length ?V) 0 ?V = Ok ws" "distinct ws" "set ws \<subseteq> set ?V" "length ws = length ?V div 2"
    using remove_loop_Ok [OF assms(1), of 0 "length ?V"] by auto
  have "\<exists>t. for_each (\<lambda>v. with_chain (\<lambda>c. c\<lparr>validators := set_add E v (validators c)\<rparr>)) vs u = (Ok (), t) \<and>
      set (validators (chain t)) = set vs \<union> set (validators (chain u))" for u :: "'x potv"
  proof (induction vs arbitrary: u)
    case (Cons v vs)
    from Cons.IH [of "u\<lparr>chain := (chain u)\<lparr>validators := set_add E v (validators (chain u))\<rparr>\<rparr>"]
    show ?case by (simp add: set_add_set)
  qed simp
  from this [of "s\<lparr>chain := (chain s)\<lparr>validators := ws\<rparr>\<rparr>"] obtain t where
    t: "setValidators E a vs s = (Ok (), t)" "set (validators (chain t)) = set vs \<union> set ws"
    using ws(1) assms(2) by (auto simp: setValidators_def)
  have "length ?V div 2 = card (set ws)" using ws(2,4) distinct_card by metis
  also have "\<dots> \<le> card (set ?V \<inter> set (validators (chain t)))" using ws(3) t(2) by (intro card_mono) auto
  finally show ?thesis using t by auto
qed

text \<open>Giving up one token at a validator while another is still staked there.\<close>

lemma unstakeToken_all:
  assumes "unstakeToken E a u v tk (userStakes (chain s) u v tk) s = (Ok (), t)" and "distinct (validatorStakedUsers (chain s) v)"
  shows "set (validatorStakedUsers (chain t) v) = set (validatorStakedUsers (chain s) v) - {u} \<and>
    (\<forall>tk'. tk' \<noteq> tk \<longrightarrow> userStakes (chain t) u v tk' = userStakes (chain s) u v tk') \<and> but_chain t = but_chain s \<and>
    validators (chain t) = validators (chain s) \<and> chain_lend (chain t) = chain_lend (chain s)"
proof -
  have "but_chain t = but_chain s" using keepsD [OF keeps_chain_ops(2) assms(1)] .
  then show ?thesis
    using assms set_remove_set by (auto simp: unstakeToken_def stake_sub_Ok set_stake_def remove_staked_user_def)
qed

end

section \<open>Properties\<close>

text \<open>C14. The books of the lending contracts balance. Given ERC20 tokens that transfer what they say, any sequence of
  transactions (failed ones leave no trace), by any accounts and of any kind, changes of owners and calls to the tokens
  included, but a change of the wiring of the contracts, keeps: the total debt and the total supply of every token are the sums over the users, the stake of
  every validator is the sum over its users, the TUCUSD in circulation are exactly the recorded debt, and Pool holds
  at least the collateral it has recorded.\<close>

theorem lending_books_balance:
  assumes "potv_env E tbal usd_total"
    and "potv_inv E tbal usd_total s"
    and "list_all (ordinary E) ms"
  shows "potv_inv E tbal usd_total (transactions E ms s)"
  using assms(2) potv_env.execute_inv [OF assms(1)] assms(3)
  by (rule transactions_keep [where Q = "ordinary E" and P = "potv_inv E tbal usd_total"])

text \<open>C15. Rewards can always be paid. For a reward token that stays registered, after any sequence of such
  transactions (supplies, withdrawals, liquidations, distributions, claims, changes of the collateral tokens) the
  rewards all suppliers can claim together are covered by what the Reward contract holds of that token.\<close>

theorem rewards_can_be_paid:
  assumes "potv_env E tbal usd_total"
    and "potv_inv E tbal usd_total s" and "reward_inv E tbal R s"
    and "list_all (ordinary E) ms" and "list_all (\<lambda>(a, m). m \<noteq> MRemoveRewardToken R) ms"
    and "finite U" and "\<forall>u\<in>U. claimableReward E (transactions E ms s) u R = Ok (c u)"
  shows "(\<Sum>u\<in>U. c u) \<le> tbal (ext (transactions E ms s)) R (reward_at E)"
proof -
  let ?P = "\<lambda>s. potv_inv E tbal usd_total s \<and> reward_inv E tbal R s"
  let ?Q = "\<lambda>p. ordinary E p \<and> snd p \<noteq> MRemoveRewardToken R"
  have "?P (transactions E ms s)"
  proof (rule transactions_keep [where P = ?P and Q = ?Q])
    show "list_all ?Q ms" using assms(4,5) by (simp add: list_all_iff case_prod_unfold)
  qed (use assms(2,3) potv_env.execute_inv [OF assms(1)] potv_env.execute_reward [OF assms(1)] in auto)
  then show ?thesis using claimable_bound [OF _ _ assms(6,7)] by (auto simp: potv_inv_def)
qed

text \<open>C16. No debt without collateral. After a borrowing that succeeds the collateral of the user, in dollars with six
  decimals, is worth more than the minimum ratio times the debt. After a withdrawal that succeeds the remaining
  amount of that token alone is worth the required collateral, less than one unit of the token short of it.\<close>

theorem debt_needs_collateral:
  assumes "potv_env E tbal usd_total"
  shows "(borrow E a n s = (Ok (), t) \<longrightarrow>
      (\<exists>S B. getUserSupplyTotalUSD E t a = Ok S \<and> getUserBorrowTotalUSD E t a = Ok B \<and> (getMCR t + 1) * B \<le> S * 10 ^ 6)) \<and>
    (withdraw E a tk n v s = (Ok (), t) \<longrightarrow> 0 < n \<longrightarrow>
      (\<exists>B m p d. getUserBorrowTotalUSD E t a = Ok B \<and> getTokenPrice E t tk = Ok p \<and> token_decimals E tk (ext s) = Ok d \<and>
        getMCR t * B < (m + 1) * 10 ^ 6 \<and> m * 10 ^ d < (userSupply (pool t) tk a + 1) * p))"
proof (intro conjI impI)
  assume "borrow E a n s = (Ok (), t)"
  then obtain q where "getUserCollateralRatio E t a = Ok q" "getMCR t < q" by (auto simp: borrow_def)
  then show "\<exists>S B. getUserSupplyTotalUSD E t a = Ok S \<and> getUserBorrowTotalUSD E t a = Ok B \<and> (getMCR t + 1) * B \<le> S * 10 ^ 6"
    by (rule ratio_covers)
next
  assume "withdraw E a tk n v s = (Ok (), t)" and n: "0 < n"
  then have run: "lend_withdraw E a a tk n v s = (Ok (), t)" by (auto simp: withdraw_def)
  obtain k where k: "getTokenMaxWithdrawable E s a tk = Ok k" "n \<le> k" and same: "config t = config s" "feed t = feed s" "lend t = lend s"
    and p: "pool t = (pool s)\<lparr>userSupply := (userSupply (pool s))(tk := (userSupply (pool s) tk)(a := userSupply (pool s) tk a - n)),
       totalSupply := (totalSupply (pool s))(tk := totalSupply (pool s) tk - n)\<rparr>"
    using potv_env.lend_withdraw_Ok [OF assms run] by metis
  have "getUserBorrowTotalUSD E t a = getUserBorrowTotalUSD E s a" "getTokenPrice E t tk = getTokenPrice E s tk" "getMCR t = getMCR s"
    "userSupply (pool t) tk a = userSupply (pool s) tk a - n"
    by (simp_all add: getUserBorrowTotalUSD_def getUserTotalBorrow_def getTokenPrice_def latestAnswer_def getMCR_def same p)
  then show "\<exists>B m p d. getUserBorrowTotalUSD E t a = Ok B \<and> getTokenPrice E t tk = Ok p \<and> token_decimals E tk (ext s) = Ok d \<and>
        getMCR t * B < (m + 1) * 10 ^ 6 \<and> m * 10 ^ d < (userSupply (pool t) tk a + 1) * p"
    using max_withdrawable_covers [OF k n] unfolding getTokenDecimals_def by metis
qed

text \<open>C17. A liquidation needs a ratio at or below the liquidation rate, and then takes over the whole position: the
  debt of the user is cleared and paid in TUCUSD by the liquidator, all collateral of the user in the registered tokens
  becomes the liquidator's, and so do the stakes behind it with every registered validator; nobody else is touched.\<close>

theorem liquidation_takes_over:
  assumes "potv_env E tbal usd_total"
    and "liquidate E a u s = (Ok (), t)"
    and "wired E s" and "distinct (collateralTokens (config s))" and "distinct (validators (chain s))"
  shows "(\<exists>q. getUserCollateralRatio E s u = Ok q \<and> q \<le> liquidationRate (config s)) \<and> a \<noteq> u \<and>
    userBorrow (pool t) = (userBorrow (pool s))(u := 0) \<and> usd_total (ext t) + userBorrow (pool s) u = usd_total (ext s) \<and>
    tbal (ext t) (usd_at E) a + userBorrow (pool s) u = tbal (ext s) (usd_at E) a \<and>
    (\<forall>tk. userSupply (pool t) tk = (if isWhitelistToken s tk
       then (userSupply (pool s) tk)(u := 0, a := userSupply (pool s) tk a + userSupply (pool s) tk u) else userSupply (pool s) tk)) \<and>
    userStakes (chain t) = taken_over u a (set (validators (chain s))) (set (collateralTokens (config s))) (userStakes (chain s))"
  using assms by (rule potv_env.liquidate_Ok)

text \<open>C33. Replacing the validators leaves half of the old ones in place: setValidators always ends and adds every new
  validator, but its first loop removes the validator at a growing index of a shrinking set, so at least half of the
  old validators (rounded down) are still registered afterwards, whatever order the set keeps them in.\<close>

theorem validators_survive_replacement:
  assumes "potv_env E tbal usd_total"
    and "distinct (validators (chain s))" and "a = chain_owner (chain s)"
  shows "\<exists>t. setValidators E a vs s = (Ok (), t) \<and> set vs \<subseteq> set (validators (chain t)) \<and>
    length (validators (chain s)) div 2 \<le> card (set (validators (chain s)) \<inter> set (validators (chain t)))"
  using assms by (rule potv_env.setValidators_Ok)

text \<open>C34. Migrating a validator can leave stakes behind. When the only staked user of a validator gives up one of two
  tokens, the user is no longer listed there although the other token is still staked; migrating the validator then
  moves nothing and removes it from the register, and the stake stays with a validator nobody knows.\<close>

theorem migration_strands_stakes:
  assumes "potv_env E tbal usd_total"
    and "unstakeToken E (lend_at E) u v tk (userStakes (chain s) u v tk) s = (Ok (), s1)"
    and "migrateStakes E a v w s1 = (Ok (), t)"
    and "validatorStakedUsers (chain s) v = [u]" and "distinct (validators (chain s))" and "v \<noteq> w" and "tk' \<noteq> tk"
  shows "v \<notin> set (validators (chain t)) \<and> userStakes (chain t) u v tk' = userStakes (chain s) u v tk'"
proof -
  have un: "validatorStakedUsers (chain s1) v = []" "userStakes (chain s1) u v tk' = userStakes (chain s) u v tk'"
    "validators (chain s1) = validators (chain s)"
    using potv_env.unstakeToken_all [OF assms(1,2)] assms(4,7) by auto
  have "Chain_migrateStakes E (lend_at E) v w 0 s1 = (Ok (), t)"
    using assms(3) un(1) by (auto simp: migrateStakes_def getValidatorStakedUsers_def Let_def)
  then obtain c where "t = s1\<lparr>chain := c\<rparr>" "userStakes c = userStakes (chain s1)"
    "validators c = set_remove E v (if w \<in> set (validators (chain s1)) then validators (chain s1) else set_add E w (validators (chain s1)))"
    by (auto simp: Chain_migrateStakes_def)
  then show ?thesis
    using un assms(5) potv_env.set_remove_set [OF assms(1)] potv_env.set_add_distinct [OF assms(1)] by auto
qed

section \<open>A deployment\<close>

record purse =
  held :: "address \<Rightarrow> address \<Rightarrow> nat"
  minted :: nat

definition es_add :: "address \<Rightarrow> address list \<Rightarrow> address list" where
  "es_add a xs = (if a \<in> set xs then xs else xs @ [a])"

definition es_remove :: "address \<Rightarrow> address list \<Rightarrow> address list" where
  "es_remove a xs = (if a \<notin> set xs then xs else if last xs = a then butlast xs
     else map (\<lambda>y. if y = a then last xs else y) (butlast xs))"

definition purse_move :: "address \<Rightarrow> address \<Rightarrow> address \<Rightarrow> nat \<Rightarrow> (purse, unit) act" where
  "purse_move tk a b n x =
     (if n \<le> held x tk a then (Ok (), x\<lparr>held := (held x)(tk := (let f = (held x tk)(a := held x tk a - n) in f(b := f b + n)))\<rparr>)
      else (revert ''insufficient balance'', x))"

definition demo_own :: "owner_call \<Rightarrow> address \<Rightarrow> address \<Rightarrow> address res" where
  "demo_own m sender owner =
     (if sender \<noteq> owner then revert ''caller is not the owner'' else case m of TransferOwnership a \<Rightarrow> Ok a | RenounceOwnership \<Rightarrow> Ok [])"

definition demo_env :: "purse env" where
  "demo_env = \<lparr>lend_at = ''lend'', pool_at = ''pool'', reward_at = ''reward'', usd_at = ''usd'', config_at = ''config'', chain_at = ''chain'',
     feed_at = ''feed'', set_add = es_add, set_remove = es_remove,
     safeTransferFrom = \<lambda>tk c a b n. purse_move tk a b n, safeTransfer = purse_move, token_decimals = \<lambda>tk x. Ok 6,
     usd_mint = \<lambda>a n x. (Ok (), x\<lparr>held := (held x)(''usd'' := (held x ''usd'')(a := held x ''usd'' a + n)), minted := minted x + n\<rparr>),
     usd_burn = \<lambda>a n x. if n \<le> held x ''usd'' a \<and> n \<le> minted x
       then (Ok (), x\<lparr>held := (held x)(''usd'' := (held x ''usd'')(a := held x ''usd'' a - n)), minted := minted x - n\<rparr>)
       else (revert ''burn amount exceeds balance'', x),
     usd_decimals = 18, other_mint = \<lambda>tk a n. raise (PlainErr ''no contract''), other_burn = \<lambda>tk a n. raise (PlainErr ''no contract''),
     erc20_call = \<lambda>tk c d. purse_move tk c d 1, own_call = demo_own\<rparr>"

lemma es_remove_set:
  assumes "distinct xs"
  shows "set (es_remove a xs) = set xs - {a}" "distinct (es_remove a xs)"
proof -
  have "set (es_remove a xs) = set xs - {a} \<and> distinct (es_remove a xs)"
  proof (cases "a \<in> set xs")
    case True
    then obtain ys z where xs: "xs = ys @ [z]" by (metis empty_iff empty_set rev_exhaust)
    show ?thesis
    proof (cases "z = a")
      case False
      then have "a \<in> set ys" "z \<notin> set ys" "distinct ys" using True assms by (auto simp: xs)
      then have "inj_on (\<lambda>y. if y = a then z else y) (set ys)" by (auto simp: inj_on_def)
      then show ?thesis using False \<open>a \<in> set ys\<close> \<open>z \<notin> set ys\<close> \<open>distinct ys\<close>
        by (auto simp: es_remove_def xs distinct_map cong: if_cong)
    qed (use assms in \<open>auto simp: es_remove_def xs\<close>)
  qed (use assms in \<open>auto simp: es_remove_def\<close>)
  then show "set (es_remove a xs) = set xs - {a}" "distinct (es_remove a xs)" by auto
qed

interpretation demo_potv: potv_env demo_env held minted
  by unfold_locales
    (auto simp: demo_env_def es_add_def es_remove_set purse_move_def Let_def revert_def split: if_splits)

definition demo_potv_state :: "purse potv" where
  "demo_potv_state = \<lparr>
     config = \<lparr>cfg_owner = ''gov'', cfg_initialized = True, collateralTokens = [''lp''], mcr = 1500000, liquidationRate = 1100000\<rparr>,
     feed = \<lparr>feed_owner = ''gov'', feed_initialized = True, answers = \<lambda>_. 1000000, lastUpdated = \<lambda>_. 1\<rparr>,
     usd = \<lparr>usd_owner = ''gov'', usd_initialized = True, usd_pool = ''pool''\<rparr>,
     pool = \<lparr>pool_owner = ''gov'', pool_initialized = True, pool_config = ''config'', usdToken = ''usd'', pool_lend = ''lend'', userBorrow = \<lambda>_. 0, totalBorrow = 0,
       userSupply = \<lambda>_ _. 0, totalSupply = \<lambda>_. 0\<rparr>,
     chain = \<lparr>chain_owner = ''gov'', chain_initialized = True, chain_config = ''config'', chain_lend = ''lend'', validators = [''val1'', ''val2'', ''val3''],
       userStakes = \<lambda>_ _ _. 0, validatorStakes = \<lambda>_ _. 0, validatorStakedUsers = \<lambda>_. []\<rparr>,
     reward = \<lparr>reward_owner = ''gov'', reward_initialized = True, lendAddress = ''lend'', rewardTokens = [''rt''],
       rewardPerTokenStored = \<lambda>_ _. 0, userRewardPerTokenPaid = \<lambda>_ _ _. 0, rewards = \<lambda>_ _. 0,
       reward_config = ''config'', reward_pool = ''pool''\<rparr>,
     lend = \<lparr>lend_owner = ''gov'', lend_initialized = True, lend_paused = False, lend_chain = ''chain'', lend_pool = ''pool'',
       lend_config = ''config'', lend_reward = ''reward'', lend_priceFeed = ''feed'', lend_usd = ''usd'', plugin = \<lambda>_. False\<rparr>,
     ext = \<lparr>held = (\<lambda>_ _. 0)(''lp'' := (\<lambda>_. 0)(''alice'' := 1000), ''rt'' := (\<lambda>_. 0)(''gov'' := 500)), minted = 0\<rparr>\<rparr>"

lemmas potv_run = call_def static_call_def to_pool_def to_chain_def to_reward_def to_config_def transact_def cached_def Lend_supply_def lend_supply_def withdraw_def lend_withdraw_def borrow_def repay_def liquidate_def
  borrowUSD_def repayUSD_def mint_at_def burn_at_def TUCUSD_mint_def TUCUSD_burn_def increasePoolToken_def decreasePoolToken_def
  liquidateTokens_def liquidate_token_def stakeToken_def unstakeToken_def stake_add_def stake_sub_def add_staked_user_def
  remove_staked_user_def liquidatePosition_def move_stake_def updateReward_def update_token_reward_def earned_def set_reward_def
  updateUserRewardPerTokenPaid_def getRewardPerTokenStored_def getUserRewardPaid_def getUserTokenSupply_def getUserTotalBorrow_def
  getAllWhitelistTokens_def isWhitelistToken_def getTokenPrice_def latestAnswer_def getTokenDecimals_def getPriceDecimals_def PRICE_DECIMALS_def
  getUserSupplyTotalUSD_def getUserBorrowTotalUSD_def getUserCollateralRatio_def getTokenMaxWithdrawable_def getMCR_def
  distributeReward_def distribute_token_def updateRewardPerTokenStored_def claimReward_def
  whenNotPaused_def pool_onlyLend_def chain_onlyLend_def reward_onlyOwner_def lend_onlyOwner_def require_def view_def on_tokens_def zoom_def
  with_pool_def with_chain_def with_reward_def bnd_def ret_def raise_def gets_def modify_def lift_def add_u_def sub_u_def mul_u_def div_u_def
  pow10_def max_uint_def Let_def

lemmas potv_demo = potv_run demo_env_def demo_potv_state_def purse_move_def es_add_def

lemma zero_sums [simp]: "fin (\<lambda>_. 0)" "fsum (\<lambda>_. 0) = 0"
  by (simp_all add: fin_def fsum_def)

lemma demo_potv_inv: "potv_inv demo_env held minted demo_potv_state"
  by (auto simp: potv_inv_def wired_def pool_books_def chain_books_def demo_potv_state_def demo_env_def)

lemma demo_reward_inv: "reward_inv demo_env held ''rt'' demo_potv_state"
  by (auto simp: reward_inv_def reward_ok_def owed_def unsettled_def demo_potv_state_def demo_env_def case_prod_unfold)

definition demo_loan :: "(address \<times> potv_msg) list" where
  "demo_loan = [(''alice'', MSupply ''lp'' 200 ''val1''), (''alice'', MBorrow (10 ^ 14))]"

theorem lending_books_balance_witness:
  "potv_inv demo_env held minted (transactions demo_env demo_loan demo_potv_state) \<and>
    totalBorrow (pool (transactions demo_env demo_loan demo_potv_state)) = 10 ^ 14"
proof
  have "list_all (ordinary demo_env) demo_loan" by (simp add: ordinary_def demo_loan_def demo_env_def)
  then show "potv_inv demo_env held minted (transactions demo_env demo_loan demo_potv_state)"
    by (rule lending_books_balance [OF demo_potv.potv_env_axioms demo_potv_inv])
  show "totalBorrow (pool (transactions demo_env demo_loan demo_potv_state)) = 10 ^ 14"
    by (simp add: demo_loan_def potv_demo cong: if_cong)
qed

definition demo_rewards :: "(address \<times> potv_msg) list" where
  "demo_rewards = [(''alice'', MSupply ''lp'' 200 ''val1''), (''gov'', MDistributeReward [''rt''] [''lp''] [[300]])]"

theorem rewards_can_be_paid_witness:
  "claimableReward demo_env (transactions demo_env demo_rewards demo_potv_state) ''alice'' ''rt'' = Ok 300 \<and>
    (\<Sum>u\<in>{''alice''}. 300) \<le> held (ext (transactions demo_env demo_rewards demo_potv_state)) ''rt'' (reward_at demo_env)"
proof
  show c: "claimableReward demo_env (transactions demo_env demo_rewards demo_potv_state) ''alice'' ''rt'' = Ok 300"
    by (simp add: demo_rewards_def claimableReward_def potv_demo cong: if_cong)
  have "list_all (ordinary demo_env) demo_rewards" "list_all (\<lambda>(a, m). m \<noteq> MRemoveRewardToken ''rt'') demo_rewards"
    by (simp_all add: ordinary_def demo_rewards_def demo_env_def)
  from rewards_can_be_paid [OF demo_potv.potv_env_axioms demo_potv_inv demo_reward_inv this, of "{''alice''}" "\<lambda>_. 300"] c
  show "(\<Sum>u\<in>{''alice''}. 300) \<le> held (ext (transactions demo_env demo_rewards demo_potv_state)) ''rt'' (reward_at demo_env)" by simp
qed

text \<open>An account with 200 units of collateral and a debt.\<close>

definition demo_position :: "nat \<Rightarrow> purse potv" where
  "demo_position debt = demo_potv_state\<lparr>
     pool := (pool demo_potv_state)\<lparr>userBorrow := (\<lambda>_. 0)(''alice'' := debt), totalBorrow := debt,
       userSupply := (\<lambda>_ _. 0)(''lp'' := (\<lambda>_. 0)(''alice'' := 200)), totalSupply := (\<lambda>_. 0)(''lp'' := 200)\<rparr>,
     chain := (chain demo_potv_state)\<lparr>userStakes := (\<lambda>_ _ _. 0)(''alice'' := (\<lambda>_ _. 0)(''val1'' := (\<lambda>_. 0)(''lp'' := 200))),
       validatorStakes := (\<lambda>_ _. 0)(''val1'' := (\<lambda>_. 0)(''lp'' := 200)), validatorStakedUsers := (\<lambda>_. [])(''val1'' := [''alice''])\<rparr>,
     ext := \<lparr>held = (\<lambda>_ _. 0)(''lp'' := (\<lambda>_. 0)(''pool'' := 200), ''usd'' := (\<lambda>_. 0)(''bob'' := debt)), minted = debt\<rparr>\<rparr>"

definition demo_borrowed :: "purse potv" where
  "demo_borrowed = snd (borrow demo_env ''alice'' (10 ^ 14) (demo_position 0))"

definition demo_withdrawn :: "purse potv" where
  "demo_withdrawn = snd (withdraw demo_env ''alice'' ''lp'' 40 ''val1'' (demo_position (10 ^ 14)))"

lemma demo_borrowed_run: "borrow demo_env ''alice'' (10 ^ 14) (demo_position 0) = (Ok (), demo_borrowed)"
  unfolding demo_borrowed_def by (rule pair_Ok_snd) (simp add: demo_position_def potv_demo cong: if_cong)

lemma demo_withdrawn_run: "withdraw demo_env ''alice'' ''lp'' 40 ''val1'' (demo_position (10 ^ 14)) = (Ok (), demo_withdrawn)"
  unfolding demo_withdrawn_def by (rule pair_Ok_snd) (simp add: demo_position_def potv_demo cong: if_cong)

theorem debt_needs_collateral_witness:
  "(\<exists>S B. getUserSupplyTotalUSD demo_env demo_borrowed ''alice'' = Ok S \<and> getUserBorrowTotalUSD demo_env demo_borrowed ''alice'' = Ok B \<and>
      (getMCR demo_borrowed + 1) * B \<le> S * 10 ^ 6) \<and>
    (\<exists>B m p d. getUserBorrowTotalUSD demo_env demo_withdrawn ''alice'' = Ok B \<and> getTokenPrice demo_env demo_withdrawn ''lp'' = Ok p \<and>
      token_decimals demo_env ''lp'' (ext (demo_position (10 ^ 14))) = Ok d \<and> getMCR demo_withdrawn * B < (m + 1) * 10 ^ 6 \<and>
      m * 10 ^ d < (userSupply (pool demo_withdrawn) ''lp'' ''alice'' + 1) * p)"
  using debt_needs_collateral [OF demo_potv.potv_env_axioms, of "''alice''" "10 ^ 14" "demo_position 0" demo_borrowed]
    debt_needs_collateral [OF demo_potv.potv_env_axioms, of "''alice''" 40 "demo_position (10 ^ 14)" demo_withdrawn "''lp''" "''val1''"]
    demo_borrowed_run demo_withdrawn_run by simp

text \<open>The price falls by half; another account has bought the borrowed TUCUSD.\<close>

definition demo_fallen :: "purse potv" where
  "demo_fallen = (demo_position (10 ^ 14))\<lparr>feed := (feed demo_potv_state)\<lparr>answers := \<lambda>_. 500000\<rparr>\<rparr>"

definition demo_liquidated :: "purse potv" where
  "demo_liquidated = snd (liquidate demo_env ''bob'' ''alice'' demo_fallen)"

theorem liquidation_takes_over_witness:
  "userBorrow (pool demo_liquidated) ''alice'' = 0 \<and> userSupply (pool demo_liquidated) ''lp'' ''bob'' = 200 \<and>
    userStakes (chain demo_liquidated) ''bob'' ''val1'' ''lp'' = 200"
proof -
  note defs = demo_fallen_def demo_position_def potv_demo
  have run: "liquidate demo_env ''bob'' ''alice'' demo_fallen = (Ok (), demo_liquidated)"
    unfolding demo_liquidated_def by (rule pair_Ok_snd) (simp add: defs cong: if_cong)
  have hyps: "wired demo_env demo_fallen" "distinct (collateralTokens (config demo_fallen))" "distinct (validators (chain demo_fallen))"
    by (simp_all add: wired_def demo_fallen_def demo_position_def demo_potv_state_def demo_env_def)
  have vals: "userSupply (pool demo_fallen) ''lp'' ''bob'' = 0" "userSupply (pool demo_fallen) ''lp'' ''alice'' = 200"
    "userStakes (chain demo_fallen) ''bob'' ''val1'' ''lp'' = 0" "userStakes (chain demo_fallen) ''alice'' ''val1'' ''lp'' = 200"
    "isWhitelistToken demo_fallen ''lp''" "''val1'' \<in> set (validators (chain demo_fallen))" "''lp'' \<in> set (collateralTokens (config demo_fallen))"
    by (simp_all add: demo_fallen_def demo_position_def demo_potv_state_def isWhitelistToken_def)
  show ?thesis
    using liquidation_takes_over [OF demo_potv.potv_env_axioms run hyps] vals by (simp add: taken_over_def)
qed

theorem validators_survive_replacement_witness:
  "\<exists>t. setValidators demo_env ''gov'' [''val9''] demo_potv_state = (Ok (), t) \<and> ''val9'' \<in> set (validators (chain t)) \<and>
    1 \<le> card ({''val1'', ''val2'', ''val3''} \<inter> set (validators (chain t)))"
proof -
  have vals: "validators (chain demo_potv_state) = [''val1'', ''val2'', ''val3'']" "chain_owner (chain demo_potv_state) = ''gov''"
    by (simp_all add: demo_potv_state_def)
  show ?thesis
    using validators_survive_replacement [OF demo_potv.potv_env_axioms, of demo_potv_state "''gov''" "[''val9'']"] by (simp add: vals)
qed

text \<open>One user with two tokens at one validator.\<close>

definition demo_staked :: "purse potv" where
  "demo_staked = demo_potv_state\<lparr>chain := (chain demo_potv_state)\<lparr>
     userStakes := (\<lambda>_ _ _. 0)(''alice'' := (\<lambda>_ _. 0)(''val1'' := (\<lambda>_. 0)(''lp'' := 200, ''lp2'' := 50))),
     validatorStakes := (\<lambda>_ _. 0)(''val1'' := (\<lambda>_. 0)(''lp'' := 200, ''lp2'' := 50)), validatorStakedUsers := (\<lambda>_. [])(''val1'' := [''alice''])\<rparr>\<rparr>"

definition demo_unstaked :: "purse potv" where
  "demo_unstaked = snd (unstakeToken demo_env ''lend'' ''alice'' ''val1'' ''lp'' 200 demo_staked)"

definition demo_migrated :: "purse potv" where
  "demo_migrated = snd (migrateStakes demo_env ''gov'' ''val1'' ''val2'' demo_unstaked)"

theorem migration_strands_stakes_witness:
  "''val1'' \<notin> set (validators (chain demo_migrated)) \<and> userStakes (chain demo_migrated) ''alice'' ''val1'' ''lp2'' = 50"
proof -
  note defs = demo_unstaked_def demo_staked_def es_remove_def migrateStakes_def Chain_migrateStakes_def containsValidator_def
    getValidatorStakedUsers_def getMigrateStakeLimit_def MIGRATE_STAKE_LIMIT_def potv_demo
  have un: "unstakeToken demo_env ''lend'' ''alice'' ''val1'' ''lp'' 200 demo_staked = (Ok (), demo_unstaked)"
    unfolding demo_unstaked_def by (rule pair_Ok_snd) (simp add: defs cong: if_cong)
  have mig: "migrateStakes demo_env ''gov'' ''val1'' ''val2'' demo_unstaked = (Ok (), demo_migrated)"
    unfolding demo_migrated_def by (rule pair_Ok_snd) (simp add: defs cong: if_cong)
  have vals: "userStakes (chain demo_staked) ''alice'' ''val1'' ''lp'' = 200" "validatorStakedUsers (chain demo_staked) ''val1'' = [''alice'']"
    "distinct (validators (chain demo_staked))" "userStakes (chain demo_staked) ''alice'' ''val1'' ''lp2'' = 50" "lend_at demo_env = ''lend''"
    by (simp_all add: defs)
  show ?thesis
    using migration_strands_stakes [OF demo_potv.potv_env_axioms, of "''alice''" "''val1''" "''lp''" demo_staked demo_unstaked "''gov''"
        "''val2''" demo_migrated "''lp2''"] un mig vals by simp
qed

end
