(* ===== verification/Router.thy ===== *)
theory Router
  imports Potv_Inv
begin

text \<open>
  potv/contracts/Router.sol: a plugin of Lend that turns one coin of a stable-swap pool
  into pool shares and supplies them, and back. The swap pools and the tokens are other
  contracts, a record of functions over the state of the tokens; the pool a share
  belongs to is its minter. The Router keeps the address of Lend it was initialized with
  in a store of its own, which only the initializer changes, and it ignores what
  transfer, transferFrom and approve return, so they return nothing here.
\<close>

record 'x swap_lib =
  router_at :: address
  minter :: "address \<Rightarrow> 'x \<Rightarrow> address res"
  N_COINS :: "address \<Rightarrow> 'x \<Rightarrow> nat res"
  coins :: "address \<Rightarrow> nat \<Rightarrow> 'x \<Rightarrow> address res"
  add_liquidity :: "address \<Rightarrow> address \<Rightarrow> nat list \<Rightarrow> nat \<Rightarrow> ('x, unit) act"
  remove_liquidity :: "address \<Rightarrow> address \<Rightarrow> nat \<Rightarrow> nat list \<Rightarrow> ('x, unit) act"
  balanceOf :: "address \<Rightarrow> address \<Rightarrow> 'x \<Rightarrow> nat res"
  token_transferFrom :: "address \<Rightarrow> address \<Rightarrow> address \<Rightarrow> address \<Rightarrow> nat \<Rightarrow> ('x, unit) act"
  token_transfer :: "address \<Rightarrow> address \<Rightarrow> address \<Rightarrow> nat \<Rightarrow> ('x, unit) act"
  token_approve :: "address \<Rightarrow> address \<Rightarrow> address \<Rightarrow> nat \<Rightarrow> ('x, unit) act"

record router_store =
  router_initialized :: bool
  router_lend :: address

definition Router_initialize :: "address \<Rightarrow> (router_store, unit) act" where
  "Router_initialize lend0 =
     bnd (gets router_initialized) (\<lambda>b.
     bnd (require (\<not> b) ''Initializable: contract is already initialized'') (\<lambda>_.
     modify (\<lambda>r. r\<lparr>router_initialized := True, router_lend := lend0\<rparr>)))"

text \<open>The loop runs over the indexes that are left; when no coin matches, the result keeps its default value.\<close>

fun index_loop :: "'x swap_lib \<Rightarrow> address \<Rightarrow> address \<Rightarrow> nat list \<Rightarrow> 'x \<Rightarrow> nat res" where
  "index_loop W token swapPool [] x = Ok 0"
| "index_loop W token swapPool (i # is) x =
     rbind (coins W swapPool i x) (\<lambda>c. if c = token then Ok i else index_loop W token swapPool is x)"

definition getTokenIndex :: "'x swap_lib \<Rightarrow> address \<Rightarrow> address \<Rightarrow> 'x \<Rightarrow> nat res" where
  "getTokenIndex W token swapPool x = rbind (N_COINS W swapPool x) (\<lambda>n. index_loop W token swapPool [0..<n] x)"

definition getAddLiquidityArray :: "'x swap_lib \<Rightarrow> address \<Rightarrow> address \<Rightarrow> nat \<Rightarrow> 'x \<Rightarrow> nat list res" where
  "getAddLiquidityArray W token swapPool amount x =
     rbind (getTokenIndex W token swapPool x) (\<lambda>tokenIndex.
     rbind (N_COINS W swapPool x) (\<lambda>n.
     if n \<le> tokenIndex then Panic ''index out of range'' else Ok ((replicate n 0)[tokenIndex := amount])))"

text \<open>Copying the amounts into an array of fixed size.\<close>

definition fixed_amounts :: "nat \<Rightarrow> nat list \<Rightarrow> nat list res" where
  "fixed_amounts k amounts = (if length amounts < k then Panic ''index out of range'' else Ok (take k amounts))"

definition swapAndSupply :: "'x env \<Rightarrow> 'x swap_lib \<Rightarrow> router_store \<Rightarrow> address \<Rightarrow> address \<Rightarrow> address \<Rightarrow> nat \<Rightarrow> address \<Rightarrow> ('x potv, unit) act" where
  "swapAndSupply E W r sender fromToken lpToken amount validator =
     bnd (view (\<lambda>s. minter W lpToken (ext s))) (\<lambda>swapPool.
     bnd (view (\<lambda>s. getAddLiquidityArray W fromToken swapPool amount (ext s))) (\<lambda>amounts.
     bnd (on_tokens (token_transferFrom W fromToken (router_at W) sender (router_at W) amount)) (\<lambda>_.
     bnd (on_tokens (token_approve W fromToken (router_at W) swapPool amount)) (\<lambda>_.
     bnd (view (\<lambda>s. N_COINS W swapPool (ext s))) (\<lambda>n.
     bnd (lift (fixed_amounts (if n = 2 then 2 else 3) amounts)) (\<lambda>fixedAmounts.
     bnd (on_tokens (add_liquidity W swapPool (router_at W) fixedAmounts 0)) (\<lambda>_.
     bnd (view (\<lambda>s. balanceOf W lpToken (router_at W) (ext s))) (\<lambda>lpTokenAmount.
     bnd (on_tokens (token_approve W lpToken (router_at W) (router_lend r) lpTokenAmount)) (\<lambda>_.
     call (\<lambda>_. router_lend r) (lend_at E) (pluginSupply E (router_at W) sender lpToken lpTokenAmount validator))))))))))"

definition pay_coin :: "'x swap_lib \<Rightarrow> address \<Rightarrow> address \<Rightarrow> nat \<Rightarrow> ('x potv, unit) act" where
  "pay_coin W sender swapPool i =
     bnd (view (\<lambda>s. coins W swapPool i (ext s))) (\<lambda>coin.
     bnd (view (\<lambda>s. balanceOf W coin (router_at W) (ext s))) (\<lambda>balance.
     if 0 < balance then on_tokens (token_transfer W coin (router_at W) sender balance) else ret ()))"

definition withdrawAndDecreaseLiquidity :: "'x env \<Rightarrow> 'x swap_lib \<Rightarrow> router_store \<Rightarrow> address \<Rightarrow> address \<Rightarrow> nat \<Rightarrow> address \<Rightarrow>
    ('x potv, unit) act" where
  "withdrawAndDecreaseLiquidity E W r sender lpToken amount validator =
     bnd (call (\<lambda>_. router_lend r) (lend_at E) (pluginWithdraw E (router_at W) sender lpToken amount validator)) (\<lambda>_.
     bnd (view (\<lambda>s. minter W lpToken (ext s))) (\<lambda>swapPool.
     bnd (view (\<lambda>s. balanceOf W lpToken (router_at W) (ext s))) (\<lambda>lpTokenAmount.
     bnd (view (\<lambda>s. N_COINS W swapPool (ext s))) (\<lambda>n.
     bnd (on_tokens (remove_liquidity W swapPool (router_at W) lpTokenAmount (replicate (if n = 2 then 2 else 3) 0))) (\<lambda>_.
     bnd (view (\<lambda>s. N_COINS W swapPool (ext s))) (\<lambda>nCoins.
     for_each (pay_coin W sender swapPool) [0..<nCoins]))))))"

section \<open>What the Router supplies\<close>

text \<open>The caller is credited with all pool shares the Router holds, on the Router's own allowance and only as a plugin.\<close>

lemma swapAndSupply_credits:
  assumes "potv_env E tbal usd_total" and "swapAndSupply E W r a c lp n v s = (Ok (), t)"
  obtains x k where "balanceOf W lp (router_at W) x = Ok k" "plugin (lend s) (router_at W)" "isWhitelistToken s lp"
    "userSupply (pool t) lp a = userSupply (pool s) lp a + k" "totalSupply (pool t) lp = totalSupply (pool s) lp + k"
proof -
  obtain x y k where k: "balanceOf W lp (router_at W) x = Ok k"
    and sup: "pluginSupply E (router_at W) a lp k v (s\<lparr>ext := y\<rparr>) = (Ok (), t)"
    using assms(2) by (auto simp: swapAndSupply_def)
  then have p: "plugin (lend s) (router_at W)" and run: "lend_supply E (router_at W) a lp k v (s\<lparr>ext := y\<rparr>) = (Ok (), t)"
    by (auto simp: pluginSupply_def)
  have "isWhitelistToken s lp" "userSupply (pool t) lp a = userSupply (pool s) lp a + k"
    "totalSupply (pool t) lp = totalSupply (pool s) lp + k"
    by (rule potv_env.lend_supply_Ok [OF assms(1) run], simp add: isWhitelistToken_def)+
  then show thesis using that k p by blast
qed

end
