(* ===== verification/Spec2Isabelle.thy ===== *)
theory Spec2Isabelle
  imports Coinswap_Trace Epochs_Props Inflation_Props Erc20_Props Csr_Props Onboarding_Props Govshuttle_Props Ante Potv_Props Router
begin

text \<open>
  A verification library for the chain under src/: its Cosmos modules (x/), what runs
  before a transaction (app/ante, app/sigverify.go), and its Solidity contracts
  (contracts/, potv/contracts). This theory is the root and holds no definitions.

  \<^bold>\<open>The parts and how they interact.\<close> x/epochs calls its hooks at the end of every
  epoch, and x/inflation is such a hook: it mints and distributes. x/coinswap is a
  constant-product exchange with one pool per coin against a standard coin. x/erc20
  converts coins into ERC20 tokens and back through the EVM. x/onboarding follows an
  ICS-20 transfer with a swap (x/coinswap) and a conversion (x/erc20). x/csr hooks into
  EVM transactions and pays a share of the fee to NFTs of the Turnstile contract, whose
  events keep its register up to date. x/govshuttle writes proposals that passed into
  the ProposalStore contract. The potv contracts lend TUCUSD against collateral that
  also counts as a stake with a validator.

  \<^bold>\<open>How code is modelled.\<close> (Prelude) A method of a keeper is an action from a state to a
  result (Ok, Err or Panic) and a state. A state is kept on Err and Panic as the code
  leaves it; that the SDK or the EVM drops the writes of a failed message is written
  out where a property needs it (\<open>cached\<close>, \<open>transact\<close>). Code of other repositories is
  an argument: a record of functions (\<open>sdk_lib\<close>, \<open>bank_keeper\<close>, \<open>account_keeper\<close>,
  \<open>eth_lib\<close>, the EVM keeper, the inherited ERC721, tokens and sets of OpenZeppelin, swap
  pools). What the code relies on is a locale: \<open>sdk_laws\<close> (Sdk), \<open>bank_laws\<close> (Bank),
  \<open>eth_laws\<close> and \<open>evm_laws\<close> (Evm), \<open>inherited_laws\<close> (Turnstile), \<open>kv_store\<close> (Kvstore), and
  one environment per module (\<open>coinswap_env\<close>, \<open>inflation_env\<close>, \<open>erc20_env\<close>, \<open>csr_env\<close>,
  \<open>onboarding_env\<close>, \<open>port_env\<close>, \<open>potv_env\<close>). Every locale is interpreted: the laws of
  the libraries on the ledger of Ledger and the machine of Evm_Ref, \<open>kv_store\<close> on the
  sorted association list the modules use, \<open>swap_rule\<close> on the pricing functions.

  \<^item> Gostrings, Gotime: the parts of Go's strings, strconv, fmt and time that are used.
  \<^item> Kvstore, Modstore: the key-value store of a module with iteration in byte order,
    and the module's own state; values carry the type they were marshalled from.

  \<^bold>\<open>The modules.\<close> For each, the theories and the source, then what is shown.

  \<^item> x/coinswap. Coinswap_Types: types/. Coinswap_Price: GetInputPrice and
    GetOutputPrice of keeper/swap.go. Coinswap_Pool: keeper/pool.go, genesis.go.
    Coinswap_Keeper: swap.go, fees.go, keeper.go, msg_server.go. Coinswap_Liquidity,
    Coinswap_Props and Coinswap_Trace: trades keep the product of the reserves and
    respect the limits of the order, deposits never dilute, withdrawals are pro rata,
    every message keeps the module's invariant, and over any history (\<open>history\<close>, a rule
    induction) the value of a share never drops.
  \<^item> x/epochs. Epochs: types, keeper, genesis, abci. Epochs_Props: BeginBlocker refines a
    pure function on the map of epochs and an ordered list of hook calls; epochs stay
    on schedule and a late epoch catches up.
  \<^item> x/inflation. Inflation: types, keeper, hooks, genesis, queries. Inflation_Props: what
    is minted and where it goes, the period counts minting epochs over any history, and
    the provision is the documented formula, with the bonded ratio capped, up to rounding.
  \<^item> x/erc20. Erc20_Types: types/. Erc20: keeper/. Erc20_Registry: the registry invariant
    under every operation. Erc20_Convert, Erc20_Props: conversions move exactly the
    amount, there and back restores everything, what is switched off refuses.
  \<^item> x/csr and contracts/turnstile.sol. Csr: the module. Turnstile: the contract.
    Csr_Registry, Csr_Props: the register is consistent and a true view of the
    contract's, a fee is split without loss, and the contract can always pay, whatever
    functions are called, inherited ones included, and also when the recipient of a
    payment calls it again (\<open>runs\<close>).
  \<^item> x/onboarding and the packet functions of ibc/ and types/. Ibc, Onboarding: the
    code; an amount that cannot be parsed panics where it is first used.
    Onboarding_Props: never more is taken than was transferred, and a swap that fails
    leaves no trace.
  \<^item> x/govshuttle and contracts/Port.sol. Govshuttle, Port: the code. Govshuttle_Props:
    forwarded proposals can be read back and are well typed.
  \<^item> app/ante, app/sigverify.go, types/utils.go. Ante: the decorator that limits authz
    messages finds them at any depth of nesting, which transactions its limit refuses
    (\<open>levels\<close>), and the gas of verifying signatures.
  \<^item> potv/contracts. Potv: Config, PriceFeed, TUCUSD, Pool, ChainContract, Reward and
    Lend, with one record for the storage of each, the addresses of the other contracts
    included, and one message per external function that changes state, per function
    inherited from Ownable, and for a call to a token. A contract calls another at the
    address it has stored (\<open>call\<close>). Potv_Books, Potv_Inv: totals are sums of the accounts, the
    TUCUSD in circulation are the debt, Pool holds its collateral, under any sequence of
    transactions. Potv_Reward: the claims of all suppliers are covered. Potv_Props: the
    properties, among them two defects (validators that survive their replacement,
    stakes that a migration leaves behind). Router: Router.sol over the swap pools.

  \<^bold>\<open>Integers, bounds and fuel.\<close> Go's fixed-width integers are words where wrap-around
  matters; a sdkmath.Int is an \<open>int\<close> whose operations panic beyond 256 bits, a LegacyDec
  is the integer it stores. In turnstile.sol and Port.sol a uint256 is a 256-bit word; in
  the potv contracts it is a natural number and arithmetic that leaves the range
  reverts. The removal loop of setValidators has as fuel the number of validators, which
  is enough because its index grows while the set does not; the loop of the authz
  decorator over nested messages is bounded by the depth it counts. All other loops are
  structural recursions.

  \<^bold>\<open>Not modelled.\<close> Generated code (api/, the encoders of *.pb.go), the command line
  (cmd/, client/), registration of modules and codecs (module.go, codec.go), the wiring,
  export, upgrades and simulation of app/, which only call the SDK; ibc/module.go, which
  passes calls on; the queries of x/coinswap over gRPC; the metrics of
  app/tps_counter.go; test contracts, bindings and test networks; events, logs and
  telemetry everywhere. Tokens called by the potv contracts do not call back into them,
  and an address at which the deployment has no contract of the expected kind has no
  code, so that calling it reverts.
\<close>

end
